(* ===== verification/Prelude.thy ===== *)
theory Prelude imports Main "HOL-Library.Monad_Syntax" begin

text \<open>
  Shared material of the development: total correctness of option-valued computations,
  Python slices, dictionaries built by a comprehension, and the collections of facts the
  component theories extend.

  A computation of type \<open>'a option\<close> is a piece of the program that may fail to return
  (its fuel runs out, or the source would raise). The predicate \<open>total\<close> says that it
  does return and that its result satisfies a postcondition, so that a statement built from
  it is never true merely because the code does not return.
\<close>

named_theorems total_intros \<open>introduction rules of the total-correctness predicate\<close>
named_theorems slice_simps \<open>facts about slices of a text\<close>

section \<open>Total correctness of option-valued computations\<close>

definition total :: "'a option \<Rightarrow> ('a \<Rightarrow> bool) \<Rightarrow> bool" where
  "total m Q = (case m of None \<Rightarrow> False | Some x \<Rightarrow> Q x)"

lemma total_Some [simp]: "total (Some x) Q = Q x"
  by (simp add: total_def)

lemma total_None [simp]: "total None Q = False"
  by (simp add: total_def)

lemma total_iff: "total m Q \<longleftrightarrow> (\<exists>x. m = Some x \<and> Q x)"
  by (cases m) auto

lemma totalE:
  assumes "total m Q"
  obtains x where "m = Some x" and "Q x"
  using assms by (auto simp: total_iff)

lemma total_mono: "total m Q \<Longrightarrow> (\<And>x. Q x \<Longrightarrow> R x) \<Longrightarrow> total m R"
  by (auto simp: total_iff)

lemma total_bind [total_intros]:
  "total m (\<lambda>x. total (f x) Q) \<Longrightarrow> total (m \<bind> f) Q"
  by (cases m) auto

lemma total_bind_mono:
  "total m R \<Longrightarrow> (\<And>x. R x \<Longrightarrow> total (f x) Q) \<Longrightarrow> total (m \<bind> f) Q"
  by (cases m) auto

lemma total_if [total_intros]:
  "(b \<Longrightarrow> total m Q) \<Longrightarrow> (\<not> b \<Longrightarrow> total m' Q) \<Longrightarrow> total (if b then m else m') Q"
  by simp

lemma total_case_prod [total_intros]:
  "(\<And>a b. p = (a, b) \<Longrightarrow> total (f a b) Q) \<Longrightarrow> total (case p of (a, b) \<Rightarrow> f a b) Q"
  by (cases p) auto

lemma total_case_option [total_intros]:
  "(x = None \<Longrightarrow> total m Q) \<Longrightarrow> (\<And>y. x = Some y \<Longrightarrow> total (f y) Q) \<Longrightarrow>
   total (case x of None \<Rightarrow> m | Some y \<Rightarrow> f y) Q"
  by (cases x) auto

section \<open>Slices\<close>

text \<open>
  Python's \<open>xs[a:b]\<close> for non-negative bounds: bounds past the end are clipped, and
  \<open>b \<le> a\<close> gives the empty slice.
\<close>

definition slice :: "nat \<Rightarrow> nat \<Rightarrow> 'a list \<Rightarrow> 'a list" where
  "slice a b xs = take (b - a) (drop a xs)"

lemma slice_append [slice_simps]:
  "a \<le> b \<Longrightarrow> b \<le> c \<Longrightarrow> slice a b xs @ slice b c xs = slice a c xs"
proof -
  assume ab: "a \<le> b" and bc: "b \<le> c"
  have "take (c - a) (drop a xs) = take ((b - a) + (c - b)) (drop a xs)"
    using ab bc by simp
  also have "\<dots> = take (b - a) (drop a xs) @ take (c - b) (drop (b - a) (drop a xs))"
    by (rule take_add)
  finally show ?thesis using ab by (simp add: slice_def)
qed

lemma slice_0 [slice_simps]: "slice 0 b xs = take b xs"
  by (simp add: slice_def)

lemma take_append_slice: "a \<le> b \<Longrightarrow> take a xs @ slice a b xs = take b xs"
  using slice_append [of 0 a b xs] by (simp add: slice_0)

lemma length_slice [slice_simps]: "b \<le> length xs \<Longrightarrow> length (slice a b xs) = b - a"
  by (simp add: slice_def)

lemma slice_empty [slice_simps, simp]: "slice a a xs = []"
  by (simp add: slice_def)

lemma slice_Suc: "a \<le> b \<Longrightarrow> b < length xs \<Longrightarrow> slice a (Suc b) xs = slice a b xs @ [xs ! b]"
  by (simp add: slice_def Suc_diff_le take_Suc_conv_app_nth)

lemma slice_nonempty: "a < b \<Longrightarrow> b \<le> length xs \<Longrightarrow> slice a b xs \<noteq> []"
  by (simp add: slice_def)

section \<open>Dictionaries\<close>

text \<open>
  \<open>{key(x): x for x in xs}\<close>: on equal keys the last element wins.
\<close>

definition dict_of :: "('a \<Rightarrow> 'k) \<Rightarrow> 'a list \<Rightarrow> 'k \<Rightarrow> 'a option" where
  "dict_of key xs = map_of (rev (map (\<lambda>x. (key x, x)) xs))"

lemma dict_of_Some: "dict_of key xs k = Some x \<Longrightarrow> x \<in> set xs \<and> key x = k"
  by (auto simp: dict_of_def dest!: map_of_SomeD)

lemma dict_of_None: "dict_of key xs k = None \<longleftrightarrow> k \<notin> key ` set xs"
  by (simp add: dict_of_def map_of_eq_None_iff image_image)

lemma dict_of_snoc:
  "dict_of key (xs @ [x]) k = (if key x = k then Some x else dict_of key xs k)"
  by (auto simp: dict_of_def)

lemma dict_of_append:
  "dict_of key (xs @ ys) k =
     (case dict_of key ys k of None \<Rightarrow> dict_of key xs k | Some y \<Rightarrow> Some y)"
  by (auto simp: dict_of_def map_add_def split: option.split)

lemma dict_of_member: "x \<in> set xs \<Longrightarrow> \<exists>y. dict_of key xs (key x) = Some y"
  using dict_of_None [of key xs "key x"] by (cases "dict_of key xs (key x)") auto

text \<open>\<open>setdefault(key, []).append\<close>: the keys in the order they first occur.\<close>

definition first_keys :: "('a \<Rightarrow> 'k) \<Rightarrow> 'a list \<Rightarrow> 'k list" where
  "first_keys key xs = rev (remdups (rev (map key xs)))"

lemma set_first_keys [simp]: "set (first_keys key xs) = key ` set xs"
  by (simp add: first_keys_def)

lemma distinct_first_keys [simp]: "distinct (first_keys key xs)"
  by (simp add: first_keys_def)

lemma length_first_keys: "length (first_keys key xs) = card (key ` set xs)"
  by (simp add: first_keys_def length_remdups_card_conv)

end
