(* ===== verification/Py_Text.thy ===== *)
theory Py_Text imports Prelude begin

text \<open>
  The part of Python's \<open>str\<close> the program uses, over \<open>string\<close> (a list of
  \<open>char\<close>). A character stands for the code point of the same number; the model covers
  ASCII text (code points below 128), where every class and mapping below is Python's own.
  A \<open>char\<close> from 128 on gets no class and no case, so that the functions are total.
\<close>

section \<open>Character classes\<close>

definition code :: "char \<Rightarrow> nat" where
  "code c = of_char c"

definition py_isspace :: "char \<Rightarrow> bool" where
  "py_isspace c = (9 \<le> code c \<and> code c \<le> 13 \<or> 28 \<le> code c \<and> code c \<le> 32)"

definition py_isupper :: "char \<Rightarrow> bool" where
  "py_isupper c = (65 \<le> code c \<and> code c \<le> 90)"

definition py_islower :: "char \<Rightarrow> bool" where
  "py_islower c = (97 \<le> code c \<and> code c \<le> 122)"

definition py_isalpha :: "char \<Rightarrow> bool" where
  "py_isalpha c = (py_isupper c \<or> py_islower c)"

definition py_isdigit :: "char \<Rightarrow> bool" where
  "py_isdigit c = (48 \<le> code c \<and> code c \<le> 57)"

definition py_isalnum :: "char \<Rightarrow> bool" where
  "py_isalnum c = (py_isalpha c \<or> py_isdigit c)"

text \<open>\<open>s.isdigit()\<close> of a whole string is false on the empty string.\<close>

definition str_isdigit :: "string \<Rightarrow> bool" where
  "str_isdigit s = (s \<noteq> [] \<and> list_all py_isdigit s)"

text \<open>\<open>s.isidentifier()\<close>.\<close>

definition str_isidentifier :: "string \<Rightarrow> bool" where
  "str_isidentifier s =
     (case s of [] \<Rightarrow> False
      | c # cs \<Rightarrow> (py_isalpha c \<or> c = CHR ''_'') \<and>
                   list_all (\<lambda>d. py_isalnum d \<or> d = CHR ''_'') cs)"

section \<open>Case\<close>

definition upper_char :: "char \<Rightarrow> char" where
  "upper_char c = (if py_islower c then char_of (code c - 32) else c)"

definition lower_char :: "char \<Rightarrow> char" where
  "lower_char c = (if py_isupper c then char_of (code c + 32) else c)"

definition py_upper :: "string \<Rightarrow> string" where
  "py_upper = map upper_char"

text \<open>On ASCII, \<open>casefold\<close> is \<open>lower\<close>.\<close>

definition py_casefold :: "string \<Rightarrow> string" where
  "py_casefold = map lower_char"

lemma code_char_of: "n < 256 \<Longrightarrow> code (char_of n) = n"
  by (simp add: code_def)

lemma upper_char_idem [simp]: "upper_char (upper_char c) = upper_char c"
proof (cases "py_islower c")
  case True
  then have "code (char_of (code c - 32)) = code c - 32"
    by (auto simp: py_islower_def intro: code_char_of)
  with True show ?thesis by (auto simp: upper_char_def py_islower_def)
qed (simp add: upper_char_def)

lemma lower_char_idem [simp]: "lower_char (lower_char c) = lower_char c"
proof (cases "py_isupper c")
  case True
  then have "code (char_of (code c + 32)) = code c + 32"
    by (auto simp: py_isupper_def intro: code_char_of)
  with True show ?thesis by (auto simp: lower_char_def py_isupper_def)
qed (simp add: lower_char_def)

lemma py_upper_idem [simp]: "py_upper (py_upper s) = py_upper s"
  by (simp add: py_upper_def)

lemma py_casefold_idem [simp]: "py_casefold (py_casefold s) = py_casefold s"
  by (simp add: py_casefold_def)

lemma length_py_upper [simp]: "length (py_upper s) = length s"
  by (simp add: py_upper_def)

section \<open>Searching, stripping, splitting, joining\<close>

fun startswith :: "string \<Rightarrow> string \<Rightarrow> bool" where
  "startswith [] s = True"
| "startswith (p # ps) [] = False"
| "startswith (p # ps) (c # cs) = (p = c \<and> startswith ps cs)"

lemma startswith_iff: "startswith p s \<longleftrightarrow> (\<exists>t. s = p @ t)"
  by (induction p s rule: startswith.induct) auto

lemma startswith_length: "startswith p s \<Longrightarrow> length p \<le> length s"
  by (auto simp: startswith_iff)

definition py_lstrip :: "string \<Rightarrow> string" where
  "py_lstrip s = dropWhile py_isspace s"

definition py_strip :: "string \<Rightarrow> string" where
  "py_strip s = rev (py_lstrip (rev (py_lstrip s)))"

text \<open>\<open>s.split(c)\<close> for one separator character: always at least one piece.\<close>

fun split_on :: "char \<Rightarrow> string \<Rightarrow> string list" where
  "split_on c [] = [[]]"
| "split_on c (x # xs) =
     (if x = c then [] # split_on c xs
      else case split_on c xs of [] \<Rightarrow> [[x]] | p # ps \<Rightarrow> (x # p) # ps)"

lemma split_on_nonempty [simp]: "split_on c s \<noteq> []"
  by (induction s) (auto split: list.split)

text \<open>\<open>s.split()\<close>: the maximal runs of non-space characters.\<close>

fun split_ws_from :: "string \<Rightarrow> string \<Rightarrow> string list" where
  "split_ws_from acc [] = (if acc = [] then [] else [rev acc])"
| "split_ws_from acc (x # xs) =
     (if py_isspace x
      then (if acc = [] then split_ws_from [] xs else rev acc # split_ws_from [] xs)
      else split_ws_from (x # acc) xs)"

definition split_ws :: "string \<Rightarrow> string list" where
  "split_ws = split_ws_from []"

fun join :: "string \<Rightarrow> string list \<Rightarrow> string" where
  "join sep [] = []"
| "join sep [x] = x"
| "join sep (x # y # ys) = x @ sep @ join sep (y # ys)"

text \<open>\<open>s.replace(ab, r)\<close> for a two-character pattern: left to right, not overlapping.\<close>

fun replace2 :: "char \<Rightarrow> char \<Rightarrow> string \<Rightarrow> string \<Rightarrow> string" where
  "replace2 a b r (x # y # zs) =
     (if x = a \<and> y = b then r @ replace2 a b r zs else x # replace2 a b r (y # zs))"
| "replace2 a b r s = s"

section \<open>Numbers as text\<close>

definition digit_char :: "nat \<Rightarrow> char" where
  "digit_char d = char_of (48 + d)"

function nat_str :: "nat \<Rightarrow> string" where
  "nat_str n = (if n < 10 then [digit_char n] else nat_str (n div 10) @ [digit_char (n mod 10)])"
  by pat_completeness auto
termination
  by (relation "measure id") auto

declare nat_str.simps [simp del]

text \<open>\<open>str(n)\<close>.\<close>

definition int_str :: "int \<Rightarrow> string" where
  "int_str n = (if n < 0 then ''-'' @ nat_str (nat (- n)) else nat_str (nat n))"

definition digits_value :: "string \<Rightarrow> nat" where
  "digits_value = foldl (\<lambda>v c. 10 * v + (code c - 48)) 0"

text \<open>
  \<open>int(s)\<close> on a decimal string: surrounding space, an optional sign, then digits with
  single underscores between them. \<open>None\<close> stands for the \<open>ValueError\<close>.
\<close>

fun strip_underscores :: "bool \<Rightarrow> string \<Rightarrow> string option" where
  "strip_underscores after_digit [] = (if after_digit then Some [] else None)"
| "strip_underscores after_digit (c # cs) =
     (if py_isdigit c then map_option ((#) c) (strip_underscores True cs)
      else if c = CHR ''_'' \<and> after_digit then strip_underscores False cs
      else None)"

definition py_int :: "string \<Rightarrow> int option" where
  "py_int s =
     (case py_strip s of
        [] \<Rightarrow> None
      | c # cs \<Rightarrow>
          if c = CHR ''-'' then map_option (\<lambda>d. - int (digits_value d)) (strip_underscores False cs)
          else if c = CHR ''+'' then map_option (\<lambda>d. int (digits_value d)) (strip_underscores False cs)
          else map_option (\<lambda>d. int (digits_value d)) (strip_underscores False (c # cs)))"

section \<open>repr\<close>

definition hex_digit :: "nat \<Rightarrow> char" where
  "hex_digit d = (if d < 10 then char_of (48 + d) else char_of (87 + d))"

definition backslash :: char where
  "backslash = CHR 0x5C"

definition quote :: char where
  "quote = CHR 0x27"

definition double_quote :: char where
  "double_quote = CHR 0x22"

definition repr_char :: "char \<Rightarrow> char \<Rightarrow> string" where
  "repr_char q c =
     (if c = backslash \<or> c = q then [backslash, c]
      else if code c = 9 then backslash # ''t''
      else if code c = 10 then backslash # ''n''
      else if code c = 13 then backslash # ''r''
      else if code c < 32 \<or> code c = 127
           then backslash # CHR ''x'' # [hex_digit (code c div 16), hex_digit (code c mod 16)]
      else [c])"

text \<open>\<open>repr(s)\<close>: double quotes when the text has a single quote and no double quote.\<close>

definition py_repr :: "string \<Rightarrow> string" where
  "py_repr s =
     (let q = (if quote \<in> set s \<and> double_quote \<notin> set s then double_quote else quote)
      in q # concat (map (repr_char q) s) @ [q])"

text \<open>\<open>repr\<close> of an optional string.\<close>

definition repr_opt :: "string option \<Rightarrow> string" where
  "repr_opt x = (case x of None \<Rightarrow> ''None'' | Some s \<Rightarrow> py_repr s)"

end
