(* ===== verification/ST_Syntax.thy ===== *)
theory ST_Syntax imports Py_Text begin

text \<open>
  The syntax objects of \<open>structured_text/syntax.py\<close>: token kinds, tokens, spans,
  diagnostics, the expression and statement trees, and the parsed document.
  A class hierarchy is a datatype with one constructor per class, the span first as the
  base class declares it; a plain dataclass is a record.
\<close>

datatype token_kind =
    TK_WHITESPACE | TK_COMMENT | TK_IDENTIFIER | TK_LITERAL | TK_STRING
  | TK_DIRECT_ADDRESS | TK_ASSIGN | TK_OUTPUT_ASSIGN | TK_OPERATOR
  | TK_LEFT_PAREN | TK_RIGHT_PAREN | TK_LEFT_BRACKET | TK_RIGHT_BRACKET
  | TK_COMMA | TK_DOT | TK_COLON | TK_SEMICOLON | TK_UNKNOWN | TK_END_OF_FILE

record source_span =
  span_start :: nat
  span_end :: nat

abbreviation SourceSpan :: "nat \<Rightarrow> nat \<Rightarrow> source_span" where
  "SourceSpan a b \<equiv> \<lparr>span_start = a, span_end = b\<rparr>"

record token =
  tok_kind :: token_kind
  tok_text :: string
  tok_span :: source_span
  tok_line :: nat
  tok_column :: nat

abbreviation tok_start :: "token \<Rightarrow> nat" where
  "tok_start t \<equiv> span_start (tok_span t)"

abbreviation tok_end :: "token \<Rightarrow> nat" where
  "tok_end t \<equiv> span_end (tok_span t)"

record st_diagnostic =
  sd_code :: string
  sd_message :: string
  sd_span :: source_span

abbreviation STDiagnostic :: "string \<Rightarrow> string \<Rightarrow> source_span \<Rightarrow> st_diagnostic" where
  "STDiagnostic c m sp \<equiv> \<lparr>sd_code = c, sd_message = m, sd_span = sp\<rparr>"

text \<open>
  Expressions and call arguments. \<open>CallArgument\<close> carries the span, the value, the
  optional name and the optional direction.
\<close>

datatype expr =
    MissingExpression source_span
  | NameExpression source_span string
  | DirectAddressExpression source_span string
  | LiteralExpression source_span string
  | UnaryExpression source_span string expr
  | BinaryExpression source_span expr string expr
  | MemberExpression source_span expr string
  | IndexExpression source_span expr "expr list" string
  | CallExpression source_span expr "call_argument list"
  | ParenthesizedExpression source_span expr
and call_argument =
    CallArgument source_span expr "string option" "string option"

primrec expr_span :: "expr \<Rightarrow> source_span" where
  "expr_span (MissingExpression sp) = sp"
| "expr_span (NameExpression sp n) = sp"
| "expr_span (DirectAddressExpression sp a) = sp"
| "expr_span (LiteralExpression sp v) = sp"
| "expr_span (UnaryExpression sp op e) = sp"
| "expr_span (BinaryExpression sp l op r) = sp"
| "expr_span (MemberExpression sp t m) = sp"
| "expr_span (IndexExpression sp t is op) = sp"
| "expr_span (CallExpression sp c args) = sp"
| "expr_span (ParenthesizedExpression sp e) = sp"

abbreviation expr_start :: "expr \<Rightarrow> nat" where
  "expr_start e \<equiv> span_start (expr_span e)"

abbreviation expr_end :: "expr \<Rightarrow> nat" where
  "expr_end e \<equiv> span_end (expr_span e)"

primrec arg_span :: "call_argument \<Rightarrow> source_span" where
  "arg_span (CallArgument sp v nm d) = sp"

primrec arg_value :: "call_argument \<Rightarrow> expr" where
  "arg_value (CallArgument sp v nm d) = v"

fun is_call :: "expr \<Rightarrow> bool" where
  "is_call (CallExpression sp c args) = True"
| "is_call e = False"

datatype stmt =
    AssignmentStatement source_span expr string expr
  | ExpressionStatement source_span expr
  | ExitStatement source_span
  | LabelStatement source_span string
  | JumpStatement source_span string
  | IfStatement source_span "if_branch list" "stmt list"
  | WhileStatement source_span expr "stmt list"
  | UnsupportedStatement source_span string
and if_branch =
    IfBranch source_span expr "stmt list"

primrec stmt_span :: "stmt \<Rightarrow> source_span" where
  "stmt_span (AssignmentStatement sp t op v) = sp"
| "stmt_span (ExpressionStatement sp e) = sp"
| "stmt_span (ExitStatement sp) = sp"
| "stmt_span (LabelStatement sp n) = sp"
| "stmt_span (JumpStatement sp l) = sp"
| "stmt_span (IfStatement sp bs es) = sp"
| "stmt_span (WhileStatement sp c body) = sp"
| "stmt_span (UnsupportedStatement sp t) = sp"

abbreviation stmt_start :: "stmt \<Rightarrow> nat" where
  "stmt_start s \<equiv> span_start (stmt_span s)"

abbreviation stmt_end :: "stmt \<Rightarrow> nat" where
  "stmt_end s \<equiv> span_end (stmt_span s)"

record st_document =
  doc_source :: string
  doc_tokens :: "token list"
  doc_statements :: "stmt list"
  doc_diagnostics :: "st_diagnostic list"

definition reconstructed_source :: "st_document \<Rightarrow> string" where
  "reconstructed_source d =
     concat (map tok_text (filter (\<lambda>t. tok_kind t \<noteq> TK_END_OF_FILE) (doc_tokens d)))"

end
