(* ===== verification/ST_Lexer.thy ===== *)
theory ST_Lexer imports ST_Syntax begin

text \<open>
  The lexer of \<open>structured_text/lexer.py\<close>. The attributes of the class \<open>_Lexer\<close> are
  the record \<open>lex_state\<close>; each method is a function from the state to the state, with the
  source's branches in the source's order. Reading \<open>self.source[self.position]\<close> is
  \<open>current_char\<close>; every read of the model is guarded as in the source, and
  \<open>lex_position_bound\<close> below shows that the position never passes the end of the
  source, so no read is out of range.
\<close>

section \<open>State and character access\<close>

record lex_state =
  lx_source :: string
  lx_position :: nat
  lx_line :: nat
  lx_column :: nat
  lx_tokens :: "token list"
  lx_diagnostics :: "st_diagnostic list"

definition init_lexer :: "string \<Rightarrow> lex_state" where
  "init_lexer src =
     \<lparr>lx_source = src, lx_position = 0, lx_line = 1, lx_column = 1,
      lx_tokens = [], lx_diagnostics = []\<rparr>"

definition newline :: char where
  "newline = CHR 0x0A"

definition at_end :: "lex_state \<Rightarrow> bool" where
  "at_end s = (length (lx_source s) \<le> lx_position s)"

definition current_char :: "lex_state \<Rightarrow> char" where
  "current_char s = lx_source s ! lx_position s"

definition looking_at :: "string \<Rightarrow> lex_state \<Rightarrow> bool" where
  "looking_at value s = startswith value (drop (lx_position s) (lx_source s))"

definition starts_with_reference_assignment :: "lex_state \<Rightarrow> bool" where
  "starts_with_reference_assignment s =
     (let here = slice (lx_position s) (lx_position s + 5) (lx_source s)
      in py_upper (take 4 here) = ''REF='' \<and> drop 4 here \<noteq> ''='')"

definition advance :: "lex_state \<Rightarrow> lex_state" where
  "advance s =
     (if current_char s = newline
      then s\<lparr>lx_position := Suc (lx_position s), lx_line := Suc (lx_line s), lx_column := 1\<rparr>
      else s\<lparr>lx_position := Suc (lx_position s), lx_column := Suc (lx_column s)\<rparr>)"

definition append_token :: "token_kind \<Rightarrow> nat \<Rightarrow> nat \<Rightarrow> nat \<Rightarrow> lex_state \<Rightarrow> lex_state" where
  "append_token kind start line column s =
     s\<lparr>lx_tokens := lx_tokens s @
        [\<lparr>tok_kind = kind, tok_text = slice start (lx_position s) (lx_source s),
          tok_span = SourceSpan start (lx_position s), tok_line = line, tok_column = column\<rparr>]\<rparr>"

definition lex_diagnostic :: "string \<Rightarrow> string \<Rightarrow> nat \<Rightarrow> lex_state \<Rightarrow> lex_state" where
  "lex_diagnostic c m start s =
     s\<lparr>lx_diagnostics := lx_diagnostics s @ [STDiagnostic c m (SourceSpan start (lx_position s))]\<rparr>"

section \<open>Loops\<close>

text \<open>
  The source's loops \<open>while self.position < len(self.source) and ...: self._advance()\<close>.
\<close>

function advance_while :: "(lex_state \<Rightarrow> bool) \<Rightarrow> lex_state \<Rightarrow> lex_state" where
  "advance_while P s = (if \<not> at_end s \<and> P s then advance_while P (advance s) else s)"
  by pat_completeness auto
termination
  by (relation "measure (\<lambda>(P, s). length (lx_source s) - lx_position s)")
     (auto simp: at_end_def advance_def)

function line_comment_loop :: "lex_state \<Rightarrow> lex_state" where
  "line_comment_loop s =
     (if at_end s then s
      else if current_char s = newline then advance s
      else line_comment_loop (advance s))"
  by pat_completeness auto
termination
  by (relation "measure (\<lambda>s. length (lx_source s) - lx_position s)")
     (auto simp: at_end_def advance_def)

text \<open>The loop of \<open>_string\<close>; the flag is \<open>terminated\<close>.\<close>

function string_loop :: "lex_state \<Rightarrow> bool \<times> lex_state" where
  "string_loop s =
     (if at_end s then (False, s)
      else if looking_at [quote, quote] s then string_loop (advance (advance s))
      else if current_char s = quote then (True, advance s)
      else string_loop (advance s))"
  by pat_completeness auto
termination
  by (relation "measure (\<lambda>s. length (lx_source s) - lx_position s)")
     (auto simp: at_end_def advance_def)

text \<open>The first loop of \<open>_numeric_literal\<close>; the flag is \<open>has_letter\<close>.\<close>

function numeric_loop :: "bool \<Rightarrow> lex_state \<Rightarrow> bool \<times> lex_state" where
  "numeric_loop has_letter s =
     (if \<not> at_end s \<and> (py_isalnum (current_char s) \<or> current_char s = CHR ''_'')
      then numeric_loop (has_letter \<or> py_isalpha (current_char s)) (advance s)
      else (has_letter, s))"
  by pat_completeness auto
termination
  by (relation "measure (\<lambda>(b, s). length (lx_source s) - lx_position s)")
     (auto simp: at_end_def advance_def)

declare advance_while.simps [simp del] line_comment_loop.simps [simp del]
  string_loop.simps [simp del] numeric_loop.simps [simp del]

definition literal_tail_char :: "lex_state \<Rightarrow> bool" where
  "literal_tail_char s =
     (py_isalnum (current_char s) \<or> current_char s \<in> set ''_#:'' \<or>
      current_char s \<in> set ''+-.'' \<and> Suc (lx_position s) < length (lx_source s) \<and>
      py_isdigit (lx_source s ! Suc (lx_position s)))"

definition consume_literal_tail :: "lex_state \<Rightarrow> lex_state" where
  "consume_literal_tail s = advance_while literal_tail_char s"

section \<open>Token branches\<close>

definition consume_while :: "(char \<Rightarrow> bool) \<Rightarrow> token_kind \<Rightarrow> lex_state \<Rightarrow> lex_state" where
  "consume_while p kind s =
     append_token kind (lx_position s) (lx_line s) (lx_column s)
       (advance_while (\<lambda>u. p (current_char u)) s)"

definition line_comment :: "lex_state \<Rightarrow> lex_state" where
  "line_comment s =
     append_token TK_COMMENT (lx_position s) (lx_line s) (lx_column s) (line_comment_loop s)"

definition block_comment :: "string \<Rightarrow> string \<Rightarrow> lex_state \<Rightarrow> lex_state" where
  "block_comment opening closing s =
     (let body = advance_while (\<lambda>u. \<not> looking_at closing u) ((advance ^^ length opening) s);
          done = (if looking_at closing body then (advance ^^ length closing) body
                  else lex_diagnostic ''unterminated_comment'' ''unterminated block comment''
                         (lx_position s) body)
      in append_token TK_COMMENT (lx_position s) (lx_line s) (lx_column s) done)"

definition string_literal :: "lex_state \<Rightarrow> lex_state" where
  "string_literal s =
     (let (terminated, body) = string_loop (advance s);
          done = (if terminated then body
                  else lex_diagnostic ''unterminated_string'' ''unterminated string literal''
                         (lx_position s) body)
      in append_token TK_STRING (lx_position s) (lx_line s) (lx_column s) done)"

definition word_or_typed_literal :: "lex_state \<Rightarrow> lex_state" where
  "word_or_typed_literal s =
     (let w = advance_while (\<lambda>u. py_isalnum (current_char u) \<or> current_char u = CHR ''_'') s
      in if \<not> at_end w \<and> current_char w = CHR ''#''
         then append_token TK_LITERAL (lx_position s) (lx_line s) (lx_column s)
                (consume_literal_tail (advance w))
         else append_token TK_IDENTIFIER (lx_position s) (lx_line s) (lx_column s) w)"

definition malformed_address_message :: string where
  "malformed_address_message =
     [quote] @ ''%'' @ [quote] @
     '' is not followed by the evidenced <letters><digits> address shape''"

definition direct_address :: "lex_state \<Rightarrow> lex_state" where
  "direct_address s =
     (let letters = advance s;
          digits = advance_while (\<lambda>u. py_isalpha (current_char u)) letters;
          done = advance_while (\<lambda>u. py_isdigit (current_char u)) digits
      in if lx_position digits = lx_position letters \<or> lx_position done = lx_position digits
         then append_token TK_UNKNOWN (lx_position s) (lx_line s) (lx_column s)
                (lex_diagnostic ''malformed_direct_address'' malformed_address_message
                   (lx_position s) done)
         else append_token TK_DIRECT_ADDRESS (lx_position s) (lx_line s) (lx_column s) done)"

definition numeric_literal :: "lex_state \<Rightarrow> lex_state" where
  "numeric_literal s =
     (let (has_letter, w) = numeric_loop False s
      in if \<not> at_end w \<and> current_char w = CHR ''#''
         then append_token TK_LITERAL (lx_position s) (lx_line s) (lx_column s)
                (consume_literal_tail (advance w))
         else if has_letter
         then append_token TK_IDENTIFIER (lx_position s) (lx_line s) (lx_column s) w
         else append_token TK_LITERAL (lx_position s) (lx_line s) (lx_column s)
                (consume_literal_tail w))"

definition operator_token :: "lex_state \<Rightarrow> lex_state" where
  "operator_token s =
     (let first = current_char s; a = advance s;
          done = (if \<not> at_end a \<and> current_char a = CHR ''='' \<and> first \<in> set ''<>='' then advance a
                  else if first = CHR ''<'' \<and> \<not> at_end a \<and> current_char a = CHR ''>'' then advance a
                  else a)
      in append_token TK_OPERATOR (lx_position s) (lx_line s) (lx_column s) done)"

definition fixed_token :: "nat \<Rightarrow> token_kind \<Rightarrow> lex_state \<Rightarrow> lex_state" where
  "fixed_token n kind s =
     append_token kind (lx_position s) (lx_line s) (lx_column s) ((advance ^^ n) s)"

definition single_token :: "char \<Rightarrow> token_kind option" where
  "single_token c =
     map_of [(CHR ''('', TK_LEFT_PAREN), (CHR '')'', TK_RIGHT_PAREN),
             (CHR ''['', TK_LEFT_BRACKET), (CHR '']'', TK_RIGHT_BRACKET),
             (CHR '','', TK_COMMA), (CHR ''.'', TK_DOT),
             (CHR '':'', TK_COLON), (CHR '';'', TK_SEMICOLON)] c"

definition operator_characters :: "char set" where
  "operator_characters = set ''+-*/=<>&|^''"

definition unknown_token :: "lex_state \<Rightarrow> lex_state" where
  "unknown_token s =
     lex_diagnostic ''unknown_character''
       (''unknown character '' @ py_repr [current_char s]) (lx_position s)
       (fixed_token 1 TK_UNKNOWN s)"

section \<open>The lexer\<close>

definition next_token :: "lex_state \<Rightarrow> lex_state" where
  "next_token s =
     (let character = current_char s
      in if py_isspace character then consume_while py_isspace TK_WHITESPACE s
         else if looking_at ''//'' s then line_comment s
         else if looking_at [CHR ''/'', CHR ''*''] s
              then block_comment [CHR ''/'', CHR ''*''] [CHR ''*'', CHR ''/''] s
         else if looking_at [CHR ''('', CHR ''*''] s
              then block_comment [CHR ''('', CHR ''*''] [CHR ''*'', CHR '')''] s
         else if character = quote then string_literal s
         else if starts_with_reference_assignment s then fixed_token 4 TK_ASSIGN s
         else if py_isalpha character \<or> character = CHR ''_'' then word_or_typed_literal s
         else if py_isdigit character then numeric_literal s
         else if character = CHR ''%'' then direct_address s
         else if looking_at '':='' s then fixed_token 2 TK_ASSIGN s
         else if looking_at ''=>'' s then fixed_token 2 TK_OUTPUT_ASSIGN s
         else case single_token character of
           Some kind \<Rightarrow> fixed_token 1 kind s
         | None \<Rightarrow>
             if character \<in> operator_characters then operator_token s else unknown_token s)"

text \<open>
  Every step moves forward and stays inside the source, which is what makes the main loop
  a total function. \<open>scans s s'\<close> collects what a sequence of \<open>_advance\<close> calls and
  diagnostics keeps; \<open>emits s s'\<close> says that a branch consumed at least one character
  and appended exactly the token that covers what it consumed.
\<close>

definition line_at :: "string \<Rightarrow> nat \<Rightarrow> nat" where
  "line_at src n = Suc (length (filter (\<lambda>c. c = newline) (take n src)))"

definition column_at :: "string \<Rightarrow> nat \<Rightarrow> nat" where
  "column_at src n = Suc (length (takeWhile (\<lambda>c. c \<noteq> newline) (rev (take n src))))"

definition located :: "lex_state \<Rightarrow> bool" where
  "located s =
     (lx_line s = line_at (lx_source s) (lx_position s) \<and>
      lx_column s = column_at (lx_source s) (lx_position s))"

definition spans_within :: "nat \<Rightarrow> st_diagnostic list \<Rightarrow> bool" where
  "spans_within n ds =
     list_all (\<lambda>d. span_start (sd_span d) \<le> span_end (sd_span d) \<and> span_end (sd_span d) \<le> n) ds"

definition scans :: "lex_state \<Rightarrow> lex_state \<Rightarrow> bool" where
  "scans s s' =
     (lx_source s' = lx_source s \<and> lx_tokens s' = lx_tokens s \<and>
      lx_position s \<le> lx_position s' \<and> lx_position s' \<le> length (lx_source s) \<and>
      (located s \<longrightarrow> located s') \<and>
      (\<exists>ds. lx_diagnostics s' = lx_diagnostics s @ ds \<and> spans_within (length (lx_source s)) ds))"

definition emits :: "lex_state \<Rightarrow> lex_state \<Rightarrow> bool" where
  "emits s s' =
     (\<exists>kind u ds. scans s u \<and> lx_position s < lx_position u \<and> kind \<noteq> TK_END_OF_FILE \<and>
        spans_within (length (lx_source s)) ds \<and>
        (kind = TK_UNKNOWN \<longrightarrow> lx_diagnostics s \<noteq> lx_diagnostics u @ ds) \<and>
        s' = (append_token kind (lx_position s) (lx_line s) (lx_column s) u)
               \<lparr>lx_diagnostics := lx_diagnostics u @ ds\<rparr>)"

lemma advance_simps [simp]:
  "lx_source (advance s) = lx_source s"
  "lx_tokens (advance s) = lx_tokens s"
  "lx_diagnostics (advance s) = lx_diagnostics s"
  "lx_position (advance s) = Suc (lx_position s)"
  by (simp_all add: advance_def)

lemma append_token_simps [simp]:
  "lx_source (append_token k a l c s) = lx_source s"
  "lx_diagnostics (append_token k a l c s) = lx_diagnostics s"
  "lx_position (append_token k a l c s) = lx_position s"
  "lx_line (append_token k a l c s) = lx_line s"
  "lx_column (append_token k a l c s) = lx_column s"
  by (simp_all add: append_token_def)

lemma lex_diagnostic_simps [simp]:
  "lx_source (lex_diagnostic c m a s) = lx_source s"
  "lx_tokens (lex_diagnostic c m a s) = lx_tokens s"
  "lx_position (lex_diagnostic c m a s) = lx_position s"
  by (simp_all add: lex_diagnostic_def)

lemma spans_within_simps [simp]:
  "spans_within n []"
  "spans_within n (d # ds) \<longleftrightarrow>
     span_start (sd_span d) \<le> span_end (sd_span d) \<and> span_end (sd_span d) \<le> n \<and> spans_within n ds"
  "spans_within n (ds @ es) \<longleftrightarrow> spans_within n ds \<and> spans_within n es"
  by (auto simp: spans_within_def)

lemma advance_located: "\<not> at_end s \<Longrightarrow> located s \<Longrightarrow> located (advance s)"
  by (auto simp: located_def advance_def at_end_def line_at_def column_at_def current_char_def
      take_Suc_conv_app_nth)

lemma scans_refl: "\<not> at_end s \<or> lx_position s = length (lx_source s) \<Longrightarrow> scans s s"
  by (auto simp: scans_def at_end_def)

lemma scans_trans:
  assumes "scans s t" and "scans t u"
  shows "scans s u"
proof -
  obtain ds where ds: "lx_diagnostics t = lx_diagnostics s @ ds"
      "spans_within (length (lx_source s)) ds"
    using assms(1) by (auto simp: scans_def)
  obtain es where es: "lx_diagnostics u = lx_diagnostics t @ es"
      "spans_within (length (lx_source t)) es"
    using assms(2) by (auto simp: scans_def)
  have "lx_diagnostics u = lx_diagnostics s @ (ds @ es)"
    using ds(1) es(1) by simp
  moreover have "spans_within (length (lx_source s)) (ds @ es)"
    using ds(2) es(2) assms(1) by (simp add: scans_def)
  ultimately have "\<exists>fs. lx_diagnostics u = lx_diagnostics s @ fs \<and>
      spans_within (length (lx_source s)) fs" by blast
  then show ?thesis using assms by (simp add: scans_def)
qed

lemma scans_advance: "\<not> at_end s \<Longrightarrow> scans s (advance s)"
  by (auto simp: scans_def at_end_def intro: advance_located)

lemma scans_bound: "scans s t \<Longrightarrow> lx_position t \<le> length (lx_source t)"
  by (simp add: scans_def)

lemma scans_refl_bound: "lx_position s \<le> length (lx_source s) \<Longrightarrow> scans s s"
  by (auto simp: scans_def)

lemma looking_at_bound:
  "looking_at v s \<Longrightarrow> v \<noteq> [] \<Longrightarrow> lx_position s + length v \<le> length (lx_source s)"
proof -
  assume "looking_at v s" and ne: "v \<noteq> []"
  then have "length v \<le> length (lx_source s) - lx_position s"
    unfolding looking_at_def by (auto dest: startswith_length)
  moreover have "0 < length v" using ne by simp
  ultimately show ?thesis by linarith
qed

lemma scans_advance_n:
  "lx_position s + n \<le> length (lx_source s) \<Longrightarrow>
     scans s ((advance ^^ n) s) \<and> lx_position ((advance ^^ n) s) = lx_position s + n"
proof (induction n)
  case 0
  then show ?case by (simp add: scans_refl_bound)
next
  case (Suc n)
  then have IH: "scans s ((advance ^^ n) s)" "lx_position ((advance ^^ n) s) = lx_position s + n"
    by simp_all
  then have "\<not> at_end ((advance ^^ n) s)"
    using Suc.prems by (auto simp: at_end_def scans_def)
  with IH show ?case by (auto intro: scans_trans scans_advance)
qed

lemma scans_diagnostic:
  "scans s t \<Longrightarrow> scans s (lex_diagnostic c m (lx_position s) t)"
  by (auto simp: scans_def lex_diagnostic_def located_def)

lemma scans_advance_while:
  "lx_position s \<le> length (lx_source s) \<Longrightarrow> scans s (advance_while P s)"
proof (induction P s rule: advance_while.induct)
  case (1 P s)
  show ?case
  proof (cases "\<not> at_end s \<and> P s")
    case True
    then have "scans (advance s) (advance_while P (advance s))"
      by (intro "1.IH") (auto simp: at_end_def)
    with True show ?thesis
      by (subst advance_while.simps) (auto intro: scans_trans scans_advance)
  next
    case False
    with "1.prems" show ?thesis
      by (subst advance_while.simps) (auto intro: scans_refl_bound)
  qed
qed

lemma advance_while_moves:
  "\<not> at_end s \<Longrightarrow> P s \<Longrightarrow> lx_position s < lx_position (advance_while P s)"
  using scans_advance_while [of "advance s" P]
  by (subst advance_while.simps) (auto simp: scans_def at_end_def)

lemma scans_line_comment_loop:
  "lx_position s \<le> length (lx_source s) \<Longrightarrow> scans s (line_comment_loop s)"
proof (induction s rule: line_comment_loop.induct)
  case (1 s)
  show ?case
  proof (cases "at_end s \<or> current_char s = newline")
    case True
    with "1.prems" show ?thesis
      by (subst line_comment_loop.simps) (auto intro: scans_refl_bound scans_advance)
  next
    case False
    then have "scans (advance s) (line_comment_loop (advance s))"
      by (intro "1.IH") (auto simp: at_end_def)
    with False show ?thesis
      by (subst line_comment_loop.simps) (auto intro: scans_trans scans_advance)
  qed
qed

lemma line_comment_loop_moves:
  "\<not> at_end s \<Longrightarrow> lx_position s < lx_position (line_comment_loop s)"
  using scans_line_comment_loop [of "advance s"]
  by (subst line_comment_loop.simps) (auto simp: scans_def at_end_def)

lemma scans_string_loop:
  "lx_position s \<le> length (lx_source s) \<Longrightarrow> scans s (snd (string_loop s))"
proof (induction s rule: string_loop.induct)
  case (1 s)
  consider "at_end s" | "\<not> at_end s" "looking_at [quote, quote] s"
    | "\<not> at_end s" "\<not> looking_at [quote, quote] s" "current_char s = quote"
    | "\<not> at_end s" "\<not> looking_at [quote, quote] s" "current_char s \<noteq> quote"
    by blast
  then show ?case
  proof cases
    case 1
    with "1.prems" show ?thesis
      by (subst string_loop.simps) (auto intro: scans_refl_bound)
  next
    case 2
    then have b: "lx_position s + 2 \<le> length (lx_source s)"
      using looking_at_bound [of "[quote, quote]" s] by simp
    then have "scans (advance (advance s)) (snd (string_loop (advance (advance s))))"
      by (intro "1.IH"(1)) (use 2 in auto)
    moreover have "scans s (advance (advance s))"
      using scans_advance_n [of s 2] b by (simp add: numeral_2_eq_2)
    ultimately show ?thesis
      using 2 by (subst string_loop.simps) (auto intro: scans_trans)
  next
    case 3
    then show ?thesis by (subst string_loop.simps) (auto intro: scans_advance)
  next
    case 4
    then have "scans (advance s) (snd (string_loop (advance s)))"
      by (intro "1.IH"(2)) (auto simp: at_end_def)
    with 4 show ?thesis
      by (subst string_loop.simps) (auto intro: scans_trans scans_advance)
  qed
qed

lemma scans_numeric_loop:
  "lx_position s \<le> length (lx_source s) \<Longrightarrow> scans s (snd (numeric_loop b s))"
proof (induction b s rule: numeric_loop.induct)
  case (1 b s)
  show ?case
  proof (cases "\<not> at_end s \<and> (py_isalnum (current_char s) \<or> current_char s = CHR ''_'')")
    case True
    then have "scans (advance s)
        (snd (numeric_loop (b \<or> py_isalpha (current_char s)) (advance s)))"
      by (intro "1.IH") (auto simp: at_end_def)
    with True show ?thesis
      by (subst numeric_loop.simps) (auto intro: scans_trans scans_advance)
  next
    case False
    with "1.prems" show ?thesis
      by (subst numeric_loop.simps) (auto intro: scans_refl_bound)
  qed
qed

lemma numeric_loop_moves:
  "\<not> at_end s \<Longrightarrow> py_isalnum (current_char s) \<Longrightarrow>
     lx_position s < lx_position (snd (numeric_loop b s))"
  using scans_numeric_loop [of "advance s" "b \<or> py_isalpha (current_char s)"]
  by (subst numeric_loop.simps) (auto simp: scans_def at_end_def)

section \<open>Every branch emits one token\<close>

lemma emits_plain:
  assumes "scans s u" "lx_position s < lx_position u"
    "k \<noteq> TK_END_OF_FILE" "k = TK_UNKNOWN \<Longrightarrow> lx_diagnostics s \<noteq> lx_diagnostics u"
  shows "emits s (append_token k (lx_position s) (lx_line s) (lx_column s) u)"
proof -
  have "append_token k (lx_position s) (lx_line s) (lx_column s) u =
      (append_token k (lx_position s) (lx_line s) (lx_column s) u)
        \<lparr>lx_diagnostics := lx_diagnostics u @ []\<rparr>"
    by (simp add: append_token_def)
  then show ?thesis
    unfolding emits_def using assms
    by (intro exI [of _ k] exI [of _ u] exI [of _ "[]"]) auto
qed

lemma not_at_end_iff: "\<not> at_end s \<longleftrightarrow> lx_position s < length (lx_source s)"
  by (auto simp: at_end_def)

lemma scans_moves: "scans s t \<Longrightarrow> lx_position s \<le> lx_position t"
  by (simp add: scans_def)

lemma emits_consume_while:
  "\<not> at_end s \<Longrightarrow> p (current_char s) \<Longrightarrow> k \<noteq> TK_END_OF_FILE \<Longrightarrow> k \<noteq> TK_UNKNOWN \<Longrightarrow>
     emits s (consume_while p k s)"
  unfolding consume_while_def
  by (intro emits_plain scans_advance_while advance_while_moves) (auto simp: at_end_def)

lemma emits_line_comment: "\<not> at_end s \<Longrightarrow> emits s (line_comment s)"
  unfolding line_comment_def
  by (intro emits_plain scans_line_comment_loop line_comment_loop_moves) (auto simp: at_end_def)

lemma emits_fixed:
  "lx_position s + n \<le> length (lx_source s) \<Longrightarrow> 0 < n \<Longrightarrow> k \<noteq> TK_END_OF_FILE \<Longrightarrow>
     k \<noteq> TK_UNKNOWN \<Longrightarrow> emits s (fixed_token n k s)"
  unfolding fixed_token_def using scans_advance_n [of s n]
  by (intro emits_plain) auto

lemma emits_block_comment:
  assumes "looking_at opening s" "opening \<noteq> []" "closing \<noteq> []"
  shows "emits s (block_comment opening closing s)"
proof -
  let ?open = "(advance ^^ length opening) s"
  let ?body = "advance_while (\<lambda>u. \<not> looking_at closing u) ?open"
  have o: "scans s ?open" "lx_position ?open = lx_position s + length opening"
    using scans_advance_n [of s "length opening"] looking_at_bound assms(1,2) by auto
  have b: "scans ?open ?body"
    using o by (intro scans_advance_while) (auto simp: scans_def)
  have sb: "scans s ?body" using o(1) b by (rule scans_trans)
  have mv: "lx_position s < lx_position ?body"
    using o(2) assms(2) scans_moves [OF b] by (simp flip: length_greater_0_conv)
  show ?thesis
  proof (cases "looking_at closing ?body")
    case True
    then have c: "scans ?body ((advance ^^ length closing) ?body)"
      using scans_advance_n [of ?body "length closing"] looking_at_bound assms(3) by auto
    have "emits s (append_token TK_COMMENT (lx_position s) (lx_line s) (lx_column s)
        ((advance ^^ length closing) ?body))"
      using mv scans_moves [OF c] by (intro emits_plain scans_trans [OF sb c]) auto
    with True show ?thesis by (simp add: block_comment_def)
  next
    case False
    have "emits s (append_token TK_COMMENT (lx_position s) (lx_line s) (lx_column s)
        (lex_diagnostic ''unterminated_comment'' ''unterminated block comment''
           (lx_position s) ?body))"
      using mv by (intro emits_plain scans_diagnostic [OF sb]) (auto simp: lex_diagnostic_def)
    with False show ?thesis by (simp add: block_comment_def)
  qed
qed

lemma emits_string:
  assumes "\<not> at_end s"
  shows "emits s (string_literal s)"
proof -
  obtain t body where loop: "string_loop (advance s) = (t, body)"
    by (cases "string_loop (advance s)")
  have a: "scans s (advance s)" using assms by (rule scans_advance)
  have b: "scans (advance s) body"
    using scans_string_loop [OF scans_bound [OF a]] loop by simp
  have sb: "scans s body" using a b by (rule scans_trans)
  have mv: "lx_position s < lx_position body" using scans_moves [OF b] by simp
  show ?thesis
  proof (cases t)
    case True
    have "emits s (append_token TK_STRING (lx_position s) (lx_line s) (lx_column s) body)"
      using sb mv by (rule emits_plain) simp_all
    with True loop show ?thesis by (simp add: string_literal_def)
  next
    case False
    have "emits s (append_token TK_STRING (lx_position s) (lx_line s) (lx_column s)
        (lex_diagnostic ''unterminated_string'' ''unterminated string literal''
           (lx_position s) body))"
      using mv by (intro emits_plain scans_diagnostic [OF sb]) (auto simp: lex_diagnostic_def)
    with False loop show ?thesis by (simp add: string_literal_def)
  qed
qed

lemma scans_literal_tail:
  "lx_position s \<le> length (lx_source s) \<Longrightarrow> scans s (consume_literal_tail s)"
  unfolding consume_literal_tail_def by (rule scans_advance_while)

lemma emits_word:
  assumes "\<not> at_end s" "py_isalpha (current_char s) \<or> current_char s = CHR ''_''"
  shows "emits s (word_or_typed_literal s)"
proof -
  let ?p = "\<lambda>u. py_isalnum (current_char u) \<or> current_char u = CHR ''_''"
  let ?w = "advance_while ?p s"
  have w: "scans s ?w" using assms(1) by (intro scans_advance_while) (simp add: at_end_def)
  have mv: "lx_position s < lx_position ?w"
    using assms by (intro advance_while_moves) (auto simp: py_isalnum_def)
  show ?thesis
  proof (cases "\<not> at_end ?w \<and> current_char ?w = CHR ''#''")
    case True
    then have "scans s (advance ?w)" by (blast intro: scans_trans w scans_advance)
    then have t: "scans s (consume_literal_tail (advance ?w))"
      by (blast intro: scans_trans scans_literal_tail dest: scans_bound)
    have "lx_position (advance ?w) \<le> lx_position (consume_literal_tail (advance ?w))"
      using True by (intro scans_moves scans_literal_tail) (simp add: at_end_def)
    with t mv True show ?thesis
      unfolding word_or_typed_literal_def Let_def by (auto intro: emits_plain)
  next
    case False
    with w mv show ?thesis
      unfolding word_or_typed_literal_def Let_def by (auto intro: emits_plain)
  qed
qed

lemma emits_numeric:
  assumes "\<not> at_end s" "py_isdigit (current_char s)"
  shows "emits s (numeric_literal s)"
proof -
  obtain b w where loop: "numeric_loop False s = (b, w)" by (cases "numeric_loop False s")
  have w: "scans s w"
    using scans_numeric_loop [of s False] assms(1) loop by (simp add: at_end_def)
  have mv: "lx_position s < lx_position w"
    using numeric_loop_moves [of s False] assms loop by (simp add: py_isalnum_def)
  have tail: "scans w (consume_literal_tail w)"
    using w by (intro scans_literal_tail) (simp add: scans_bound)
  then have st: "scans s (consume_literal_tail w)" by (rule scans_trans [OF w])
  show ?thesis
  proof (cases "\<not> at_end w \<and> current_char w = CHR ''#''")
    case True
    then have "scans s (advance w)" by (blast intro: scans_trans w scans_advance)
    then have t: "scans s (consume_literal_tail (advance w))"
      by (blast intro: scans_trans scans_literal_tail dest: scans_bound)
    have "lx_position (advance w) \<le> lx_position (consume_literal_tail (advance w))"
      using True by (intro scans_moves scans_literal_tail) (simp add: at_end_def)
    with t mv True loop show ?thesis
      unfolding numeric_literal_def Let_def by (auto intro: emits_plain)
  next
    case False
    with w mv st scans_moves [OF tail] loop show ?thesis
      unfolding numeric_literal_def Let_def by (auto intro: emits_plain)
  qed
qed

lemma emits_address:
  assumes "\<not> at_end s"
  shows "emits s (direct_address s)"
proof -
  let ?l = "advance s"
  let ?d = "advance_while (\<lambda>u. py_isalpha (current_char u)) ?l"
  let ?e = "advance_while (\<lambda>u. py_isdigit (current_char u)) ?d"
  have l: "scans s ?l" using assms by (rule scans_advance)
  have d: "scans ?l ?d" using scans_bound [OF l] by (rule scans_advance_while)
  have e: "scans ?d ?e" using scans_bound [OF d] by (rule scans_advance_while)
  have se: "scans s ?e" using l d e by (blast intro: scans_trans)
  have mv: "lx_position s < lx_position ?e"
    using scans_moves [OF d] scans_moves [OF e] by simp
  have "lx_diagnostics ?e = lx_diagnostics s @ ds \<Longrightarrow>
      lx_diagnostics s \<noteq> lx_diagnostics (lex_diagnostic c m (lx_position s) ?e)" for ds c m
    by (simp add: lex_diagnostic_def)
  then have dg: "lx_diagnostics s \<noteq> lx_diagnostics (lex_diagnostic c m (lx_position s) ?e)" for c m
    using se by (auto simp: scans_def)
  have "emits s (append_token TK_UNKNOWN (lx_position s) (lx_line s) (lx_column s)
      (lex_diagnostic c m (lx_position s) ?e))" for c m
    using mv by (intro emits_plain scans_diagnostic [OF se] dg) simp_all
  moreover have "emits s (append_token TK_DIRECT_ADDRESS (lx_position s) (lx_line s) (lx_column s) ?e)"
    using mv by (intro emits_plain se) simp_all
  ultimately show ?thesis unfolding direct_address_def Let_def by simp
qed

lemma emits_operator: "\<not> at_end s \<Longrightarrow> emits s (operator_token s)"
  unfolding operator_token_def Let_def
  by (auto intro!: emits_plain intro: scans_advance scans_trans [OF scans_advance scans_advance])

lemma emits_unknown:
  assumes "\<not> at_end s"
  shows "emits s (unknown_token s)"
proof -
  let ?d = "STDiagnostic ''unknown_character''
      (''unknown character '' @ py_repr [current_char s])
      (SourceSpan (lx_position s) (Suc (lx_position s)))"
  have "unknown_token s =
      (append_token TK_UNKNOWN (lx_position s) (lx_line s) (lx_column s) (advance s))
        \<lparr>lx_diagnostics := lx_diagnostics (advance s) @ [?d]\<rparr>"
    by (simp add: unknown_token_def fixed_token_def lex_diagnostic_def append_token_def)
  then show ?thesis
    unfolding emits_def using assms scans_advance [OF assms]
    by (intro exI [of _ TK_UNKNOWN] exI [of _ "advance s"] exI [of _ "[?d]"])
      (auto simp: at_end_def)
qed

lemma single_token_kind:
  "single_token c = Some k \<Longrightarrow> k \<noteq> TK_END_OF_FILE \<and> k \<noteq> TK_UNKNOWN"
  by (auto simp: single_token_def split: if_splits)

lemma reference_assignment_bound:
  assumes "starts_with_reference_assignment s"
  shows "lx_position s + 4 \<le> length (lx_source s)"
proof -
  have "py_upper (take 4 (slice (lx_position s) (lx_position s + 5) (lx_source s))) = ''REF=''"
    using assms by (simp add: starts_with_reference_assignment_def Let_def)
  then have "length (py_upper (take 4 (slice (lx_position s) (lx_position s + 5) (lx_source s)))) = 4"
    by simp
  then show ?thesis by (simp add: slice_def)
qed

lemma emits_if: "(b \<Longrightarrow> emits s t) \<Longrightarrow> (\<not> b \<Longrightarrow> emits s u) \<Longrightarrow> emits s (if b then t else u)"
  by simp

lemma emits_case_option:
  "(x = None \<Longrightarrow> emits s t) \<Longrightarrow> (\<And>k. x = Some k \<Longrightarrow> emits s (f k)) \<Longrightarrow>
     emits s (case x of Some k \<Rightarrow> f k | None \<Rightarrow> t)"
  by (cases x) simp_all

lemma next_token_emits:
  assumes "\<not> at_end s"
  shows "emits s (next_token s)"
proof -
  have b: "lx_position s + 1 \<le> length (lx_source s)" using assms by (simp add: at_end_def)
  show ?thesis
    unfolding next_token_def Let_def
  proof (intro emits_if emits_case_option)
    show "emits s (consume_while py_isspace TK_WHITESPACE s)" if "py_isspace (current_char s)"
      using assms that by (intro emits_consume_while) simp_all
  next
    show "emits s (fixed_token 4 TK_ASSIGN s)" if "starts_with_reference_assignment s"
      using reference_assignment_bound [OF that] by (intro emits_fixed) simp_all
  next
    show "emits s (fixed_token 2 TK_ASSIGN s)" if "looking_at '':='' s"
      using looking_at_bound [OF that] by (intro emits_fixed) simp_all
  next
    show "emits s (fixed_token 2 TK_OUTPUT_ASSIGN s)" if "looking_at ''=>'' s"
      using looking_at_bound [OF that] by (intro emits_fixed) simp_all
  next
    show "emits s (fixed_token 1 k s)" if "single_token (current_char s) = Some k" for k
      using b single_token_kind [OF that] by (intro emits_fixed) simp_all
  qed (use assms in \<open>auto intro: emits_line_comment emits_block_comment emits_string emits_word
        emits_numeric emits_address emits_operator emits_unknown\<close>)
qed

section \<open>The main loop\<close>

function lex_loop :: "lex_state \<Rightarrow> lex_state" where
  "lex_loop s = (if at_end s then s else lex_loop (next_token s))"
  by pat_completeness auto
termination
proof (relation "measure (\<lambda>s. length (lx_source s) - lx_position s)")
  show "wf (measure (\<lambda>s. length (lx_source s) - lx_position s))" by simp
next
  fix s assume "\<not> at_end s"
  with next_token_emits [OF this]
  show "(next_token s, s) \<in> measure (\<lambda>s. length (lx_source s) - lx_position s)"
    by (auto simp: emits_def scans_def at_end_def)
qed

declare lex_loop.simps [simp del]

definition lex_structured_text :: "string \<Rightarrow> token list \<times> st_diagnostic list" where
  "lex_structured_text src =
     (let s = lex_loop (init_lexer src)
      in (lx_tokens s @
            [\<lparr>tok_kind = TK_END_OF_FILE, tok_text = [],
              tok_span = SourceSpan (lx_position s) (lx_position s),
              tok_line = lx_line s, tok_column = lx_column s\<rparr>],
          lx_diagnostics s))"

end
