(* ===== verification/Token_Stream.thy ===== *)
theory Token_Stream imports ST_Lexer begin

text \<open>
  The contract between the lexer and the parser. \<open>tiles src a ts b\<close> says that the tokens
  \<open>ts\<close> cover the source from offset \<open>a\<close> to offset \<open>b\<close> without gap or overlap, each
  with the text, line and column of its place. The locale \<open>token_stream\<close> is what the parser
  relies on; its interpretation shows that the lexer delivers it for every source.
\<close>

section \<open>Tiling\<close>

fun tiles :: "string \<Rightarrow> nat \<Rightarrow> token list \<Rightarrow> nat \<Rightarrow> bool" where
  "tiles src a [] b = (a = b)"
| "tiles src a (t # ts) b =
     (tok_kind t \<noteq> TK_END_OF_FILE \<and> tok_start t = a \<and> a < tok_end t \<and> tok_end t \<le> length src \<and>
      tok_text t = slice a (tok_end t) src \<and>
      tok_line t = line_at src a \<and> tok_column t = column_at src a \<and>
      tiles src (tok_end t) ts b)"

lemma tiles_append:
  "tiles src a (ts @ us) b \<longleftrightarrow> (\<exists>m. tiles src a ts m \<and> tiles src m us b)"
  by (induction ts arbitrary: a) auto

lemma tiles_bounds: "tiles src a ts b \<Longrightarrow> a \<le> b \<and> (ts \<noteq> [] \<longrightarrow> b \<le> length src)"
  by (induction ts arbitrary: a) fastforce+

lemma tiles_text: "tiles src a ts b \<Longrightarrow> concat (map tok_text ts) = slice a b src"
proof (induction ts arbitrary: a)
  case Nil
  then show ?case by simp
next
  case (Cons t ts)
  then have "tiles src (tok_end t) ts b" by simp
  with Cons.IH have "concat (map tok_text ts) = slice (tok_end t) b src" by blast
  with Cons.prems tiles_bounds [OF \<open>tiles src (tok_end t) ts b\<close>] show ?case
    by (simp add: slice_append)
qed

lemma tiles_nth:
  assumes "tiles src a ts b" "i < length ts"
  shows "tok_kind (ts ! i) \<noteq> TK_END_OF_FILE" (is ?A)
    and "a \<le> tok_start (ts ! i)" (is ?B)
    and "tok_start (ts ! i) < tok_end (ts ! i)" (is ?C)
    and "tok_end (ts ! i) \<le> b" (is ?D)
    and "tok_end (ts ! i) = (if Suc i < length ts then tok_start (ts ! Suc i) else b)" (is ?E)
proof -
  have "?A \<and> ?B \<and> ?C \<and> ?D \<and> ?E"
    using assms
  proof (induction ts arbitrary: a i)
    case Nil
    then show ?case by simp
  next
    case (Cons t ts)
    then have rest: "tiles src (tok_end t) ts b" and t: "tok_start t = a" "a < tok_end t" by auto
    show ?case
    proof (cases i)
      case 0
      have "tok_end t = (if ts = [] then b else tok_start (ts ! 0))"
        using rest by (cases ts) auto
      with 0 Cons.prems(1) tiles_bounds [OF rest] show ?thesis by auto
    next
      case (Suc j)
      with Cons.prems(2) have "j < length ts" by simp
      from Cons.IH [OF rest this] Suc t show ?thesis by auto
    qed
  qed
  then show ?A ?B ?C ?D ?E by blast+
qed

section \<open>The invariant of the main loop\<close>

definition lex_inv :: "lex_state \<Rightarrow> bool" where
  "lex_inv s =
     (located s \<and> lx_position s \<le> length (lx_source s) \<and>
      tiles (lx_source s) 0 (lx_tokens s) (lx_position s) \<and>
      spans_within (length (lx_source s)) (lx_diagnostics s) \<and>
      (TK_UNKNOWN \<in> tok_kind ` set (lx_tokens s) \<longrightarrow> lx_diagnostics s \<noteq> []))"

lemma lex_inv_init: "lex_inv (init_lexer src)"
  by (simp add: lex_inv_def init_lexer_def located_def line_at_def column_at_def)

lemma emits_source: "emits s s' \<Longrightarrow> lx_source s' = lx_source s"
  by (auto simp: emits_def scans_def)

lemma emits_inv:
  assumes "emits s s'" and inv: "lex_inv s"
  shows "lex_inv s'"
proof -
  obtain k u ds where u: "scans s u" "lx_position s < lx_position u" "k \<noteq> TK_END_OF_FILE"
    and ds: "spans_within (length (lx_source s)) ds"
    and unk: "k = TK_UNKNOWN \<longrightarrow> lx_diagnostics s \<noteq> lx_diagnostics u @ ds"
    and s': "s' = (append_token k (lx_position s) (lx_line s) (lx_column s) u)
               \<lparr>lx_diagnostics := lx_diagnostics u @ ds\<rparr>"
    using assms(1) unfolding emits_def by blast
  obtain es where es: "lx_diagnostics u = lx_diagnostics s @ es"
      "spans_within (length (lx_source s)) es"
    using u(1) by (auto simp: scans_def)
  have loc: "located u" "lx_source u = lx_source s" "lx_tokens u = lx_tokens s"
      "lx_position u \<le> length (lx_source s)"
    using u(1) inv by (auto simp: scans_def lex_inv_def)
  have at: "lx_line s = line_at (lx_source s) (lx_position s)"
      "lx_column s = column_at (lx_source s) (lx_position s)"
    using inv by (auto simp: lex_inv_def located_def)
  have "tiles (lx_source s) 0 (lx_tokens s') (lx_position s')"
    using inv u loc at by (simp add: s' append_token_def lex_inv_def tiles_append)
  moreover have "located s'"
    using loc by (simp add: s' located_def append_token_def)
  ultimately show ?thesis
    using inv loc ds es unk u(3) by (auto simp: lex_inv_def s' append_token_def)
qed

lemma lex_loop_inv:
  "lex_inv s \<Longrightarrow>
     lex_inv (lex_loop s) \<and> at_end (lex_loop s) \<and> lx_source (lex_loop s) = lx_source s"
proof (induction s rule: lex_loop.induct)
  case (1 s)
  show ?case
  proof (cases "at_end s")
    case True
    with "1.prems" show ?thesis by (subst (1 2 3) lex_loop.simps) simp
  next
    case False
    then have e: "emits s (next_token s)" by (rule next_token_emits)
    from "1.IH" [OF False emits_inv [OF e "1.prems"]] False emits_source [OF e]
    show ?thesis by (subst (1 2 3) lex_loop.simps) simp
  qed
qed

lemma lex_result:
  obtains s where "lex_inv s" "lx_position s = length src" "lx_source s = src"
    "lex_structured_text src =
       (lx_tokens s @
          [\<lparr>tok_kind = TK_END_OF_FILE, tok_text = [], tok_span = SourceSpan (length src) (length src),
            tok_line = line_at src (length src), tok_column = column_at src (length src)\<rparr>],
        lx_diagnostics s)"
proof -
  let ?s = "lex_loop (init_lexer src)"
  have i: "lex_inv ?s" "at_end ?s" "lx_source ?s = src"
    using lex_loop_inv [OF lex_inv_init, of src] by (simp_all add: init_lexer_def)
  then have p: "lx_position ?s = length src"
    by (auto simp: lex_inv_def at_end_def)
  with i have "lx_line ?s = line_at src (length src)" "lx_column ?s = column_at src (length src)"
    by (auto simp: lex_inv_def located_def)
  with i p that show ?thesis by (auto simp: lex_structured_text_def Let_def)
qed

section \<open>The interface\<close>

locale token_stream =
  fixes source :: string and tokens :: "token list"
  assumes stream:
    "\<exists>body eof. tokens = body @ [eof] \<and> tiles source 0 body (length source) \<and>
       tok_kind eof = TK_END_OF_FILE \<and> tok_text eof = [] \<and>
       tok_span eof = SourceSpan (length source) (length source)"
begin

lemma tokens_nonempty: "0 < length tokens"
  using stream by auto

lemma last_kind: "tok_kind (tokens ! (length tokens - 1)) = TK_END_OF_FILE"
  using stream by (auto simp: nth_append)

lemma inner_kind: "i < length tokens - 1 \<Longrightarrow> tok_kind (tokens ! i) \<noteq> TK_END_OF_FILE"
  using stream by (auto simp: nth_append dest: tiles_nth(1))

lemma last_span: "tok_span (tokens ! (length tokens - 1)) = SourceSpan (length source) (length source)"
  using stream by (auto simp: nth_append)

lemma start_le_end: "i < length tokens \<Longrightarrow> tok_start (tokens ! i) \<le> tok_end (tokens ! i)"
  using stream tiles_nth(3) by (fastforce simp: nth_append less_Suc_eq intro: less_imp_le)

lemma inner_nonempty: "Suc i < length tokens \<Longrightarrow> tok_start (tokens ! i) < tok_end (tokens ! i)"
  using stream tiles_nth(3) by (fastforce simp: nth_append)

lemma end_is_next_start:
  assumes "Suc i < length tokens"
  shows "tok_end (tokens ! i) = tok_start (tokens ! Suc i)"
proof -
  obtain body eof where b: "tokens = body @ [eof]" "tiles source 0 body (length source)"
      "tok_span eof = SourceSpan (length source) (length source)"
    using stream by blast
  with assms have i: "i < length body" by simp
  show ?thesis
  proof (cases "Suc i < length body")
    case True
    with tiles_nth(5) [OF b(2) i] b(1) i show ?thesis by (simp add: nth_append)
  next
    case False
    with i have "Suc i = length body" by simp
    with tiles_nth(5) [OF b(2) i] b(1,3) i show ?thesis by (simp add: nth_append)
  qed
qed

lemma start_mono: "i \<le> j \<Longrightarrow> j < length tokens \<Longrightarrow> tok_start (tokens ! i) \<le> tok_start (tokens ! j)"
proof (induction j)
  case 0
  then show ?case by simp
next
  case (Suc j)
  show ?case
  proof (cases "i = Suc j")
    case False
    with Suc have "tok_start (tokens ! i) \<le> tok_start (tokens ! j)" by simp
    also have "\<dots> \<le> tok_end (tokens ! j)" using Suc.prems by (intro start_le_end) simp
    also have "\<dots> = tok_start (tokens ! Suc j)" using Suc.prems by (intro end_is_next_start) simp
    finally show ?thesis .
  qed simp
qed

lemma start_bound: "i < length tokens \<Longrightarrow> tok_start (tokens ! i) \<le> length source"
  using start_mono [of i "length tokens - 1"] last_span by simp

lemma end_bound: "i < length tokens \<Longrightarrow> tok_end (tokens ! i) \<le> length source"
proof (cases "Suc i < length tokens")
  case True
  then show ?thesis using end_is_next_start start_bound by simp
next
  case False
  assume "i < length tokens"
  with False have "i = length tokens - 1" by simp
  then show ?thesis using last_span by simp
qed

lemma text_is_source: "concat (map tok_text tokens) = source"
  using stream by (auto simp: tiles_text slice_0)

end

lemma lexed_stream: "token_stream src (fst (lex_structured_text src))"
proof (rule lex_result [of src])
  fix s
  assume s: "lex_inv s" "lx_position s = length src" "lx_source s = src"
    and r: "lex_structured_text src =
       (lx_tokens s @
          [\<lparr>tok_kind = TK_END_OF_FILE, tok_text = [], tok_span = SourceSpan (length src) (length src),
            tok_line = line_at src (length src), tok_column = column_at src (length src)\<rparr>],
        lx_diagnostics s)"
  have "tiles src 0 (lx_tokens s) (length src)" using s by (simp add: lex_inv_def)
  then show ?thesis unfolding r by unfold_locales simp
qed

interpretation lexed: token_stream src "fst (lex_structured_text src)" for src
  by (rule lexed_stream)

section \<open>Properties of the lexer\<close>

text \<open>
  The lexer is lossless: for every source, the texts of its tokens, concatenated in
  order, are the source, character for character.
\<close>

theorem lexer_lossless: "concat (map tok_text (fst (lex_structured_text src))) = src"
  by (rule lexed.text_is_source)

text \<open>
  C1. The token list is a tiling of the source closed by one end marker: every token but the
  last is non-empty, starts where the one before ended, carries exactly the text of its span
  and the line and column of its first character, and only the last token is
  \<open>END_OF_FILE\<close>, at the end of the source.
\<close>

theorem lexer_tiles_source:
  "\<exists>body. fst (lex_structured_text src) =
     body @ [\<lparr>tok_kind = TK_END_OF_FILE, tok_text = [],
              tok_span = SourceSpan (length src) (length src),
              tok_line = line_at src (length src), tok_column = column_at src (length src)\<rparr>] \<and>
     tiles src 0 body (length src)"
proof (rule lex_result [of src])
  fix s
  assume "lex_inv s" "lx_position s = length src" "lx_source s = src"
    and "lex_structured_text src =
       (lx_tokens s @
          [\<lparr>tok_kind = TK_END_OF_FILE, tok_text = [], tok_span = SourceSpan (length src) (length src),
            tok_line = line_at src (length src), tok_column = column_at src (length src)\<rparr>],
        lx_diagnostics s)"
  then show ?thesis by (auto simp: lex_inv_def)
qed

text \<open>
  C2. Every lexical diagnostic points into the source, and no token of kind \<open>UNKNOWN\<close> is
  produced silently: if one occurs, there is a diagnostic.
\<close>

theorem lexer_diagnostics_sound:
  "spans_within (length src) (snd (lex_structured_text src)) \<and>
   (snd (lex_structured_text src) = [] \<longrightarrow>
      TK_UNKNOWN \<notin> tok_kind ` set (fst (lex_structured_text src)))"
proof (rule lex_result [of src])
  fix s
  assume "lex_inv s" "lx_source s = src"
    and "lex_structured_text src =
       (lx_tokens s @
          [\<lparr>tok_kind = TK_END_OF_FILE, tok_text = [], tok_span = SourceSpan (length src) (length src),
            tok_line = line_at src (length src), tok_column = column_at src (length src)\<rparr>],
        lx_diagnostics s)"
  then show ?thesis by (auto simp: lex_inv_def)
qed

lemma lexer_diagnostics_sound_witness:
  "snd (lex_structured_text ''a := %x'') \<noteq> [] \<and>
   snd (lex_structured_text ''a:=T#1s;'') = [] \<and>
   TK_UNKNOWN \<notin> tok_kind ` set (fst (lex_structured_text ''a:=T#1s;''))"
proof (intro conjI)
  have h: "snd (lex_structured_text ''a:=T#1s;'') = []" by code_simp
  show "snd (lex_structured_text ''a := %x'') \<noteq> []" by code_simp
  show "snd (lex_structured_text ''a:=T#1s;'') = []" by (rule h)
  show "TK_UNKNOWN \<notin> tok_kind ` set (fst (lex_structured_text ''a:=T#1s;''))"
    using lexer_diagnostics_sound [of "''a:=T#1s;''"] h by blast
qed

end
