(* ===== verification/ST_Parser.thy ===== *)
theory ST_Parser imports Token_Stream begin

text \<open>
  The recovering parser of \<open>structured_text/parser.py\<close>. The attributes of \<open>_Parser\<close>
  that never change (\<open>source\<close>, \<open>tokens\<close>) are the record \<open>parser_env\<close>, the two that do
  (\<open>position\<close>, \<open>diagnostics\<close>) the record \<open>parse_state\<close>; a method that moves the
  position or adds a diagnostic returns the new state beside its result.

  The methods call each other through \<open>self\<close>. Here \<open>self\<close> is the record \<open>methods\<close>
  of what they call; every method body is a plain definition over it, and \<open>parser n\<close> ties
  the knot: at level \<open>0\<close> every call returns \<open>None\<close> (not yet returned), and the methods
  of level \<open>n + 1\<close> are the bodies over those of level \<open>n\<close>, so that \<open>n\<close> bounds the
  depth of calls. \<open>Parser_Total\<close> shows which depth is enough for every source.
  A loop of a method is a method of its own, named after it.
\<close>

section \<open>State\<close>

record parser_env =
  pe_source :: string
  pe_tokens :: "token list"

record parse_state =
  ps_position :: nat
  ps_diagnostics :: "st_diagnostic list"

section \<open>The token cursor\<close>

definition is_trivia :: "token_kind \<Rightarrow> bool" where
  "is_trivia k = (k = TK_WHITESPACE \<or> k = TK_COMMENT)"

text \<open>\<open>self.tokens[min(position, len(self.tokens) - 1)]\<close>.\<close>

definition token_at :: "parser_env \<Rightarrow> nat \<Rightarrow> token" where
  "token_at P i = pe_tokens P ! min i (length (pe_tokens P) - 1)"

function skip_from :: "parser_env \<Rightarrow> nat \<Rightarrow> nat" where
  "skip_from P i =
     (if i < length (pe_tokens P) \<and> is_trivia (tok_kind (pe_tokens P ! i))
      then skip_from P (Suc i) else i)"
  by pat_completeness auto
termination
  by (relation "measure (\<lambda>(P, i). length (pe_tokens P) - i)") auto

declare skip_from.simps [simp del]

definition peek_position :: "parser_env \<Rightarrow> bool \<Rightarrow> nat \<Rightarrow> nat \<Rightarrow> nat" where
  "peek_position P skip offset i =
     ((\<lambda>p. if skip then skip_from P (Suc p) else Suc p) ^^ offset)
       (if skip then skip_from P i else i)"

definition peek :: "parser_env \<Rightarrow> bool \<Rightarrow> nat \<Rightarrow> parse_state \<Rightarrow> token" where
  "peek P skip offset s = token_at P (peek_position P skip offset (ps_position s))"

definition current :: "parser_env \<Rightarrow> parse_state \<Rightarrow> token" where
  "current P s = token_at P (ps_position s)"

text \<open>
  The loop of \<open>_skip_trivia\<close> reads the clamped token, so past the last token it looks at
  the end marker, which is no trivia, and stops.
\<close>

definition skip_trivia :: "parser_env \<Rightarrow> parse_state \<Rightarrow> parse_state" where
  "skip_trivia P s = s\<lparr>ps_position := skip_from P (ps_position s)\<rparr>"

definition take_token :: "parser_env \<Rightarrow> bool \<Rightarrow> parse_state \<Rightarrow> token \<times> parse_state" where
  "take_token P skip s =
     (let u = (if skip then skip_trivia P s else s)
      in (current P u, u\<lparr>ps_position := Suc (ps_position u)\<rparr>))"

definition at_kind :: "parser_env \<Rightarrow> token_kind \<Rightarrow> bool \<Rightarrow> parse_state \<Rightarrow> bool" where
  "at_kind P k skip s = (tok_kind (peek P skip 0 s) = k)"

definition keyword :: "parser_env \<Rightarrow> string \<Rightarrow> bool \<Rightarrow> parse_state \<Rightarrow> bool" where
  "keyword P value skip s =
     (let t = peek P skip 0 s
      in tok_kind t = TK_IDENTIFIER \<and> py_upper (tok_text t) = value)"

definition keyword_in :: "parser_env \<Rightarrow> string set \<Rightarrow> parse_state \<Rightarrow> bool \<times> parse_state" where
  "keyword_in P values s =
     (let u = skip_trivia P s; t = current P u
      in (tok_kind t = TK_IDENTIFIER \<and> py_upper (tok_text t) \<in> values, u))"

definition report :: "string \<Rightarrow> string \<Rightarrow> source_span \<Rightarrow> parse_state \<Rightarrow> parse_state" where
  "report c m sp s = s\<lparr>ps_diagnostics := ps_diagnostics s @ [STDiagnostic c m sp]\<rparr>"

section \<open>Operators\<close>

definition precedence_of :: "string \<Rightarrow> nat option" where
  "precedence_of op =
     map_of [(''OR'', 1), (''|'', 1), (''XOR'', 2), (''^'', 2), (''AND'', 3), (''&'', 3),
             (''='', 4), (''<>'', 4), (''<'', 4), (''<='', 4), (''>'', 4), (''>='', 4),
             (''+'', 5), (''-'', 5), (''*'', 6), (''/'', 6), (''MOD'', 6)] op"

definition unary_operators :: "string set" where
  "unary_operators = {''NOT'', ''+'', ''-''}"

definition operator_text :: "token \<Rightarrow> string" where
  "operator_text t =
     (if tok_kind t = TK_OPERATOR then py_upper (tok_text t)
      else if tok_kind t = TK_IDENTIFIER \<and>
              (precedence_of (py_upper (tok_text t)) \<noteq> None \<or>
               py_upper (tok_text t) \<in> unary_operators)
           then py_upper (tok_text t)
      else [])"

definition binary_operator :: "parser_env \<Rightarrow> parse_state \<Rightarrow> string option" where
  "binary_operator P s =
     (let value = operator_text (peek P True 0 s)
      in if precedence_of value \<noteq> None then Some value else None)"

section \<open>Ends of statements and recovery\<close>

definition statement_end :: "parser_env \<Rightarrow> nat \<Rightarrow> parse_state \<Rightarrow> nat \<times> parse_state" where
  "statement_end P fallback s =
     (if at_kind P TK_SEMICOLON True s
      then let (t, u) = take_token P True s in (tok_end t, u)
      else (fallback,
            report ''missing_semicolon'' (''statement is missing '' @ py_repr '';'')
              (SourceSpan fallback fallback) s))"

section \<open>The methods of the parser\<close>

record methods =
  m_recover_loop :: "parse_state \<Rightarrow> (nat \<times> parse_state) option"
  m_expression :: "nat \<Rightarrow> parse_state \<Rightarrow> (expr option \<times> parse_state) option"
  m_binary_loop :: "nat \<Rightarrow> expr \<Rightarrow> parse_state \<Rightarrow> (expr option \<times> parse_state) option"
  m_unary :: "parse_state \<Rightarrow> (expr option \<times> parse_state) option"
  m_postfix :: "parse_state \<Rightarrow> (expr option \<times> parse_state) option"
  m_postfix_loop :: "expr \<Rightarrow> parse_state \<Rightarrow> (expr option \<times> parse_state) option"
  m_primary :: "parse_state \<Rightarrow> (expr option \<times> parse_state) option"
  m_index_expression :: "expr \<Rightarrow> string \<Rightarrow> parse_state \<Rightarrow> (expr \<times> parse_state) option"
  m_index_loop :: "parse_state \<Rightarrow> (expr list \<times> parse_state) option"
  m_call_expression :: "expr \<Rightarrow> parse_state \<Rightarrow> (expr \<times> parse_state) option"
  m_call_loop :: "parse_state \<Rightarrow> (call_argument list \<times> parse_state) option"
  m_statement_list :: "string set \<Rightarrow> parse_state \<Rightarrow> (stmt list \<times> parse_state) option"
  m_statement :: "parse_state \<Rightarrow> (stmt option \<times> parse_state) option"
  m_if_statement :: "parse_state \<Rightarrow> (stmt \<times> parse_state) option"
  m_elsif_loop :: "parse_state \<Rightarrow> (if_branch list \<times> parse_state) option"
  m_if_branch :: "nat \<Rightarrow> parse_state \<Rightarrow> (if_branch \<times> parse_state) option"
  m_while_statement :: "parse_state \<Rightarrow> (stmt \<times> parse_state) option"

section \<open>Recovery\<close>

text \<open>The loop of \<open>_recover_statement\<close>: the end offset and the state after it.\<close>

definition recover_loop ::
  "methods \<Rightarrow> parser_env \<Rightarrow> parse_state \<Rightarrow> (nat \<times> parse_state) option" where
  "recover_loop self P s =
     (if at_kind P TK_END_OF_FILE False s then Some (tok_end (current P s), s)
      else if at_kind P TK_SEMICOLON False s
      then let (t, u) = take_token P False s in Some (tok_end t, u)
      else let (stop, u) = keyword_in P {''ELSIF'', ''ELSE'', ''END_IF''} s
           in if stop then Some (tok_start (current P u), u)
              else m_recover_loop self (u\<lparr>ps_position := Suc (ps_position u)\<rparr>))"

definition recover_statement ::
  "methods \<Rightarrow> parser_env \<Rightarrow> string \<Rightarrow> parse_state \<Rightarrow> (stmt \<times> parse_state) option" where
  "recover_statement self P c s =
     (let u = skip_trivia P s; start = tok_start (current P u)
      in do {
        (stop, v) \<leftarrow> m_recover_loop self u;
        let sp = SourceSpan start stop;
        Some (UnsupportedStatement sp (slice start stop (pe_source P)),
              report c ''statement was retained without a structured interpretation'' sp v)
      })"

section \<open>Expressions\<close>

definition expression ::
  "methods \<Rightarrow> parser_env \<Rightarrow> nat \<Rightarrow> parse_state \<Rightarrow> (expr option \<times> parse_state) option" where
  "expression self P m s = do {
     (left, s1) \<leftarrow> m_unary self s;
     case left of None \<Rightarrow> Some (None, s1) | Some e \<Rightarrow> m_binary_loop self m e s1
   }"

definition binary_loop ::
  "methods \<Rightarrow> parser_env \<Rightarrow> nat \<Rightarrow> expr \<Rightarrow> parse_state \<Rightarrow> (expr option \<times> parse_state) option" where
  "binary_loop self P m left s =
     (case binary_operator P s of
        None \<Rightarrow> Some (Some left, s)
      | Some op \<Rightarrow> do {
          p \<leftarrow> precedence_of (py_upper op);
          if p < m then Some (Some left, s)
          else do {
            let (optok, s1) = take_token P True s;
            (right, s2) \<leftarrow> m_expression self (Suc p) s1;
            case right of
              None \<Rightarrow> Some (Some left,
                report ''missing_binary_operand''
                  (''operator '' @ py_repr (tok_text optok) @ '' has no right operand'')
                  (tok_span optok) s2)
            | Some r \<Rightarrow>
                m_binary_loop self m
                  (BinaryExpression (SourceSpan (expr_start left) (expr_end r)) left (tok_text optok) r) s2
          }
        })"

definition unary ::
  "methods \<Rightarrow> parser_env \<Rightarrow> parse_state \<Rightarrow> (expr option \<times> parse_state) option" where
  "unary self P s =
     (if operator_text (peek P True 0 s) \<in> unary_operators
      then do {
        let (optok, s1) = take_token P True s;
        (operand, s2) \<leftarrow> m_unary self s1;
        case operand of
          None \<Rightarrow> Some (Some (MissingExpression (SourceSpan (tok_end optok) (tok_end optok))),
            report ''missing_unary_operand''
              (''operator '' @ py_repr (tok_text optok) @ '' has no operand'')
              (tok_span optok) s2)
        | Some e \<Rightarrow> Some (Some (UnaryExpression (SourceSpan (tok_start optok) (expr_end e))
                                    (tok_text optok) e), s2)
      }
      else m_postfix self s)"

definition postfix ::
  "methods \<Rightarrow> parser_env \<Rightarrow> parse_state \<Rightarrow> (expr option \<times> parse_state) option" where
  "postfix self P s = do {
     (e, s1) \<leftarrow> m_primary self s;
     case e of None \<Rightarrow> Some (None, s1) | Some x \<Rightarrow> m_postfix_loop self x s1
   }"

definition postfix_loop ::
  "methods \<Rightarrow> parser_env \<Rightarrow> expr \<Rightarrow> parse_state \<Rightarrow> (expr option \<times> parse_state) option" where
  "postfix_loop self P e s =
     (if at_kind P TK_DOT True s
      then let (dot, s1) = take_token P True s
           in if at_kind P TK_LEFT_BRACKET True s1
              then do { (x, s2) \<leftarrow> m_index_expression self e ''.[]'' s1; m_postfix_loop self x s2 }
              else let mem = peek P True 0 s1
                   in if tok_kind mem \<noteq> TK_IDENTIFIER \<and> tok_kind mem \<noteq> TK_LITERAL
                      then Some (Some e,
                             report ''missing_member'' ''member selector is missing its member name''
                               (SourceSpan (tok_start dot) (tok_end mem)) s1)
                      else let (memtok, s2) = take_token P True s1
                           in m_postfix_loop self
                                (MemberExpression (SourceSpan (expr_start e) (tok_end memtok))
                                   e (tok_text memtok)) s2
      else if at_kind P TK_LEFT_BRACKET True s
      then do { (x, s1) \<leftarrow> m_index_expression self e ''[]'' s; m_postfix_loop self x s1 }
      else if at_kind P TK_LEFT_PAREN True s
      then do { (x, s1) \<leftarrow> m_call_expression self e s; m_postfix_loop self x s1 }
      else Some (Some e, s))"

definition primary ::
  "methods \<Rightarrow> parser_env \<Rightarrow> parse_state \<Rightarrow> (expr option \<times> parse_state) option" where
  "primary self P s =
     (let k = tok_kind (peek P True 0 s)
      in if k = TK_IDENTIFIER
         then let (t, s1) = take_token P True s
              in if py_upper (tok_text t) \<in> {''TRUE'', ''FALSE''}
                 then Some (Some (LiteralExpression (tok_span t) (tok_text t)), s1)
                 else Some (Some (NameExpression (tok_span t) (tok_text t)), s1)
         else if k = TK_LITERAL \<or> k = TK_STRING
         then let (t, s1) = take_token P True s
              in Some (Some (LiteralExpression (tok_span t) (tok_text t)), s1)
         else if k = TK_DIRECT_ADDRESS
         then let (t, s1) = take_token P True s
              in Some (Some (DirectAddressExpression (tok_span t) (tok_text t)), s1)
         else if k = TK_LEFT_PAREN
         then do {
           let (opening, s1) = take_token P True s;
           (inner, s2) \<leftarrow> m_expression self 1 s1;
           let e = (case inner of
                      None \<Rightarrow> MissingExpression (SourceSpan (tok_end opening) (tok_end opening))
                    | Some x \<Rightarrow> x);
           if at_kind P TK_RIGHT_PAREN True s2
           then let (closing, s3) = take_token P True s2
                in Some (Some (ParenthesizedExpression
                                 (SourceSpan (tok_start opening) (tok_end closing)) e), s3)
           else Some (Some (ParenthesizedExpression
                              (SourceSpan (tok_start opening) (expr_end e)) e),
                      report ''missing_right_parenthesis''
                        (''parenthesized expression is missing '' @ py_repr '')'')
                        (SourceSpan (tok_start opening) (expr_end e)) s2)
         }
         else Some (None, s))"

definition index_expression ::
  "methods \<Rightarrow> parser_env \<Rightarrow> expr \<Rightarrow> string \<Rightarrow> parse_state \<Rightarrow> (expr \<times> parse_state) option" where
  "index_expression self P target op s = do {
     let (opening, s1) = take_token P True s;
     (indices, s2) \<leftarrow> m_index_loop self s1;
     if at_kind P TK_RIGHT_BRACKET True s2
     then let (closing, s3) = take_token P True s2
          in Some (IndexExpression (SourceSpan (expr_start target) (tok_end closing))
                     target indices op, s3)
     else let stop = (if indices = [] then expr_end target else expr_end (last indices))
          in Some (IndexExpression (SourceSpan (expr_start target) stop) target indices op,
                   report ''missing_right_bracket''
                     (''index expression is missing '' @ py_repr '']'')
                     (SourceSpan (expr_start target) stop) s2)
   }"

definition index_loop ::
  "methods \<Rightarrow> parser_env \<Rightarrow> parse_state \<Rightarrow> (expr list \<times> parse_state) option" where
  "index_loop self P s =
     (if at_kind P TK_RIGHT_BRACKET True s then Some ([], s)
      else do {
        (x, s1) \<leftarrow> m_expression self 1 s;
        let here = tok_start (peek P True 0 s1);
        let e = (case x of None \<Rightarrow> MissingExpression (SourceSpan here here) | Some y \<Rightarrow> y);
        if at_kind P TK_COMMA True s1
        then do {
          let (comma, s2) = take_token P True s1;
          (es, s3) \<leftarrow> m_index_loop self s2;
          Some (e # es, s3)
        }
        else Some ([e], s1)
      })"

definition call_expression ::
  "methods \<Rightarrow> parser_env \<Rightarrow> expr \<Rightarrow> parse_state \<Rightarrow> (expr \<times> parse_state) option" where
  "call_expression self P callee s = do {
     let (opening, s1) = take_token P True s;
     (args, s2) \<leftarrow> m_call_loop self s1;
     if at_kind P TK_RIGHT_PAREN True s2
     then let (closing, s3) = take_token P True s2
          in Some (CallExpression (SourceSpan (expr_start callee) (tok_end closing)) callee args, s3)
     else let stop = (if args = [] then expr_end callee else span_end (arg_span (last args)))
          in Some (CallExpression (SourceSpan (expr_start callee) stop) callee args,
                   report ''missing_call_parenthesis''
                     (''call expression is missing '' @ py_repr '')'')
                     (SourceSpan (expr_start callee) stop) s2)
   }"

definition call_loop ::
  "methods \<Rightarrow> parser_env \<Rightarrow> parse_state \<Rightarrow> (call_argument list \<times> parse_state) option" where
  "call_loop self P s =
     (if at_kind P TK_RIGHT_PAREN True s then Some ([], s)
      else let here = tok_start (peek P True 0 s)
           in if at_kind P TK_COMMA True s
              then do {
                let missing = MissingExpression (SourceSpan here here);
                let (comma, s1) = take_token P True s;
                (args, s2) \<leftarrow> m_call_loop self s1;
                Some (CallArgument (SourceSpan here here) missing None None # args, s2)
              }
              else do {
                let named = (tok_kind (peek P True 0 s) = TK_IDENTIFIER \<and>
                             tok_kind (peek P True 1 s) \<in> {TK_ASSIGN, TK_OUTPUT_ASSIGN});
                let (nm, s1) = (if named then map_prod (\<lambda>t. Some (tok_text t)) id (take_token P True s)
                                else (None, s));
                let (dir, s2) = (if named then map_prod (\<lambda>t. Some (tok_text t)) id (take_token P True s1)
                                 else (None, s1));
                (x, s3) \<leftarrow> m_expression self 1 s2;
                let (e, s4) = (case x of
                    None \<Rightarrow> (MissingExpression (SourceSpan here here),
                             report ''missing_call_argument'' ''call argument is missing''
                               (SourceSpan here here) s3)
                  | Some y \<Rightarrow> (y, s3));
                let arg = CallArgument (SourceSpan here (expr_end e)) e nm dir;
                if at_kind P TK_COMMA True s4
                then do {
                  let (comma, s5) = take_token P True s4;
                  (args, s6) \<leftarrow> m_call_loop self s5;
                  Some (arg # args, s6)
                }
                else Some ([arg], s4)
              })"

section \<open>Statements\<close>

definition if_branch_terminators :: "string set" where
  "if_branch_terminators = {''ELSIF'', ''ELSE'', ''END_IF''}"

definition statement_list ::
  "methods \<Rightarrow> parser_env \<Rightarrow> string set \<Rightarrow> parse_state \<Rightarrow> (stmt list \<times> parse_state) option" where
  "statement_list self P terminators s =
     (if at_kind P TK_END_OF_FILE False s then Some ([], s)
      else let (stop, s1) = keyword_in P terminators s
           in if stop \<or> at_kind P TK_END_OF_FILE False s1 then Some ([], s1)
              else do {
                (st, s2) \<leftarrow> m_statement self s1;
                (extra, s3) \<leftarrow>
                  (if ps_position s2 = ps_position s1
                   then do {
                     (u, s3) \<leftarrow> recover_statement self P ''unsupported_statement'' s2;
                     Some ([u], s3)
                   }
                   else Some ([], s2));
                (rest, s4) \<leftarrow> m_statement_list self terminators s3;
                Some ((case st of None \<Rightarrow> [] | Some x \<Rightarrow> [x]) @ extra @ rest, s4)
              })"

text \<open>The tail of \<open>_statement\<close>: an assignment, a call, or an unsupported expression.\<close>

definition expression_statement ::
  "methods \<Rightarrow> parser_env \<Rightarrow> parse_state \<Rightarrow> (stmt \<times> parse_state) option" where
  "expression_statement self P s =
     (let start = tok_start (current P s)
      in do {
        (x, s1) \<leftarrow> m_expression self 1 s;
        case x of
          None \<Rightarrow> recover_statement self P ''expected_statement'' s1
        | Some e \<Rightarrow>
            if at_kind P TK_ASSIGN True s1
            then do {
              let (op, s2) = take_token P True s1;
              (y, s3) \<leftarrow> m_expression self 1 s2;
              case y of
                None \<Rightarrow> recover_statement self P ''expected_assignment_value'' s3
              | Some v \<Rightarrow>
                  let (stop, s4) = statement_end P (expr_end v) s3
                  in Some (AssignmentStatement (SourceSpan start stop) e (tok_text op) v, s4)
            }
            else let (stop, s2) = statement_end P (expr_end e) s1
                 in if is_call e then Some (ExpressionStatement (SourceSpan start stop) e, s2)
                    else Some (UnsupportedStatement (SourceSpan start stop)
                                 (slice start stop (pe_source P)),
                               report ''unsupported_expression_statement''
                                 ''only call expressions are supported as expression statements''
                                 (SourceSpan start stop) s2)
      })"

definition some_statement :: "(stmt \<times> parse_state) option \<Rightarrow> (stmt option \<times> parse_state) option" where
  "some_statement m = do { (x, s) \<leftarrow> m; Some (Some x, s) }"

definition statement ::
  "methods \<Rightarrow> parser_env \<Rightarrow> parse_state \<Rightarrow> (stmt option \<times> parse_state) option" where
  "statement self P s0 =
     (let s = skip_trivia P s0
      in if at_kind P TK_END_OF_FILE False s then Some (None, s)
         else if keyword P ''IF'' False s then some_statement (m_if_statement self s)
         else if keyword P ''WHILE'' False s then some_statement (m_while_statement self s)
         else if keyword P ''EXIT'' False s
         then let (t, s1) = take_token P True s;
                  (stop, s2) = statement_end P (tok_start t) s1
              in Some (Some (ExitStatement (SourceSpan (tok_start t) stop)), s2)
         else if keyword P ''JMP'' False s
         then let (t, s1) = take_token P True s
              in if at_kind P TK_IDENTIFIER True s1
                 then let (label, s2) = take_token P True s1;
                          (stop, s3) = statement_end P (tok_end label) s2
                      in Some (Some (JumpStatement (SourceSpan (tok_start t) stop) (tok_text label)), s3)
                 else some_statement (recover_statement self P ''missing_jump_label'' s1)
         else if at_kind P TK_IDENTIFIER True s \<and> tok_kind (peek P True 1 s) = TK_COLON
         then let (label, s1) = take_token P False (skip_trivia P s);
                  (colon, s2) = take_token P True s1
              in Some (Some (LabelStatement (SourceSpan (tok_start label) (tok_end colon))
                               (tok_text label)), s2)
         else some_statement (expression_statement self P s))"

definition if_statement ::
  "methods \<Rightarrow> parser_env \<Rightarrow> parse_state \<Rightarrow> (stmt \<times> parse_state) option" where
  "if_statement self P s = do {
     let (t, s1) = take_token P True s;
     let start = tok_start t;
     (first, s2) \<leftarrow> m_if_branch self start s1;
     (more, s3) \<leftarrow> m_elsif_loop self s2;
     (else_statements, s4) \<leftarrow>
       (if keyword P ''ELSE'' True s3
        then let (e, u) = take_token P True s3 in m_statement_list self {''END_IF''} u
        else Some ([], s3));
     if keyword P ''END_IF'' True s4
     then let (e, s5) = take_token P True s4;
              (stop, s6) = statement_end P (tok_end e) s5
          in Some (IfStatement (SourceSpan start stop) (first # more) else_statements, s6)
     else let stop = tok_start (current P s4)
          in Some (IfStatement (SourceSpan start stop) (first # more) else_statements,
                   report ''missing_end_if'' ''IF statement is missing END_IF''
                     (SourceSpan start stop) s4)
   }"

text \<open>The loop \<open>while self._keyword("ELSIF", ...)\<close> of \<open>_if_statement\<close>.\<close>

definition elsif_loop ::
  "methods \<Rightarrow> parser_env \<Rightarrow> parse_state \<Rightarrow> (if_branch list \<times> parse_state) option" where
  "elsif_loop self P s =
     (if keyword P ''ELSIF'' True s
      then do {
        let (t, s1) = take_token P True s;
        (b, s2) \<leftarrow> m_if_branch self (tok_start t) s1;
        (bs, s3) \<leftarrow> m_elsif_loop self s2;
        Some (b # bs, s3)
      }
      else Some ([], s))"

text \<open>
  The condition shared by \<open>_if_branch\<close> and \<open>_while_statement\<close>: a missing one becomes
  \<open>MissingExpression\<close> at the start offset, with the given diagnostic; then the keyword
  that must follow (\<open>THEN\<close> or \<open>DO\<close>) is taken or reported.
\<close>

definition guarded_condition ::
  "methods \<Rightarrow> parser_env \<Rightarrow> nat \<Rightarrow> string \<times> string \<Rightarrow> string \<Rightarrow> string \<times> string \<Rightarrow> parse_state \<Rightarrow>
     (expr \<times> parse_state) option" where
  "guarded_condition self P start missing kw absent s = do {
     (x, s1) \<leftarrow> m_expression self 1 s;
     let (c, s2) = (case x of
         None \<Rightarrow> (MissingExpression (SourceSpan start start),
                  report (fst missing) (snd missing) (SourceSpan start start) s1)
       | Some e \<Rightarrow> (e, s1));
     if keyword P kw True s2
     then let (t, s3) = take_token P True s2 in Some (c, s3)
     else Some (c, report (fst absent) (snd absent) (expr_span c) s2)
   }"

text \<open>Every caller of \<open>_if_branch\<close> passes \<open>keyword_taken=True\<close>.\<close>

definition if_branch ::
  "methods \<Rightarrow> parser_env \<Rightarrow> nat \<Rightarrow> parse_state \<Rightarrow> (if_branch \<times> parse_state) option" where
  "if_branch self P start s = do {
     (c, s1) \<leftarrow> guarded_condition self P start
       (''missing_if_condition'', ''IF branch is missing a condition'') ''THEN''
       (''missing_then'', ''IF branch is missing THEN'') s;
     (body, s2) \<leftarrow> m_statement_list self if_branch_terminators s1;
     let stop = (if body = [] then expr_end c else stmt_end (last body));
     Some (IfBranch (SourceSpan start stop) c body, s2)
   }"

definition while_statement ::
  "methods \<Rightarrow> parser_env \<Rightarrow> parse_state \<Rightarrow> (stmt \<times> parse_state) option" where
  "while_statement self P s = do {
     let (t, s1) = take_token P True s;
     let start = tok_start t;
     (c, s2) \<leftarrow> guarded_condition self P start
       (''missing_while_condition'', ''WHILE statement is missing a condition'') ''DO''
       (''missing_do'', ''WHILE statement is missing DO'') s1;
     (body, s3) \<leftarrow> m_statement_list self {''END_WHILE''} s2;
     if keyword P ''END_WHILE'' True s3
     then let (e, s4) = take_token P True s3;
              (stop, s5) = statement_end P (tok_end e) s4
          in Some (WhileStatement (SourceSpan start stop) c body, s5)
     else let stop = tok_start (current P s3)
          in Some (WhileStatement (SourceSpan start stop) c body,
                   report ''missing_end_while'' ''WHILE statement is missing END_WHILE''
                     (SourceSpan start stop) s3)
   }"

section \<open>Tying the knot\<close>

primrec parser :: "nat \<Rightarrow> parser_env \<Rightarrow> methods" where
  "parser 0 P =
     \<lparr>m_recover_loop = \<lambda>s. None, m_expression = \<lambda>m s. None, m_binary_loop = \<lambda>m e s. None,
      m_unary = \<lambda>s. None, m_postfix = \<lambda>s. None, m_postfix_loop = \<lambda>e s. None,
      m_primary = \<lambda>s. None, m_index_expression = \<lambda>e op s. None, m_index_loop = \<lambda>s. None,
      m_call_expression = \<lambda>e s. None, m_call_loop = \<lambda>s. None,
      m_statement_list = \<lambda>ks s. None, m_statement = \<lambda>s. None, m_if_statement = \<lambda>s. None,
      m_elsif_loop = \<lambda>s. None, m_if_branch = \<lambda>a s. None, m_while_statement = \<lambda>s. None\<rparr>"
| "parser (Suc n) P =
     (let self = parser n P in
     \<lparr>m_recover_loop = recover_loop self P, m_expression = expression self P,
      m_binary_loop = binary_loop self P, m_unary = unary self P, m_postfix = postfix self P,
      m_postfix_loop = postfix_loop self P, m_primary = primary self P,
      m_index_expression = index_expression self P, m_index_loop = index_loop self P,
      m_call_expression = call_expression self P, m_call_loop = call_loop self P,
      m_statement_list = statement_list self P, m_statement = statement self P,
      m_if_statement = if_statement self P, m_elsif_loop = elsif_loop self P,
      m_if_branch = if_branch self P, m_while_statement = while_statement self P\<rparr>)"

text \<open>
  \<open>parse_structured_text\<close>: lex, then \<open>_statement_list(set())\<close> from the first token. The
  depth is sixteen calls per token, more than any source needs.
\<close>

definition parser_depth :: "token list \<Rightarrow> nat" where
  "parser_depth toks = 16 * length toks + 16"

definition parse_structured_text :: "string \<Rightarrow> st_document option" where
  "parse_structured_text src =
     (let (toks, ds) = lex_structured_text src;
          P = \<lparr>pe_source = src, pe_tokens = toks\<rparr>
      in do {
        (statements, s) \<leftarrow> m_statement_list (parser (parser_depth toks) P) {}
                              \<lparr>ps_position = 0, ps_diagnostics = ds\<rparr>;
        Some \<lparr>doc_source = src, doc_tokens = toks, doc_statements = statements,
              doc_diagnostics = ps_diagnostics s\<rparr>
      })"

end
