(* ===== verification/ST_Semantics.thy ===== *)
theory ST_Semantics imports ST_Syntax "HOL-Library.Multiset" begin

text \<open>
  The semantic analyser of \<open>structured_text/semantics.py\<close>: declarations and call rules of a
  context, the facts it records (references, accesses, expression types, calls, assignment
  checks, diagnostics) as the state \<open>sem_state\<close>, and the methods of \<open>_SemanticAnalyzer\<close> as
  functions that return their result beside the new state.

  Dictionaries keyed by the case-folded name are \<open>dict_of\<close> lookups: of two entries with the
  same key the later one wins, as in the comprehensions of \<open>__init__\<close>.
\<close>

section \<open>Declarations and facts\<close>

datatype symbol_kind = SK_PARAMETER | SK_LOCAL | SK_PROGRAM_TAG | SK_CONTROLLER_TAG
datatype reference_status = RS_RESOLVED | RS_UNRESOLVED
datatype access_status = AS_RESOLVED | AS_UNVERIFIED | AS_INVALID
datatype type_status = TS_KNOWN | TS_UNKNOWN | TS_INVALID
datatype type_compatibility = TC_EXACT | TC_IMPLICIT | TC_UNKNOWN | TC_INCOMPATIBLE

datatype call_kind =
    CK_ARRAY_DIMENSION_QUERY | CK_ABSOLUTE_VALUE | CK_BYTE_SWAP | CK_CONTROLLER_OBJECT_READ
  | CK_CONTROLLER_OBJECT_WRITE | CK_EXPLICIT_MESSAGE | CK_MEMORY_COPY | CK_RETENTIVE_TIMER
  | CK_TYPE_CONVERSION | CK_USER_DEFINED_INSTRUCTION | CK_ROUTINE | CK_FUNCTION_BLOCK_INSTANCE
  | CK_UNKNOWN

datatype operation_kind =
    OK_ASSIGN | OK_CALL | OK_CONDITIONAL | OK_LOOP | OK_EXIT | OK_LABEL | OK_JUMP | OK_UNSUPPORTED

record semantic_symbol =
  sy_name :: string
  sy_kind :: symbol_kind
  sy_data_type :: "string option"
  sy_scope :: "string option"
  sy_dimensions :: "string option"

record type_member =
  tm_name :: string
  tm_data_type :: "string option"
  tm_dimensions :: "string option"

record semantic_type =
  ty_name :: string
  ty_members :: "type_member list"
  ty_vendor :: "string option"
  ty_source :: "string option"
  ty_complete :: bool

record call_parameter =
  cp_name :: string
  cp_data_type :: "string option"
  cp_direction :: "string option"
  cp_dimensions :: "string option"
  cp_generic_dimensions :: bool

record conversion_policy =
  po_implicit_numeric :: bool
  po_bit_bool_equivalent :: bool
  po_implicit_numeric_boolean :: bool
  po_string_family_compatible :: bool

text \<open>Argument positions and counts are never negative where they are compared.\<close>

record call_rule =
  cr_source_name :: string
  cr_kind :: call_kind
  cr_neutral_name :: string
  cr_vendor :: "string option"
  cr_opaque_argument_indices :: "nat set"
  cr_minimum_arguments :: "nat option"
  cr_maximum_arguments :: "nat option"
  cr_result_type :: "string option"
  cr_result_from_argument :: "nat option"
  cr_instance_data_type :: "string option"
  cr_parameters :: "call_parameter list"

record symbol_reference =
  rf_name :: string
  rf_span :: source_span
  rf_status :: reference_status
  rf_symbol :: "semantic_symbol option"

record argument_binding =
  ab_parameter_name :: string
  ab_direction :: "string option"
  ab_expected_type :: "string option"
  ab_actual_type :: "string option"
  ab_compatibility :: type_compatibility
  ab_span :: source_span

record semantic_call =
  sc_source_name :: string
  sc_neutral_name :: string
  sc_kind :: call_kind
  sc_span :: source_span
  sc_vendor :: "string option"
  sc_argument_count :: nat
  sc_signature_valid :: "bool option"
  sc_bindings :: "argument_binding list"

record assignment_check =
  ac_span :: source_span
  ac_target_type :: "string option"
  ac_value_type :: "string option"
  ac_compatibility :: type_compatibility

record semantic_access =
  sa_path :: string
  sa_span :: source_span
  sa_status :: access_status
  sa_data_type :: "string option"
  sa_dimensions :: "string option"

record expression_type =
  et_span :: source_span
  et_status :: type_status
  et_data_type :: "string option"
  et_dimensions :: "string option"

datatype neutral_operation =
  NeutralOperation (no_kind: operation_kind) (no_span: source_span) (no_detail: "string option")
    (no_children: "neutral_operation list")

record sem_context =
  cx_symbols :: "semantic_symbol list"
  cx_types :: "semantic_type list"
  cx_call_rules :: "call_rule list"
  cx_conversion_policy :: conversion_policy

record sem_state =
  ss_references :: "symbol_reference list"
  ss_accesses :: "semantic_access list"
  ss_expression_types :: "expression_type list"
  ss_calls :: "semantic_call list"
  ss_assignments :: "assignment_check list"
  ss_diagnostics :: "st_diagnostic list"

record st_semantics =
  sem_document :: st_document
  sem_type_definitions :: "semantic_type list"
  sem_references :: "symbol_reference list"
  sem_accesses :: "semantic_access list"
  sem_expression_types :: "expression_type list"
  sem_calls :: "semantic_call list"
  sem_assignments :: "assignment_check list"
  sem_operations :: "neutral_operation list"
  sem_diagnostics :: "st_diagnostic list"

record type_value =
  tv_data_type :: "string option"
  tv_dimensions :: "string option"
  tv_status :: type_status
  tv_generic_dimensions :: bool

abbreviation TypeValue :: "string option \<Rightarrow> string option \<Rightarrow> type_status \<Rightarrow> type_value" where
  "TypeValue d n st \<equiv>
     \<lparr>tv_data_type = d, tv_dimensions = n, tv_status = st, tv_generic_dimensions = False\<rparr>"

abbreviation unknown_value :: type_value where
  "unknown_value \<equiv> TypeValue None None TS_UNKNOWN"

abbreviation known_value :: "string \<Rightarrow> type_value" where
  "known_value d \<equiv> TypeValue (Some d) None TS_KNOWN"

section \<open>Types and dimensions\<close>

definition or_empty :: "string option \<Rightarrow> string" where
  "or_empty x = (case x of None \<Rightarrow> [] | Some s \<Rightarrow> s)"

definition integer_types :: "string list" where
  "integer_types =
     [''SINT'', ''USINT'', ''INT'', ''UINT'', ''DINT'', ''UDINT'', ''LINT'', ''ULINT'']"

definition is_integer_type :: "string option \<Rightarrow> bool" where
  "is_integer_type t = (py_upper (or_empty t) \<in> set integer_types)"

definition is_numeric_type :: "string option \<Rightarrow> bool" where
  "is_numeric_type t = (is_integer_type t \<or> py_upper (or_empty t) \<in> {''REAL'', ''LREAL''})"

definition is_string_type :: "string \<Rightarrow> bool" where
  "is_string_type t = (t = ''STRING'' \<or> startswith ''STR_'' t)"

definition is_array_dimension :: "string \<Rightarrow> bool" where
  "is_array_dimension value =
     list_ex (\<lambda>item. str_isdigit (py_strip item) \<and> 0 < digits_value (py_strip item))
       (split_on CHR '','' value)"

definition dimension_rank :: "string option \<Rightarrow> nat" where
  "dimension_rank x = (case x of None \<Rightarrow> 0 | Some v \<Rightarrow> length (split_on CHR '','' v))"

definition dimensions_compatible :: "string option \<Rightarrow> string option \<Rightarrow> bool \<Rightarrow> bool" where
  "dimensions_compatible expected actual generic =
     (let ea = (case expected of None \<Rightarrow> False | Some v \<Rightarrow> is_array_dimension v);
          aa = (case actual of None \<Rightarrow> False | Some v \<Rightarrow> is_array_dimension v)
      in if ea \<noteq> aa then False
         else if \<not> ea then True
         else if generic then dimension_rank expected = dimension_rank actual
         else expected = actual)"

definition literal_type :: "string \<Rightarrow> type_value" where
  "literal_type value =
     (let prefix = py_upper (takeWhile (\<lambda>c. c \<noteq> CHR ''#'') value)
      in if py_upper value \<in> {''TRUE'', ''FALSE''} then known_value ''BOOL''
         else if startswith [quote] value \<or> startswith [double_quote] value then known_value ''STRING''
         else if CHR ''#'' \<in> set value \<and> str_isidentifier prefix then known_value prefix
         else if list_ex (\<lambda>c. c \<in> set ''.eE'') value then known_value ''REAL''
         else known_value ''DINT'')"

definition numeric_order :: "string list" where
  "numeric_order = [''SINT'', ''USINT'', ''INT'', ''UINT'', ''DINT'', ''UDINT'', ''LINT'', ''ULINT'',
                    ''REAL'', ''LREAL'']"

text \<open>\<open>order.index\<close>, for an element of the order.\<close>

definition numeric_rank :: "string \<Rightarrow> nat" where
  "numeric_rank t = length (takeWhile (\<lambda>u. u \<noteq> t) numeric_order)"

definition promote_numeric :: "string option \<Rightarrow> string option \<Rightarrow> string option" where
  "promote_numeric left right =
     (let normalized = map (py_upper \<circ> the) (filter (\<lambda>x. x \<noteq> None) [left, right])
      in if normalized = [] \<or> \<not> list_all (\<lambda>t. t \<in> set numeric_order) normalized then None
         else Some (foldl (\<lambda>a b. if numeric_rank a < numeric_rank b then b else a)
                      (hd normalized) (tl normalized)))"

definition binary_type :: "string \<Rightarrow> type_value \<Rightarrow> type_value \<Rightarrow> type_value" where
  "binary_type operator left right =
     (let normalized = py_upper operator
      in if normalized \<in> {''='', ''<>'', ''<'', ''<='', ''>'', ''>=''} then known_value ''BOOL''
         else if normalized \<in> {''AND'', ''OR'', ''XOR'', ''&'', ''|'', ''^''}
         then (if tv_data_type left = tv_data_type right then left else unknown_value)
         else case promote_numeric (tv_data_type left) (tv_data_type right) of
                None \<Rightarrow> unknown_value
              | Some t \<Rightarrow> known_value t)"

definition compatibility :: "conversion_policy \<Rightarrow> type_value \<Rightarrow> type_value \<Rightarrow> type_compatibility" where
  "compatibility pol expected actual =
     (case (tv_data_type expected, tv_data_type actual) of
        (Some e, Some a) \<Rightarrow>
          if tv_status expected \<noteq> TS_KNOWN \<or> tv_status actual \<noteq> TS_KNOWN then TC_UNKNOWN
          else if \<not> dimensions_compatible (tv_dimensions expected) (tv_dimensions actual)
                      (tv_generic_dimensions expected) then TC_INCOMPATIBLE
          else let en = py_upper e; an = py_upper a
               in if en = an then TC_EXACT
                  else if po_bit_bool_equivalent pol \<and> {en, an} \<subseteq> {''BIT'', ''BOOL''} then TC_IMPLICIT
                  else if po_implicit_numeric_boolean pol \<and> en \<in> {''BIT'', ''BOOL''} \<and>
                          is_integer_type (Some an) then TC_IMPLICIT
                  else if po_string_family_compatible pol \<and> an = ''STRING'' \<and> is_string_type en
                       then TC_IMPLICIT
                  else if po_implicit_numeric pol \<and> is_numeric_type (Some en) \<and>
                          is_numeric_type (Some an) then TC_IMPLICIT
                  else TC_INCOMPATIBLE
      | _ \<Rightarrow> TC_UNKNOWN)"

fun is_assignable :: "expr \<Rightarrow> bool" where
  "is_assignable (NameExpression sp n) = True"
| "is_assignable (MemberExpression sp t m) = True"
| "is_assignable (IndexExpression sp t is op) = True"
| "is_assignable e = False"

fun expression_name :: "expr \<Rightarrow> string" where
  "expression_name (NameExpression sp n) = n"
| "expression_name (MemberExpression sp t m) = expression_name t @ ''.'' @ m"
| "expression_name (IndexExpression sp t is op) = expression_name t @ op"
| "expression_name e = ''<expression>''"

section \<open>Lookups\<close>

definition symbol_of :: "sem_context \<Rightarrow> string \<Rightarrow> semantic_symbol option" where
  "symbol_of C n = dict_of (py_casefold \<circ> sy_name) (cx_symbols C) (py_casefold n)"

definition rule_of :: "sem_context \<Rightarrow> string \<Rightarrow> call_rule option" where
  "rule_of C n = dict_of (py_casefold \<circ> cr_source_name) (cx_call_rules C) (py_casefold n)"

definition type_of :: "sem_context \<Rightarrow> string \<Rightarrow> semantic_type option" where
  "type_of C n = dict_of (py_casefold \<circ> ty_name) (cx_types C) (py_casefold n)"

definition sem_diagnostic :: "string \<Rightarrow> string \<Rightarrow> source_span \<Rightarrow> sem_state \<Rightarrow> sem_state" where
  "sem_diagnostic c m sp s = s\<lparr>ss_diagnostics := ss_diagnostics s @ [STDiagnostic c m sp]\<rparr>"

definition declared_status :: "string option \<Rightarrow> type_status" where
  "declared_status t = (if t \<noteq> None then TS_KNOWN else TS_UNKNOWN)"

section \<open>The analyser\<close>

definition sem_reference :: "sem_context \<Rightarrow> source_span \<Rightarrow> string \<Rightarrow> sem_state \<Rightarrow> type_value \<times> sem_state" where
  "sem_reference C sp n s =
     (let symbol = symbol_of C n;
          s1 = s\<lparr>ss_references := ss_references s @
                 [\<lparr>rf_name = n, rf_span = sp,
                   rf_status = (if symbol \<noteq> None then RS_RESOLVED else RS_UNRESOLVED),
                   rf_symbol = symbol\<rparr>]\<rparr>
      in case symbol of
           None \<Rightarrow> (unknown_value,
             sem_diagnostic ''unresolved_symbol''
               (''symbol '' @ py_repr n @ '' is not declared in this scope'') sp s1)
         | Some y \<Rightarrow> (TypeValue (sy_data_type y) (sy_dimensions y) (declared_status (sy_data_type y)), s1))"

text \<open>The part of \<open>_member\<close> after its target is analysed, up to the record of the access.\<close>

definition member_result ::
  "sem_context \<Rightarrow> source_span \<Rightarrow> string \<Rightarrow> type_value \<Rightarrow> sem_state \<Rightarrow>
     access_status \<times> type_value \<times> sem_state" where
  "member_result C sp mem target s =
     (if str_isdigit mem \<and> is_integer_type (tv_data_type target)
      then (AS_RESOLVED, known_value ''BOOL'', s)
      else case tv_data_type target of
        None \<Rightarrow> (AS_UNVERIFIED, unknown_value, s)
      | Some t \<Rightarrow>
          (case type_of C t of
             None \<Rightarrow> (AS_UNVERIFIED, unknown_value, s)
           | Some ty \<Rightarrow>
               (case find (\<lambda>m. py_casefold (tm_name m) = py_casefold mem) (ty_members ty) of
                  None \<Rightarrow>
                    if ty_complete ty
                    then (AS_INVALID, TypeValue None None TS_INVALID,
                          sem_diagnostic ''invalid_member''
                            (''type '' @ py_repr (ty_name ty) @ '' has no member '' @ py_repr mem) sp s)
                    else (AS_UNVERIFIED, unknown_value, s)
                | Some m \<Rightarrow>
                    (AS_RESOLVED,
                     TypeValue (tm_data_type m) (tm_dimensions m) (declared_status (tm_data_type m)), s))))"

definition record_access ::
  "string \<Rightarrow> source_span \<Rightarrow> access_status \<times> type_value \<times> sem_state \<Rightarrow> type_value \<times> sem_state" where
  "record_access path sp r =
     (case r of (status, result, s) \<Rightarrow>
        (result, s\<lparr>ss_accesses := ss_accesses s @
           [\<lparr>sa_path = path, sa_span = sp, sa_status = status, sa_data_type = tv_data_type result,
             sa_dimensions = tv_dimensions result\<rparr>]\<rparr>))"

text \<open>The part of \<open>_index\<close> after its target is analysed, up to the record of the access.\<close>

definition index_result ::
  "string \<Rightarrow> string \<Rightarrow> source_span \<Rightarrow> type_value \<Rightarrow> sem_state \<Rightarrow> access_status \<times> type_value \<times> sem_state" where
  "index_result path operator sp target s =
     (if operator = ''.[]'' \<and> is_integer_type (tv_data_type target)
      then (AS_RESOLVED, known_value ''BOOL'', s)
      else if tv_status target = TS_INVALID then (AS_INVALID, target, s)
      else if tv_status target = TS_UNKNOWN then (AS_UNVERIFIED, unknown_value, s)
      else case tv_dimensions target of
        None \<Rightarrow> (AS_INVALID, TypeValue None None TS_INVALID,
          sem_diagnostic ''index_on_scalar''
            (py_repr path @ '' indexes a declaration with no array dimensions'') sp s)
      | Some d \<Rightarrow>
          if is_array_dimension d
          then (AS_RESOLVED, TypeValue (tv_data_type target) None (tv_status target), s)
          else (AS_INVALID, TypeValue None None TS_INVALID,
                sem_diagnostic ''index_on_scalar''
                  (py_repr path @ '' indexes scalar dimension '' @ py_repr d) sp s))"

definition or_zero :: "nat option \<Rightarrow> nat" where
  "or_zero x = (case x of None \<Rightarrow> 0 | Some n \<Rightarrow> n)"

definition argument_count_message :: "call_rule \<Rightarrow> nat \<Rightarrow> string" where
  "argument_count_message rule given =
     (let minimum = cr_minimum_arguments rule; maximum = cr_maximum_arguments rule;
          expected = (if minimum = maximum then nat_str (or_zero minimum)
                      else nat_str (or_zero minimum) @ ''..'' @
                           (if or_zero maximum = 0 then ''unbounded'' else nat_str (or_zero maximum)))
      in ''call '' @ py_repr (cr_source_name rule) @ '' has '' @ nat_str given @
         '' arguments; expected '' @ expected)"

definition validate_signature ::
  "source_span \<Rightarrow> nat \<Rightarrow> call_rule \<Rightarrow> sem_state \<Rightarrow> bool option \<times> sem_state" where
  "validate_signature sp given rule s =
     (let minimum = cr_minimum_arguments rule; maximum = cr_maximum_arguments rule
      in if minimum = None \<and> maximum = None then (None, s)
         else let valid = ((case minimum of None \<Rightarrow> True | Some m \<Rightarrow> m \<le> given) \<and>
                           (case maximum of None \<Rightarrow> True | Some m \<Rightarrow> given \<le> m))
              in (Some valid,
                  if valid then s
                  else sem_diagnostic ''invalid_argument_count'' (argument_count_message rule given) sp s))"

text \<open>The body of the loop of \<open>_bind_arguments\<close> once the argument's value is analysed.\<close>

definition bind_argument ::
  "sem_context \<Rightarrow> source_span \<Rightarrow> expr \<Rightarrow> call_parameter \<Rightarrow> type_value \<Rightarrow> sem_state \<Rightarrow>
     argument_binding \<times> sem_state" where
  "bind_argument C sp value parameter actual s =
     (let expected = \<lparr>tv_data_type = cp_data_type parameter, tv_dimensions = cp_dimensions parameter,
                      tv_status = declared_status (cp_data_type parameter),
                      tv_generic_dimensions = cp_generic_dimensions parameter\<rparr>;
          compat = compatibility (cx_conversion_policy C) expected actual;
          s1 = (if cp_direction parameter \<in> {Some ''Output'', Some ''InOut''} \<and> \<not> is_assignable value
                then sem_diagnostic ''non_assignable_output_argument''
                       (''argument for '' @ or_empty (cp_direction parameter) @ '' parameter '' @
                        py_repr (cp_name parameter) @ '' is not assignable'') sp s
                else s);
          s2 = (if compat = TC_INCOMPATIBLE
                then sem_diagnostic ''incompatible_argument''
                       (''argument for parameter '' @ py_repr (cp_name parameter) @ '' has type '' @
                        repr_opt (tv_data_type actual) @ ''; expected '' @
                        repr_opt (cp_data_type parameter)) sp s1
                else s1)
      in (\<lparr>ab_parameter_name = cp_name parameter, ab_direction = cp_direction parameter,
           ab_expected_type = cp_data_type parameter, ab_actual_type = tv_data_type actual,
           ab_compatibility = compat, ab_span = sp\<rparr>, s2))"

definition instance_parameter :: "string \<Rightarrow> call_parameter" where
  "instance_parameter t =
     \<lparr>cp_name = ''@instance'', cp_data_type = Some t, cp_direction = Some ''InOut'',
      cp_dimensions = None, cp_generic_dimensions = False\<rparr>"

definition contracts :: "call_rule \<Rightarrow> call_parameter list" where
  "contracts rule =
     (case cr_instance_data_type rule of None \<Rightarrow> [] | Some t \<Rightarrow> [instance_parameter t]) @
     cr_parameters rule"

text \<open>The \<open>SemanticCall\<close> recorded by \<open>_call\<close> in its three cases.\<close>

definition make_call ::
  "sem_context \<Rightarrow> source_span \<Rightarrow> expr \<Rightarrow> nat \<Rightarrow> bool option \<Rightarrow> argument_binding list \<Rightarrow> semantic_call" where
  "make_call C sp callee given valid bindings =
     (let source_name = expression_name callee
      in case rule_of C source_name of
           Some rule \<Rightarrow>
             \<lparr>sc_source_name = source_name, sc_neutral_name = cr_neutral_name rule,
              sc_kind = cr_kind rule, sc_span = sp, sc_vendor = cr_vendor rule,
              sc_argument_count = given, sc_signature_valid = valid, sc_bindings = bindings\<rparr>
         | None \<Rightarrow>
             \<lparr>sc_source_name = source_name, sc_neutral_name = source_name,
              sc_kind = (case callee of
                  NameExpression nsp n \<Rightarrow>
                    if symbol_of C source_name \<noteq> None then CK_FUNCTION_BLOCK_INSTANCE else CK_UNKNOWN
                | _ \<Rightarrow> CK_UNKNOWN),
              sc_span = sp, sc_vendor = None, sc_argument_count = given, sc_signature_valid = None,
              sc_bindings = []\<rparr>)"

definition call_result :: "call_rule option \<Rightarrow> (nat \<times> type_value) list \<Rightarrow> type_value" where
  "call_result rule argument_types =
     (case rule of
        None \<Rightarrow> unknown_value
      | Some r \<Rightarrow>
          (case cr_result_type r of
             Some t \<Rightarrow> known_value t
           | None \<Rightarrow>
               (case cr_result_from_argument r of
                  None \<Rightarrow> unknown_value
                | Some i \<Rightarrow>
                    (case map_of argument_types i of None \<Rightarrow> unknown_value | Some v \<Rightarrow> v))))"

definition record_type :: "source_span \<Rightarrow> type_value \<times> sem_state \<Rightarrow> type_value \<times> sem_state" where
  "record_type sp r =
     (case r of (v, s) \<Rightarrow>
        (v, s\<lparr>ss_expression_types := ss_expression_types s @
              [\<lparr>et_span = sp, et_status = tv_status v, et_data_type = tv_data_type v,
                et_dimensions = tv_dimensions v\<rparr>]\<rparr>))"

definition record_call :: "semantic_call \<Rightarrow> sem_state \<Rightarrow> sem_state" where
  "record_call c s = s\<lparr>ss_calls := ss_calls s @ [c]\<rparr>"

text \<open>
  \<open>_expression\<close> with the recursive parts of \<open>_member\<close>, \<open>_index\<close> and \<open>_call\<close>:
  \<open>sem_indices\<close> is the loop over the indices, \<open>sem_bound\<close> the loop of
  \<open>_bind_arguments\<close> over arguments and parameters side by side, and \<open>sem_rest\<close> the loop of
  \<open>_call\<close> over the arguments from the first unbound one that are not opaque.
\<close>

fun sem_expr :: "sem_context \<Rightarrow> expr \<Rightarrow> sem_state \<Rightarrow> type_value \<times> sem_state"
  and sem_indices :: "sem_context \<Rightarrow> expr list \<Rightarrow> sem_state \<Rightarrow> sem_state"
  and sem_bound :: "sem_context \<Rightarrow> call_argument list \<Rightarrow> call_parameter list \<Rightarrow> sem_state \<Rightarrow>
        argument_binding list \<times> sem_state"
  and sem_rest :: "sem_context \<Rightarrow> nat set \<Rightarrow> nat \<Rightarrow> nat \<Rightarrow> call_argument list \<Rightarrow> sem_state \<Rightarrow>
        (nat \<times> type_value) list \<times> sem_state" where
  "sem_expr C (NameExpression sp n) s = record_type sp (sem_reference C sp n s)"
| "sem_expr C (LiteralExpression sp v) s = record_type sp (literal_type v, s)"
| "sem_expr C (MissingExpression sp) s = record_type sp (unknown_value, s)"
| "sem_expr C (DirectAddressExpression sp a) s = record_type sp (unknown_value, s)"
| "sem_expr C (UnaryExpression sp op e) s = record_type sp (sem_expr C e s)"
| "sem_expr C (BinaryExpression sp l op r) s =
     (let (left, s1) = sem_expr C l s; (right, s2) = sem_expr C r s1
      in record_type sp (binary_type op left right, s2))"
| "sem_expr C (MemberExpression sp t m) s =
     (let (target, s1) = sem_expr C t s
      in record_type sp (record_access (expression_name (MemberExpression sp t m)) sp
           (member_result C sp m target s1)))"
| "sem_expr C (IndexExpression sp t is op) s =
     (let (target, s1) = sem_expr C t s;
          path = expression_name (IndexExpression sp t is op);
          (result, s2) = record_access path sp (index_result path op sp target s1)
      in record_type sp (result, sem_indices C is s2))"
| "sem_expr C (ParenthesizedExpression sp e) s = record_type sp (sem_expr C e s)"
| "sem_expr C (CallExpression sp callee args) s =
     (let rule = rule_of C (expression_name callee);
          (valid, s1) = (case rule of None \<Rightarrow> (None, s) | Some r \<Rightarrow> validate_signature sp (length args) r s);
          (bindings, s2) = sem_bound C args (case rule of None \<Rightarrow> [] | Some r \<Rightarrow> contracts r) s1;
          call = make_call C sp callee (length args) valid bindings;
          s3 = (if rule = None \<and> sc_kind call = CK_UNKNOWN
                then sem_diagnostic ''unknown_call''
                       (''call '' @ py_repr (expression_name callee) @ '' has no declared semantic rule'')
                       (expr_span callee) s2
                else s2);
          s4 = record_call call s3;
          s5 = (case callee of NameExpression nsp n \<Rightarrow> s4 | _ \<Rightarrow> snd (sem_expr C callee s4));
          opaque = (case rule of None \<Rightarrow> {} | Some r \<Rightarrow> cr_opaque_argument_indices r);
          (types, s6) = sem_rest C opaque (length (sc_bindings call)) 0 args s5
      in record_type sp (call_result rule types, s6))"
| "sem_indices C [] s = s"
| "sem_indices C (i # is) s = sem_indices C is (snd (sem_expr C i s))"
| "sem_bound C (CallArgument sp v nm d # args) (p # ps) s =
     (let (actual, s1) = sem_expr C v s;
          (b, s2) = bind_argument C sp v p actual s1;
          (bs, s3) = sem_bound C args ps s2
      in (b # bs, s3))"
| "sem_bound C [] ps s = ([], s)"
| "sem_bound C args [] s = ([], s)"
| "sem_rest C opaque bound i [] s = ([], s)"
| "sem_rest C opaque bound i (CallArgument sp v nm d # args) s =
     (if i \<notin> opaque \<and> bound \<le> i
      then let (t, s1) = sem_expr C v s; (ts, s2) = sem_rest C opaque bound (Suc i) args s1
           in ((i, t) # ts, s2)
      else sem_rest C opaque bound (Suc i) args s)"

fun sem_stmt :: "sem_context \<Rightarrow> stmt \<Rightarrow> sem_state \<Rightarrow> neutral_operation \<times> sem_state"
  and sem_stmts :: "sem_context \<Rightarrow> stmt list \<Rightarrow> sem_state \<Rightarrow> neutral_operation list \<times> sem_state"
  and sem_branches :: "sem_context \<Rightarrow> if_branch list \<Rightarrow> sem_state \<Rightarrow> neutral_operation list \<times> sem_state"
  where
  "sem_stmt C (AssignmentStatement sp t op v) s =
     (let (target, s1) = sem_expr C t s; (value, s2) = sem_expr C v s1;
          compat = compatibility (cx_conversion_policy C) target value;
          s3 = s2\<lparr>ss_assignments := ss_assignments s2 @
                [\<lparr>ac_span = sp, ac_target_type = tv_data_type target, ac_value_type = tv_data_type value,
                  ac_compatibility = compat\<rparr>]\<rparr>;
          s4 = (if compat = TC_INCOMPATIBLE
                then sem_diagnostic ''incompatible_assignment''
                       (''cannot assign '' @ repr_opt (tv_data_type value) @ '' to '' @
                        repr_opt (tv_data_type target)) sp s3
                else s3)
      in (NeutralOperation OK_ASSIGN sp (Some op) [], s4))"
| "sem_stmt C (ExpressionStatement sp e) s =
     (NeutralOperation OK_CALL sp (Some (expression_name e)) [], snd (sem_expr C e s))"
| "sem_stmt C (IfStatement sp bs es) s =
     (let (xs, s1) = sem_branches C bs s; (ys, s2) = sem_stmts C es s1
      in (NeutralOperation OK_CONDITIONAL sp None (xs @ ys), s2))"
| "sem_stmt C (WhileStatement sp c body) s =
     (let (xs, s1) = sem_stmts C body (snd (sem_expr C c s))
      in (NeutralOperation OK_LOOP sp None xs, s1))"
| "sem_stmt C (ExitStatement sp) s = (NeutralOperation OK_EXIT sp None [], s)"
| "sem_stmt C (LabelStatement sp n) s = (NeutralOperation OK_LABEL sp (Some n) [], s)"
| "sem_stmt C (JumpStatement sp l) s = (NeutralOperation OK_JUMP sp (Some l) [], s)"
| "sem_stmt C (UnsupportedStatement sp t) s = (NeutralOperation OK_UNSUPPORTED sp (Some t) [], s)"
| "sem_stmts C [] s = ([], s)"
| "sem_stmts C (st # sts) s =
     (let (x, s1) = sem_stmt C st s; (xs, s2) = sem_stmts C sts s1 in (x # xs, s2))"
| "sem_branches C [] s = ([], s)"
| "sem_branches C (IfBranch sp c body # bs) s =
     (let (xs, s1) = sem_stmts C body (snd (sem_expr C c s)); (ys, s2) = sem_branches C bs s1
      in (xs @ ys, s2))"

definition init_semantics :: sem_state where
  "init_semantics = \<lparr>ss_references = [], ss_accesses = [], ss_expression_types = [], ss_calls = [],
     ss_assignments = [], ss_diagnostics = []\<rparr>"

definition analyze_semantics :: "st_document \<Rightarrow> sem_context \<Rightarrow> st_semantics" where
  "analyze_semantics d C =
     (let (operations, s) = sem_stmts C (doc_statements d) init_semantics
      in \<lparr>sem_document = d, sem_type_definitions = cx_types C, sem_references = ss_references s,
          sem_accesses = ss_accesses s, sem_expression_types = ss_expression_types s,
          sem_calls = ss_calls s, sem_assignments = ss_assignments s, sem_operations = operations,
          sem_diagnostics = ss_diagnostics s\<rparr>)"

end
