(* ===== verification/Project_Model.thy ===== *)
theory Project_Model imports Py_Text begin

text \<open>
  The part of the vendor-neutral project model that the analyses of controller logic read:
  routines, tags, datatypes, Add-On Instructions, programs and the controller of
  \<open>model/*.py\<close>, with the operations that fill their dictionaries. A dictionary whose key is
  the name of its value is the list of its values in insertion order. The \<open>parent\<close> back
  references, which nothing below reads, are not kept, and a \<open>ValueError\<close> is the \<open>Inl\<close> of
  its message.
\<close>

section \<open>Records\<close>

text \<open>A routine with the texts of its \<open>structured_text_lines\<close>.\<close>

record routine =
  ru_name :: string
  ru_language :: "string option"
  ru_lines :: "string list"

definition structured_text :: "routine \<Rightarrow> string" where
  "structured_text r = join [CHR 0x0A] (ru_lines r)"

record datatype_member =
  dm_name :: string
  dm_data_type_name :: "string option"
  dm_dimension :: "string option"
  dm_target :: "string option"
  dm_bit_number :: "int option"
  dm_description :: "string option"

record model_datatype =
  md_name :: string
  md_members :: "datatype_member list"

record model_tag =
  tg_name :: string
  tg_data_type :: "string option"
  tg_dimensions :: "string option"

text \<open>The values of defaults are of any type \<open>'v\<close>; the lowering only copies them.\<close>

record 'v tag_value =
  tv_value :: 'v
  tv_lexical_value :: string

record 'v aoi_parameter =
  ap_name :: string
  ap_data_type :: "string option"
  ap_resolved_data_type :: "string option"
  ap_usage :: "string option"
  ap_dimensions :: "string option"
  ap_required :: "bool option"
  ap_visible :: "bool option"
  ap_default_value :: "'v tag_value option"

text \<open>\<open>data_type or resolved_data_type\<close>.\<close>

definition effective_data_type :: "'v aoi_parameter \<Rightarrow> string option" where
  "effective_data_type p =
     (case ap_data_type p of
        None \<Rightarrow> ap_resolved_data_type p
      | Some t \<Rightarrow> if t = [] then ap_resolved_data_type p else Some t)"

record 'v add_on_instruction =
  ao_name :: string
  ao_vendor :: "string option"
  ao_execute_prescan :: "bool option"
  ao_execute_postscan :: "bool option"
  ao_execute_enable_in_false :: "bool option"
  ao_parameters :: "'v aoi_parameter list"
  ao_routines :: "routine list"
  ao_scan_mode_routines :: "routine list"
  ao_local_tags :: "model_tag list"

definition iter_aoi_routines :: "'v add_on_instruction \<Rightarrow> routine list" where
  "iter_aoi_routines a = ao_routines a @ ao_scan_mode_routines a"

record program =
  pg_name :: string
  pg_routines :: "routine list"
  pg_tags :: "model_tag list"
  pg_main_routine :: "routine option"

record 'v controller =
  ct_name :: string
  ct_programs :: "program list"
  ct_tags :: "model_tag list"
  ct_datatypes :: "model_datatype list"
  ct_add_on_instructions :: "'v add_on_instruction list"

section \<open>Operations\<close>

text \<open>
  What every \<open>add_\<close> method does to its dictionary: refuse a name that is there, else append.
\<close>

definition add_named :: "('a \<Rightarrow> string) \<Rightarrow> string \<Rightarrow> 'a \<Rightarrow> 'a list \<Rightarrow> string + 'a list" where
  "add_named name what x xs =
     (if name x \<in> name ` set xs
      then Inl (what @ CHR '' '' # [quote] @ name x @ [quote] @ '' already exists'')
      else Inr (xs @ [x]))"

definition aoi_add_parameter ::
  "'v aoi_parameter \<Rightarrow> 'v add_on_instruction \<Rightarrow> string + 'v add_on_instruction" where
  "aoi_add_parameter x a =
     map_sum id (\<lambda>xs. a\<lparr>ao_parameters := xs\<rparr>) (add_named ap_name ''Parameter'' x (ao_parameters a))"

definition aoi_add_routine :: "routine \<Rightarrow> 'v add_on_instruction \<Rightarrow> string + 'v add_on_instruction" where
  "aoi_add_routine x a =
     map_sum id (\<lambda>xs. a\<lparr>ao_routines := xs\<rparr>) (add_named ru_name ''Routine'' x (ao_routines a))"

definition aoi_add_scan_mode_routine ::
  "routine \<Rightarrow> 'v add_on_instruction \<Rightarrow> string + 'v add_on_instruction" where
  "aoi_add_scan_mode_routine x a =
     map_sum id (\<lambda>xs. a\<lparr>ao_scan_mode_routines := xs\<rparr>)
       (add_named ru_name ''Scan mode routine'' x (ao_scan_mode_routines a))"

definition aoi_add_local_tag :: "model_tag \<Rightarrow> 'v add_on_instruction \<Rightarrow> string + 'v add_on_instruction" where
  "aoi_add_local_tag x a =
     map_sum id (\<lambda>xs. a\<lparr>ao_local_tags := xs\<rparr>) (add_named tg_name ''Local tag'' x (ao_local_tags a))"

definition set_main_routine :: "routine \<Rightarrow> program \<Rightarrow> string + program" where
  "set_main_routine r p =
     (if ru_name r \<notin> ru_name ` set (pg_routines p) then Inl ''Routine must belong to this program.''
      else Inr (p\<lparr>pg_main_routine := Some r\<rparr>))"

text \<open>The first routine added becomes the main routine.\<close>

definition program_add_routine :: "routine \<Rightarrow> program \<Rightarrow> string + program" where
  "program_add_routine r p =
     (case add_named ru_name ''Routine'' r (pg_routines p) of
        Inl e \<Rightarrow> Inl e
      | Inr rs \<Rightarrow>
          let q = p\<lparr>pg_routines := rs\<rparr>
          in if pg_main_routine q = None then set_main_routine r q else Inr q)"

definition program_add_tag :: "model_tag \<Rightarrow> program \<Rightarrow> string + program" where
  "program_add_tag x p =
     map_sum id (\<lambda>xs. p\<lparr>pg_tags := xs\<rparr>) (add_named tg_name ''Tag'' x (pg_tags p))"

definition find_named :: "('a \<Rightarrow> string) \<Rightarrow> string \<Rightarrow> 'a list \<Rightarrow> 'a option" where
  "find_named name n xs = find (\<lambda>x. name x = n) xs"

definition get_routine :: "string \<Rightarrow> program \<Rightarrow> routine option" where
  "get_routine n p = find_named ru_name n (pg_routines p)"

definition get_program_tag :: "string \<Rightarrow> program \<Rightarrow> model_tag option" where
  "get_program_tag n p = find_named tg_name n (pg_tags p)"

definition controller_add_program :: "program \<Rightarrow> 'v controller \<Rightarrow> string + 'v controller" where
  "controller_add_program x c =
     map_sum id (\<lambda>xs. c\<lparr>ct_programs := xs\<rparr>) (add_named pg_name ''Program'' x (ct_programs c))"

definition controller_add_tag :: "model_tag \<Rightarrow> 'v controller \<Rightarrow> string + 'v controller" where
  "controller_add_tag x c =
     map_sum id (\<lambda>xs. c\<lparr>ct_tags := xs\<rparr>) (add_named tg_name ''Tag'' x (ct_tags c))"

definition controller_add_datatype :: "model_datatype \<Rightarrow> 'v controller \<Rightarrow> string + 'v controller" where
  "controller_add_datatype x c =
     map_sum id (\<lambda>xs. c\<lparr>ct_datatypes := xs\<rparr>) (add_named md_name ''Datatype'' x (ct_datatypes c))"

definition controller_add_instruction ::
  "'v add_on_instruction \<Rightarrow> 'v controller \<Rightarrow> string + 'v controller" where
  "controller_add_instruction x c =
     map_sum id (\<lambda>xs. c\<lparr>ct_add_on_instructions := xs\<rparr>)
       (add_named ao_name ''Add-On Instruction'' x (ct_add_on_instructions c))"

section \<open>The law of the containers\<close>

text \<open>Adding a list of values one after another, up to the first refusal.\<close>

fun add_all :: "('a \<Rightarrow> 's \<Rightarrow> string + 's) \<Rightarrow> 'a list \<Rightarrow> 's \<Rightarrow> string + 's" where
  "add_all add [] s = Inr s"
| "add_all add (x # xs) s = (case add x s of Inl e \<Rightarrow> Inl e | Inr t \<Rightarrow> add_all add xs t)"

locale named_container =
  fixes name :: "'a \<Rightarrow> string" and entries :: "'s \<Rightarrow> 'a list" and add :: "'a \<Rightarrow> 's \<Rightarrow> string + 's"
  assumes add_new: "name x \<notin> name ` set (entries s) \<Longrightarrow> \<exists>t. add x s = Inr t \<and> entries t = entries s @ [x]"
    and add_known: "name x \<in> name ` set (entries s) \<Longrightarrow> \<exists>e. add x s = Inl e"
begin

lemma add_keeps_distinct: "add x s = Inr t \<Longrightarrow> distinct (map name (entries s)) \<Longrightarrow> distinct (map name (entries t))"
  using add_new [of x s] add_known [of x s] by (cases "name x \<in> name ` set (entries s)") auto

lemma add_all_entries: "add_all add xs s = Inr t \<Longrightarrow> entries t = entries s @ xs"
proof (induction xs arbitrary: s)
  case (Cons x xs)
  then show ?case
    using add_new [of x s] add_known [of x s]
    by (cases "name x \<in> name ` set (entries s)") (fastforce split: sum.splits)+
qed simp

text \<open>A sequence of additions succeeds exactly when no name comes twice.\<close>

lemma add_all_iff:
  "distinct (map name (entries s)) \<Longrightarrow>
     (\<exists>t. add_all add xs s = Inr t) \<longleftrightarrow> distinct (map name (entries s @ xs))"
proof (induction xs arbitrary: s)
  case (Cons x xs)
  show ?case
  proof (cases "name x \<in> name ` set (entries s)")
    case True
    with add_known [of x s] show ?thesis by auto
  next
    case False
    then obtain t where t: "add x s = Inr t" "entries t = entries s @ [x]" using add_new by blast
    with False Cons.prems have "distinct (map name (entries t))" by simp
    with Cons.IH t show ?thesis by auto
  qed
qed simp

end

interpretation aoi_parameters: named_container ap_name ao_parameters aoi_add_parameter
  by unfold_locales (auto simp: aoi_add_parameter_def add_named_def)

interpretation aoi_routines: named_container ru_name ao_routines aoi_add_routine
  by unfold_locales (auto simp: aoi_add_routine_def add_named_def)

interpretation aoi_scan_modes: named_container ru_name ao_scan_mode_routines aoi_add_scan_mode_routine
  by unfold_locales (auto simp: aoi_add_scan_mode_routine_def add_named_def)

interpretation aoi_local_tags: named_container tg_name ao_local_tags aoi_add_local_tag
  by unfold_locales (auto simp: aoi_add_local_tag_def add_named_def)

interpretation program_routines: named_container ru_name pg_routines program_add_routine
  by unfold_locales (auto simp: program_add_routine_def set_main_routine_def add_named_def Let_def)

interpretation program_tags: named_container tg_name pg_tags program_add_tag
  by unfold_locales (auto simp: program_add_tag_def add_named_def)

interpretation controller_programs: named_container pg_name ct_programs controller_add_program
  by unfold_locales (auto simp: controller_add_program_def add_named_def)

interpretation controller_tags: named_container tg_name ct_tags controller_add_tag
  by unfold_locales (auto simp: controller_add_tag_def add_named_def)

interpretation controller_datatypes: named_container md_name ct_datatypes controller_add_datatype
  by unfold_locales (auto simp: controller_add_datatype_def add_named_def)

interpretation controller_instructions:
    named_container ao_name ct_add_on_instructions controller_add_instruction
  by unfold_locales (auto simp: controller_add_instruction_def add_named_def)

text \<open>The main routine of a program is always one of its routines, by name.\<close>

definition main_routine_known :: "program \<Rightarrow> bool" where
  "main_routine_known p =
     (case pg_main_routine p of None \<Rightarrow> pg_routines p = []
      | Some r \<Rightarrow> ru_name r \<in> ru_name ` set (pg_routines p))"

lemma program_add_routine_main:
  "program_add_routine r p = Inr q \<Longrightarrow> main_routine_known p \<Longrightarrow> main_routine_known q \<and>
     (pg_main_routine q = (if pg_routines p = [] then Some r else pg_main_routine p))"
  by (auto simp: program_add_routine_def set_main_routine_def add_named_def main_routine_known_def Let_def
      split: if_splits option.splits)

end
