(* ===== verification/Logix_Rules.thy ===== *)
theory Logix_Rules imports ST_Semantics Project_Model begin

text \<open>
  The declarations under which the analyser reads a Logix project: the built-in structures of
  \<open>knowledge/logix_types.py\<close>, and the symbols, types and call rules that
  \<open>analysis/structured_text_semantics.py\<close> derives from the project model.
\<close>

section \<open>Built-in types\<close>

abbreviation Member :: "string \<Rightarrow> string \<Rightarrow> string \<Rightarrow> type_member" where
  "Member n t d \<equiv> \<lparr>tm_name = n, tm_data_type = Some t, tm_dimensions = Some d\<rparr>"

definition rockwell :: string where
  "rockwell = ''Rockwell Automation''"

definition timer_source :: string where
  "timer_source = ''Studio 5000 Logix Designer Help: Timer instructions and FBD_TIMER''"

definition timer_type :: semantic_type where
  "timer_type =
     \<lparr>ty_name = ''TIMER'',
      ty_members = [Member ''EN'' ''BOOL'' ''0'', Member ''TT'' ''BOOL'' ''0'', Member ''DN'' ''BOOL'' ''0'',
        Member ''PRE'' ''DINT'' ''0'', Member ''ACC'' ''DINT'' ''0''],
      ty_vendor = Some rockwell, ty_source = Some timer_source, ty_complete = True\<rparr>"

definition fbd_timer_type :: semantic_type where
  "fbd_timer_type =
     \<lparr>ty_name = ''FBD_TIMER'',
      ty_members = [Member ''EnableIn'' ''BOOL'' ''0'', Member ''TimerEnable'' ''BOOL'' ''0'',
        Member ''PRE'' ''DINT'' ''0'', Member ''Reset'' ''BOOL'' ''0'', Member ''EnableOut'' ''BOOL'' ''0'',
        Member ''ACC'' ''DINT'' ''0'', Member ''EN'' ''BOOL'' ''0'', Member ''TT'' ''BOOL'' ''0'',
        Member ''DN'' ''BOOL'' ''0'', Member ''Status'' ''DINT'' ''0'',
        Member ''InstructFault'' ''BOOL'' ''0'', Member ''PresetInv'' ''BOOL'' ''0''],
      ty_vendor = Some rockwell, ty_source = Some timer_source, ty_complete = True\<rparr>"

definition string_type :: semantic_type where
  "string_type =
     \<lparr>ty_name = ''STRING'', ty_members = [Member ''LEN'' ''DINT'' ''0'', Member ''DATA'' ''SINT'' ''82''],
      ty_vendor = Some rockwell, ty_source = Some ''Studio 5000 Logix Designer Help: String data type'',
      ty_complete = True\<rparr>"

definition message_type :: semantic_type where
  "message_type =
     \<lparr>ty_name = ''MESSAGE'',
      ty_members = [Member ''Class'' ''INT'' ''0'', Member ''Instance'' ''DINT'' ''0'',
        Member ''Attribute'' ''DINT'' ''0'', Member ''REQ_LEN'' ''INT'' ''0'', Member ''Path'' ''STRING'' ''0'',
        Member ''EN'' ''BOOL'' ''0'', Member ''DN'' ''BOOL'' ''0'', Member ''ER'' ''BOOL'' ''0''],
      ty_vendor = Some rockwell, ty_source = Some ''Studio 5000 Logix Designer Help: MESSAGE Structure'',
      ty_complete = False\<rparr>"

definition logix_builtin_types :: "semantic_type list" where
  "logix_builtin_types = [timer_type, fbd_timer_type, string_type, message_type]"

section \<open>Call rules\<close>

text \<open>A \<open>CallRule\<close> with the defaults of its optional fields.\<close>

definition call_rule_for :: "string \<Rightarrow> call_kind \<Rightarrow> string \<Rightarrow> call_rule" where
  "call_rule_for n k neutral =
     \<lparr>cr_source_name = n, cr_kind = k, cr_neutral_name = neutral, cr_vendor = None,
      cr_opaque_argument_indices = {}, cr_minimum_arguments = None, cr_maximum_arguments = None,
      cr_result_type = None, cr_result_from_argument = None, cr_instance_data_type = None,
      cr_parameters = []\<rparr>"

definition fixed_arguments :: "nat \<Rightarrow> call_rule \<Rightarrow> call_rule" where
  "fixed_arguments n r = r\<lparr>cr_minimum_arguments := Some n, cr_maximum_arguments := Some n\<rparr>"

definition source_call_rules :: "call_rule list" where
  "source_call_rules =
     [(fixed_arguments 3 (call_rule_for ''SIZE'' CK_ARRAY_DIMENSION_QUERY ''array_dimension_query''))
        \<lparr>cr_vendor := Some rockwell\<rparr>,
      (fixed_arguments 4 (call_rule_for ''GSV'' CK_CONTROLLER_OBJECT_READ ''controller_object_read''))
        \<lparr>cr_vendor := Some rockwell, cr_opaque_argument_indices := {0, 1, 2}\<rparr>,
      (fixed_arguments 4 (call_rule_for ''SSV'' CK_CONTROLLER_OBJECT_WRITE ''controller_object_write''))
        \<lparr>cr_vendor := Some rockwell, cr_opaque_argument_indices := {0, 1, 2}\<rparr>,
      (fixed_arguments 1 (call_rule_for ''ABS'' CK_ABSOLUTE_VALUE ''absolute_value''))
        \<lparr>cr_result_from_argument := Some 0\<rparr>,
      (fixed_arguments 3 (call_rule_for ''COP'' CK_MEMORY_COPY ''memory_copy''))
        \<lparr>cr_vendor := Some rockwell\<rparr>,
      (fixed_arguments 1 (call_rule_for ''MSG'' CK_EXPLICIT_MESSAGE ''explicit_message''))
        \<lparr>cr_vendor := Some rockwell\<rparr>,
      (fixed_arguments 3 (call_rule_for ''SWPB'' CK_BYTE_SWAP ''byte_swap''))
        \<lparr>cr_vendor := Some rockwell, cr_opaque_argument_indices := {1}\<rparr>,
      (fixed_arguments 1 (call_rule_for ''TONR'' CK_RETENTIVE_TIMER ''retentive_timer''))
        \<lparr>cr_vendor := Some rockwell\<rparr>]"

definition logix_conversion_policy :: conversion_policy where
  "logix_conversion_policy =
     \<lparr>po_implicit_numeric = True, po_bit_bool_equivalent = True, po_implicit_numeric_boolean = True,
      po_string_family_compatible = True\<rparr>"

definition required_parameters :: "'v add_on_instruction \<Rightarrow> 'v aoi_parameter list" where
  "required_parameters a =
     filter (\<lambda>p. ap_required p = Some True \<and> py_casefold (ap_name p) \<notin> {''enablein'', ''enableout''})
       (ao_parameters a)"

definition call_parameter_of :: "'v aoi_parameter \<Rightarrow> call_parameter" where
  "call_parameter_of p =
     \<lparr>cp_name = ap_name p, cp_data_type = ap_data_type p, cp_direction = ap_usage p,
      cp_dimensions = ap_dimensions p, cp_generic_dimensions = (ap_dimensions p \<noteq> None)\<rparr>"

definition aoi_call_rule :: "'v add_on_instruction \<Rightarrow> call_rule" where
  "aoi_call_rule a =
     (let required = map call_parameter_of (required_parameters a)
      in (fixed_arguments (1 + length required)
            (call_rule_for (ao_name a) CK_USER_DEFINED_INSTRUCTION (ao_name a)))
         \<lparr>cr_instance_data_type := Some (ao_name a), cr_parameters := required\<rparr>)"

definition call_rules :: "'v controller \<Rightarrow> call_rule list" where
  "call_rules c = source_call_rules @ map aoi_call_rule (ct_add_on_instructions c)"

definition routine_rules :: "program \<Rightarrow> call_rule list" where
  "routine_rules p = map (\<lambda>r. call_rule_for (ru_name r) CK_ROUTINE (ru_name r)) (pg_routines p)"

section \<open>Types\<close>

definition semantic_type_of :: "model_datatype \<Rightarrow> semantic_type" where
  "semantic_type_of d =
     \<lparr>ty_name = md_name d,
      ty_members = map (\<lambda>m. \<lparr>tm_name = dm_name m, tm_data_type = dm_data_type_name m,
                              tm_dimensions = dm_dimension m\<rparr>) (md_members d),
      ty_vendor = None, ty_source = Some ''L5X controller data-type definition'', ty_complete = True\<rparr>"

definition aoi_semantic_type :: "'v add_on_instruction \<Rightarrow> semantic_type" where
  "aoi_semantic_type a =
     \<lparr>ty_name = ao_name a,
      ty_members = map (\<lambda>p. \<lparr>tm_name = ap_name p, tm_data_type = ap_data_type p,
                              tm_dimensions = ap_dimensions p\<rparr>)
        (filter (\<lambda>p. py_casefold (or_empty (ap_usage p)) \<noteq> ''inout'') (ao_parameters a)),
      ty_vendor = ao_vendor a, ty_source = Some ''L5X Add-On Instruction parameter definition'',
      ty_complete = False\<rparr>"

definition semantic_types :: "'v controller \<Rightarrow> semantic_type list" where
  "semantic_types c =
     logix_builtin_types @ map aoi_semantic_type (ct_add_on_instructions c) @
     map semantic_type_of (ct_datatypes c)"

section \<open>Symbols\<close>

definition tag_symbol :: "model_tag \<Rightarrow> symbol_kind \<Rightarrow> string \<Rightarrow> semantic_symbol" where
  "tag_symbol t k scope =
     \<lparr>sy_name = tg_name t, sy_kind = k, sy_data_type = tg_data_type t, sy_scope = Some scope,
      sy_dimensions = tg_dimensions t\<rparr>"

definition aoi_owner :: "'v add_on_instruction \<Rightarrow> string" where
  "aoi_owner a = ''AOI:'' @ ao_name a"

definition program_owner :: "program \<Rightarrow> string" where
  "program_owner p = ''Program:'' @ pg_name p"

definition aoi_symbols :: "'v add_on_instruction \<Rightarrow> semantic_symbol list" where
  "aoi_symbols a =
     map (\<lambda>p. \<lparr>sy_name = ap_name p, sy_kind = SK_PARAMETER, sy_data_type = effective_data_type p,
                sy_scope = Some (aoi_owner a), sy_dimensions = ap_dimensions p\<rparr>) (ao_parameters a) @
     map (\<lambda>t. tag_symbol t SK_LOCAL (aoi_owner a)) (ao_local_tags a)"

definition program_symbols :: "program \<Rightarrow> semantic_symbol list" where
  "program_symbols p = map (\<lambda>t. tag_symbol t SK_PROGRAM_TAG (program_owner p)) (pg_tags p)"

definition controller_symbols :: "'v controller \<Rightarrow> semantic_symbol list" where
  "controller_symbols c = map (\<lambda>t. tag_symbol t SK_CONTROLLER_TAG ''Controller'') (ct_tags c)"

text \<open>The contexts of the routines of an instruction and of a program.\<close>

definition aoi_context :: "'v controller \<Rightarrow> 'v add_on_instruction \<Rightarrow> sem_context" where
  "aoi_context c a =
     \<lparr>cx_symbols = controller_symbols c @ aoi_symbols a, cx_types = semantic_types c,
      cx_call_rules = call_rules c, cx_conversion_policy = logix_conversion_policy\<rparr>"

definition program_context :: "'v controller \<Rightarrow> program \<Rightarrow> sem_context" where
  "program_context c p =
     \<lparr>cx_symbols = controller_symbols c @ program_symbols p, cx_types = semantic_types c,
      cx_call_rules = call_rules c @ routine_rules p, cx_conversion_policy = logix_conversion_policy\<rparr>"

end
