(* ===== verification/Project_Analysis.thy ===== *)
theory Project_Analysis
  imports ST_Parser Logix_Rules "HOL-Library.List_Lexorder" "HOL-Library.Char_ord"
begin

text \<open>
  The two reports over a whole controller: parse coverage
  (\<open>analysis/structured_text.py\<close>) and semantic resolution
  (\<open>analysis/structured_text_semantics.py\<close>). Both walk the routines of the Add-On Instructions
  and then of the programs, sorted by case-folded name; \<open>sort_key\<close> is stable, as \<open>sorted\<close> is.
  A report is \<open>None\<close> only where the parser would be; \<open>Project_Facts\<close> shows that it never is.
\<close>

section \<open>Walking the project\<close>

definition by_name :: "('a \<Rightarrow> string) \<Rightarrow> 'a list \<Rightarrow> 'a list" where
  "by_name name xs = sort_key (\<lambda>x. py_casefold (name x)) xs"

definition is_structured_text :: "routine \<Rightarrow> bool" where
  "is_structured_text r = (py_casefold (or_empty (ru_language r)) \<in> {''st'', ''structuredtext''})"

text \<open>
  The loop over sorted routines: those in Structured Text are parsed and handed to \<open>f\<close>.
\<close>

fun parsed_routines :: "(routine \<Rightarrow> st_document \<Rightarrow> 'f) \<Rightarrow> routine list \<Rightarrow> 'f list option" where
  "parsed_routines f [] = Some []"
| "parsed_routines f (r # rs) =
     (if \<not> is_structured_text r then parsed_routines f rs
      else do {
        d \<leftarrow> parse_structured_text (structured_text r);
        xs \<leftarrow> parsed_routines f rs;
        Some (f r d # xs)
      })"

text \<open>The loop over owners, each with its sorted routines.\<close>

fun owner_findings ::
  "('o \<Rightarrow> routine list) \<Rightarrow> ('o \<Rightarrow> routine \<Rightarrow> st_document \<Rightarrow> 'f) \<Rightarrow> 'o list \<Rightarrow> 'f list option" where
  "owner_findings routines f [] = Some []"
| "owner_findings routines f (x # xs) = do {
     ys \<leftarrow> parsed_routines (f x) (by_name ru_name (routines x));
     zs \<leftarrow> owner_findings routines f xs;
     Some (ys @ zs)
   }"

definition project_findings ::
  "('v add_on_instruction \<Rightarrow> routine \<Rightarrow> st_document \<Rightarrow> 'f) \<Rightarrow> (program \<Rightarrow> routine \<Rightarrow> st_document \<Rightarrow> 'f) \<Rightarrow>
     'v controller \<Rightarrow> 'f list option" where
  "project_findings f g c = do {
     xs \<leftarrow> owner_findings iter_aoi_routines f (by_name ao_name (ct_add_on_instructions c));
     ys \<leftarrow> owner_findings pg_routines g (by_name pg_name (ct_programs c));
     Some (xs @ ys)
   }"

section \<open>Parse coverage\<close>

text \<open>\<open>_statement_counts\<close>: all statements, and the unsupported ones among them.\<close>

definition add_counts :: "nat \<times> nat \<Rightarrow> nat \<times> nat \<Rightarrow> nat \<times> nat" where
  "add_counts x y = (fst x + fst y, snd x + snd y)"

fun count_stmt :: "stmt \<Rightarrow> nat \<times> nat"
  and count_stmts :: "stmt list \<Rightarrow> nat \<times> nat"
  and count_branches :: "if_branch list \<Rightarrow> nat \<times> nat" where
  "count_stmt (UnsupportedStatement sp t) = (1, 1)"
| "count_stmt (IfStatement sp bs es) = add_counts (1, 0) (add_counts (count_branches bs) (count_stmts es))"
| "count_stmt (WhileStatement sp c body) = add_counts (1, 0) (count_stmts body)"
| "count_stmt st = (1, 0)"
| "count_stmts [] = (0, 0)"
| "count_stmts (st # sts) = add_counts (count_stmt st) (count_stmts sts)"
| "count_branches [] = (0, 0)"
| "count_branches (IfBranch sp c body # bs) = add_counts (count_stmts body) (count_branches bs)"

record parse_finding =
  pf_owner :: string
  pf_routine :: string
  pf_document :: st_document
  pf_statement_count :: nat
  pf_unsupported_count :: nat

definition source_preserved :: "parse_finding \<Rightarrow> bool" where
  "source_preserved f = (reconstructed_source (pf_document f) = doc_source (pf_document f))"

record parse_report =
  pr_controller_name :: string
  pr_routines :: "parse_finding list"

definition total_statements :: "parse_report \<Rightarrow> nat" where
  "total_statements rep = sum_list (map pf_statement_count (pr_routines rep))"

definition unsupported_statements :: "parse_report \<Rightarrow> nat" where
  "unsupported_statements rep = sum_list (map pf_unsupported_count (pr_routines rep))"

definition all_source_preserved :: "parse_report \<Rightarrow> bool" where
  "all_source_preserved rep = list_all source_preserved (pr_routines rep)"

definition parse_finding_of :: "string \<Rightarrow> routine \<Rightarrow> st_document \<Rightarrow> parse_finding" where
  "parse_finding_of owner r d =
     (let (statement_count, unsupported_count) = count_stmts (doc_statements d)
      in \<lparr>pf_owner = owner, pf_routine = ru_name r, pf_document = d,
          pf_statement_count = statement_count, pf_unsupported_count = unsupported_count\<rparr>)"

definition analyze_structured_text :: "'v controller \<Rightarrow> parse_report option" where
  "analyze_structured_text c = do {
     fs \<leftarrow> project_findings (\<lambda>a. parse_finding_of (aoi_owner a)) (\<lambda>p. parse_finding_of (program_owner p)) c;
     Some \<lparr>pr_controller_name = ct_name c, pr_routines = fs\<rparr>
   }"

definition yes_no :: "bool \<Rightarrow> string" where
  "yes_no b = (if b then ''yes'' else ''no'')"

text \<open>\<open>marker code [start:end]: message\<close>.\<close>

definition diagnostic_line :: "string \<Rightarrow> st_diagnostic \<Rightarrow> string" where
  "diagnostic_line marker d =
     marker @ sd_code d @ '' ['' @ nat_str (span_start (sd_span d)) @ '':'' @
     nat_str (span_end (sd_span d)) @ '']: '' @ sd_message d"

definition render_lines :: "string list \<Rightarrow> string" where
  "render_lines ls = join [CHR 0x0A] ls @ [CHR 0x0A]"

definition render_parse_finding :: "parse_finding \<Rightarrow> string list" where
  "render_parse_finding f =
     [[],
      ''Routine: '' @ pf_owner f @ ''/'' @ pf_routine f,
      ''  Statements: '' @ nat_str (pf_statement_count f),
      ''  Unsupported statements: '' @ nat_str (pf_unsupported_count f),
      ''  Source preserved: '' @ yes_no (source_preserved f),
      ''  Diagnostics: '' @ nat_str (length (doc_diagnostics (pf_document f)))] @
     map (diagnostic_line ''    - '') (doc_diagnostics (pf_document f))"

definition render_parse_report :: "parse_report \<Rightarrow> string" where
  "render_parse_report rep = render_lines
     ([''Structured Text analysis: '' @ pr_controller_name rep,
       ''Routines: '' @ nat_str (length (pr_routines rep)),
       ''Statements: '' @ nat_str (total_statements rep),
       ''Unsupported statements: '' @ nat_str (unsupported_statements rep),
       ''All source preserved: '' @ yes_no (all_source_preserved rep)] @
      concat (map render_parse_finding (pr_routines rep)))"

section \<open>Semantic resolution\<close>

record semantic_finding =
  sf_owner :: string
  sf_routine :: string
  sf_semantics :: st_semantics

definition count_if :: "('a \<Rightarrow> bool) \<Rightarrow> 'a list \<Rightarrow> nat" where
  "count_if P xs = length (filter P xs)"

definition finding_references :: "reference_status \<Rightarrow> semantic_finding \<Rightarrow> nat" where
  "finding_references st f = count_if (\<lambda>r. rf_status r = st) (sem_references (sf_semantics f))"

definition finding_accesses :: "access_status \<Rightarrow> semantic_finding \<Rightarrow> nat" where
  "finding_accesses st f = count_if (\<lambda>a. sa_status a = st) (sem_accesses (sf_semantics f))"

definition finding_typed_expressions :: "semantic_finding \<Rightarrow> nat" where
  "finding_typed_expressions f =
     count_if (\<lambda>e. et_status e = TS_KNOWN) (sem_expression_types (sf_semantics f))"

definition finding_assignments :: "type_compatibility \<Rightarrow> semantic_finding \<Rightarrow> nat" where
  "finding_assignments k f = count_if (\<lambda>a. ac_compatibility a = k) (sem_assignments (sf_semantics f))"

definition finding_arguments :: "type_compatibility \<Rightarrow> semantic_finding \<Rightarrow> nat" where
  "finding_arguments k f =
     count_if (\<lambda>b. ab_compatibility b = k) (concat (map sc_bindings (sem_calls (sf_semantics f))))"

record semantic_report =
  sp_controller_name :: string
  sp_routines :: "semantic_finding list"

definition report_total :: "(semantic_finding \<Rightarrow> nat) \<Rightarrow> semantic_report \<Rightarrow> nat" where
  "report_total f rep = sum_list (map f (sp_routines rep))"

definition unknown_calls :: "semantic_report \<Rightarrow> nat" where
  "unknown_calls = report_total (\<lambda>f. count_if (\<lambda>k. sc_kind k = CK_UNKNOWN) (sem_calls (sf_semantics f)))"

definition invalid_signatures :: "semantic_report \<Rightarrow> nat" where
  "invalid_signatures =
     report_total (\<lambda>f. count_if (\<lambda>k. sc_signature_valid k = Some False) (sem_calls (sf_semantics f)))"

definition semantic_finding_of :: "sem_context \<Rightarrow> string \<Rightarrow> routine \<Rightarrow> st_document \<Rightarrow> semantic_finding" where
  "semantic_finding_of C owner r d =
     \<lparr>sf_owner = owner, sf_routine = ru_name r, sf_semantics = analyze_semantics d C\<rparr>"

definition analyze_structured_text_semantics :: "'v controller \<Rightarrow> semantic_report option" where
  "analyze_structured_text_semantics c = do {
     fs \<leftarrow> project_findings (\<lambda>a. semantic_finding_of (aoi_context c a) (aoi_owner a))
            (\<lambda>p. semantic_finding_of (program_context c p) (program_owner p)) c;
     Some \<lparr>sp_controller_name = ct_name c, sp_routines = fs\<rparr>
   }"

fun compatibility_value :: "type_compatibility \<Rightarrow> string" where
  "compatibility_value TC_EXACT = ''exact''"
| "compatibility_value TC_IMPLICIT = ''implicit''"
| "compatibility_value TC_UNKNOWN = ''unknown''"
| "compatibility_value TC_INCOMPATIBLE = ''incompatible''"

fun call_kind_value :: "call_kind \<Rightarrow> string" where
  "call_kind_value CK_ARRAY_DIMENSION_QUERY = ''array_dimension_query''"
| "call_kind_value CK_ABSOLUTE_VALUE = ''absolute_value''"
| "call_kind_value CK_BYTE_SWAP = ''byte_swap''"
| "call_kind_value CK_CONTROLLER_OBJECT_READ = ''controller_object_read''"
| "call_kind_value CK_CONTROLLER_OBJECT_WRITE = ''controller_object_write''"
| "call_kind_value CK_EXPLICIT_MESSAGE = ''explicit_message''"
| "call_kind_value CK_MEMORY_COPY = ''memory_copy''"
| "call_kind_value CK_RETENTIVE_TIMER = ''retentive_timer''"
| "call_kind_value CK_TYPE_CONVERSION = ''type_conversion''"
| "call_kind_value CK_USER_DEFINED_INSTRUCTION = ''user_defined_instruction''"
| "call_kind_value CK_ROUTINE = ''routine''"
| "call_kind_value CK_FUNCTION_BLOCK_INSTANCE = ''function_block_instance''"
| "call_kind_value CK_UNKNOWN = ''unknown''"

definition compatibility_text :: "(type_compatibility \<Rightarrow> nat) \<Rightarrow> string" where
  "compatibility_text counter =
     join '', '' (map (\<lambda>k. compatibility_value k @ ''='' @ nat_str (counter k))
       [TC_EXACT, TC_IMPLICIT, TC_UNKNOWN, TC_INCOMPATIBLE])"

definition render_call :: "semantic_call \<Rightarrow> string" where
  "render_call k =
     ''    - '' @ sc_source_name k @ ''('' @ nat_str (sc_argument_count k) @ '' args): '' @
     call_kind_value (sc_kind k) @ '' -> '' @ sc_neutral_name k @
     (if or_empty (sc_vendor k) = [] then [] else '', vendor='' @ or_empty (sc_vendor k))"

definition render_semantic_finding :: "semantic_finding \<Rightarrow> string list" where
  "render_semantic_finding f =
     [[],
      ''Routine: '' @ sf_owner f @ ''/'' @ sf_routine f,
      ''  Resolved references: '' @ nat_str (finding_references RS_RESOLVED f),
      ''  Unresolved references: '' @ nat_str (finding_references RS_UNRESOLVED f),
      ''  Calls: '' @ nat_str (length (sem_calls (sf_semantics f))),
      ''  Resolved accesses: '' @ nat_str (finding_accesses AS_RESOLVED f),
      ''  Unverified accesses: '' @ nat_str (finding_accesses AS_UNVERIFIED f),
      ''  Invalid accesses: '' @ nat_str (finding_accesses AS_INVALID f),
      ''  Typed expressions: '' @ nat_str (finding_typed_expressions f),
      ''  Incompatible assignments: '' @ nat_str (finding_assignments TC_INCOMPATIBLE f),
      ''  Incompatible bound arguments: '' @ nat_str (finding_arguments TC_INCOMPATIBLE f),
      ''  Diagnostics: '' @ nat_str (length (sem_diagnostics (sf_semantics f)))] @
     map render_call (sem_calls (sf_semantics f)) @
     map (diagnostic_line ''    ! '') (sem_diagnostics (sf_semantics f))"

definition render_semantic_report :: "semantic_report \<Rightarrow> string" where
  "render_semantic_report rep = render_lines
     ([''Structured Text semantics: '' @ sp_controller_name rep,
       ''Routines: '' @ nat_str (length (sp_routines rep)),
       ''Resolved references: '' @ nat_str (report_total (finding_references RS_RESOLVED) rep),
       ''Unresolved references: '' @ nat_str (report_total (finding_references RS_UNRESOLVED) rep),
       ''Unknown calls: '' @ nat_str (unknown_calls rep),
       ''Resolved member/index accesses: '' @ nat_str (report_total (finding_accesses AS_RESOLVED) rep),
       ''Unverified member/index accesses: '' @ nat_str (report_total (finding_accesses AS_UNVERIFIED) rep),
       ''Invalid member/index accesses: '' @ nat_str (report_total (finding_accesses AS_INVALID) rep),
       ''Typed expressions: '' @ nat_str (report_total finding_typed_expressions rep),
       ''Invalid mapped signatures: '' @ nat_str (invalid_signatures rep),
       ''Incompatible assignments: '' @ nat_str (report_total (finding_assignments TC_INCOMPATIBLE) rep),
       ''Incompatible bound arguments: '' @ nat_str (report_total (finding_arguments TC_INCOMPATIBLE) rep),
       ''Assignment compatibility: '' @ compatibility_text (\<lambda>k. report_total (finding_assignments k) rep),
       ''Bound argument compatibility: '' @ compatibility_text (\<lambda>k. report_total (finding_arguments k) rep)] @
      concat (map render_semantic_finding (sp_routines rep)))"

end
