(* ===== verification/Parser_Contract.thy ===== *)
theory Parser_Contract imports ST_Parser begin

text \<open>
  What each method of the parser promises, and the proof that a body keeps its promise when
  the methods it calls keep theirs.

  The promises are total: with enough depth the method returns; it only moves forward and
  stays on the token list; its trees have spans that nest and follow the source order; its
  diagnostics point into the source. When a call adds no diagnostic, the tree also respects
  operator precedence and holds no unsupported statement. The locale \<open>parser_methods\<close> is
  the interface between a body and its callees; \<open>Parser_Total\<close> interprets it on \<open>parser\<close>.
\<close>

section \<open>Well-formed trees\<close>

fun in_order :: "nat \<Rightarrow> source_span list \<Rightarrow> nat \<Rightarrow> bool" where
  "in_order lo [] hi = (lo \<le> hi)"
| "in_order lo (sp # sps) hi =
     (lo \<le> span_start sp \<and> span_start sp \<le> span_end sp \<and> in_order (span_end sp) sps hi)"

fun nested_expr :: "expr \<Rightarrow> bool" and nested_arg :: "call_argument \<Rightarrow> bool" where
  "nested_expr (MissingExpression sp) = (span_start sp \<le> span_end sp)"
| "nested_expr (NameExpression sp n) = (span_start sp \<le> span_end sp)"
| "nested_expr (DirectAddressExpression sp a) = (span_start sp \<le> span_end sp)"
| "nested_expr (LiteralExpression sp v) = (span_start sp \<le> span_end sp)"
| "nested_expr (UnaryExpression sp op e) =
     (in_order (span_start sp) [expr_span e] (span_end sp) \<and> nested_expr e)"
| "nested_expr (BinaryExpression sp l op r) =
     (in_order (span_start sp) [expr_span l, expr_span r] (span_end sp) \<and>
      nested_expr l \<and> nested_expr r)"
| "nested_expr (MemberExpression sp t m) =
     (in_order (span_start sp) [expr_span t] (span_end sp) \<and> nested_expr t)"
| "nested_expr (IndexExpression sp t is op) =
     (in_order (span_start sp) (expr_span t # map expr_span is) (span_end sp) \<and>
      nested_expr t \<and> list_all nested_expr is)"
| "nested_expr (CallExpression sp c args) =
     (in_order (span_start sp) (expr_span c # map arg_span args) (span_end sp) \<and>
      nested_expr c \<and> list_all nested_arg args)"
| "nested_expr (ParenthesizedExpression sp e) =
     (in_order (span_start sp) [expr_span e] (span_end sp) \<and> nested_expr e)"
| "nested_arg (CallArgument sp v nm d) =
     (in_order (span_start sp) [expr_span v] (span_end sp) \<and> nested_expr v)"

text \<open>The precedence level of an expression: that of its operator, or above all operators.\<close>

definition level :: "expr \<Rightarrow> nat" where
  "level e = (case e of
     BinaryExpression sp l op r \<Rightarrow>
       (case precedence_of (py_upper op) of None \<Rightarrow> 0 | Some p \<Rightarrow> p)
   | _ \<Rightarrow> 7)"

text \<open>
  The span of a node properly contains its operands: the tokens of the node itself have a place
  of their own, so that no two nodes share a span.
\<close>

fun proper :: "expr \<Rightarrow> bool" where
  "proper (MissingExpression sp) = True"
| "proper (UnaryExpression sp op e) = (span_start sp < expr_start e)"
| "proper (BinaryExpression sp l op r) = (expr_end l < expr_start r)"
| "proper (MemberExpression sp t m) = (expr_end t < span_end sp)"
| "proper (IndexExpression sp t is op) =
     (expr_end t < span_end sp \<and> list_all (\<lambda>i. expr_end t < expr_start i) is)"
| "proper (CallExpression sp c args) =
     (expr_end c < span_end sp \<and> list_all (\<lambda>a. expr_end c < span_start (arg_span a)) args)"
| "proper (ParenthesizedExpression sp e) = (span_start sp < expr_start e)"
| "proper e = (expr_start e < expr_end e)"

text \<open>
  Operators bind as the table says: a left operand binds at least as tightly as its
  operator, a right operand more tightly, and every other operand is no bare binary
  expression.
\<close>

fun prec_ok :: "expr \<Rightarrow> bool" and prec_ok_arg :: "call_argument \<Rightarrow> bool" where
  "prec_ok (UnaryExpression sp op e) =
     (proper (UnaryExpression sp op e) \<and> 7 \<le> level e \<and> prec_ok e)"
| "prec_ok (BinaryExpression sp l op r) =
     (proper (BinaryExpression sp l op r) \<and> precedence_of (py_upper op) \<noteq> None \<and>
      level (BinaryExpression sp l op r) \<le> level l \<and>
      level (BinaryExpression sp l op r) < level r \<and> prec_ok l \<and> prec_ok r)"
| "prec_ok (MemberExpression sp t m) = (proper (MemberExpression sp t m) \<and> 7 \<le> level t \<and> prec_ok t)"
| "prec_ok (IndexExpression sp t is op) =
     (proper (IndexExpression sp t is op) \<and> 7 \<le> level t \<and> prec_ok t \<and> list_all prec_ok is)"
| "prec_ok (CallExpression sp c args) =
     (proper (CallExpression sp c args) \<and> 7 \<le> level c \<and> prec_ok c \<and> list_all prec_ok_arg args)"
| "prec_ok (ParenthesizedExpression sp e) = (proper (ParenthesizedExpression sp e) \<and> prec_ok e)"
| "prec_ok e = proper e"
| "prec_ok_arg (CallArgument sp v nm d) = prec_ok v"

fun branch_span :: "if_branch \<Rightarrow> source_span" where
  "branch_span (IfBranch sp c body) = sp"

text \<open>An unsupported statement retains exactly the text of its span.\<close>

fun nested_stmt :: "string \<Rightarrow> stmt \<Rightarrow> bool" and nested_branch :: "string \<Rightarrow> if_branch \<Rightarrow> bool" where
  "nested_stmt src (AssignmentStatement sp t op v) =
     (in_order (span_start sp) [expr_span t, expr_span v] (span_end sp) \<and>
      nested_expr t \<and> nested_expr v)"
| "nested_stmt src (ExpressionStatement sp e) =
     (in_order (span_start sp) [expr_span e] (span_end sp) \<and> nested_expr e)"
| "nested_stmt src (ExitStatement sp) = (span_start sp \<le> span_end sp)"
| "nested_stmt src (LabelStatement sp n) = (span_start sp \<le> span_end sp)"
| "nested_stmt src (JumpStatement sp n) = (span_start sp \<le> span_end sp)"
| "nested_stmt src (IfStatement sp bs es) =
     (in_order (span_start sp) (map branch_span bs @ map stmt_span es) (span_end sp) \<and>
      bs \<noteq> [] \<and> list_all (nested_branch src) bs \<and> list_all (nested_stmt src) es)"
| "nested_stmt src (WhileStatement sp c body) =
     (in_order (span_start sp) (expr_span c # map stmt_span body) (span_end sp) \<and>
      nested_expr c \<and> list_all (nested_stmt src) body)"
| "nested_stmt src (UnsupportedStatement sp t) =
     (span_start sp \<le> span_end sp \<and> t = slice (span_start sp) (span_end sp) src)"
| "nested_branch src (IfBranch sp c body) =
     (in_order (span_start sp) (expr_span c # map stmt_span body) (span_end sp) \<and>
      nested_expr c \<and> list_all (nested_stmt src) body)"

text \<open>A fully understood statement: no unsupported part, and all operators bound right.\<close>

fun understood :: "stmt \<Rightarrow> bool" and understood_branch :: "if_branch \<Rightarrow> bool" where
  "understood (AssignmentStatement sp t op v) = (prec_ok t \<and> prec_ok v)"
| "understood (ExpressionStatement sp e) = (is_call e \<and> prec_ok e)"
| "understood (IfStatement sp bs es) = (list_all understood_branch bs \<and> list_all understood es)"
| "understood (WhileStatement sp c body) = (prec_ok c \<and> list_all understood body)"
| "understood (UnsupportedStatement sp t) = False"
| "understood st = True"
| "understood_branch (IfBranch sp c body) = (prec_ok c \<and> list_all understood body)"

lemma in_order_le: "in_order lo sps hi \<Longrightarrow> lo \<le> hi"
  by (induction sps arbitrary: lo) fastforce+

lemma in_order_weaken: "in_order lo sps hi \<Longrightarrow> lo' \<le> lo \<Longrightarrow> hi \<le> hi' \<Longrightarrow> in_order lo' sps hi'"
  by (induction sps arbitrary: lo lo') fastforce+

lemma in_order_append:
  "in_order lo (sps @ tps) hi \<longleftrightarrow> (\<exists>mid. in_order lo sps mid \<and> in_order mid tps hi)"
proof (induction sps arbitrary: lo)
  case Nil
  show ?case
    by (auto intro: in_order_weaken dest: in_order_le)
qed (auto)

lemma in_order_appendI:
  "in_order lo sps mid \<Longrightarrow> in_order mid' tps hi \<Longrightarrow> mid \<le> mid' \<Longrightarrow> in_order lo (sps @ tps) hi"
  unfolding in_order_append by (blast intro: in_order_weaken order_refl)

text \<open>Closing an ordered list at the end of its last element.\<close>

lemma in_order_last:
  "in_order lo sps hi \<Longrightarrow> sps \<noteq> [] \<Longrightarrow> in_order lo sps (span_end (last sps)) \<and> span_end (last sps) \<le> hi"
proof (induction sps arbitrary: lo)
  case (Cons sp sps)
  then show ?case by (cases sps) (auto dest: in_order_le)
qed simp

lemma in_order_starts: "in_order lo sps hi \<Longrightarrow> sp \<in> set sps \<Longrightarrow> lo \<le> span_start sp"
  by (induction sps arbitrary: lo) fastforce+

lemma nested_expr_span: "nested_expr e \<Longrightarrow> expr_start e \<le> expr_end e"
  by (cases e) (auto dest: in_order_le)

lemma nested_arg_span: "nested_arg a \<Longrightarrow> span_start (arg_span a) \<le> span_end (arg_span a)"
  by (cases a) (auto dest: in_order_le)

lemma nested_stmt_span: "nested_stmt src st \<Longrightarrow> stmt_start st \<le> stmt_end st"
  by (cases st) (auto dest: in_order_le)

lemma level_simps [simp]:
  "level (MissingExpression sp) = 7" "level (NameExpression sp n) = 7"
  "level (DirectAddressExpression sp n) = 7" "level (LiteralExpression sp n) = 7"
  "level (UnaryExpression sp op e) = 7" "level (MemberExpression sp e m) = 7"
  "level (IndexExpression sp e is op) = 7" "level (CallExpression sp e args) = 7"
  "level (ParenthesizedExpression sp e) = 7"
  by (simp_all add: level_def)

lemma level_binary [simp]:
  "precedence_of (py_upper op) = Some p \<Longrightarrow> level (BinaryExpression sp l op r) = p"
  by (simp add: level_def)

lemma precedence_bound: "precedence_of op = Some p \<Longrightarrow> 1 \<le> p \<and> p \<le> 6"
  by (auto simp: precedence_of_def split: if_splits)

section \<open>The cursor\<close>

definition next_start :: "parser_env \<Rightarrow> parse_state \<Rightarrow> nat" where
  "next_start P s = tok_start (peek P True 0 s)"

definition rest :: "parser_env \<Rightarrow> parse_state \<Rightarrow> nat" where
  "rest P s = length (pe_tokens P) - ps_position s"

text \<open>
  The position may be one past the end marker: recovery skips trivia before it advances, and
  so can step over the marker. Reading is clamped to the marker there.
\<close>

definition on_tokens :: "parser_env \<Rightarrow> parse_state \<Rightarrow> bool" where
  "on_tokens P s = (ps_position s \<le> length (pe_tokens P))"

definition settled :: "parser_env \<Rightarrow> parse_state \<Rightarrow> bool" where
  "settled P s = (skip_from P (ps_position s) = ps_position s)"

definition moved :: "parser_env \<Rightarrow> parse_state \<Rightarrow> parse_state \<Rightarrow> bool" where
  "moved P s s' =
     (ps_position s \<le> ps_position s' \<and> on_tokens P s' \<and>
      (\<exists>ds. ps_diagnostics s' = ps_diagnostics s @ ds \<and> spans_within (length (pe_source P)) ds))"

definition clean :: "parse_state \<Rightarrow> parse_state \<Rightarrow> bool" where
  "clean s s' = (ps_diagnostics s' = ps_diagnostics s)"

lemma skip_from_ge: "i \<le> skip_from P i"
proof (induction P i rule: skip_from.induct)
  case (1 P i)
  then show ?case by (subst skip_from.simps) auto
qed

lemma skip_from_idem [simp]: "skip_from P (skip_from P i) = skip_from P i"
proof (induction P i rule: skip_from.induct)
  case (1 P i)
  show ?case
  proof (cases "i < length (pe_tokens P) \<and> is_trivia (tok_kind (pe_tokens P ! i))")
    case True
    then have "skip_from P i = skip_from P (Suc i)" by (simp add: skip_from.simps [of P i])
    with "1.IH" [OF True] show ?thesis by simp
  next
    case False
    then have "skip_from P i = i" by (auto simp: skip_from.simps [of P i])
    then show ?thesis by simp
  qed
qed

lemma report_simps [simp]:
  "ps_position (report c m sp s) = ps_position s"
  "ps_diagnostics (report c m sp s) = ps_diagnostics s @ [STDiagnostic c m sp]"
  "peek P skip k (report c m sp s) = peek P skip k s"
  "next_start P (report c m sp s) = next_start P s"
  "rest P (report c m sp s) = rest P s"
  "on_tokens P (report c m sp s) = on_tokens P s"
  "current P (report c m sp s) = current P s"
  "settled P (report c m sp s) = settled P s"
  by (simp_all add: report_def peek_def next_start_def rest_def on_tokens_def current_def settled_def)

lemma clean_report [simp]: "\<not> clean s (report c m sp s)"
  by (simp add: clean_def)

lemma moved_diagnostics: "moved P s s' \<Longrightarrow> \<exists>ds. ps_diagnostics s' = ps_diagnostics s @ ds"
  by (auto simp: moved_def)

lemma moved_on_tokens: "moved P s s' \<Longrightarrow> on_tokens P s'"
  by (simp add: moved_def)

lemma moved_rest: "moved P s s' \<Longrightarrow> rest P s' \<le> rest P s"
  by (auto simp: moved_def rest_def)

lemma moved_refl: "on_tokens P s \<Longrightarrow> moved P s s"
  by (auto simp: moved_def)

lemma moved_trans:
  assumes "moved P s t" and "moved P t u"
  shows "moved P s u"
proof -
  obtain ds es where "ps_diagnostics t = ps_diagnostics s @ ds"
      "spans_within (length (pe_source P)) ds"
      "ps_diagnostics u = ps_diagnostics t @ es" "spans_within (length (pe_source P)) es"
    using assms by (auto simp: moved_def)
  then have "ps_diagnostics u = ps_diagnostics s @ (ds @ es)"
      "spans_within (length (pe_source P)) (ds @ es)" by simp_all
  then show ?thesis using assms unfolding moved_def by (blast intro: order_trans)
qed

lemma moved_report:
  assumes "moved P s t" "span_start sp \<le> span_end sp" "span_end sp \<le> length (pe_source P)"
  shows "moved P s (report c m sp t)"
proof (rule moved_trans [OF assms(1)])
  show "moved P t (report c m sp t)"
    using assms by (auto simp: moved_def on_tokens_def)
qed

lemma clean_trans: "moved P s t \<Longrightarrow> moved P t u \<Longrightarrow> clean s u \<longleftrightarrow> clean s t \<and> clean t u"
  by (auto simp: clean_def moved_def)

lemma unclean_report: "moved P s t \<Longrightarrow> \<not> clean s (report c m sp t)"
  by (auto simp: clean_def moved_def)

section \<open>Postconditions\<close>

text \<open>
  A tree between two cursor positions: nested, not before the next token of the first, not
  after the next token of the second.
\<close>

definition next_below :: "parser_env \<Rightarrow> nat \<Rightarrow> parse_state \<Rightarrow> bool" where
  "next_below P m s =
     (case binary_operator P s of None \<Rightarrow> True
      | Some op \<Rightarrow> (case precedence_of (py_upper op) of None \<Rightarrow> False | Some p \<Rightarrow> p < m))"

definition bound_at :: "parser_env \<Rightarrow> nat \<Rightarrow> expr \<Rightarrow> parse_state \<Rightarrow> bool" where
  "bound_at P m e s = (prec_ok e \<and> m \<le> level e \<and> next_below P m s)"

definition expr_post ::
  "parser_env \<Rightarrow> nat \<Rightarrow> parse_state \<Rightarrow> expr option \<times> parse_state \<Rightarrow> bool" where
  "expr_post P m s r = (case r of
       (None, s') \<Rightarrow> s' = s \<and> tok_kind (peek P True 0 s) \<noteq> TK_IDENTIFIER
     | (Some e, s') \<Rightarrow>
         moved P s s' \<and> rest P s' < rest P s \<and> nested_expr e \<and>
         next_start P s \<le> expr_start e \<and> expr_end e \<le> next_start P s' \<and>
         (clean s s' \<longrightarrow> bound_at P m e s'))"

text \<open>
  The loops extend a left operand. \<open>ready\<close> is what the operand and the next token must
  satisfy for the result to be bound at level \<open>m\<close>.
\<close>

definition ready :: "parser_env \<Rightarrow> nat \<Rightarrow> expr \<Rightarrow> parse_state \<Rightarrow> bool" where
  "ready P m e s = (prec_ok e \<and> m \<le> level e \<and> next_below P (Suc (level e)) s)"

definition loop_post ::
  "parser_env \<Rightarrow> nat \<Rightarrow> expr \<Rightarrow> parse_state \<Rightarrow> expr option \<times> parse_state \<Rightarrow> bool" where
  "loop_post P m left s r =
     (\<exists>e s'. r = (Some e, s') \<and> moved P s s' \<and> nested_expr e \<and>
        expr_start e = expr_start left \<and> expr_end e \<le> next_start P s' \<and>
        (clean s s' \<and> ready P m left s \<longrightarrow> bound_at P m e s'))"

definition suffix_post ::
  "parser_env \<Rightarrow> expr \<Rightarrow> parse_state \<Rightarrow> expr \<times> parse_state \<Rightarrow> bool" where
  "suffix_post P target s r = (case r of (e, s') \<Rightarrow>
     moved P s s' \<and> rest P s' < rest P s \<and> nested_expr e \<and>
     expr_start e = expr_start target \<and> expr_end e \<le> next_start P s' \<and> level e = 7 \<and>
     (clean s s' \<and> prec_ok target \<and> 7 \<le> level target \<longrightarrow> prec_ok e))"

definition exprs_post :: "parser_env \<Rightarrow> parse_state \<Rightarrow> expr list \<times> parse_state \<Rightarrow> bool" where
  "exprs_post P s r = (case r of (es, s') \<Rightarrow>
     moved P s s' \<and> in_order (next_start P s) (map expr_span es) (next_start P s') \<and>
     list_all nested_expr es \<and> (clean s s' \<longrightarrow> list_all prec_ok es))"

definition args_post :: "parser_env \<Rightarrow> parse_state \<Rightarrow> call_argument list \<times> parse_state \<Rightarrow> bool" where
  "args_post P s r = (case r of (args, s') \<Rightarrow>
     moved P s s' \<and> in_order (next_start P s) (map arg_span args) (next_start P s') \<and>
     list_all nested_arg args \<and> (clean s s' \<longrightarrow> list_all prec_ok_arg args))"

definition stmt_post :: "parser_env \<Rightarrow> parse_state \<Rightarrow> stmt \<times> parse_state \<Rightarrow> bool" where
  "stmt_post P s r = (case r of (st, s') \<Rightarrow>
     moved P s s' \<and> rest P s' < rest P s \<and> nested_stmt (pe_source P) st \<and>
     next_start P s \<le> stmt_start st \<and> stmt_end st \<le> next_start P s' \<and>
     (clean s s' \<longrightarrow> understood st))"

definition stmts_post :: "parser_env \<Rightarrow> parse_state \<Rightarrow> stmt list \<times> parse_state \<Rightarrow> bool" where
  "stmts_post P s r = (case r of (sts, s') \<Rightarrow>
     moved P s s' \<and> settled P s' \<and>
     in_order (next_start P s) (map stmt_span sts) (next_start P s') \<and>
     list_all (nested_stmt (pe_source P)) sts \<and> (clean s s' \<longrightarrow> list_all understood sts))"

definition branch_post ::
  "parser_env \<Rightarrow> nat \<Rightarrow> parse_state \<Rightarrow> if_branch \<times> parse_state \<Rightarrow> bool" where
  "branch_post P start s r = (case r of (b, s') \<Rightarrow>
     moved P s s' \<and> settled P s' \<and> nested_branch (pe_source P) b \<and>
     span_start (branch_span b) = start \<and> span_end (branch_span b) \<le> next_start P s' \<and>
     (clean s s' \<longrightarrow> understood_branch b))"

definition branches_post ::
  "parser_env \<Rightarrow> parse_state \<Rightarrow> if_branch list \<times> parse_state \<Rightarrow> bool" where
  "branches_post P s r = (case r of (bs, s') \<Rightarrow>
     moved P s s' \<and> settled P s' \<and>
     in_order (next_start P s) (map branch_span bs) (next_start P s') \<and>
     list_all (nested_branch (pe_source P)) bs \<and> (clean s s' \<longrightarrow> list_all understood_branch bs))"

text \<open>
  The position after recovery is past the current token unless that token is one of the
  three keywords recovery stops at.
\<close>

definition recover_post :: "parser_env \<Rightarrow> parse_state \<Rightarrow> nat \<times> parse_state \<Rightarrow> bool" where
  "recover_post P s r = (case r of (stop, s') \<Rightarrow>
     moved P s s' \<and> ps_diagnostics s' = ps_diagnostics s \<and>
     tok_start (current P s) \<le> stop \<and> stop \<le> next_start P s' \<and>
     (tok_kind (current P s) \<noteq> TK_IDENTIFIER \<and> tok_kind (current P s) \<noteq> TK_END_OF_FILE \<longrightarrow>
        rest P s' < rest P s))"

lemma precedence_of_Nil [simp]: "precedence_of [] = None"
  by (simp add: precedence_of_def)

lemma binary_operator_some:
  "binary_operator P s = Some op \<Longrightarrow>
     op = py_upper (tok_text (peek P True 0 s)) \<and> py_upper op = op \<and>
     tok_kind (peek P True 0 s) \<noteq> TK_END_OF_FILE \<and> (\<exists>p. precedence_of op = Some p)"
  by (auto simp: binary_operator_def Let_def operator_text_def split: if_splits)

lemma next_below_top: "7 \<le> m \<Longrightarrow> next_below P m s"
  by (auto simp: next_below_def split: option.splits dest!: binary_operator_some dest: precedence_bound)

section \<open>The token list under the cursor\<close>

lemma skip_from_between: "i \<le> j \<Longrightarrow> j \<le> skip_from P i \<Longrightarrow> skip_from P j = skip_from P i"
proof (induction P i rule: skip_from.induct)
  case (1 P i)
  show ?case
  proof (cases "i < length (pe_tokens P) \<and> is_trivia (tok_kind (pe_tokens P ! i))")
    case True
    then have e: "skip_from P i = skip_from P (Suc i)" by (simp add: skip_from.simps [of P i])
    show ?thesis
    proof (cases "i = j")
      case False
      with "1.IH" [OF True] "1.prems" e show ?thesis by simp
    qed simp
  next
    case False
    then have "skip_from P i = i" by (auto simp: skip_from.simps [of P i])
    with "1.prems" show ?thesis by simp
  qed
qed

lemma skip_from_mono: "i \<le> j \<Longrightarrow> skip_from P i \<le> skip_from P j"
  using skip_from_between [of i j P] skip_from_ge [of j P] by (cases "j \<le> skip_from P i") auto

lemma skip_from_bound: "i \<le> n \<Longrightarrow> n \<le> length (pe_tokens P) \<Longrightarrow>
    (n < length (pe_tokens P) \<Longrightarrow> \<not> is_trivia (tok_kind (pe_tokens P ! n))) \<Longrightarrow> skip_from P i \<le> n"
proof (induction P i rule: skip_from.induct)
  case (1 P i)
  show ?case
  proof (cases "i < length (pe_tokens P) \<and> is_trivia (tok_kind (pe_tokens P ! i))")
    case True
    then have "i \<noteq> n" using "1.prems"(3) by auto
    then have "skip_from P (Suc i) \<le> n" using "1.IH" [OF True] "1.prems" by auto
    with True show ?thesis by (simp add: skip_from.simps [of P i])
  next
    case False
    then have "skip_from P i = i" by (auto simp: skip_from.simps [of P i])
    with "1.prems" show ?thesis by simp
  qed
qed

definition took :: "parser_env \<Rightarrow> parse_state \<Rightarrow> token \<Rightarrow> parse_state \<Rightarrow> bool" where
  "took P s t s' =
     (t = peek P True 0 s \<and> moved P s s' \<and> clean s s' \<and> rest P s' < rest P s \<and>
      tok_start t = next_start P s \<and> tok_start t < tok_end t \<and> tok_end t \<le> next_start P s')"

locale parsing = token_stream source tokens for source tokens +
  fixes P :: parser_env
  assumes env: "pe_source P = source" "pe_tokens P = tokens"
begin

lemma token_at_on: "i < length tokens \<Longrightarrow> token_at P i = tokens ! i"
  by (simp add: token_at_def env min_def)

lemma token_at_past: "length tokens - 1 \<le> i \<Longrightarrow> token_at P i = tokens ! (length tokens - 1)"
  by (simp add: token_at_def env min_def)

lemma clamp: "min i (length tokens - Suc 0) < length tokens"
  using tokens_nonempty by (intro le_less_trans [OF min.cobounded2]) simp

lemmas last_token = last_kind [simplified] last_span [simplified]

lemma last_not_trivia: "\<not> is_trivia (tok_kind (tokens ! (length tokens - 1)))"
  by (simp add: last_token is_trivia_def)

lemma skip_on: "i < length tokens \<Longrightarrow> skip_from P i \<le> length tokens - 1"
  using skip_from_bound [of i "length tokens - 1" P] last_not_trivia by (simp add: env)

lemma skip_le: "i \<le> length tokens \<Longrightarrow> skip_from P i \<le> length tokens"
  using skip_from_bound [of i "length tokens" P] by (simp add: env)

lemma not_eof_inside: "tok_kind (token_at P i) \<noteq> TK_END_OF_FILE \<Longrightarrow> Suc i < length tokens"
  using token_at_past [of i] last_kind by (cases "length tokens - 1 \<le> i") auto

lemma tok_start_at_mono: "i \<le> j \<Longrightarrow> tok_start (token_at P i) \<le> tok_start (token_at P j)"
  using clamp by (auto simp: token_at_def env intro!: start_mono)

lemma tok_start_at_bound: "tok_start (token_at P i) \<le> length source"
  using clamp by (auto simp: token_at_def env intro!: start_bound)

lemma tok_end_at_bound: "tok_end (token_at P i) \<le> length source"
  using clamp by (auto simp: token_at_def env intro!: end_bound)

lemma tok_span_at: "tok_start (token_at P i) \<le> tok_end (token_at P i)"
  using clamp by (auto simp: token_at_def env intro!: start_le_end)

lemma tok_span_inside: "Suc i < length tokens \<Longrightarrow> tok_start (token_at P i) < tok_end (token_at P i)"
  by (simp add: token_at_on inner_nonempty)

lemma tok_end_at_next: "i < j \<Longrightarrow> tok_end (token_at P i) \<le> tok_start (token_at P j)"
proof -
  assume ij: "i < j"
  show ?thesis
  proof (cases "Suc i < length tokens")
    case True
    then have "tok_end (token_at P i) = tok_start (token_at P (Suc i))"
      by (simp add: token_at_on end_is_next_start)
    also have "\<dots> \<le> tok_start (token_at P j)" using ij by (intro tok_start_at_mono) simp
    finally show ?thesis .
  next
    case False
    then have "length tokens - 1 \<le> i" "length tokens - 1 \<le> j" using ij by auto
    then show ?thesis by (simp add: token_at_past last_token)
  qed
qed

lemma next_start_bound: "next_start P s \<le> length source"
  by (simp add: next_start_def peek_def tok_start_at_bound)

lemma next_start_mono: "moved P s s' \<Longrightarrow> next_start P s \<le> next_start P s'"
  by (simp add: next_start_def peek_def peek_position_def moved_def tok_start_at_mono skip_from_mono)

lemma peek_True: "peek P True 0 s = token_at P (skip_from P (ps_position s))"
  by (simp add: peek_def peek_position_def)

lemma peek_span: "tok_start (peek P b k s) \<le> tok_end (peek P b k s)"
  "tok_end (peek P b k s) \<le> length source"
  by (simp_all add: peek_def tok_span_at tok_end_at_bound)

lemma skip_trivia_moved:
  assumes "on_tokens P s"
  shows "moved P s (skip_trivia P s)" "clean s (skip_trivia P s)"
    "settled P (skip_trivia P s)" "next_start P (skip_trivia P s) = next_start P s"
    "peek P True k (skip_trivia P s) = peek P True k s"
    "rest P (skip_trivia P s) \<le> rest P s"
  using assms skip_le skip_from_ge [of "ps_position s" P]
  by (auto simp: moved_def on_tokens_def skip_trivia_def clean_def settled_def next_start_def
      peek_def peek_position_def rest_def env)

lemma settled_current: "settled P s \<Longrightarrow> current P s = peek P True 0 s"
  by (simp add: settled_def current_def peek_True)

lemma settled_peek: "settled P s \<Longrightarrow> peek P False 0 s = peek P True 0 s"
  by (simp add: settled_def peek_def peek_position_def)

lemma take_took:
  assumes "on_tokens P s" "tok_kind (peek P True 0 s) \<noteq> TK_END_OF_FILE"
  shows "\<exists>t s'. take_token P True s = (t, s') \<and> took P s t s'"
proof -
  let ?i = "skip_from P (ps_position s)"
  let ?s = "s\<lparr>ps_position := Suc ?i\<rparr>"
  have i: "Suc ?i < length tokens"
    using assms(2) not_eof_inside by (simp add: peek_True)
  have m: "moved P s ?s" using i skip_from_ge [of "ps_position s" P]
    by (auto simp: moved_def on_tokens_def env)
  have "tok_end (token_at P ?i) \<le> next_start P ?s"
    using skip_from_ge [of "Suc ?i" P]
    by (auto simp: next_start_def peek_True intro!: tok_end_at_next)
  then have "took P s (token_at P ?i) ?s"
    using m i skip_from_ge [of "ps_position s" P]
    by (auto simp: took_def peek_True clean_def rest_def env next_start_def tok_span_inside)
  moreover have "take_token P True s = (token_at P ?i, ?s)"
    by (simp add: take_token_def skip_trivia_def current_def Let_def)
  ultimately show ?thesis by blast
qed

end

end
