(* ===== verification/Parser_Methods.thy ===== *)
theory Parser_Methods imports Parser_Contract begin

text \<open>
  The locale \<open>parser_methods\<close> is what a method body assumes of the methods it calls at
  depth \<open>n\<close>, and the lemmas \<open>..._step\<close> inside it show that every body then keeps its own
  promise at depth \<open>Suc n\<close>. A promise holds when the depth is at least sixteen times the
  number of tokens left plus the rank of the method: a call without a token taken goes to a
  smaller rank.
\<close>

locale parser_methods = parsing source tokens P
    for source tokens P +
  fixes self :: methods and n :: nat
  assumes recover_loop:
      "\<And>s. on_tokens P s \<Longrightarrow> 16 * rest P s + 1 \<le> n \<Longrightarrow>
         total (m_recover_loop self s) (recover_post P s)"
    and expression:
      "\<And>m s. on_tokens P s \<Longrightarrow> m \<le> 7 \<Longrightarrow> 16 * rest P s + 4 \<le> n \<Longrightarrow>
         total (m_expression self m s) (expr_post P m s)"
    and binary_loop:
      "\<And>m left s. on_tokens P s \<Longrightarrow> nested_expr left \<Longrightarrow> expr_end left \<le> next_start P s \<Longrightarrow>
         m \<le> 7 \<Longrightarrow> 16 * rest P s + 1 \<le> n \<Longrightarrow>
         total (m_binary_loop self m left s) (loop_post P m left s)"
    and unary:
      "\<And>s. on_tokens P s \<Longrightarrow> 16 * rest P s + 3 \<le> n \<Longrightarrow>
         total (m_unary self s) (expr_post P 7 s)"
    and postfix:
      "\<And>s. on_tokens P s \<Longrightarrow> 16 * rest P s + 2 \<le> n \<Longrightarrow>
         total (m_postfix self s) (expr_post P 7 s)"
    and postfix_loop:
      "\<And>left s. on_tokens P s \<Longrightarrow> nested_expr left \<Longrightarrow> expr_end left \<le> next_start P s \<Longrightarrow>
         16 * rest P s + 2 \<le> n \<Longrightarrow>
         total (m_postfix_loop self left s) (loop_post P 7 left s)"
    and primary:
      "\<And>s. on_tokens P s \<Longrightarrow> 16 * rest P s + 1 \<le> n \<Longrightarrow>
         total (m_primary self s) (expr_post P 7 s)"
    and index_expression:
      "\<And>target op s. on_tokens P s \<Longrightarrow> at_kind P TK_LEFT_BRACKET True s \<Longrightarrow>
         nested_expr target \<Longrightarrow> expr_end target \<le> next_start P s \<Longrightarrow> 16 * rest P s + 1 \<le> n \<Longrightarrow>
         total (m_index_expression self target op s) (suffix_post P target s)"
    and index_loop:
      "\<And>s. on_tokens P s \<Longrightarrow> 16 * rest P s + 5 \<le> n \<Longrightarrow>
         total (m_index_loop self s) (exprs_post P s)"
    and call_expression:
      "\<And>callee s. on_tokens P s \<Longrightarrow> at_kind P TK_LEFT_PAREN True s \<Longrightarrow>
         nested_expr callee \<Longrightarrow> expr_end callee \<le> next_start P s \<Longrightarrow> 16 * rest P s + 1 \<le> n \<Longrightarrow>
         total (m_call_expression self callee s) (suffix_post P callee s)"
    and call_loop:
      "\<And>s. on_tokens P s \<Longrightarrow> 16 * rest P s + 5 \<le> n \<Longrightarrow>
         total (m_call_loop self s) (args_post P s)"
    and statement_list:
      "\<And>ks s. on_tokens P s \<Longrightarrow> 16 * rest P s + 8 \<le> n \<Longrightarrow>
         total (m_statement_list self ks s) (stmts_post P s)"
    and statement:
      "\<And>s. on_tokens P s \<Longrightarrow> tok_kind (peek P True 0 s) \<noteq> TK_END_OF_FILE \<Longrightarrow>
         16 * rest P s + 7 \<le> n \<Longrightarrow>
         total (m_statement self s) (\<lambda>(x, s'). \<exists>st. x = Some st \<and> stmt_post P s (st, s'))"
    and if_statement:
      "\<And>s. on_tokens P s \<Longrightarrow> tok_kind (peek P True 0 s) \<noteq> TK_END_OF_FILE \<Longrightarrow>
         16 * rest P s + 6 \<le> n \<Longrightarrow> total (m_if_statement self s) (stmt_post P s)"
    and elsif_loop:
      "\<And>s. on_tokens P s \<Longrightarrow> settled P s \<Longrightarrow> 16 * rest P s + 6 \<le> n \<Longrightarrow>
         total (m_elsif_loop self s) (branches_post P s)"
    and if_branch:
      "\<And>start s. on_tokens P s \<Longrightarrow> start \<le> next_start P s \<Longrightarrow> 16 * rest P s + 9 \<le> n \<Longrightarrow>
         total (m_if_branch self start s) (branch_post P start s)"
    and while_statement:
      "\<And>s. on_tokens P s \<Longrightarrow> tok_kind (peek P True 0 s) \<noteq> TK_END_OF_FILE \<Longrightarrow>
         16 * rest P s + 6 \<le> n \<Longrightarrow> total (m_while_statement self s) (stmt_post P s)"
begin

lemma at_kind_not_eof:
  "at_kind P k True s \<Longrightarrow> k \<noteq> TK_END_OF_FILE \<Longrightarrow> tok_kind (peek P True 0 s) \<noteq> TK_END_OF_FILE"
  by (simp add: at_kind_def)

text \<open>The outcomes of a call, in the form a case analysis takes them.\<close>

lemma expr_cases [consumes 1, case_names none some]:
  assumes "total r (expr_post P m s)"
  obtains "r = Some (None, s)" "tok_kind (peek P True 0 s) \<noteq> TK_IDENTIFIER"
  | e s' where "r = Some (Some e, s')" "moved P s s'" "rest P s' < rest P s" "nested_expr e"
      "next_start P s \<le> expr_start e" "expr_start e \<le> expr_end e" "expr_end e \<le> next_start P s'"
      "clean s s' \<Longrightarrow> bound_at P m e s'" "on_tokens P s'"
  using assms nested_expr_span
  by (elim totalE) (auto simp: expr_post_def split: prod.splits option.splits dest: moved_on_tokens)

lemma take_cases:
  assumes "on_tokens P s" "tok_kind (peek P True 0 s) \<noteq> TK_END_OF_FILE"
  obtains t s' where "take_token P True s = (t, s')" "t = peek P True 0 s" "moved P s s'" "clean s s'"
    "rest P s' < rest P s" "tok_start t = next_start P s" "tok_start t \<le> tok_end t"
    "tok_end t \<le> next_start P s'" "on_tokens P s'" "next_start P s \<le> next_start P s'"
    "tok_start t < tok_end t" "tok_start t < next_start P s'"
proof -
  obtain t s' where "take_token P True s = (t, s')" "took P s t s'"
    using take_took [OF assms] by blast
  then have t: "take_token P True s = (t, s')" "t = peek P True 0 s" "moved P s s'" "clean s s'"
      "rest P s' < rest P s" "tok_start t = next_start P s" "tok_start t < tok_end t"
      "tok_end t \<le> next_start P s'"
    unfolding took_def by simp_all blast+
  then show ?thesis using moved_on_tokens [OF t(3)] next_start_mono [OF t(3)] by (intro that [OF t(1)]) simp_all
qed

lemma loop_post_trans:
  assumes "loop_post P m e t r" "moved P s t" "expr_start e = expr_start left"
    "clean s t \<and> ready P m left s \<longrightarrow> ready P m e t"
  shows "loop_post P m left s r"
  using assms moved_trans [OF assms(2)] clean_trans [OF assms(2)]
  unfolding loop_post_def by fastforce

lemma expression_step:
  assumes "on_tokens P s" "m \<le> 7" "16 * rest P s + 4 \<le> Suc n"
  shows "total (expression self P m s) (expr_post P m s)"
proof -
  have "total (m_unary self s) (expr_post P 7 s)" using assms by (intro unary) auto
  then show ?thesis
  proof (cases rule: expr_cases)
    case none
    then show ?thesis by (simp add: expression_def expr_post_def)
  next
    case e: (some e s1)
    have "total (m_binary_loop self m e s1) (expr_post P m s)"
    proof (rule total_mono [OF binary_loop])
      fix r assume "loop_post P m e s1 r"
      then show "expr_post P m s r"
        using e assms(2) moved_trans [OF e(2)] clean_trans [OF e(2)] moved_rest
        by (fastforce simp: loop_post_def expr_post_def bound_at_def ready_def next_below_top)
    qed (use e assms in auto)
    then show ?thesis using e by (simp add: expression_def)
  qed
qed

lemma binary_loop_step:
  assumes s: "on_tokens P s" and left: "nested_expr left" "expr_end left \<le> next_start P s"
    and fuel: "m \<le> 7" "16 * rest P s + 1 \<le> Suc n"
  shows "total (binary_loop self P m left s) (loop_post P m left s)"
proof (cases "next_below P m s")
  case True
  then show ?thesis using assms
    by (auto simp: binary_loop_def next_below_def loop_post_def moved_refl ready_def bound_at_def
        split: option.splits)
next
  case False
  then obtain op p where op: "binary_operator P s = Some op" "precedence_of op = Some p" "m \<le> p"
      "py_upper op = op" "op = py_upper (tok_text (peek P True 0 s))"
      and k: "tok_kind (peek P True 0 s) \<noteq> TK_END_OF_FILE"
    by (fastforce simp: next_below_def split: option.splits dest: binary_operator_some)
  obtain t s1 where t: "take_token P True s = (t, s1)" "t = peek P True 0 s" "moved P s s1"
      "clean s s1" "rest P s1 < rest P s" "tok_end t \<le> next_start P s1" "on_tokens P s1"
      "next_start P s \<le> next_start P s1" "next_start P s < next_start P s1"
    using take_cases [OF s k] by metis
  have "total (m_expression self (Suc p) s1) (expr_post P (Suc p) s1)"
    using t fuel precedence_bound [OF op(2)] by (intro expression) auto
  then show ?thesis
  proof (cases rule: expr_cases)
    case none
    then show ?thesis using t op left
      by (auto simp: binary_loop_def loop_post_def peek_span env unclean_report intro!: moved_report)
  next
    case e: (some e s2)
    let ?b = "BinaryExpression (SourceSpan (expr_start left) (expr_end e)) left (tok_text t) e"
    have gap: "expr_end left < expr_start e" using left(2) t(9) e(5) by simp
    have p': "precedence_of (py_upper (tok_text t)) = Some p" using op t by simp
    have "total (m_binary_loop self m ?b s2) (loop_post P m left s)"
    proof (rule total_mono [OF binary_loop])
      fix r' assume "loop_post P m ?b s2 r'"
      moreover have "ready P m left s \<Longrightarrow> p \<le> level left"
        using op by (auto simp: ready_def next_below_def)
      moreover have "moved P s s2" using t(3) e(2) by (rule moved_trans)
      ultimately show "loop_post P m left s r'"
        using e p' op gap by (elim loop_post_trans) (auto simp: ready_def bound_at_def clean_trans [OF t(3) e(2)])
    qed (use e t left fuel nested_expr_span [OF left(1)] in auto)
    then show ?thesis using e t op by (simp add: binary_loop_def)
  qed
qed

lemma unary_step:
  assumes s: "on_tokens P s" and fuel: "16 * rest P s + 3 \<le> Suc n"
  shows "total (unary self P s) (expr_post P 7 s)"
proof (cases "operator_text (peek P True 0 s) \<in> unary_operators")
  case False
  then show ?thesis using assms by (auto simp: unary_def intro!: postfix)
next
  case True
  then have "tok_kind (peek P True 0 s) \<noteq> TK_END_OF_FILE"
    by (auto simp: operator_text_def unary_operators_def)
  then obtain t s1 where t: "take_token P True s = (t, s1)" "t = peek P True 0 s" "moved P s s1"
      "clean s s1" "rest P s1 < rest P s" "tok_start t = next_start P s" "tok_start t \<le> tok_end t"
      "tok_end t \<le> next_start P s1" "on_tokens P s1" "tok_start t < tok_end t"
    using take_cases [OF s] by metis
  have "total (m_unary self s1) (expr_post P 7 s1)" using t fuel by (intro unary) auto
  then show ?thesis
  proof (cases rule: expr_cases)
    case none
    then show ?thesis using True t
      by (auto simp: unary_def expr_post_def peek_span env unclean_report intro!: moved_report)
  next
    case e: (some e s2)
    then show ?thesis using True t moved_trans [OF t(3) e(2)]
      by (auto simp: unary_def expr_post_def bound_at_def clean_trans [OF t(3) e(2)] next_below_top)
  qed
qed

lemma postfix_step:
  assumes s: "on_tokens P s" and fuel: "16 * rest P s + 2 \<le> Suc n"
  shows "total (postfix self P s) (expr_post P 7 s)"
proof -
  have "total (m_primary self s) (expr_post P 7 s)" using assms by (intro primary) auto
  then show ?thesis
  proof (cases rule: expr_cases)
    case none
    then show ?thesis by (simp add: postfix_def expr_post_def)
  next
    case e: (some e s1)
    have "total (m_postfix_loop self e s1) (expr_post P 7 s)"
    proof (rule total_mono [OF postfix_loop])
      fix r assume "loop_post P 7 e s1 r"
      then show "expr_post P 7 s r"
        using e moved_trans [OF e(2)] clean_trans [OF e(2)] moved_rest
        by (fastforce simp: loop_post_def expr_post_def bound_at_def ready_def next_below_top)
    qed (use e fuel in auto)
    then show ?thesis using e by (simp add: postfix_def)
  qed
qed

text \<open>One round of the postfix loop: a longer operand at a later position, then the loop again.\<close>

lemma postfix_round:
  assumes "moved P s t" "rest P t < rest P s" "nested_expr x" "expr_start x = expr_start left"
    and "expr_end x \<le> next_start P t" "level x = 7"
    and "clean s t \<and> prec_ok left \<and> 7 \<le> level left \<longrightarrow> prec_ok x" "16 * rest P s + 2 \<le> Suc n"
  shows "total (m_postfix_loop self x t) (loop_post P 7 left s)"
proof (rule total_mono [OF postfix_loop])
  fix r assume "loop_post P 7 x t r"
  then show "loop_post P 7 left s r"
    using assms by (elim loop_post_trans) (auto simp: ready_def next_below_top)
qed (use assms in \<open>auto dest: moved_on_tokens\<close>)

lemma postfix_suffix:
  assumes "total m (suffix_post P left t)" "moved P s t" "clean s t" "rest P t \<le> rest P s"
    and "16 * rest P s + 2 \<le> Suc n"
  shows "total (m \<bind> (\<lambda>(x, u). m_postfix_loop self x u)) (loop_post P 7 left s)"
proof (rule total_bind_mono [OF assms(1)])
  fix r assume "suffix_post P left t r"
  then show "total (case r of (x, u) \<Rightarrow> m_postfix_loop self x u) (loop_post P 7 left s)"
    using assms moved_trans [OF assms(2)] clean_trans [OF assms(2)]
    by (auto simp: suffix_post_def intro!: postfix_round)
qed

lemma postfix_loop_step:
  assumes s: "on_tokens P s" and left: "nested_expr left" "expr_end left \<le> next_start P s"
    and fuel: "16 * rest P s + 2 \<le> Suc n"
  shows "total (postfix_loop self P left s) (loop_post P 7 left s)"
proof (cases "at_kind P TK_DOT True s")
  case False
  then show ?thesis using assms
    by (auto simp: postfix_loop_def loop_post_def moved_refl ready_def bound_at_def clean_def next_below_top
        intro!: postfix_suffix index_expression call_expression)
next
  case dot: True
  then have "tok_kind (peek P True 0 s) \<noteq> TK_END_OF_FILE" by (simp add: at_kind_def)
  then obtain t s1 where t: "take_token P True s = (t, s1)" "moved P s s1" "clean s s1"
      "rest P s1 < rest P s" "tok_start t = next_start P s" "tok_end t \<le> next_start P s1"
      "tok_start t \<le> tok_end t" "on_tokens P s1" "next_start P s \<le> next_start P s1"
    using take_cases [OF s] by metis
  let ?mem = "peek P True 0 s1"
  consider "at_kind P TK_LEFT_BRACKET True s1"
    | "\<not> at_kind P TK_LEFT_BRACKET True s1" "tok_kind ?mem \<noteq> TK_IDENTIFIER" "tok_kind ?mem \<noteq> TK_LITERAL"
    | "\<not> at_kind P TK_LEFT_BRACKET True s1" "tok_kind ?mem = TK_IDENTIFIER \<or> tok_kind ?mem = TK_LITERAL"
    by blast
  then show ?thesis
  proof cases
    case 1
    then show ?thesis using dot t left fuel
      by (auto simp: postfix_loop_def intro!: postfix_suffix index_expression)
  next
    case 2
    have "tok_start t \<le> tok_end ?mem"
      using t peek_span(1) [of True 0 s1] by (simp add: next_start_def)
    with 2 show ?thesis using dot t left
      by (auto simp: postfix_loop_def Let_def loop_post_def env peek_span unclean_report intro!: moved_report)
  next
    case 3
    then have "tok_kind ?mem \<noteq> TK_END_OF_FILE" by auto
    then obtain u s2 where u: "take_token P True s1 = (u, s2)" "moved P s1 s2" "clean s1 s2"
        "rest P s2 < rest P s1" "tok_start u = next_start P s1" "tok_end u \<le> next_start P s2"
        "tok_start u \<le> tok_end u" "tok_start u < tok_end u"
      using take_cases [OF t(8)] by metis
    with 3 show ?thesis
      using dot t left fuel moved_trans [OF t(2) u(2)] nested_expr_span [OF left(1)]
      by (auto simp: postfix_loop_def Let_def intro!: postfix_round)
  qed
qed

text \<open>A primary that is one token.\<close>

lemma one_token_primary:
  assumes "on_tokens P s" "tok_kind (peek P True 0 s) \<noteq> TK_END_OF_FILE"
    and "\<And>t. expr_span (f t) = tok_span t \<and> nested_expr (f t) = (tok_start t \<le> tok_end t) \<and>
          prec_ok (f t) = (tok_start t < tok_end t) \<and> level (f t) = 7"
  shows "total (let (t, s1) = take_token P True s in Some (Some (f t), s1)) (expr_post P 7 s)"
proof -
  obtain t s1 where "take_token P True s = (t, s1)" "moved P s s1" "clean s s1"
      "rest P s1 < rest P s" "tok_start t = next_start P s" "tok_end t \<le> next_start P s1"
      "tok_start t \<le> tok_end t" "tok_start t < tok_end t"
    using take_cases [OF assms(1,2)] by metis
  then show ?thesis using assms(3) by (simp add: expr_post_def bound_at_def next_below_top)
qed

lemma primary_parenthesis:
  assumes s: "on_tokens P s" and k: "tok_kind (peek P True 0 s) = TK_LEFT_PAREN"
    and fuel: "16 * rest P s + 1 \<le> Suc n"
  shows "total (primary self P s) (expr_post P 7 s)"
proof -
  obtain t s1 where t: "take_token P True s = (t, s1)" "moved P s s1" "clean s s1"
      "rest P s1 < rest P s" "tok_start t = next_start P s" "tok_end t \<le> next_start P s1"
      "tok_start t \<le> tok_end t" "on_tokens P s1" "tok_start t < tok_end t"
    using take_cases [OF s] k by (metis token_kind.distinct)
  have "total (m_expression self 1 s1) (expr_post P 1 s1)" using t fuel by (intro expression) auto
  then obtain x s2 e where x: "m_expression self 1 s1 = Some (x, s2)" "moved P s s2" "rest P s2 < rest P s"
      "on_tokens P s2"
      and [symmetric, simp]:
        "e = (case x of None \<Rightarrow> MissingExpression (SourceSpan (tok_end t) (tok_end t)) | Some e \<Rightarrow> e)"
      and e: "nested_expr e" "tok_end t \<le> expr_start e" "expr_end e \<le> next_start P s2"
        "clean s s2 \<longrightarrow> prec_ok e" "expr_start e \<le> expr_end e"
    using t by (cases rule: expr_cases) (force simp: bound_at_def clean_trans dest: moved_trans)+
  show ?thesis
  proof (cases "at_kind P TK_RIGHT_PAREN True s2")
    case True
    then obtain u s3 where u: "take_token P True s2 = (u, s3)" "moved P s2 s3" "clean s2 s3"
        "rest P s3 < rest P s2" "tok_start u = next_start P s2" "tok_end u \<le> next_start P s3"
        "tok_start u \<le> tok_end u"
      using take_cases [OF x(4)] at_kind_not_eof by (metis token_kind.distinct)
    then show ?thesis using True k t x e moved_trans [OF x(2) u(2)] 
      by (auto simp: primary_def Let_def expr_post_def bound_at_def next_below_top clean_trans [OF x(2) u(2)])
  next
    case False
    then show ?thesis using k t x e next_start_bound [of s2]
      by (auto simp: primary_def Let_def expr_post_def env unclean_report intro!: moved_report)
  qed
qed

lemma primary_step:
  assumes s: "on_tokens P s" and fuel: "16 * rest P s + 1 \<le> Suc n"
  shows "total (primary self P s) (expr_post P 7 s)"
proof -
  let ?k = "tok_kind (peek P True 0 s)"
  consider "?k = TK_LEFT_PAREN" | "?k = TK_IDENTIFIER" | "?k = TK_LITERAL \<or> ?k = TK_STRING"
    | "?k = TK_DIRECT_ADDRESS"
    | "?k \<notin> {TK_LEFT_PAREN, TK_IDENTIFIER, TK_LITERAL, TK_STRING, TK_DIRECT_ADDRESS}"
    by auto
  then show ?thesis
  proof cases
    case 1
    then show ?thesis using assms by (intro primary_parenthesis)
  next
    case 2
    have "total (let (t, s1) = take_token P True s in Some (Some
            (if py_upper (tok_text t) \<in> {''TRUE'', ''FALSE''} then LiteralExpression (tok_span t) (tok_text t)
             else NameExpression (tok_span t) (tok_text t)), s1)) (expr_post P 7 s)"
      by (rule one_token_primary) (use s 2 in auto)
    with 2 show ?thesis
      by (cases "take_token P True s") (auto simp: primary_def split: if_splits)
  next
    case 3
    then have "total (let (t, s1) = take_token P True s in
         Some (Some (LiteralExpression (tok_span t) (tok_text t)), s1)) (expr_post P 7 s)"
      by (intro one_token_primary) (use s in auto)
    with 3 show ?thesis by (auto simp: primary_def)
  next
    case 4
    then have "total (let (t, s1) = take_token P True s in
         Some (Some (DirectAddressExpression (tok_span t) (tok_text t)), s1)) (expr_post P 7 s)"
      by (intro one_token_primary) (use s in auto)
    with 4 show ?thesis by (auto simp: primary_def)
  next
    case 5
    then show ?thesis by (auto simp: primary_def expr_post_def)
  qed
qed

subsection \<open>Indices and arguments\<close>

lemma exprs_cases:
  assumes "total r (exprs_post P s)"
  obtains es s' where "r = Some (es, s')" "moved P s s'" "on_tokens P s'"
    "in_order (next_start P s) (map expr_span es) (next_start P s')" "list_all nested_expr es"
    "clean s s' \<longrightarrow> list_all prec_ok es"
  using assms by (elim totalE) (auto simp: exprs_post_def split: prod.splits dest: moved_on_tokens)

lemma args_cases:
  assumes "total r (args_post P s)"
  obtains es s' where "r = Some (es, s')" "moved P s s'" "on_tokens P s'"
    "in_order (next_start P s) (map arg_span es) (next_start P s')" "list_all nested_arg es"
    "clean s s' \<longrightarrow> list_all prec_ok_arg es"
  using assms by (elim totalE) (auto simp: args_post_def split: prod.splits dest: moved_on_tokens)

text \<open>
  The end of a bracketed list: the closing token's end, or without it the end of the last
  element, or of the target when there is none.
\<close>

lemma closing_span:
  assumes "in_order a (map f es) b" "lo \<le> a"
  obtains stop where "(if es = [] then lo else span_end (f (last es))) = stop"
    "in_order lo (map f es) stop" "stop \<le> b" "lo \<le> stop"
proof -
  let ?stop = "if es = [] then lo else span_end (f (last es))"
  have "in_order lo (map f es) ?stop" "?stop \<le> b"
    using assms in_order_last [of a "map f es" b] in_order_le [of a "map f es" b]
    by (auto simp: last_map intro: in_order_weaken)
  with that in_order_le show ?thesis by blast
qed

lemma index_expression_step:
  assumes s: "on_tokens P s" and k: "at_kind P TK_LEFT_BRACKET True s"
    and target: "nested_expr target" "expr_end target \<le> next_start P s"
    and fuel: "16 * rest P s + 1 \<le> Suc n"
  shows "total (index_expression self P target op s) (suffix_post P target s)"
proof -
  obtain t s1 where t: "take_token P True s = (t, s1)" "moved P s s1" "clean s s1"
      "rest P s1 < rest P s" "on_tokens P s1" "next_start P s \<le> next_start P s1"
      "next_start P s < next_start P s1"
    using take_cases [OF s] k at_kind_not_eof by (metis token_kind.distinct)
  have "total (m_index_loop self s1) (exprs_post P s1)" using t fuel by (intro index_loop) auto
  then obtain es s2 where e: "m_index_loop self s1 = Some (es, s2)" "moved P s1 s2" "on_tokens P s2"
      "in_order (next_start P s1) (map expr_span es) (next_start P s2)" "list_all nested_expr es"
      "clean s1 s2 \<longrightarrow> list_all prec_ok es"
    by (rule exprs_cases)
  have m: "moved P s s2" "rest P s2 < rest P s" using t e moved_trans moved_rest by (blast, force)
  have le: "expr_start target \<le> expr_end target" "expr_end target \<le> next_start P s1"
    using target t nested_expr_span by auto
  have inner: "list_all (\<lambda>i. expr_end target < expr_start i) es"
    using in_order_starts [OF e(4)] target(2) t(7) by (fastforce simp: list_all_iff)
  have past: "expr_end target < next_start P s2" using target(2) t(7) next_start_mono [OF e(2)] by simp
  show ?thesis
  proof (cases "at_kind P TK_RIGHT_BRACKET True s2")
    case True
    then obtain u s3 where u: "take_token P True s2 = (u, s3)" "moved P s2 s3" "clean s2 s3"
        "rest P s3 < rest P s2" "tok_start u = next_start P s2" "tok_end u \<le> next_start P s3"
        "tok_start u \<le> tok_end u" "tok_start u < tok_end u"
      using take_cases [OF e(3)] at_kind_not_eof by (metis token_kind.distinct)
    then show ?thesis using True t e m le target inner past moved_trans [OF m(1) u(2)]
      by (auto simp: index_expression_def Let_def suffix_post_def clean_trans [OF m(1) u(2)]
          clean_trans [OF t(2) e(2)] intro: in_order_weaken)
  next
    case False
    obtain stop where "(if es = [] then expr_end target else expr_end (last es)) = stop"
      "in_order (expr_end target) (map expr_span es) stop" "stop \<le> next_start P s2" "expr_end target \<le> stop"
      using closing_span [OF e(4) le(2)] .
    then show ?thesis using False t e m le target next_start_bound [of s2]
      by (simp add: index_expression_def) (auto simp: suffix_post_def env unclean_report intro!: moved_report)
  qed
qed

lemma call_expression_step:
  assumes s: "on_tokens P s" and k: "at_kind P TK_LEFT_PAREN True s"
    and callee: "nested_expr callee" "expr_end callee \<le> next_start P s"
    and fuel: "16 * rest P s + 1 \<le> Suc n"
  shows "total (call_expression self P callee s) (suffix_post P callee s)"
proof -
  obtain t s1 where t: "take_token P True s = (t, s1)" "moved P s s1" "clean s s1"
      "rest P s1 < rest P s" "on_tokens P s1" "next_start P s \<le> next_start P s1"
      "next_start P s < next_start P s1"
    using take_cases [OF s] k at_kind_not_eof by (metis token_kind.distinct)
  have "total (m_call_loop self s1) (args_post P s1)" using t fuel by (intro call_loop) auto
  then obtain es s2 where e: "m_call_loop self s1 = Some (es, s2)" "moved P s1 s2" "on_tokens P s2"
      "in_order (next_start P s1) (map arg_span es) (next_start P s2)" "list_all nested_arg es"
      "clean s1 s2 \<longrightarrow> list_all prec_ok_arg es"
    by (rule args_cases)
  have m: "moved P s s2" "rest P s2 < rest P s" using t e moved_trans moved_rest by (blast, force)
  have le: "expr_start callee \<le> expr_end callee" "expr_end callee \<le> next_start P s1"
    using callee t nested_expr_span by auto
  have inner: "list_all (\<lambda>a. expr_end callee < span_start (arg_span a)) es"
    using in_order_starts [OF e(4)] callee(2) t(7) by (fastforce simp: list_all_iff)
  have past: "expr_end callee < next_start P s2" using callee(2) t(7) next_start_mono [OF e(2)] by simp
  show ?thesis
  proof (cases "at_kind P TK_RIGHT_PAREN True s2")
    case True
    then obtain u s3 where u: "take_token P True s2 = (u, s3)" "moved P s2 s3" "clean s2 s3"
        "rest P s3 < rest P s2" "tok_start u = next_start P s2" "tok_end u \<le> next_start P s3"
        "tok_start u \<le> tok_end u" "tok_start u < tok_end u"
      using take_cases [OF e(3)] at_kind_not_eof by (metis token_kind.distinct)
    then show ?thesis using True t e m le callee inner past moved_trans [OF m(1) u(2)]
      by (auto simp: call_expression_def Let_def suffix_post_def clean_trans [OF m(1) u(2)]
          clean_trans [OF t(2) e(2)] intro: in_order_weaken)
  next
    case False
    obtain stop where "(if es = [] then expr_end callee else span_end (arg_span (last es))) = stop"
      "in_order (expr_end callee) (map arg_span es) stop" "stop \<le> next_start P s2" "expr_end callee \<le> stop"
      using closing_span [OF e(4) le(2)] .
    then show ?thesis using False t e m le callee next_start_bound [of s2]
      by (simp add: call_expression_def) (auto simp: suffix_post_def env unclean_report intro!: moved_report)
  qed
qed

text \<open>A comma and the rest of a list after its first element.\<close>

lemma exprs_post_cons:
  assumes "exprs_post P t (es, u)" "moved P s t" "nested_expr e" "next_start P s \<le> expr_start e"
    "expr_end e \<le> next_start P t" "clean s t \<longrightarrow> prec_ok e"
  shows "exprs_post P s (e # es, u)"
proof -
  have m: "moved P t u" "expr_start e \<le> expr_end e"
    using assms nested_expr_span by (auto simp: exprs_post_def)
  with assms moved_trans [OF assms(2) m(1)] clean_trans [OF assms(2) m(1)] show ?thesis
    by (auto simp: exprs_post_def intro: in_order_weaken)
qed

lemma args_post_cons:
  assumes "args_post P t (es, u)" "moved P s t" "nested_arg e" "next_start P s \<le> span_start (arg_span e)"
    "span_end (arg_span e) \<le> next_start P t" "clean s t \<longrightarrow> prec_ok_arg e"
  shows "args_post P s (e # es, u)"
proof -
  have m: "moved P t u" "span_start (arg_span e) \<le> span_end (arg_span e)"
    using assms nested_arg_span by (auto simp: args_post_def)
  with assms moved_trans [OF assms(2) m(1)] clean_trans [OF assms(2) m(1)] show ?thesis
    by (auto simp: args_post_def intro: in_order_weaken)
qed

lemma exprs_post_nil: "on_tokens P s \<Longrightarrow> exprs_post P s ([], s)"
  by (simp add: exprs_post_def moved_refl)

lemma args_post_nil: "on_tokens P s \<Longrightarrow> args_post P s ([], s)"
  by (simp add: args_post_def moved_refl)

lemma index_loop_step:
  assumes s: "on_tokens P s" and fuel: "16 * rest P s + 5 \<le> Suc n"
  shows "total (index_loop self P s) (exprs_post P s)"
proof (cases "at_kind P TK_RIGHT_BRACKET True s")
  case True
  then show ?thesis using s by (simp add: index_loop_def exprs_post_nil)
next
  case False
  have "total (m_expression self 1 s) (expr_post P 1 s)" using assms by (intro expression) auto
  then obtain x s1 e where x: "m_expression self 1 s = Some (x, s1)" "moved P s s1" "rest P s1 \<le> rest P s"
      "on_tokens P s1"
      and [symmetric, simp]: "e = (case x of None \<Rightarrow> MissingExpression
        (SourceSpan (tok_start (peek P True 0 s1)) (tok_start (peek P True 0 s1))) | Some e \<Rightarrow> e)"
      and e: "nested_expr e" "next_start P s \<le> expr_start e" "expr_end e \<le> next_start P s1"
        "clean s s1 \<longrightarrow> prec_ok e"
    using s moved_refl by (cases rule: expr_cases) (force simp: bound_at_def next_start_def)+
  show ?thesis
  proof (cases "at_kind P TK_COMMA True s1")
    case comma: True
    then obtain t s2 where t: "take_token P True s1 = (t, s2)" "moved P s1 s2" "clean s1 s2"
        "rest P s2 < rest P s1" "on_tokens P s2" "next_start P s1 \<le> next_start P s2"
      using take_cases [OF x(4)] at_kind_not_eof by (metis token_kind.distinct)
    have "total (m_index_loop self s2) (exprs_post P s2)" using t x fuel by (intro index_loop) auto
    then obtain es s3 where r: "m_index_loop self s2 = Some (es, s3)" "exprs_post P s2 (es, s3)"
      by (elim totalE) auto
    have "exprs_post P s (e # es, s3)"
      using r t e moved_trans [OF x(2) t(2)] clean_trans [OF x(2) t(2)] by (intro exprs_post_cons [OF r(2)]) auto
    then show ?thesis using False comma x t r by (simp add: index_loop_def)
  next
    case no_comma: False
    have "exprs_post P s ([e], s1)"
      using x e by (intro exprs_post_cons [OF exprs_post_nil [OF x(4)]]) auto
    then show ?thesis using False no_comma x by (simp add: index_loop_def)
  qed
qed

text \<open>The optional \<open>name :=\<close> or \<open>name =>\<close> before an argument.\<close>

lemma argument_name_cases:
  assumes s: "on_tokens P s"
    and named: "named = (tok_kind (peek P True 0 s) = TK_IDENTIFIER \<and>
                  tok_kind (peek P True 1 s) \<in> {TK_ASSIGN, TK_OUTPUT_ASSIGN})"
  obtains nm s1 dir s2 where
    "(if named then map_prod (\<lambda>t. Some (tok_text t)) id (take_token P True s) else (None, s)) = (nm, s1)"
    "(if named then map_prod (\<lambda>t. Some (tok_text t)) id (take_token P True s1) else (None, s1)) = (dir, s2)"
    "moved P s s2" "rest P s2 \<le> rest P s" "clean s s2" "on_tokens P s2"
proof (cases named)
  case False
  with that s moved_refl show ?thesis by (simp add: clean_def)
next
  case True
  then have "tok_kind (peek P True 0 s) \<noteq> TK_END_OF_FILE" using named by auto
  then obtain t s1 where t: "take_token P True s = (t, s1)" "moved P s s1" "clean s s1"
      "rest P s1 < rest P s" "on_tokens P s1"
    using take_cases [OF s] by metis
  have "peek P True 0 s1 = peek P True 1 s"
    using t(1) by (auto simp: peek_def peek_position_def take_token_def skip_trivia_def Let_def)
  then have "tok_kind (peek P True 0 s1) \<noteq> TK_END_OF_FILE" using named True by auto
  then obtain u s2 where u: "take_token P True s1 = (u, s2)" "moved P s1 s2" "clean s1 s2"
      "rest P s2 < rest P s1" "on_tokens P s2"
    using take_cases [OF t(5)] by metis
  show ?thesis
    by (rule that [of "Some (tok_text t)" s1 "Some (tok_text u)" s2])
      (use True t u moved_trans [OF t(2) u(2)] clean_trans [OF t(2) u(2)] in auto)
qed

lemma call_loop_comma:
  assumes s: "on_tokens P s" "at_kind P TK_COMMA True s" and m: "moved P s0 s"
    and fuel: "16 * rest P s + 5 \<le> Suc n"
    and arg: "nested_arg a" "next_start P s0 \<le> span_start (arg_span a)"
      "span_end (arg_span a) \<le> next_start P s" "clean s0 s \<longrightarrow> prec_ok_arg a"
  obtains t s1 args s2 where "take_token P True s = (t, s1)" "m_call_loop self s1 = Some (args, s2)"
    "args_post P s0 (a # args, s2)"
proof -
  obtain t s1 where t: "take_token P True s = (t, s1)" "moved P s s1" "clean s s1"
      "rest P s1 < rest P s" "on_tokens P s1" "next_start P s \<le> next_start P s1"
    using take_cases [OF s(1)] s(2) at_kind_not_eof by (metis token_kind.distinct)
  have "total (m_call_loop self s1) (args_post P s1)" using t fuel by (intro call_loop) auto
  then obtain args s2 where r: "m_call_loop self s1 = Some (args, s2)" "args_post P s1 (args, s2)"
    by (elim totalE) auto
  have "args_post P s0 (a # args, s2)"
    using t arg moved_trans [OF m t(2)] clean_trans [OF m t(2)] by (intro args_post_cons [OF r(2)]) auto
  with t(1) r(1) that show ?thesis by blast
qed

lemma call_loop_argument:
  assumes s: "on_tokens P s" and fuel: "16 * rest P s + 5 \<le> Suc n"
    and k: "\<not> at_kind P TK_RIGHT_PAREN True s" "\<not> at_kind P TK_COMMA True s"
  shows "total (call_loop self P s) (args_post P s)"
proof -
  let ?here = "tok_start (peek P True 0 s)"
  let ?missing = "MissingExpression (SourceSpan ?here ?here)"
  define named where "named = (tok_kind (peek P True 0 s) = TK_IDENTIFIER \<and>
                  tok_kind (peek P True 1 s) \<in> {TK_ASSIGN, TK_OUTPUT_ASSIGN})"
  obtain nm s1 dir s2 where nm:
    "(if named then map_prod (\<lambda>t. Some (tok_text t)) id (take_token P True s) else (None, s)) = (nm, s1)"
    "(if named then map_prod (\<lambda>t. Some (tok_text t)) id (take_token P True s1) else (None, s1)) = (dir, s2)"
    "moved P s s2" "rest P s2 \<le> rest P s" "clean s s2" "on_tokens P s2"
    using argument_name_cases [OF s named_def] .
  have here: "?here = next_start P s" "?here \<le> next_start P s2" "?here \<le> length source"
    using next_start_mono [OF nm(3)] next_start_bound [of s] by (simp_all add: next_start_def)
  have "total (m_expression self 1 s2) (expr_post P 1 s2)" using nm fuel by (intro expression) auto
  then obtain x s3 e s4 where x: "m_expression self 1 s2 = Some (x, s3)"
      "(case x of None \<Rightarrow> (?missing, report ''missing_call_argument'' ''call argument is missing''
                               (SourceSpan ?here ?here) s3) | Some y \<Rightarrow> (y, s3)) = (e, s4)"
      "moved P s s4" "rest P s4 \<le> rest P s" "on_tokens P s4"
      and e: "nested_expr e" "?here \<le> expr_start e" "expr_end e \<le> next_start P s4" "clean s s4 \<longrightarrow> prec_ok e"
  proof (cases rule: expr_cases)
    case none
    show ?thesis
      by (rule that [of None s2 ?missing "report ''missing_call_argument'' ''call argument is missing''
                               (SourceSpan ?here ?here) s2"])
        (use none nm here in \<open>auto simp: env unclean_report intro!: moved_report\<close>)
  next
    case (some y s3)
    show ?thesis
      by (rule that [of "Some y" s3 y s3])
        (use some nm here moved_trans [OF nm(3) some(2)] clean_trans [OF nm(3) some(2)] in
          \<open>auto simp: bound_at_def\<close>)
  qed
  let ?arg = "CallArgument (SourceSpan ?here (expr_end e)) e nm dir"
  have arg: "nested_arg ?arg" "next_start P s \<le> span_start (arg_span ?arg)"
      "span_end (arg_span ?arg) \<le> next_start P s4" "clean s s4 \<longrightarrow> prec_ok_arg ?arg"
    using e here nested_expr_span [OF e(1)] by auto
  show ?thesis
  proof (cases "at_kind P TK_COMMA True s4")
    case True
    have "16 * rest P s4 + 5 \<le> Suc n" using x fuel by auto
    then obtain t s5 args s6 where "take_token P True s4 = (t, s5)" "m_call_loop self s5 = Some (args, s6)"
      "args_post P s (?arg # args, s6)"
      using call_loop_comma [OF x(5) True x(3) _ arg] by blast
    then show ?thesis unfolding call_loop_def Let_def named_def [symmetric] nm x(2) prod.case
      using k x True by simp
  next
    case False
    have "args_post P s ([?arg], s4)" using x(3) arg by (intro args_post_cons [OF args_post_nil [OF x(5)]])
    then show ?thesis unfolding call_loop_def Let_def named_def [symmetric] nm x(2) prod.case
      using k x False by simp
  qed
qed

lemma call_loop_step:
  assumes s: "on_tokens P s" and fuel: "16 * rest P s + 5 \<le> Suc n"
  shows "total (call_loop self P s) (args_post P s)"
proof -
  consider "at_kind P TK_RIGHT_PAREN True s" | "at_kind P TK_COMMA True s"
    | "\<not> at_kind P TK_RIGHT_PAREN True s" "\<not> at_kind P TK_COMMA True s"
    by blast
  then show ?thesis
  proof cases
    case 1
    then show ?thesis using s by (simp add: call_loop_def args_post_nil)
  next
    case 2
    let ?here = "tok_start (peek P True 0 s)"
    let ?a = "CallArgument (SourceSpan ?here ?here) (MissingExpression (SourceSpan ?here ?here)) None None"
    obtain t s1 args s2 where "take_token P True s = (t, s1)" "m_call_loop self s1 = Some (args, s2)"
      "args_post P s (?a # args, s2)"
      by (rule call_loop_comma [OF s 2 moved_refl [OF s] fuel, of ?a]) (auto simp: next_start_def)
    then show ?thesis using 2 by (simp add: call_loop_def at_kind_def Let_def)
  next
    case 3
    then show ?thesis using assms by (intro call_loop_argument)
  qed
qed

subsection \<open>Recovery and the end of a statement\<close>

lemma current_peek: "current P s = peek P False 0 s"
  by (simp add: current_def peek_def peek_position_def)

lemma recover_loop_step:
  assumes s: "on_tokens P s" and fuel: "16 * rest P s + 1 \<le> Suc n"
  shows "total (recover_loop self P s) (recover_post P s)"
proof -
  let ?u = "skip_trivia P s" and ?v = "s\<lparr>ps_position := Suc (ps_position s)\<rparr>"
  let ?w = "?u\<lparr>ps_position := Suc (ps_position ?u)\<rparr>"
  show ?thesis
  proof (cases "tok_kind (current P s) = TK_END_OF_FILE")
    case True
    then have "\<not> Suc (ps_position s) < length tokens"
      using inner_kind [of "ps_position s"] by (auto simp: current_def token_at_on)
    then have "length tokens - 1 \<le> ps_position s" "length tokens - 1 \<le> skip_from P (ps_position s)"
      using skip_from_ge [of "ps_position s" P] by linarith+
    then have "tok_end (current P s) = length source" "next_start P s = length source"
      using last_token by (auto simp: current_def token_at_past next_start_def peek_True)
    then show ?thesis
      using True moved_refl [OF s] by (simp add: recover_loop_def at_kind_def current_peek [symmetric]
          recover_post_def current_def tok_start_at_bound)
  next
    case inside: False
    then have i: "Suc (ps_position s) < length tokens" using not_eof_inside by (simp add: current_def)
    then have iu: "skip_from P (ps_position s) < length tokens"
      using skip_on [of "ps_position s"] by simp
    have ge: "ps_position s \<le> skip_from P (ps_position s)" by (rule skip_from_ge)
    consider (semi) "tok_kind (current P s) = TK_SEMICOLON"
      | (kw) "tok_kind (current P s) \<noteq> TK_SEMICOLON" "fst (keyword_in P {''ELSIF'', ''ELSE'', ''END_IF''} s)"
      | (loop) "tok_kind (current P s) \<noteq> TK_SEMICOLON" "\<not> fst (keyword_in P {''ELSIF'', ''ELSE'', ''END_IF''} s)"
      by blast
    then show ?thesis
    proof cases
      case semi
      have "tok_end (current P s) \<le> next_start P ?v"
        using skip_from_ge [of "Suc (ps_position s)" P]
        by (auto simp: current_def next_start_def peek_True intro!: tok_end_at_next)
      moreover have "moved P s ?v" "rest P ?v < rest P s"
        using i by (auto simp: moved_def on_tokens_def rest_def env)
      moreover have "tok_start (current P s) \<le> tok_end (current P s)" by (simp add: current_def tok_span_at)
      ultimately show ?thesis using semi
        by (simp add: recover_loop_def at_kind_def current_peek [symmetric] recover_post_def
            take_token_def Let_def)
    next
      case kw
      then have k: "tok_kind (current P ?u) = TK_IDENTIFIER" by (auto simp: keyword_in_def Let_def)
      have "ps_position s < ps_position ?u" if "tok_kind (current P s) \<noteq> TK_IDENTIFIER"
        using that k ge by (cases "skip_from P (ps_position s) = ps_position s")
          (auto simp: skip_trivia_def current_def)
      moreover have "tok_start (current P s) \<le> tok_start (current P ?u)"
        "tok_start (current P ?u) = next_start P ?u"
        using ge by (auto simp: current_def skip_trivia_def next_start_def peek_True tok_start_at_mono)
      ultimately show ?thesis using kw inside skip_trivia_moved(1) [OF s] iu
        by (auto simp: recover_loop_def at_kind_def current_peek [symmetric] recover_post_def keyword_in_def
            Let_def rest_def env skip_trivia_def)
    next
      case loop
      have w: "on_tokens P ?w" "rest P ?w < rest P s" "moved P s ?w"
        using iu ge by (auto simp: on_tokens_def rest_def skip_trivia_def env moved_def)
      have "tok_start (current P s) \<le> tok_start (current P ?w)"
        using ge by (auto simp: current_def skip_trivia_def intro!: tok_start_at_mono)
      have "total (m_recover_loop self ?w) (recover_post P s)"
      proof (rule total_mono [OF recover_loop])
        fix r assume "recover_post P ?w r"
        then show "recover_post P s r"
          using w moved_trans [OF w(3)] moved_rest [of P ?w] \<open>tok_start (current P s) \<le> _\<close>
          by (fastforce simp: recover_post_def skip_trivia_def)
      qed (use w fuel in auto)
      then show ?thesis using loop inside
        by (auto simp: recover_loop_def at_kind_def current_peek [symmetric] keyword_in_def Let_def)
    qed
  qed
qed

lemma recover_statement_post:
  assumes m: "moved P s0 s" and fuel: "16 * rest P s + 1 \<le> n"
    and progress: "rest P s < rest P s0 \<or>
      tok_kind (peek P True 0 s) \<noteq> TK_IDENTIFIER \<and> tok_kind (peek P True 0 s) \<noteq> TK_END_OF_FILE"
  shows "total (recover_statement self P c s) (stmt_post P s0)"
proof -
  let ?u = "skip_trivia P s" and ?start = "next_start P s"
  have s: "on_tokens P s" using m by (rule moved_on_tokens)
  note u = skip_trivia_moved [OF s]
  have cur: "current P ?u = peek P True 0 s" "tok_start (current P ?u) = ?start"
    using u by (simp_all add: settled_current next_start_def)
  have "total (m_recover_loop self ?u) (recover_post P ?u)"
    using u fuel moved_on_tokens by (intro recover_loop) auto
  then obtain stop s' where r: "m_recover_loop self ?u = Some (stop, s')" "recover_post P ?u (stop, s')"
    by (elim totalE) auto
  have s': "moved P s0 s'" "rest P s' < rest P s0" "?start \<le> stop" "stop \<le> next_start P s'"
    using r(2) cur progress u m moved_trans [OF moved_trans [OF m u(1)]] moved_rest [of P ?u s']
      moved_rest [OF m] by (auto simp: recover_post_def)
  then show ?thesis using r(1) cur next_start_mono [OF m] next_start_bound [of s']
    by (auto simp: recover_statement_def Let_def stmt_post_def env unclean_report intro!: moved_report)
qed

lemma statement_end_cases:
  assumes m: "moved P s0 s" and fb: "fb \<le> next_start P s"
  obtains stop s' where "statement_end P fb s = (stop, s')" "moved P s0 s'" "rest P s' \<le> rest P s"
    "fb \<le> stop" "stop \<le> next_start P s'" "clean s0 s' \<longrightarrow> clean s0 s"
proof (cases "at_kind P TK_SEMICOLON True s")
  case True
  then obtain t s1 where "take_token P True s = (t, s1)" "moved P s s1" "clean s s1"
      "rest P s1 < rest P s" "tok_start t = next_start P s" "tok_end t \<le> next_start P s1"
      "tok_start t \<le> tok_end t"
    using take_cases [OF moved_on_tokens [OF m]] at_kind_not_eof by (metis token_kind.distinct)
  with True fb show ?thesis
    by (intro that [of "tok_end t" s1]) (auto simp: statement_end_def clean_trans [OF m] intro: moved_trans [OF m])
next
  case False
  show ?thesis
    by (rule that [of fb "report ''missing_semicolon'' (''statement is missing '' @ py_repr '';'')
              (SourceSpan fb fb) s"])
      (use False m fb next_start_bound [of s] in
        \<open>auto simp: statement_end_def env unclean_report intro!: moved_report\<close>)
qed

subsection \<open>Simple statements\<close>

lemma understood_call: "prec_ok e \<Longrightarrow> is_call e \<Longrightarrow> understood (ExpressionStatement sp e)"
  by simp

lemma expression_tail:
  assumes m: "moved P s s1" "rest P s1 < rest P s" and e: "nested_expr e" "next_start P s \<le> expr_start e"
      "expr_end e \<le> next_start P s1" "clean s s1 \<longrightarrow> prec_ok e"
  shows "total (let (stop, s2) = statement_end P (expr_end e) s1
                in if is_call e then Some (ExpressionStatement (SourceSpan (next_start P s) stop) e, s2)
                   else Some (UnsupportedStatement (SourceSpan (next_start P s) stop)
                                (slice (next_start P s) stop (pe_source P)),
                              report c msg (SourceSpan (next_start P s) stop) s2)) (stmt_post P s)"
proof -
  obtain stop s2 where "statement_end P (expr_end e) s1 = (stop, s2)" "moved P s s2"
      "rest P s2 \<le> rest P s1" "expr_end e \<le> stop" "stop \<le> next_start P s2" "clean s s2 \<longrightarrow> clean s s1"
    using statement_end_cases [OF m(1) e(3)] .
  then show ?thesis using m e nested_expr_span [OF e(1)] next_start_bound [of s2]
    by (auto simp: stmt_post_def env unclean_report intro!: moved_report)
qed

lemma assignment_tail:
  assumes m: "moved P s s1" "rest P s1 < rest P s" and k: "at_kind P TK_ASSIGN True s1"
    and e: "nested_expr e" "next_start P s \<le> expr_start e" "expr_end e \<le> next_start P s1"
      "clean s s1 \<longrightarrow> prec_ok e"
    and fuel: "16 * rest P s + 7 \<le> Suc n"
  shows "total (do {
              let (op, s2) = take_token P True s1;
              (y, s3) \<leftarrow> m_expression self 1 s2;
              case y of
                None \<Rightarrow> recover_statement self P c s3
              | Some v \<Rightarrow>
                  let (stop, s4) = statement_end P (expr_end v) s3
                  in Some (AssignmentStatement (SourceSpan (next_start P s) stop) e (tok_text op) v, s4)
            }) (stmt_post P s)"
proof -
  obtain t s2 where t: "take_token P True s1 = (t, s2)" "moved P s1 s2" "clean s1 s2"
      "rest P s2 < rest P s1" "on_tokens P s2" "next_start P s1 \<le> next_start P s2"
    using take_cases [OF moved_on_tokens [OF m(1)]] k at_kind_not_eof by (metis token_kind.distinct)
  have m2: "moved P s s2" using m(1) t(2) by (rule moved_trans)
  have "total (m_expression self 1 s2) (expr_post P 1 s2)" using t m fuel by (intro expression) auto
  then show ?thesis
  proof (cases rule: expr_cases)
    case none
    then show ?thesis using t m m2 fuel by (auto simp: Let_def intro!: recover_statement_post)
  next
    case (some v s3)
    have m3: "moved P s s3" using m2 some(2) by (rule moved_trans)
    obtain stop s4 where "statement_end P (expr_end v) s3 = (stop, s4)" "moved P s s4"
      "rest P s4 \<le> rest P s3" "expr_end v \<le> stop" "stop \<le> next_start P s4" "clean s s4 \<longrightarrow> clean s s3"
      using statement_end_cases [OF m3 some(7)] .
    then show ?thesis using some t m e nested_expr_span [OF e(1)] clean_trans [OF m2 some(2)]
        clean_trans [OF m(1) t(2)]
      by (auto simp: stmt_post_def bound_at_def)
  qed
qed

lemma expression_statement_post:
  assumes s: "on_tokens P s" "settled P s" "tok_kind (peek P True 0 s) \<noteq> TK_END_OF_FILE"
    and fuel: "16 * rest P s + 7 \<le> Suc n"
  shows "total (expression_statement self P s) (stmt_post P s)"
proof -
  have start: "tok_start (current P s) = next_start P s"
    using s by (simp add: settled_current next_start_def)
  have "total (m_expression self 1 s) (expr_post P 1 s)" using s fuel by (intro expression) auto
  then show ?thesis
  proof (cases rule: expr_cases)
    case none
    then show ?thesis using s fuel
      by (auto simp: expression_statement_def Let_def intro!: recover_statement_post moved_refl)
  next
    case (some e s1)
    note tails = assignment_tail [OF some(2,3) _ some(4,5,7) _ fuel] expression_tail [OF some(2,3,4,5,7)]
    have "clean s s1 \<longrightarrow> prec_ok e" using some(8) by (simp add: bound_at_def)
    then show ?thesis using some(1) tails unfolding expression_statement_def start
      by (simp add: Let_def)
  qed
qed

lemma some_statement_total:
  "total m (stmt_post P s0) \<Longrightarrow>
     total (some_statement m) (\<lambda>(x, s'). \<exists>st. x = Some st \<and> stmt_post P s0 (st, s'))"
  by (elim totalE) (auto simp: some_statement_def)

text \<open>A statement that starts with a token taken and ends with \<open>_statement_end\<close>.\<close>

lemma short_statement_post:
  assumes "moved P s t" "rest P t < rest P s" "next_start P s \<le> lo" "lo \<le> fb" "fb \<le> next_start P t"
    and "\<And>stop. lo \<le> stop \<Longrightarrow> stmt_span (f stop) = SourceSpan lo stop \<and> nested_stmt source (f stop) \<and>
           understood (f stop)"
  shows "total (let (stop, u) = statement_end P fb t in Some (Some (f stop), u))
           (\<lambda>(x, s'). \<exists>st. x = Some st \<and> stmt_post P s (st, s'))"
proof -
  obtain stop u where "statement_end P fb t = (stop, u)" "moved P s u" "rest P u \<le> rest P t"
      "fb \<le> stop" "stop \<le> next_start P u"
    using statement_end_cases [OF assms(1,5)] .
  then show ?thesis using assms by (simp add: stmt_post_def env)
qed

lemma keyword_not_eof: "keyword P v True s \<Longrightarrow> tok_kind (peek P True 0 s) \<noteq> TK_END_OF_FILE"
  by (auto simp: keyword_def Let_def)

lemma jump_statement_post:
  assumes s: "on_tokens P s" and k: "keyword P ''JMP'' True s" and fuel: "16 * rest P s + 7 \<le> Suc n"
  shows "total (let (t, s1) = take_token P True s
              in if at_kind P TK_IDENTIFIER True s1
                 then let (label, s2) = take_token P True s1;
                          (stop, s3) = statement_end P (tok_end label) s2
                      in Some (Some (JumpStatement (SourceSpan (tok_start t) stop) (tok_text label)), s3)
                 else some_statement (recover_statement self P c s1))
           (\<lambda>(x, s'). \<exists>st. x = Some st \<and> stmt_post P s (st, s'))"
proof -
  obtain t s1 where t: "take_token P True s = (t, s1)" "moved P s s1"
      "rest P s1 < rest P s" "on_tokens P s1" "tok_start t = next_start P s" "tok_start t \<le> tok_end t"
      "tok_end t \<le> next_start P s1"
    using take_cases [OF s keyword_not_eof [OF k]] by metis
  show ?thesis
  proof (cases "at_kind P TK_IDENTIFIER True s1")
    case True
    then obtain u s2 where u: "take_token P True s1 = (u, s2)" "moved P s1 s2" "rest P s2 < rest P s1"
        "tok_start u = next_start P s1" "tok_start u \<le> tok_end u" "tok_end u \<le> next_start P s2"
      using take_cases [OF t(4)] at_kind_not_eof by (metis token_kind.distinct)
    have "total (let (stop, s3) = statement_end P (tok_end u) s2
                 in Some (Some (JumpStatement (SourceSpan (tok_start t) stop) (tok_text u)), s3))
           (\<lambda>(x, s'). \<exists>st. x = Some st \<and> stmt_post P s (st, s'))"
      by (rule short_statement_post [OF moved_trans [OF t(2) u(2)], where lo = "tok_start t"])
        (use t u in auto)
    then show ?thesis using t(1) u(1) True by simp
  next
    case False
    have "total (recover_statement self P c s1) (stmt_post P s)"
      using t fuel by (intro recover_statement_post) auto
    then show ?thesis using t(1) False by (simp add: some_statement_total)
  qed
qed

lemma keyword_settled: "settled P s \<Longrightarrow> keyword P v False s = keyword P v True s"
  by (simp add: keyword_def settled_peek)

lemma label_statement_post:
  assumes s: "on_tokens P s" "settled P s" and k: "at_kind P TK_IDENTIFIER True s"
    "tok_kind (peek P True 1 s) = TK_COLON"
  shows "total (let (label, s1) = take_token P False (skip_trivia P s);
                  (colon, s2) = take_token P True s1
              in Some (Some (LabelStatement (SourceSpan (tok_start label) (tok_end colon))
                               (tok_text label)), s2))
           (\<lambda>(x, s'). \<exists>st. x = Some st \<and> stmt_post P s (st, s'))"
proof -
  have e: "take_token P False (skip_trivia P s) = take_token P True s"
    by (simp add: take_token_def)
  obtain t s1 where t: "take_token P True s = (t, s1)" "moved P s s1" "rest P s1 < rest P s"
      "on_tokens P s1" "tok_start t = next_start P s" "tok_start t \<le> tok_end t" "tok_end t \<le> next_start P s1"
    using take_cases [OF s(1)] k(1) at_kind_not_eof by (metis token_kind.distinct)
  have "peek P True 0 s1 = peek P True 1 s"
    using t(1) by (auto simp: peek_def peek_position_def take_token_def skip_trivia_def Let_def)
  then have "tok_kind (peek P True 0 s1) \<noteq> TK_END_OF_FILE" using k(2) by auto
  then obtain u s2 where u: "take_token P True s1 = (u, s2)" "moved P s1 s2" "rest P s2 < rest P s1"
      "tok_start u = next_start P s1" "tok_start u \<le> tok_end u" "tok_end u \<le> next_start P s2"
    using take_cases [OF t(4)] by metis
  show ?thesis using e t u moved_trans [OF t(2) u(2)] by (simp add: stmt_post_def)
qed

lemma exit_statement_post:
  assumes s: "on_tokens P s" and k: "keyword P ''EXIT'' True s"
  shows "total (let (t, s1) = take_token P True s;
                  (stop, s2) = statement_end P (tok_start t) s1
              in Some (Some (ExitStatement (SourceSpan (tok_start t) stop)), s2))
           (\<lambda>(x, s'). \<exists>st. x = Some st \<and> stmt_post P s (st, s'))"
proof -
  obtain t s1 where t: "take_token P True s = (t, s1)" "moved P s s1" "rest P s1 < rest P s"
      "on_tokens P s1" "tok_start t = next_start P s" "tok_start t \<le> tok_end t" "tok_end t \<le> next_start P s1"
    using take_cases [OF s keyword_not_eof [OF k]] by metis
  have "total (let (stop, s2) = statement_end P (tok_start t) s1
               in Some (Some (ExitStatement (SourceSpan (tok_start t) stop)), s2))
           (\<lambda>(x, s'). \<exists>st. x = Some st \<and> stmt_post P s (st, s'))"
    by (rule short_statement_post [OF t(2,3), where lo = "tok_start t"]) (use t in auto)
  with t(1) show ?thesis by simp
qed

lemma statement_step:
  assumes s0: "on_tokens P s0" "tok_kind (peek P True 0 s0) \<noteq> TK_END_OF_FILE"
    and fuel: "16 * rest P s0 + 7 \<le> Suc n"
  shows "total (statement self P s0) (\<lambda>(x, s'). \<exists>st. x = Some st \<and> stmt_post P s0 (st, s'))"
proof -
  define s where "s = skip_trivia P s0"
  note u = skip_trivia_moved [OF s0(1), folded s_def]
  have s: "on_tokens P s" "settled P s" "tok_kind (peek P True 0 s) \<noteq> TK_END_OF_FILE"
      "16 * rest P s + 7 \<le> Suc n"
    using u s0 fuel by (auto dest: moved_on_tokens)
  have lift: "stmt_post P s0 (st, s')" if "stmt_post P s (st, s')" for st s'
    using that u(4,6) moved_trans [OF u(1)] clean_trans [OF u(1)] u(2) by (fastforce simp: stmt_post_def)
  have "total (statement self P s0) (\<lambda>(x, s'). \<exists>st. x = Some st \<and> stmt_post P s (st, s'))"
  proof -
    have "at_kind P TK_END_OF_FILE False s = False"
      using s by (simp add: at_kind_def settled_peek)
    note head = this keyword_settled [OF s(2)]
    note compound = some_statement_total [OF if_statement [OF s(1,3)]]
      some_statement_total [OF while_statement [OF s(1,3)]]
    note simple = exit_statement_post [OF s(1)] jump_statement_post [OF s(1) _ s(4)]
      label_statement_post [OF s(1,2)] some_statement_total [OF expression_statement_post [OF s]]
    show ?thesis
      unfolding statement_def s_def [symmetric] unfolding Let_def [of s] head if_False
      by (intro total_if compound simple) (use s(4) in auto)
  qed
  then show ?thesis by (rule total_mono) (auto dest: lift)
qed

subsection \<open>Compound statements\<close>

lemma guarded_condition_cases:
  assumes s: "on_tokens P s" and start: "start \<le> next_start P s" and fuel: "16 * rest P s + 4 \<le> n"
  obtains c s' where "guarded_condition self P start missing kw absent s = Some (c, s')"
    "moved P s s'" "rest P s' \<le> rest P s" "on_tokens P s'" "nested_expr c" "start \<le> expr_start c"
    "expr_start c \<le> expr_end c" "expr_end c \<le> next_start P s'" "clean s s' \<longrightarrow> prec_ok c"
proof -
  have "total (m_expression self 1 s) (expr_post P 1 s)" using s fuel by (intro expression) auto
  then obtain x s1 c s2 where x: "m_expression self 1 s = Some (x, s1)"
      "(case x of None \<Rightarrow> (MissingExpression (SourceSpan start start),
          report (fst missing) (snd missing) (SourceSpan start start) s1) | Some e \<Rightarrow> (e, s1)) = (c, s2)"
      "moved P s s2" "rest P s2 \<le> rest P s"
      and c: "nested_expr c" "start \<le> expr_start c" "expr_end c \<le> next_start P s2" "clean s s2 \<longrightarrow> prec_ok c"
  proof (cases rule: expr_cases)
    case none
    show ?thesis
      by (rule that [of None s "MissingExpression (SourceSpan start start)"
            "report (fst missing) (snd missing) (SourceSpan start start) s"])
        (use none s start next_start_bound [of s] in \<open>auto simp: env intro!: moved_report moved_refl\<close>)
  next
    case (some e s1)
    then show ?thesis using start by (intro that [of "Some e" s1 e s1]) (auto simp: bound_at_def)
  qed
  have span: "expr_start c \<le> expr_end c" "on_tokens P s2" "expr_end c \<le> length source"
    using c x(3) nested_expr_span moved_on_tokens next_start_bound [of s2] by auto
  show ?thesis
  proof (cases "keyword P kw True s2")
    case True
    then obtain t s3 where t: "take_token P True s2 = (t, s3)" "moved P s2 s3" "clean s2 s3"
        "rest P s3 < rest P s2" "on_tokens P s3" "next_start P s2 \<le> next_start P s3"
      using take_cases [OF span(2) keyword_not_eof] by metis
    with True x c span show ?thesis
      by (intro that [of c s3])
        (auto simp: guarded_condition_def clean_trans [OF x(3) t(2)] intro: moved_trans [OF x(3)])
  next
    case False
    show ?thesis
      by (rule that [of c "report (fst absent) (snd absent) (expr_span c) s2"])
        (use False x c span in \<open>auto simp: guarded_condition_def env unclean_report intro!: moved_report\<close>)
  qed
qed

lemma stmts_cases:
  assumes "total r (stmts_post P s)"
  obtains es s' where "r = Some (es, s')" "moved P s s'" "on_tokens P s'" "settled P s'"
    "rest P s' \<le> rest P s"
    "in_order (next_start P s) (map stmt_span es) (next_start P s')" "list_all (nested_stmt source) es"
    "clean s s' \<longrightarrow> list_all understood es"
  using assms by (elim totalE)
    (auto simp: stmts_post_def env split: prod.splits dest: moved_on_tokens moved_rest)

lemma eof_settled: "tok_kind (token_at P i) = TK_END_OF_FILE \<Longrightarrow> skip_from P i = i"
  by (subst skip_from.simps) (auto simp: is_trivia_def env token_at_on)

lemma stmts_post_nil: "on_tokens P s \<Longrightarrow> settled P s \<Longrightarrow> stmts_post P s ([], s)"
  by (simp add: stmts_post_def moved_refl)

lemma stmts_post_skip:
  assumes "stmts_post P (skip_trivia P s) r" "on_tokens P s"
  shows "stmts_post P s r"
  using assms(1) skip_trivia_moved [OF assms(2)] moved_trans [of P s "skip_trivia P s"]
    clean_trans [of P s "skip_trivia P s"]
  by (auto simp: stmts_post_def)

lemma stmts_post_cons:
  assumes "stmts_post P t (es, u)" "stmt_post P s (e, t)"
  shows "stmts_post P s (e # es, u)"
proof -
  have m: "moved P s t" "moved P t u" "stmt_start e \<le> stmt_end e"
    using assms nested_stmt_span by (auto simp: stmts_post_def stmt_post_def)
  with assms moved_trans [OF m(1,2)] clean_trans [OF m(1,2)] show ?thesis
    by (auto simp: stmts_post_def stmt_post_def intro: in_order_weaken)
qed

lemma statement_list_step:
  assumes s: "on_tokens P s" and fuel: "16 * rest P s + 8 \<le> Suc n"
  shows "total (statement_list self P ks s) (stmts_post P s)"
proof (cases "at_kind P TK_END_OF_FILE False s")
  case True
  then have "settled P s"
    by (auto simp: at_kind_def current_peek [symmetric] current_def settled_def intro: eof_settled)
  with True s show ?thesis by (simp add: statement_list_def stmts_post_nil)
next
  case inside: False
  define s1 where "s1 = skip_trivia P s"
  note u = skip_trivia_moved [OF s, folded s1_def]
  have k: "keyword_in P ks s = (fst (keyword_in P ks s), s1)" by (simp add: keyword_in_def Let_def s1_def)
  have s1: "on_tokens P s1" using u(1) by (rule moved_on_tokens)
  show ?thesis
  proof (cases "fst (keyword_in P ks s) \<or> at_kind P TK_END_OF_FILE False s1")
    case True
    have "stmts_post P s ([], s1)"
      using stmts_post_nil [OF s1 u(3)] stmts_post_skip s by (simp add: s1_def)
    with True inside k show ?thesis
      by (cases "keyword_in P ks s") (auto simp: statement_list_def)
  next
    case False
    then have "tok_kind (peek P True 0 s1) \<noteq> TK_END_OF_FILE"
      using u(3) by (simp add: at_kind_def settled_peek)
    moreover have "16 * rest P s1 + 7 \<le> n" using u(6) fuel by linarith
    ultimately obtain st s2 where st: "m_statement self s1 = Some (Some st, s2)" "stmt_post P s1 (st, s2)"
      using statement [OF s1] by (fastforce elim!: totalE)
    then have m: "moved P s1 s2" "rest P s2 < rest P s1" by (auto simp: stmt_post_def)
    then have "ps_position s2 \<noteq> ps_position s1" by (auto simp: rest_def)
    moreover have "total (m_statement_list self ks s2) (stmts_post P s2)"
      using m u(6) fuel by (intro statement_list) (auto dest: moved_on_tokens)
    then obtain es s3 where r: "m_statement_list self ks s2 = Some (es, s3)" "stmts_post P s2 (es, s3)"
      by (elim totalE) auto
    moreover have "stmts_post P s (st # es, s3)"
      using stmts_post_skip [OF _ s] stmts_post_cons [OF r(2) st(2)] by (simp add: s1_def)
    ultimately show ?thesis using inside k False st(1)
      by (cases "keyword_in P ks s") (auto simp: statement_list_def)
  qed
qed

text \<open>A condition and the body under it: what \<open>IF\<close> branches and \<open>WHILE\<close> share.\<close>

lemma condition_body_cases:
  assumes s: "on_tokens P s" and start: "start \<le> next_start P s" and fuel: "16 * rest P s + 8 \<le> n"
  obtains c s1 body s2 stop where "guarded_condition self P start missing kw absent s = Some (c, s1)"
    "m_statement_list self ks s1 = Some (body, s2)" "moved P s s2" "rest P s2 \<le> rest P s" "settled P s2"
    "nested_expr c" "list_all (nested_stmt source) body"
    "(if body = [] then expr_end c else stmt_end (last body)) = stop"
    "in_order start (expr_span c # map stmt_span body) stop" "stop \<le> next_start P s2"
    "clean s s2 \<longrightarrow> prec_ok c \<and> list_all understood body"
proof -
  have four: "16 * rest P s + 4 \<le> n" using fuel by simp
  obtain c s1 where c: "guarded_condition self P start missing kw absent s = Some (c, s1)"
    "moved P s s1" "rest P s1 \<le> rest P s" "on_tokens P s1" "nested_expr c" "start \<le> expr_start c"
    "expr_start c \<le> expr_end c" "expr_end c \<le> next_start P s1" "clean s s1 \<longrightarrow> prec_ok c"
    by (rule guarded_condition_cases [OF s start four])
  have "total (m_statement_list self ks s1) (stmts_post P s1)" using c fuel by (intro statement_list) auto
  then obtain body s2 where b: "m_statement_list self ks s1 = Some (body, s2)" "moved P s1 s2"
    "on_tokens P s2" "settled P s2" "rest P s2 \<le> rest P s1"
    "in_order (next_start P s1) (map stmt_span body) (next_start P s2)" "list_all (nested_stmt source) body"
    "clean s1 s2 \<longrightarrow> list_all understood body"
    by (rule stmts_cases)
  obtain stop where "(if body = [] then expr_end c else stmt_end (last body)) = stop"
      "in_order (expr_end c) (map stmt_span body) stop" "stop \<le> next_start P s2"
    using closing_span [OF b(6) c(8)] .
  then show ?thesis using b c clean_trans [OF c(2) b(2)] 
    by (intro that [of c s1 body s2 stop]) (auto intro: moved_trans)
qed

lemma if_branch_step:
  assumes s: "on_tokens P s" and start: "start \<le> next_start P s" and fuel: "16 * rest P s + 9 \<le> Suc n"
  shows "total (if_branch self P start s) (branch_post P start s)"
proof -
  have "16 * rest P s + 8 \<le> n" using fuel by simp
  from condition_body_cases [OF s start this, of
      "(''missing_if_condition'', ''IF branch is missing a condition'')" "''THEN''"
      "(''missing_then'', ''IF branch is missing THEN'')" if_branch_terminators]
  show ?thesis by (rule; simp add: if_branch_def branch_post_def env)
qed

text \<open>A compound statement closed by its keyword and a semicolon.\<close>

lemma closing_keyword_cases:
  assumes m: "moved P s0 s" and k: "keyword P kw True s"
  obtains e s1 stop s2 where "take_token P True s = (e, s1)" "statement_end P (tok_end e) s1 = (stop, s2)"
    "moved P s0 s2" "rest P s2 < rest P s" "next_start P s \<le> stop" "stop \<le> next_start P s2"
    "clean s0 s2 \<longrightarrow> clean s0 s"
proof -
  obtain e s1 where e: "take_token P True s = (e, s1)" "moved P s s1" "clean s s1"
      "rest P s1 < rest P s" "tok_start e = next_start P s" "tok_start e \<le> tok_end e"
      "tok_end e \<le> next_start P s1"
    using take_cases [OF moved_on_tokens [OF m] keyword_not_eof [OF k]] by metis
  obtain stop s2 where "statement_end P (tok_end e) s1 = (stop, s2)" "moved P s0 s2"
      "rest P s2 \<le> rest P s1" "tok_end e \<le> stop" "stop \<le> next_start P s2" "clean s0 s2 \<longrightarrow> clean s0 s1"
    using statement_end_cases [OF moved_trans [OF m e(2)] e(7)] .
  with e show ?thesis by (intro that [of e s1 stop s2]) (auto simp: clean_trans [OF m e(2)])
qed

lemma while_statement_step:
  assumes s: "on_tokens P s" and k: "tok_kind (peek P True 0 s) \<noteq> TK_END_OF_FILE"
    and fuel: "16 * rest P s + 6 \<le> Suc n"
  shows "total (while_statement self P s) (stmt_post P s)"
proof -
  obtain t s1 where t: "take_token P True s = (t, s1)" "moved P s s1" "clean s s1"
      "rest P s1 < rest P s" "on_tokens P s1" "tok_start t = next_start P s" "next_start P s \<le> next_start P s1"
    using take_cases [OF s k] by metis
  have "16 * rest P s1 + 8 \<le> n" using t fuel by linarith
  then obtain c s2 body s3 stop where c: "guarded_condition self P (tok_start t)
       (''missing_while_condition'', ''WHILE statement is missing a condition'') ''DO''
       (''missing_do'', ''WHILE statement is missing DO'') s1 = Some (c, s2)"
    "m_statement_list self {''END_WHILE''} s2 = Some (body, s3)" "moved P s1 s3" "rest P s3 \<le> rest P s1"
    "settled P s3" "nested_expr c" "list_all (nested_stmt source) body"
    "in_order (tok_start t) (expr_span c # map stmt_span body) stop" "stop \<le> next_start P s3"
    "clean s1 s3 \<longrightarrow> prec_ok c \<and> list_all understood body"
    using condition_body_cases [of s1 "tok_start t"] t by metis
  have m: "moved P s s3" "clean s s3 \<longleftrightarrow> clean s1 s3"
    using moved_trans [OF t(2) c(3)] clean_trans [OF t(2) c(3)] t(3) by auto
  show ?thesis
  proof (cases "keyword P ''END_WHILE'' True s3")
    case True
    obtain e s4 stop' s5 where "take_token P True s3 = (e, s4)" "statement_end P (tok_end e) s4 = (stop', s5)"
      "moved P s s5" "rest P s5 < rest P s3" "next_start P s3 \<le> stop'" "stop' \<le> next_start P s5"
      "clean s s5 \<longrightarrow> clean s s3"
      by (rule closing_keyword_cases [OF m(1) True])
    then show ?thesis using True t c m
      by (auto simp: while_statement_def stmt_post_def env intro: in_order_weaken)
  next
    case False
    have "tok_start (current P s3) = next_start P s3"
      using c(5) by (simp add: settled_current next_start_def)
    moreover have "next_start P s \<le> next_start P s3" using m(1) by (rule next_start_mono)
    ultimately show ?thesis using False t c m next_start_bound [of s3]
      by (auto simp: while_statement_def Let_def stmt_post_def env unclean_report
          intro!: moved_report intro: in_order_weaken)
  qed
qed

lemma branch_cases:
  assumes "total r (branch_post P start s)"
  obtains b s' where "r = Some (b, s')" "moved P s s'" "on_tokens P s'" "settled P s'"
    "rest P s' \<le> rest P s" "nested_branch source b" "span_start (branch_span b) = start"
    "start \<le> span_end (branch_span b)" "span_end (branch_span b) \<le> next_start P s'"
    "clean s s' \<longrightarrow> understood_branch b"
proof -
  obtain b s' where b: "r = Some (b, s')" "branch_post P start s (b, s')"
    using assms by (elim totalE) auto
  then have "start \<le> span_end (branch_span b)"
    by (cases b) (auto simp: branch_post_def dest: in_order_le)
  with b that show ?thesis by (auto simp: branch_post_def env dest: moved_on_tokens moved_rest)
qed

lemma branches_post_cons:
  assumes "branches_post P t (bs, u)" "moved P s t" "nested_branch source b"
    "next_start P s \<le> span_start (branch_span b)" "span_start (branch_span b) \<le> span_end (branch_span b)"
    "span_end (branch_span b) \<le> next_start P t" "clean s t \<longrightarrow> understood_branch b"
  shows "branches_post P s (b # bs, u)"
proof -
  have m: "moved P t u" using assms by (auto simp: branches_post_def)
  with assms moved_trans [OF assms(2) m] clean_trans [OF assms(2) m] show ?thesis
    by (auto simp: branches_post_def env intro: in_order_weaken)
qed

lemma elsif_loop_step:
  assumes s: "on_tokens P s" "settled P s" and fuel: "16 * rest P s + 6 \<le> Suc n"
  shows "total (elsif_loop self P s) (branches_post P s)"
proof (cases "keyword P ''ELSIF'' True s")
  case False
  then show ?thesis using s by (simp add: elsif_loop_def branches_post_def moved_refl)
next
  case True
  obtain t s1 where t: "take_token P True s = (t, s1)" "moved P s s1" "clean s s1"
      "rest P s1 < rest P s" "on_tokens P s1" "tok_start t = next_start P s" "next_start P s \<le> next_start P s1"
    using take_cases [OF s(1) keyword_not_eof [OF True]] by metis
  have "total (m_if_branch self (tok_start t) s1) (branch_post P (tok_start t) s1)"
    using t fuel by (intro if_branch) auto
  then obtain b s2 where b: "m_if_branch self (tok_start t) s1 = Some (b, s2)" "moved P s1 s2"
      "on_tokens P s2" "settled P s2" "rest P s2 \<le> rest P s1" "nested_branch source b"
      "span_start (branch_span b) = tok_start t" "tok_start t \<le> span_end (branch_span b)"
      "span_end (branch_span b) \<le> next_start P s2" "clean s1 s2 \<longrightarrow> understood_branch b"
    by (rule branch_cases)
  have "total (m_elsif_loop self s2) (branches_post P s2)" using b t fuel by (intro elsif_loop) auto
  then obtain bs s3 where r: "m_elsif_loop self s2 = Some (bs, s3)" "branches_post P s2 (bs, s3)"
    by (elim totalE) auto
  have "branches_post P s (b # bs, s3)"
    using b t moved_trans [OF t(2) b(2)] clean_trans [OF t(2) b(2)]
    by (intro branches_post_cons [OF r(2)]) auto
  then show ?thesis using True t b r by (simp add: elsif_loop_def)
qed

text \<open>The branches of an \<open>IF\<close> up to the optional \<open>ELSE\<close> part.\<close>

lemma else_part_cases:
  assumes s: "on_tokens P s" "settled P s" and fuel: "16 * rest P s + 6 \<le> n"
  obtains es s' where
    "(if keyword P ''ELSE'' True s
      then let (e, u) = take_token P True s in m_statement_list self {''END_IF''} u
      else Some ([], s)) = Some (es, s')"
    "moved P s s'" "settled P s'" "in_order (next_start P s) (map stmt_span es) (next_start P s')"
    "list_all (nested_stmt source) es" "clean s s' \<longrightarrow> list_all understood es"
proof (cases "keyword P ''ELSE'' True s")
  case False
  with s that show ?thesis by (simp add: moved_refl)
next
  case True
  obtain t s1 where t: "take_token P True s = (t, s1)" "moved P s s1" "clean s s1"
      "rest P s1 < rest P s" "on_tokens P s1" "next_start P s \<le> next_start P s1"
    using take_cases [OF s(1) keyword_not_eof [OF True]] by metis
  have "total (m_statement_list self {''END_IF''} s1) (stmts_post P s1)"
    using t fuel by (intro statement_list) auto
  then obtain es s2 where e: "m_statement_list self {''END_IF''} s1 = Some (es, s2)" "moved P s1 s2"
    "on_tokens P s2" "settled P s2" "rest P s2 \<le> rest P s1"
    "in_order (next_start P s1) (map stmt_span es) (next_start P s2)" "list_all (nested_stmt source) es"
    "clean s1 s2 \<longrightarrow> list_all understood es"
    by (rule stmts_cases)
  show ?thesis
    by (rule that [of es s2])
      (use True t e moved_trans [OF t(2) e(2)] clean_trans [OF t(2) e(2)] in
        \<open>auto intro: in_order_weaken\<close>)
qed

lemma if_parts_cases:
  assumes s: "on_tokens P s" and k: "tok_kind (peek P True 0 s) \<noteq> TK_END_OF_FILE"
    and fuel: "16 * rest P s + 6 \<le> Suc n"
  obtains t s1 b s2 bs s3 es s4 where "take_token P True s = (t, s1)" "tok_start t = next_start P s"
    "m_if_branch self (tok_start t) s1 = Some (b, s2)" "m_elsif_loop self s2 = Some (bs, s3)"
    "(if keyword P ''ELSE'' True s3
      then let (e, u) = take_token P True s3 in m_statement_list self {''END_IF''} u
      else Some ([], s3)) = Some (es, s4)"
    "moved P s s4" "rest P s4 < rest P s" "settled P s4"
    "in_order (next_start P s) (map branch_span (b # bs) @ map stmt_span es) (next_start P s4)"
    "list_all (nested_branch source) (b # bs)" "list_all (nested_stmt source) es"
    "clean s s4 \<longrightarrow> list_all understood_branch (b # bs) \<and> list_all understood es"
proof -
  obtain t s1 where t: "take_token P True s = (t, s1)" "moved P s s1" "clean s s1"
      "rest P s1 < rest P s" "on_tokens P s1" "tok_start t = next_start P s" "next_start P s \<le> next_start P s1"
    using take_cases [OF s k] by metis
  have "total (m_if_branch self (tok_start t) s1) (branch_post P (tok_start t) s1)"
    using t fuel by (intro if_branch) auto
  then obtain b s2 where b: "m_if_branch self (tok_start t) s1 = Some (b, s2)" "moved P s1 s2"
      "on_tokens P s2" "settled P s2" "rest P s2 \<le> rest P s1" "nested_branch source b"
      "span_start (branch_span b) = tok_start t" "tok_start t \<le> span_end (branch_span b)"
      "span_end (branch_span b) \<le> next_start P s2" "clean s1 s2 \<longrightarrow> understood_branch b"
    by (rule branch_cases)
  have "total (m_elsif_loop self s2) (branches_post P s2)" using b t fuel by (intro elsif_loop) auto
  then obtain bs s3 where r: "m_elsif_loop self s2 = Some (bs, s3)" "branches_post P s2 (bs, s3)"
    by (elim totalE) auto
  have m2: "moved P s s2" using t(2) b(2) by (rule moved_trans)
  have "branches_post P s (b # bs, s3)"
    using b t m2 clean_trans [OF t(2) b(2)] by (intro branches_post_cons [OF r(2)]) auto
  then have bs: "moved P s s3" "settled P s3"
      "in_order (next_start P s) (map branch_span (b # bs)) (next_start P s3)"
      "list_all (nested_branch source) (b # bs)" "clean s s3 \<longrightarrow> list_all understood_branch (b # bs)"
    by (auto simp: branches_post_def env)
  have fuel3: "on_tokens P s3" "16 * rest P s3 + 6 \<le> n" "rest P s3 < rest P s"
    using r(2) b t fuel moved_rest [of P s2 s3] moved_on_tokens [OF bs(1)] by (auto simp: branches_post_def)
  obtain es s4 where e:
    "(if keyword P ''ELSE'' True s3
      then let (e, u) = take_token P True s3 in m_statement_list self {''END_IF''} u
      else Some ([], s3)) = Some (es, s4)"
    "moved P s3 s4" "settled P s4" "in_order (next_start P s3) (map stmt_span es) (next_start P s4)"
    "list_all (nested_stmt source) es" "clean s3 s4 \<longrightarrow> list_all understood es"
    by (rule else_part_cases [OF fuel3(1) bs(2) fuel3(2)])
  show ?thesis
    by (rule that [OF t(1,6) b(1) r(1) e(1) moved_trans [OF bs(1) e(2)] _ e(3)
          in_order_appendI [OF bs(3) e(4) order_refl] bs(4) e(5)])
      (use bs e fuel3 moved_rest [OF e(2)] clean_trans [OF bs(1) e(2)] in auto)
qed

lemma if_statement_step:
  assumes s: "on_tokens P s" and k: "tok_kind (peek P True 0 s) \<noteq> TK_END_OF_FILE"
    and fuel: "16 * rest P s + 6 \<le> Suc n"
  shows "total (if_statement self P s) (stmt_post P s)"
proof -
  obtain t s1 b s2 bs s3 es s4 where p: "take_token P True s = (t, s1)" "tok_start t = next_start P s"
    "m_if_branch self (tok_start t) s1 = Some (b, s2)" "m_elsif_loop self s2 = Some (bs, s3)"
    "(if keyword P ''ELSE'' True s3
      then let (e, u) = take_token P True s3 in m_statement_list self {''END_IF''} u
      else Some ([], s3)) = Some (es, s4)" and m: "moved P s s4" "rest P s4 < rest P s" "settled P s4"
    and o: "in_order (next_start P s) (map branch_span (b # bs) @ map stmt_span es) (next_start P s4)"
    and nested: "list_all (nested_branch source) (b # bs)" "list_all (nested_stmt source) es"
    and u: "clean s s4 \<longrightarrow> list_all understood_branch (b # bs) \<and> list_all understood es"
    by (rule if_parts_cases [OF s k fuel])
  show ?thesis
  proof (cases "keyword P ''END_IF'' True s4")
    case True
    obtain e s5 stop s6 where "take_token P True s4 = (e, s5)" "statement_end P (tok_end e) s5 = (stop, s6)"
      "moved P s s6" "rest P s6 < rest P s4" "next_start P s4 \<le> stop" "stop \<le> next_start P s6"
      "clean s s6 \<longrightarrow> clean s s4"
      by (rule closing_keyword_cases [OF m(1) True])
    then show ?thesis using True p(1-4) m nested u in_order_weaken [OF o order_refl, of stop]
      unfolding if_statement_def p(5)
      by (simp add: Let_def p stmt_post_def env)
  next
    case False
    have "tok_start (current P s4) = next_start P s4"
      using m(3) by (simp add: settled_current next_start_def)
    then show ?thesis using False p(1-4) m o nested u next_start_mono [OF m(1)] next_start_bound [of s4]
      by (simp add: if_statement_def Let_def p stmt_post_def env unclean_report moved_report)
  qed
qed

end

end
