(* ===== verification/Parser_Total.thy ===== *)
theory Parser_Total imports Parser_Methods begin

text \<open>
  The knot \<open>parser n\<close> keeps every promise of \<open>parser_methods\<close> at depth \<open>n\<close>, by induction
  on \<open>n\<close> over the step lemmas. The depth \<open>parser_depth\<close> is enough for a whole source, so
  \<open>parse_structured_text\<close> always returns a document.
\<close>

lemma parser_keeps:
  assumes "parsing source tokens P"
  shows "parser_methods source tokens P (parser n P) n"
proof (induction n)
  case 0
  show ?case by (intro parser_methods.intro assms parser_methods_axioms.intro) simp_all
next
  case (Suc n)
  note steps = parser_methods.recover_loop_step [OF Suc] parser_methods.expression_step [OF Suc]
    parser_methods.binary_loop_step [OF Suc] parser_methods.unary_step [OF Suc]
    parser_methods.postfix_step [OF Suc] parser_methods.postfix_loop_step [OF Suc]
    parser_methods.primary_step [OF Suc] parser_methods.index_expression_step [OF Suc]
    parser_methods.index_loop_step [OF Suc] parser_methods.call_expression_step [OF Suc]
    parser_methods.call_loop_step [OF Suc] parser_methods.statement_list_step [OF Suc]
    parser_methods.statement_step [OF Suc] parser_methods.if_statement_step [OF Suc]
    parser_methods.elsif_loop_step [OF Suc] parser_methods.if_branch_step [OF Suc]
    parser_methods.while_statement_step [OF Suc]
  show ?case
    by (intro parser_methods.intro assms parser_methods_axioms.intro;
        unfold parser.simps Let_def methods.select_convs) (rule steps; assumption)+
qed

abbreviation lexed_env :: "string \<Rightarrow> parser_env" where
  "lexed_env src \<equiv> \<lparr>pe_source = src, pe_tokens = fst (lex_structured_text src)\<rparr>"

lemma lexed_parsing: "parsing src (fst (lex_structured_text src)) (lexed_env src)"
  by (intro parsing.intro lexed_stream parsing_axioms.intro) simp_all

interpretation parser_ok:
  parser_methods src "fst (lex_structured_text src)" "lexed_env src" "parser n (lexed_env src)" n
  for src n
  by (rule parser_keeps [OF lexed_parsing])

lemma parse_outcome:
  obtains statements s where "parse_structured_text src =
      Some \<lparr>doc_source = src, doc_tokens = fst (lex_structured_text src),
            doc_statements = statements, doc_diagnostics = ps_diagnostics s\<rparr>"
    and "stmts_post (lexed_env src)
      \<lparr>ps_position = 0, ps_diagnostics = snd (lex_structured_text src)\<rparr> (statements, s)"
proof -
  let ?toks = "fst (lex_structured_text src)"
  let ?s0 = "\<lparr>ps_position = 0, ps_diagnostics = snd (lex_structured_text src)\<rparr>"
  have "total (m_statement_list (parser (parser_depth ?toks) (lexed_env src)) {} ?s0)
          (stmts_post (lexed_env src) ?s0)"
    by (rule parser_ok.statement_list) (simp_all add: on_tokens_def rest_def parser_depth_def)
  then obtain statements s where
      r: "m_statement_list (parser (parser_depth ?toks) (lexed_env src)) {} ?s0 = Some (statements, s)"
        "stmts_post (lexed_env src) ?s0 (statements, s)"
    by (elim totalE) auto
  show ?thesis
    by (rule that [OF _ r(2)])
      (use r(1) in \<open>simp add: parse_structured_text_def case_prod_beta Let_def\<close>)
qed

section \<open>A source parsed step by step\<close>

text \<open>The document of \<open>a:=1;\<close>, computed by one lemma per method called.\<close>

lemma run_expression: "m_expression (parser (Suc n) P) = expression (parser n P) P"
  and run_binary_loop: "m_binary_loop (parser (Suc n) P) = binary_loop (parser n P) P"
  and run_unary: "m_unary (parser (Suc n) P) = unary (parser n P) P"
  and run_postfix: "m_postfix (parser (Suc n) P) = postfix (parser n P) P"
  and run_postfix_loop: "m_postfix_loop (parser (Suc n) P) = postfix_loop (parser n P) P"
  and run_primary: "m_primary (parser (Suc n) P) = primary (parser n P) P"
  and run_statement_list: "m_statement_list (parser (Suc n) P) = statement_list (parser n P) P"
  and run_statement: "m_statement (parser (Suc n) P) = statement (parser n P) P"
  by (simp_all add: Let_def parser.simps)

declare parser.simps [simp del]

definition demo_source :: string where
  "demo_source = ''a:=1;''"

definition demo_tokens :: "token list" where
  "demo_tokens =
     [\<lparr>tok_kind = TK_IDENTIFIER, tok_text = ''a'', tok_span = SourceSpan 0 1, tok_line = 1, tok_column = 1\<rparr>,
      \<lparr>tok_kind = TK_ASSIGN, tok_text = '':='', tok_span = SourceSpan 1 3, tok_line = 1, tok_column = 2\<rparr>,
      \<lparr>tok_kind = TK_LITERAL, tok_text = ''1'', tok_span = SourceSpan 3 4, tok_line = 1, tok_column = 4\<rparr>,
      \<lparr>tok_kind = TK_SEMICOLON, tok_text = '';'', tok_span = SourceSpan 4 5, tok_line = 1, tok_column = 5\<rparr>,
      \<lparr>tok_kind = TK_END_OF_FILE, tok_text = [], tok_span = SourceSpan 5 5, tok_line = 1, tok_column = 6\<rparr>]"

definition demo_env :: parser_env where
  "demo_env = \<lparr>pe_source = demo_source, pe_tokens = demo_tokens\<rparr>"

abbreviation at :: "nat \<Rightarrow> parse_state" where
  "at i \<equiv> \<lparr>ps_position = i, ps_diagnostics = []\<rparr>"

lemma demo_lexed: "lex_structured_text demo_source = (demo_tokens, [])"
  by code_simp

lemma demo_skip:
  "skip_from demo_env 0 = 0" "skip_from demo_env 1 = 1" "skip_from demo_env 2 = 2"
  "skip_from demo_env 3 = 3" "skip_from demo_env 4 = 4"
  by code_simp+

lemma demo_peek:
  "peek demo_env b 0 (at 0) = demo_tokens ! 0" "peek demo_env b 0 (at 1) = demo_tokens ! 1"
  "peek demo_env b 0 (at 2) = demo_tokens ! 2" "peek demo_env b 0 (at 3) = demo_tokens ! 3"
  "peek demo_env b 0 (at 4) = demo_tokens ! 4" "peek demo_env True 1 (at 0) = demo_tokens ! 1"
  using demo_skip
  by (simp_all add: peek_def peek_position_def token_at_def demo_env_def demo_tokens_def)

lemma demo_kinds:
  "tok_kind (demo_tokens ! 0) = TK_IDENTIFIER" "tok_kind (demo_tokens ! 1) = TK_ASSIGN"
  "tok_kind (demo_tokens ! 2) = TK_LITERAL" "tok_kind (demo_tokens ! 3) = TK_SEMICOLON"
  "tok_kind (demo_tokens ! 4) = TK_END_OF_FILE" "tok_text (demo_tokens ! 0) = ''a''"
  by code_simp+

lemma demo_spans:
  "tok_span (demo_tokens ! 0) = SourceSpan 0 1" "tok_span (demo_tokens ! 2) = SourceSpan 3 4"
  "tok_span (demo_tokens ! 3) = SourceSpan 4 5" "tok_text (demo_tokens ! 1) = '':=''"
  "tok_text (demo_tokens ! 2) = ''1''"
  by code_simp+

lemma demo_take:
  "take_token demo_env True (at 0) = (demo_tokens ! 0, at 1)"
  "take_token demo_env True (at 1) = (demo_tokens ! 1, at 2)"
  "take_token demo_env True (at 2) = (demo_tokens ! 2, at 3)"
  "take_token demo_env True (at 3) = (demo_tokens ! 3, at 4)"
  "skip_trivia demo_env (at 0) = at 0" "skip_trivia demo_env (at 4) = at 4"
  "current demo_env (at 0) = demo_tokens ! 0" "current demo_env (at 4) = demo_tokens ! 4"
  by code_simp+

lemma demo_operators:
  "operator_text (demo_tokens ! 0) = []" "operator_text (demo_tokens ! 1) = []"
  "operator_text (demo_tokens ! 2) = []" "operator_text (demo_tokens ! 3) = []"
  "py_upper ''a'' = ''A''"
  by code_simp+

lemmas demo = demo_peek demo_kinds demo_spans demo_take demo_operators at_kind_def keyword_def
  binary_operator_def unary_operators_def Let_def


lemma demo_target: "m_expression (parser (Suc (Suc (Suc (Suc (Suc n))))) demo_env) 1 (at 0) =
    Some (Some (NameExpression (SourceSpan 0 1) ''a''), at 1)"
proof -
  have 1: "m_primary (parser (Suc n) demo_env) (at 0) = Some (Some (NameExpression (SourceSpan 0 1) ''a''), at 1)" for n
    by (simp add: run_primary primary_def demo del: One_nat_def)
  have 2: "m_postfix_loop (parser (Suc n) demo_env) e (at 1) = Some (Some e, at 1)" for e n
    by (simp add: run_postfix_loop postfix_loop_def demo del: One_nat_def)
  have 3: "m_postfix (parser (Suc (Suc n)) demo_env) (at 0) = Some (Some (NameExpression (SourceSpan 0 1) ''a''), at 1)" for n
    by (simp add: run_postfix postfix_def 1 2 del: One_nat_def)
  have 4: "m_binary_loop (parser (Suc n) demo_env) 1 e (at 1) = Some (Some e, at 1)" for e n
    by (simp add: run_binary_loop binary_loop_def demo del: One_nat_def)
  show ?thesis
    by (simp add: run_expression expression_def run_unary unary_def demo 3 4 del: One_nat_def)
qed

lemma demo_value: "m_expression (parser (Suc (Suc (Suc (Suc (Suc n))))) demo_env) 1 (at 2) =
    Some (Some (LiteralExpression (SourceSpan 3 4) ''1''), at 3)"
proof -
  have 1: "m_primary (parser (Suc n) demo_env) (at 2) = Some (Some (LiteralExpression (SourceSpan 3 4) ''1''), at 3)" for n
    by (simp add: run_primary primary_def demo del: One_nat_def)
  have 2: "m_postfix_loop (parser (Suc n) demo_env) e (at 3) = Some (Some e, at 3)" for e n
    by (simp add: run_postfix_loop postfix_loop_def demo del: One_nat_def)
  have 3: "m_postfix (parser (Suc (Suc n)) demo_env) (at 2) = Some (Some (LiteralExpression (SourceSpan 3 4) ''1''), at 3)" for n
    by (simp add: run_postfix postfix_def 1 2 del: One_nat_def)
  have 4: "m_binary_loop (parser (Suc n) demo_env) 1 e (at 3) = Some (Some e, at 3)" for e n
    by (simp add: run_binary_loop binary_loop_def demo del: One_nat_def)
  show ?thesis
    by (simp add: run_expression expression_def run_unary unary_def demo 3 4 del: One_nat_def)
qed

lemma demo_parsed: "parse_structured_text demo_source =
    Some \<lparr>doc_source = demo_source, doc_tokens = demo_tokens,
          doc_statements = [AssignmentStatement (SourceSpan 0 5) (NameExpression (SourceSpan 0 1) ''a'')
             '':='' (LiteralExpression (SourceSpan 3 4) ''1'')],
          doc_diagnostics = []\<rparr>"
proof -
  have 1: "m_statement (parser (Suc (Suc (Suc (Suc (Suc (Suc n)))))) demo_env) (at 0) =
     Some (Some (AssignmentStatement (SourceSpan 0 5) (NameExpression (SourceSpan 0 1) ''a'')
             '':='' (LiteralExpression (SourceSpan 3 4) ''1'')), at 4)" for n
    by (simp add: run_statement statement_def demo expression_statement_def demo_target demo_value
        statement_end_def some_statement_def del: One_nat_def)
  have 2: "m_statement_list (parser (Suc n) demo_env) {} (at 4) = Some ([], at 4)" for n
    by (simp add: run_statement_list statement_list_def demo del: One_nat_def)
  have 3: "m_statement_list (parser (Suc (Suc (Suc (Suc (Suc (Suc (Suc n))))))) demo_env) {} (at 0) =
     Some ([AssignmentStatement (SourceSpan 0 5) (NameExpression (SourceSpan 0 1) ''a'')
             '':='' (LiteralExpression (SourceSpan 3 4) ''1'')], at 4)" for n
    by (simp add: run_statement_list statement_list_def demo keyword_in_def 1 2 del: One_nat_def)
  have 4: "parser_depth demo_tokens = Suc (Suc (Suc (Suc (Suc (Suc (Suc 89))))))"
    by (simp add: parser_depth_def demo_tokens_def)
  show ?thesis
    using 3 [of 89]
    by (simp add: parse_structured_text_def demo_lexed demo_env_def [symmetric] 4 del: One_nat_def)
qed

section \<open>Properties of the parser\<close>

lemma lexed_source:
  "concat (map tok_text (filter (\<lambda>t. tok_kind t \<noteq> TK_END_OF_FILE) (fst (lex_structured_text src)))) = src"
proof -
  obtain body where b: "tiles src 0 body (length src)" "fst (lex_structured_text src) =
     body @ [\<lparr>tok_kind = TK_END_OF_FILE, tok_text = [],
              tok_span = SourceSpan (length src) (length src),
              tok_line = line_at src (length src), tok_column = column_at src (length src)\<rparr>]"
    by (rule lex_result [of src]) (auto simp: lex_inv_def)
  then have "\<forall>t \<in> set body. tok_kind t \<noteq> TK_END_OF_FILE"
    using tiles_nth(1) by (metis in_set_conv_nth)
  then show ?thesis using b by (simp add: tiles_text slice_0)
qed

text \<open>
  C2. Parsing is total and lossless: for every source text, well formed or not, the parser
  returns a document, whose source and tokens are those of the input and whose
  reconstructed source is the input, character for character.
\<close>

theorem parse_total_lossless:
  "\<exists>d. parse_structured_text src = Some d \<and> doc_source d = src \<and>
       doc_tokens d = fst (lex_structured_text src) \<and> reconstructed_source d = src"
proof (rule parse_outcome [of src])
  fix statements s
  assume "parse_structured_text src =
      Some \<lparr>doc_source = src, doc_tokens = fst (lex_structured_text src),
            doc_statements = statements, doc_diagnostics = ps_diagnostics s\<rparr>"
  then show ?thesis by (simp add: reconstructed_source_def lexed_source)
qed

text \<open>
  C3. The syntax tree is well placed: in every parsed document the statements lie inside the
  source in source order without overlap, and so, inside each node, do its operands, indices,
  arguments, branches and nested statements; an unsupported statement holds exactly the
  text of its span.
\<close>

theorem parse_spans_nested:
  "total (parse_structured_text src)
     (\<lambda>d. in_order 0 (map stmt_span (doc_statements d)) (length src) \<and>
          list_all (nested_stmt src) (doc_statements d))"
proof (rule parse_outcome [of src])
  fix statements s
  assume "parse_structured_text src =
      Some \<lparr>doc_source = src, doc_tokens = fst (lex_structured_text src),
            doc_statements = statements, doc_diagnostics = ps_diagnostics s\<rparr>"
    and "stmts_post (lexed_env src)
      \<lparr>ps_position = 0, ps_diagnostics = snd (lex_structured_text src)\<rparr> (statements, s)"
  then show ?thesis
    by (auto simp: stmts_post_def intro: in_order_weaken parser_ok.next_start_bound)
qed

text \<open>
  C4. Diagnostics are complete and sound in their places: the document keeps every lexical
  diagnostic, and every diagnostic points inside the source.
\<close>

theorem parse_diagnostics_placed:
  "total (parse_structured_text src)
     (\<lambda>d. (\<exists>ds. doc_diagnostics d = snd (lex_structured_text src) @ ds) \<and>
          spans_within (length src) (doc_diagnostics d))"
proof (rule parse_outcome [of src])
  fix statements s
  assume d: "parse_structured_text src =
      Some \<lparr>doc_source = src, doc_tokens = fst (lex_structured_text src),
            doc_statements = statements, doc_diagnostics = ps_diagnostics s\<rparr>"
    and p: "stmts_post (lexed_env src)
      \<lparr>ps_position = 0, ps_diagnostics = snd (lex_structured_text src)\<rparr> (statements, s)"
  obtain u where "lex_inv u" "lx_source u = src" "snd (lex_structured_text src) = lx_diagnostics u"
    by (rule lex_result [of src]) auto
  then have "spans_within (length src) (snd (lex_structured_text src))" by (auto simp: lex_inv_def)
  with d p show ?thesis by (auto simp: stmts_post_def moved_def)
qed

text \<open>
  C5. No diagnostic means understood: when a document has no diagnostic, none of its
  statements, at any depth, was retained as unsupported text, every expression statement is a
  call, and every operator is bound as the precedence table says: a left operand at least as
  tightly as its operator, a right operand more tightly, unary and postfix operands tighter
  than any binary operator; and the span of every expression properly contains its operands.
\<close>

theorem parse_clean_understood:
  "total (parse_structured_text src)
     (\<lambda>d. doc_diagnostics d = [] \<longrightarrow> list_all understood (doc_statements d))"
proof (rule parse_outcome [of src])
  fix statements s
  assume d: "parse_structured_text src =
      Some \<lparr>doc_source = src, doc_tokens = fst (lex_structured_text src),
            doc_statements = statements, doc_diagnostics = ps_diagnostics s\<rparr>"
    and p: "stmts_post (lexed_env src)
      \<lparr>ps_position = 0, ps_diagnostics = snd (lex_structured_text src)\<rparr> (statements, s)"
  have "clean \<lparr>ps_position = 0, ps_diagnostics = snd (lex_structured_text src)\<rparr> s"
    if "ps_diagnostics s = []"
    using p that by (auto simp: stmts_post_def moved_def clean_def)
  with d p show ?thesis by (auto simp: stmts_post_def)
qed

lemma parse_clean_understood_witness:
  "total (parse_structured_text demo_source)
     (\<lambda>d. doc_diagnostics d = [] \<and> list_all understood (doc_statements d))"
  using parse_clean_understood [of demo_source] by (simp add: demo_parsed)

text \<open>
  C10. Progress: called at any token but the end marker, \<open>_statement\<close> returns a statement and
  moves past at least one token; so the guard of \<open>_statement_list\<close> for a statement that did
  not move never acts, and the loop ends.
\<close>

theorem statement_progress:
  assumes "ps_position s \<le> length (fst (lex_structured_text src))"
    and "tok_kind (peek (lexed_env src) True 0 s) \<noteq> TK_END_OF_FILE"
    and "parser_depth (fst (lex_structured_text src)) \<le> n"
  shows "total (m_statement (parser n (lexed_env src)) s)
     (\<lambda>(st, s'). st \<noteq> None \<and> ps_position s < ps_position s' \<and>
        ps_position s' \<le> length (fst (lex_structured_text src)))"
proof -
  have "total (m_statement (parser n (lexed_env src)) s)
      (\<lambda>(x, s'). \<exists>st. x = Some st \<and> stmt_post (lexed_env src) s (st, s'))"
    by (rule parser_ok.statement)
      (use assms in \<open>auto simp: on_tokens_def rest_def parser_depth_def\<close>)
  then show ?thesis
    by (rule total_mono) (auto simp: stmt_post_def moved_def rest_def on_tokens_def)
qed

lemma statement_progress_witness:
  "total (m_statement (parser 200 (lexed_env demo_source)) (at 0))
     (\<lambda>(st, s'). st \<noteq> None \<and> 0 < ps_position s')"
proof -
  have e: "fst (lex_structured_text demo_source) = demo_tokens" by (simp add: demo_lexed)
  then have "lexed_env demo_source = demo_env" by (simp add: demo_env_def)
  moreover have "parser_depth demo_tokens = 96" by (simp add: parser_depth_def demo_tokens_def)
  ultimately have "total (m_statement (parser 200 (lexed_env demo_source)) (at 0))
     (\<lambda>(st, s'). st \<noteq> None \<and> ps_position (at 0) < ps_position s' \<and>
        ps_position s' \<le> length (fst (lex_structured_text demo_source)))"
    by (intro statement_progress) (simp_all add: e demo)
  then show ?thesis by (rule total_mono) auto
qed

end
