(* ===== verification/Span_Keys.thy ===== *)
theory Span_Keys imports Parser_Total begin

text \<open>
  The analyser and the lowering find the facts about an expression by its span. This theory
  shows that the key is sound: in a document parsed without diagnostics no two expressions
  have the same span, operands that are missing aside.
\<close>

section \<open>The expressions of a document\<close>

text \<open>All nodes, each before its operands; a missing operand is no node.\<close>

fun nodes :: "expr \<Rightarrow> expr list" and arg_nodes :: "call_argument \<Rightarrow> expr list" where
  "nodes (MissingExpression sp) = []"
| "nodes (UnaryExpression sp op e) = UnaryExpression sp op e # nodes e"
| "nodes (BinaryExpression sp l op r) = BinaryExpression sp l op r # nodes l @ nodes r"
| "nodes (MemberExpression sp t m) = MemberExpression sp t m # nodes t"
| "nodes (IndexExpression sp t is op) = IndexExpression sp t is op # nodes t @ concat (map nodes is)"
| "nodes (CallExpression sp c args) = CallExpression sp c args # nodes c @ concat (map arg_nodes args)"
| "nodes (ParenthesizedExpression sp e) = ParenthesizedExpression sp e # nodes e"
| "nodes e = [e]"
| "arg_nodes (CallArgument sp v nm d) = nodes v"

fun stmt_nodes :: "stmt \<Rightarrow> expr list" and branch_nodes :: "if_branch \<Rightarrow> expr list" where
  "stmt_nodes (AssignmentStatement sp t op v) = nodes t @ nodes v"
| "stmt_nodes (ExpressionStatement sp e) = nodes e"
| "stmt_nodes (IfStatement sp bs es) = concat (map branch_nodes bs) @ concat (map stmt_nodes es)"
| "stmt_nodes (WhileStatement sp c body) = nodes c @ concat (map stmt_nodes body)"
| "stmt_nodes st = []"
| "branch_nodes (IfBranch sp c body) = nodes c @ concat (map stmt_nodes body)"

definition document_nodes :: "st_document \<Rightarrow> expr list" where
  "document_nodes d = concat (map stmt_nodes (doc_statements d))"

section \<open>Nodes in their places\<close>

text \<open>The nodes lie between two offsets, none is empty, and no two share a span.\<close>

definition placed :: "nat \<Rightarrow> expr list \<Rightarrow> nat \<Rightarrow> bool" where
  "placed lo es hi \<longleftrightarrow>
     (\<forall>e\<in>set es. lo \<le> expr_start e \<and> expr_start e < expr_end e \<and> expr_end e \<le> hi) \<and>
     distinct (map expr_span es)"

lemma placed_Nil [simp]: "placed lo [] hi"
  by (simp add: placed_def)

lemma placed_weaken: "placed lo es hi \<Longrightarrow> lo' \<le> lo \<Longrightarrow> hi \<le> hi' \<Longrightarrow> placed lo' es hi'"
  by (auto simp: placed_def)

lemma placed_append:
  assumes "placed lo es mid" "placed mid fs hi" "lo \<le> mid" "mid \<le> hi"
  shows "placed lo (es @ fs) hi"
proof -
  have "expr_span e \<noteq> expr_span f" if "e \<in> set es" "f \<in> set fs" for e f
  proof -
    have "expr_start e < expr_end e" "expr_end e \<le> expr_start f"
      using assms that by (auto simp: placed_def intro: order_trans)
    then show ?thesis by auto
  qed
  then show ?thesis using assms by (fastforce simp: placed_def)
qed

text \<open>Adding a node around others that do not reach both of its ends.\<close>

lemma placed_around:
  assumes "placed lo es hi" "expr_start e = lo" "expr_end e = hi" "lo < hi"
    and "\<forall>f\<in>set es. lo < expr_start f \<or> expr_end f < hi"
  shows "placed lo (e # es) hi"
proof -
  have "expr_span f \<noteq> expr_span e" if "f \<in> set es" for f
    using assms(2,3,5) that by auto
  then show ?thesis using assms(1-4) by (force simp: placed_def)
qed

lemma placed_in_order:
  assumes "in_order lo (map sp xs) hi"
    and "\<And>x. x \<in> set xs \<Longrightarrow> placed (span_start (sp x)) (ns x) (span_end (sp x))"
  shows "placed lo (concat (map ns xs)) hi"
  using assms
proof (induction xs arbitrary: lo)
  case (Cons x xs)
  have le: "lo \<le> span_start (sp x)" "span_start (sp x) \<le> span_end (sp x)" "in_order (span_end (sp x)) (map sp xs) hi"
    using Cons.prems(1) by auto
  have "placed lo (ns x) (span_end (sp x))"
    using Cons.prems(2) le by (auto intro: placed_weaken)
  moreover have "placed (span_end (sp x)) (concat (map ns xs)) hi"
    using Cons.IH Cons.prems(2) le(3) by simp
  ultimately show ?case using le in_order_le [OF le(3)] by (simp add: placed_append)
qed simp

text \<open>Between an operand and the operands behind it.\<close>

lemma placed_start: "placed lo es hi \<Longrightarrow> f \<in> set es \<Longrightarrow> lo \<le> expr_start f"
  by (simp add: placed_def)

lemma placed_stop: "placed lo es hi \<Longrightarrow> f \<in> set es \<Longrightarrow> expr_end f \<le> hi"
  by (simp add: placed_def)

lemma nodes_placed:
  "nested_expr e \<Longrightarrow> prec_ok e \<Longrightarrow> placed (expr_start e) (nodes e) (expr_end e)"
  "nested_arg a \<Longrightarrow> prec_ok_arg a \<Longrightarrow> placed (span_start (arg_span a)) (arg_nodes a) (span_end (arg_span a))"
proof (induction e and a)
  case (UnaryExpression sp op e)
  then have "placed (span_start sp) (nodes e) (span_end sp)"
    by (auto intro: placed_weaken)
  then show ?case
    using UnaryExpression nested_expr_span [of e] placed_start [of "expr_start e" "nodes e"]
    by (auto intro!: placed_around dest: less_le_trans)
next
  case (BinaryExpression sp l op r)
  then have p: "placed (expr_start l) (nodes l) (expr_end l)" "placed (expr_start r) (nodes r) (expr_end r)"
    and le: "span_start sp \<le> expr_start l" "expr_start l \<le> expr_end l" "expr_end l < expr_start r"
      "expr_start r \<le> expr_end r" "expr_end r \<le> span_end sp"
    by auto
  have "placed (span_start sp) (nodes l) (expr_end l)" "placed (expr_end l) (nodes r) (span_end sp)"
    using p le by (auto intro: placed_weaken)
  then have "placed (span_start sp) (nodes l @ nodes r) (span_end sp)"
    by (rule placed_append) (use le in auto)
  moreover have "\<forall>f\<in>set (nodes l @ nodes r). span_start sp < expr_start f \<or> expr_end f < span_end sp"
  proof
    fix f assume "f \<in> set (nodes l @ nodes r)"
    then have that: "f \<in> set (nodes l) \<or> f \<in> set (nodes r)" by auto
    show "span_start sp < expr_start f \<or> expr_end f < span_end sp"
      using that le placed_stop [OF p(1)] placed_start [OF p(2)] by (meson le_less_trans less_le_trans)
  qed
  moreover have "span_start sp < span_end sp" using le by simp
  ultimately show ?case by (simp add: placed_around)
next
  case (MemberExpression sp t m)
  then have "placed (span_start sp) (nodes t) (span_end sp)"
    by (auto intro: placed_weaken)
  then show ?case
    using MemberExpression nested_expr_span [of t] placed_stop [of _ "nodes t" "expr_end t"]
    by (auto intro!: placed_around dest: le_less_trans)
next
  case (IndexExpression sp t "is" op)
  then have t: "placed (expr_start t) (nodes t) (expr_end t)"
    and le: "span_start sp \<le> expr_start t" "expr_start t \<le> expr_end t" "expr_end t < span_end sp"
      "in_order (expr_end t) (map expr_span is) (span_end sp)"
      "\<And>i. i \<in> set is \<Longrightarrow> expr_end t < expr_start i"
    and i: "\<And>i. i \<in> set is \<Longrightarrow> placed (expr_start i) (nodes i) (expr_end i)"
    by (auto simp: list_all_iff)
  have "placed (span_start sp) (nodes t) (expr_end t)" using t le by (auto intro: placed_weaken)
  moreover have "placed (expr_end t) (concat (map nodes is)) (span_end sp)"
    using le(4) i by (intro placed_in_order) auto
  ultimately have "placed (span_start sp) (nodes t @ concat (map nodes is)) (span_end sp)"
    by (rule placed_append) (use le in auto)
  moreover have "\<forall>f\<in>set (nodes t @ concat (map nodes is)). span_start sp < expr_start f \<or> expr_end f < span_end sp"
  proof
    fix f assume "f \<in> set (nodes t @ concat (map nodes is))"
    then have that: "f \<in> set (nodes t) \<or> (\<exists>i\<in>set is. f \<in> set (nodes i))" by auto
    show "span_start sp < expr_start f \<or> expr_end f < span_end sp"
      using that le(1-3) le(5) placed_stop [OF t] placed_start [OF i]
    by (meson le_less_trans less_le_trans)
  qed
  moreover have "span_start sp < span_end sp" using le by simp
  ultimately show ?case by (simp add: placed_around)
next
  case (CallExpression sp c args)
  then have t: "placed (expr_start c) (nodes c) (expr_end c)"
    and le: "span_start sp \<le> expr_start c" "expr_start c \<le> expr_end c" "expr_end c < span_end sp"
      "in_order (expr_end c) (map arg_span args) (span_end sp)"
      "\<And>a. a \<in> set args \<Longrightarrow> expr_end c < span_start (arg_span a)"
    and i: "\<And>a. a \<in> set args \<Longrightarrow> placed (span_start (arg_span a)) (arg_nodes a) (span_end (arg_span a))"
    by (auto simp: list_all_iff)
  have "placed (span_start sp) (nodes c) (expr_end c)" using t le by (auto intro: placed_weaken)
  moreover have "placed (expr_end c) (concat (map arg_nodes args)) (span_end sp)"
    using le(4) i by (intro placed_in_order) auto
  ultimately have "placed (span_start sp) (nodes c @ concat (map arg_nodes args)) (span_end sp)"
    by (rule placed_append) (use le in auto)
  moreover have "\<forall>f\<in>set (nodes c @ concat (map arg_nodes args)). span_start sp < expr_start f \<or> expr_end f < span_end sp"
  proof
    fix f assume "f \<in> set (nodes c @ concat (map arg_nodes args))"
    then have that: "f \<in> set (nodes c) \<or> (\<exists>a\<in>set args. f \<in> set (arg_nodes a))" by auto
    show "span_start sp < expr_start f \<or> expr_end f < span_end sp"
      using that le(1-3) le(5) placed_stop [OF t] placed_start [OF i]
    by (meson le_less_trans less_le_trans)
  qed
  moreover have "span_start sp < span_end sp" using le by simp
  ultimately show ?case by (simp add: placed_around)
next
  case (ParenthesizedExpression sp e)
  then have "placed (span_start sp) (nodes e) (span_end sp)"
    by (auto intro: placed_weaken)
  then show ?case
    using ParenthesizedExpression nested_expr_span [of e] placed_start [of "expr_start e" "nodes e"]
    by (auto intro!: placed_around dest: less_le_trans)
next
  case (CallArgument sp v nm d)
  then show ?case by (auto intro: placed_weaken)
qed (auto simp: placed_def)

lemma placed_condition:
  assumes "in_order (span_start sp) (expr_span c # map stmt_span body) (span_end sp)"
    "nested_expr c" "prec_ok c" "\<And>st. st \<in> set body \<Longrightarrow> placed (stmt_start st) (stmt_nodes st) (stmt_end st)"
  shows "placed (span_start sp) (nodes c @ concat (map stmt_nodes body)) (span_end sp)"
proof -
  have "placed (span_start sp) (nodes c) (expr_end c)"
    using assms nodes_placed(1) [of c] by (auto intro: placed_weaken)
  moreover have "placed (expr_end c) (concat (map stmt_nodes body)) (span_end sp)"
    using assms by (intro placed_in_order) auto
  ultimately show ?thesis
    by (rule placed_append) (use assms(1) in_order_le in auto)
qed

lemma stmt_nodes_placed:
  "nested_stmt src st \<Longrightarrow> understood st \<Longrightarrow> placed (stmt_start st) (stmt_nodes st) (stmt_end st)"
  "nested_branch src b \<Longrightarrow> understood_branch b \<Longrightarrow>
     placed (span_start (branch_span b)) (branch_nodes b) (span_end (branch_span b))"
proof (induction st and b)
  case (AssignmentStatement sp t op v)
  then have p: "placed (expr_start t) (nodes t) (expr_end t)" "placed (expr_start v) (nodes v) (expr_end v)"
    and le: "span_start sp \<le> expr_start t" "expr_start t \<le> expr_end t" "expr_end t \<le> expr_start v"
      "expr_start v \<le> expr_end v" "expr_end v \<le> span_end sp"
    using nodes_placed(1) by auto
  have "placed (span_start sp) (nodes t) (expr_end t)" "placed (expr_end t) (nodes v) (span_end sp)"
    using p le by (auto intro: placed_weaken)
  then have "placed (span_start sp) (nodes t @ nodes v) (span_end sp)"
    by (rule placed_append) (use le in auto)
  then show ?case by simp
next
  case (ExpressionStatement sp e)
  then show ?case using nodes_placed(1) by (auto intro: placed_weaken)
next
  case (IfStatement sp bs es)
  then obtain mid where mid: "in_order (span_start sp) (map branch_span bs) mid"
      "in_order mid (map stmt_span es) (span_end sp)"
    by (auto simp: in_order_append)
  have "placed (span_start sp) (concat (map branch_nodes bs)) mid"
    using IfStatement by (intro placed_in_order [OF mid(1)]) (auto simp: list_all_iff)
  moreover have "placed mid (concat (map stmt_nodes es)) (span_end sp)"
    using IfStatement by (intro placed_in_order [OF mid(2)]) (auto simp: list_all_iff)
  ultimately show ?case
    using in_order_le [OF mid(1)] in_order_le [OF mid(2)] by (simp add: placed_append)
next
  case (WhileStatement sp c body)
  then show ?case by (simp add: placed_condition list_all_iff)
next
  case (IfBranch sp c body)
  then show ?case by (simp add: placed_condition list_all_iff)
qed simp_all

lemma clean_statements:
  assumes "stmts_post (lexed_env src) \<lparr>ps_position = 0, ps_diagnostics = ds\<rparr> (statements, s)"
    and "ps_diagnostics s = []"
  shows "list_all understood statements \<and> list_all (nested_stmt src) statements \<and>
    (\<exists>lo hi. in_order lo (map stmt_span statements) hi)"
proof -
  have "clean \<lparr>ps_position = 0, ps_diagnostics = ds\<rparr> s"
    using assms by (auto simp: stmts_post_def moved_def clean_def)
  with assms show ?thesis by (auto simp: stmts_post_def)
qed

lemma statements_distinct:
  "list_all understood statements \<and> list_all (nested_stmt src) statements \<and>
     (\<exists>lo hi. in_order lo (map stmt_span statements) hi) \<Longrightarrow>
   distinct (map expr_span (concat (map stmt_nodes statements)))"
  using placed_in_order [of _ stmt_span statements _ stmt_nodes] stmt_nodes_placed(1)
  by (fastforce simp: list_all_iff placed_def)

text \<open>
  C6. Spans identify expressions: in a document without diagnostics no two expressions have the
  same span (operands the source leaves out aside), so the dictionaries keyed by span, in which
  the lowering finds the type, the reference, the access and the call of an expression, never
  mix up two expressions.
\<close>

theorem spans_identify_expressions:
  "total (parse_structured_text src)
     (\<lambda>d. doc_diagnostics d = [] \<longrightarrow> distinct (map expr_span (document_nodes d)))"
proof (rule parse_outcome [of src])
  fix statements s
  assume d: "parse_structured_text src =
      Some \<lparr>doc_source = src, doc_tokens = fst (lex_structured_text src),
            doc_statements = statements, doc_diagnostics = ps_diagnostics s\<rparr>"
    and p: "stmts_post (lexed_env src)
      \<lparr>ps_position = 0, ps_diagnostics = snd (lex_structured_text src)\<rparr> (statements, s)"
  have "distinct (map expr_span (concat (map stmt_nodes statements)))" if "ps_diagnostics s = []"
    using clean_statements [OF p that] by (rule statements_distinct)
  with d show ?thesis by (simp add: document_nodes_def)
qed

lemma spans_identify_expressions_witness:
  "total (parse_structured_text demo_source)
     (\<lambda>d. doc_diagnostics d = [] \<and> map expr_span (document_nodes d) = [SourceSpan 0 1, SourceSpan 3 4] \<and>
          distinct (map expr_span (document_nodes d)))"
  using spans_identify_expressions [of demo_source] by (simp add: demo_parsed document_nodes_def)

end
