(* ===== verification/IR_Model.thy ===== *)
theory IR_Model imports ST_Semantics begin

text \<open>
  The executable intermediate representation of \<open>ir/model.py\<close>: typed expressions and
  statements as datatypes with the fields of the dataclasses (the span first, then the data
  type), and the reusable unit with its parameters, variables and routines as records. A
  default value is a Python value that is only carried: its type is the parameter \<open>'v\<close>.
\<close>

datatype ir_unit_kind = UK_FUNCTION | UK_FUNCTION_BLOCK
datatype ir_direction = DIR_INPUT | DIR_OUTPUT | DIR_INOUT | DIR_UNKNOWN

datatype ir_routine_role =
    RR_PRIMARY | RR_AUXILIARY | RR_PRESCAN | RR_POSTSCAN | RR_ENABLE_IN_FALSE
  | RR_UNKNOWN_LIFECYCLE | RR_UNKNOWN

datatype ir_object_intent =
    CI_INSTANCE_IDENTITY | CI_CONNECTION_STATUS | CI_FAULT_CODE | CI_FAULT_INFORMATION
  | CI_OPERATING_MODE | CI_SET_INHIBITED | CI_SOURCE_SPECIFIC

record ir_lifecycle =
  lc_prescan_enabled :: "bool option"
  lc_postscan_enabled :: "bool option"
  lc_enable_in_false_enabled :: "bool option"

datatype ir_expr =
    IRUnsupportedExpression source_span "string option" string string
  | IRReference source_span "string option" string
  | IRLiteral source_span "string option" string
  | IRUnary source_span "string option" string ir_expr
  | IRBinary source_span "string option" ir_expr string ir_expr
  | IRMember source_span "string option" ir_expr string
  | IRIndex source_span "string option" ir_expr "ir_expr list" string
  | IRCall source_span "string option" string "ir_expr list" bool "string option"
  | IRArrayDimension source_span "string option" ir_expr ir_expr

primrec ir_expr_span :: "ir_expr \<Rightarrow> source_span" where
  "ir_expr_span (IRUnsupportedExpression sp dt src r) = sp"
| "ir_expr_span (IRReference sp dt n) = sp"
| "ir_expr_span (IRLiteral sp dt v) = sp"
| "ir_expr_span (IRUnary sp dt op e) = sp"
| "ir_expr_span (IRBinary sp dt l op r) = sp"
| "ir_expr_span (IRMember sp dt t m) = sp"
| "ir_expr_span (IRIndex sp dt t is op) = sp"
| "ir_expr_span (IRCall sp dt op args ad vn) = sp"
| "ir_expr_span (IRArrayDimension sp dt a d) = sp"

primrec ir_data_type :: "ir_expr \<Rightarrow> string option" where
  "ir_data_type (IRUnsupportedExpression sp dt src r) = dt"
| "ir_data_type (IRReference sp dt n) = dt"
| "ir_data_type (IRLiteral sp dt v) = dt"
| "ir_data_type (IRUnary sp dt op e) = dt"
| "ir_data_type (IRBinary sp dt l op r) = dt"
| "ir_data_type (IRMember sp dt t m) = dt"
| "ir_data_type (IRIndex sp dt t is op) = dt"
| "ir_data_type (IRCall sp dt op args ad vn) = dt"
| "ir_data_type (IRArrayDimension sp dt a d) = dt"

fun is_ir_call :: "ir_expr \<Rightarrow> bool" where
  "is_ir_call (IRCall sp dt op args ad vn) = True"
| "is_ir_call e = False"

text \<open>The call of an \<open>IRCallStatement\<close> is always an \<open>IRCall\<close>.\<close>

datatype ir_stmt =
    IRAssignment source_span ir_expr ir_expr
  | IRCallStatement source_span ir_expr
  | IRWallClockRead source_span ir_expr string
  | IRControllerObjectRead source_span string string string ir_expr ir_object_intent "string option"
  | IRControllerObjectWrite source_span string string string ir_expr ir_object_intent "string option"
  | IRIf source_span "ir_branch list" "ir_stmt list"
  | IRWhile source_span ir_expr "ir_stmt list"
  | IRExit source_span
  | IRUnsupportedStatement source_span string string
and ir_branch =
    IRIfBranch source_span ir_expr "ir_stmt list"

primrec ir_stmt_span :: "ir_stmt \<Rightarrow> source_span" where
  "ir_stmt_span (IRAssignment sp t v) = sp"
| "ir_stmt_span (IRCallStatement sp c) = sp"
| "ir_stmt_span (IRWallClockRead sp d u) = sp"
| "ir_stmt_span (IRControllerObjectRead sp c i a d intent vn) = sp"
| "ir_stmt_span (IRControllerObjectWrite sp c i a d intent vn) = sp"
| "ir_stmt_span (IRIf sp bs es) = sp"
| "ir_stmt_span (IRWhile sp c body) = sp"
| "ir_stmt_span (IRExit sp) = sp"
| "ir_stmt_span (IRUnsupportedStatement sp src r) = sp"

text \<open>An \<open>IRDiagnostic\<close> has the same three fields as a syntax diagnostic.\<close>

type_synonym ir_diagnostic = st_diagnostic

record 'v ir_parameter =
  ip_name :: string
  ip_direction :: ir_direction
  ip_data_type :: "string option"
  ip_dimensions :: "string option"
  ip_generic_dimensions :: bool
  ip_required :: "bool option"
  ip_visible :: "bool option"
  ip_system_defined :: bool
  ip_default_value :: "'v option"
  ip_default_lexical_value :: "string option"

record ir_variable =
  iv_name :: string
  iv_data_type :: "string option"
  iv_dimensions :: "string option"

record ir_routine =
  ro_name :: string
  ro_source_language :: "string option"
  ro_source :: string
  ro_statements :: "ir_stmt list"
  ro_diagnostics :: "ir_diagnostic list"
  ro_role :: ir_routine_role

record 'v ir_unit =
  iu_name :: string
  iu_kind :: ir_unit_kind
  iu_parameters :: "'v ir_parameter list"
  iu_variables :: "ir_variable list"
  iu_routines :: "ir_routine list"
  iu_source_vendor :: "string option"
  iu_lifecycle :: ir_lifecycle
  iu_diagnostics :: "ir_diagnostic list"

section \<open>Walking statements\<close>

text \<open>
  \<open>_walk_statements\<close> and \<open>_root_reference\<close>, which \<open>lowering.py\<close> and \<open>normalization.py\<close>
  define alike: every statement before the statements inside it, and the reference at the
  bottom of a chain of member and index accesses.
\<close>

fun walk_stmt :: "ir_stmt \<Rightarrow> ir_stmt list" and walk_branch :: "ir_branch \<Rightarrow> ir_stmt list" where
  "walk_stmt (IRIf sp bs es) =
     IRIf sp bs es # concat (map walk_branch bs) @ concat (map walk_stmt es)"
| "walk_stmt (IRWhile sp c body) = IRWhile sp c body # concat (map walk_stmt body)"
| "walk_stmt st = [st]"
| "walk_branch (IRIfBranch sp c body) = concat (map walk_stmt body)"

definition walk_statements :: "ir_stmt list \<Rightarrow> ir_stmt list" where
  "walk_statements sts = concat (map walk_stmt sts)"

fun root_reference :: "ir_expr \<Rightarrow> string option" where
  "root_reference (IRReference sp dt n) = Some n"
| "root_reference (IRMember sp dt t m) = root_reference t"
| "root_reference (IRIndex sp dt t is op) = root_reference t"
| "root_reference e = None"

text \<open>The name an assignment writes, and the place of the assignment.\<close>

fun written_name :: "ir_stmt \<Rightarrow> (string \<times> source_span) option" where
  "written_name (IRAssignment sp t v) = map_option (\<lambda>n. (n, sp)) (root_reference t)"
| "written_name st = None"

definition writes :: "ir_stmt list \<Rightarrow> (string \<times> source_span) list" where
  "writes sts = List.map_filter written_name (walk_statements sts)"

definition lifecycle_roles :: "ir_routine_role set" where
  "lifecycle_roles = {RR_PRESCAN, RR_POSTSCAN, RR_ENABLE_IN_FALSE, RR_UNKNOWN_LIFECYCLE}"

text \<open>
  The writes of the routines that run in a normal scan, in order; and of those, for each
  name in \<open>names\<close> up to case, the first.
\<close>

definition scan_writes :: "ir_routine list \<Rightarrow> (string \<times> source_span) list" where
  "scan_writes rs =
     concat (map (writes \<circ> ro_statements) (filter (\<lambda>r. ro_role r \<notin> lifecycle_roles) rs))"

fun first_writes :: "string set \<Rightarrow> string set \<Rightarrow> (string \<times> source_span) list \<Rightarrow>
    (string \<times> source_span) list" where
  "first_writes names seen [] = []"
| "first_writes names seen ((n, sp) # ws) =
     (let key = py_casefold n
      in if key \<in> names \<and> key \<notin> seen then (key, sp) # first_writes names (insert key seen) ws
         else first_writes names seen ws)"

lemma first_writes_keys:
  "set (map fst (first_writes names seen ws)) = (py_casefold ` fst ` set ws \<inter> names) - seen"
proof (induction ws arbitrary: seen)
  case (Cons w ws)
  obtain n sp where w: "w = (n, sp)" by (cases w)
  show ?case
  proof (cases "py_casefold n \<in> names \<and> py_casefold n \<notin> seen")
    case True
    then have "set (map fst (first_writes names seen (w # ws))) =
        insert (py_casefold n) (set (map fst (first_writes names (insert (py_casefold n) seen) ws)))"
      by (simp add: w Let_def)
    with True w show ?thesis unfolding Cons.IH by auto
  next
    case False
    then have "set (map fst (first_writes names seen (w # ws))) = set (map fst (first_writes names seen ws))"
      using False by (auto simp: w Let_def)
    with False w show ?thesis unfolding Cons.IH by auto
  qed
qed simp

lemma first_writes_distinct: "distinct (map fst (first_writes names seen ws))"
proof (induction ws arbitrary: seen)
  case (Cons w ws)
  then show ?case using first_writes_keys [of names _ ws] by (cases w) (auto simp: Let_def)
qed simp

end
