(* ===== verification/IR_Lowering.thy ===== *)
theory IR_Lowering imports IR_Model Project_Model begin

text \<open>
  The lowering of resolved Structured Text into the intermediate representation,
  \<open>ir/lowering.py\<close>. The four dictionaries of \<open>_StructuredTextLowerer\<close> are lookups by the
  two ends of a span; its list of diagnostics is the state that \<open>lower_expr\<close> and
  \<open>lower_stmt\<close> return extended. \<open>lower_stmt\<close> gives \<open>None\<close> where the source raises
  \<open>IndexError\<close>: a controller-object call with fewer than four arguments.
\<close>

section \<open>The lowerer\<close>

record lowering_env =
  le_source :: string
  le_types :: "expression_type list"
  le_references :: "symbol_reference list"
  le_accesses :: "semantic_access list"
  le_calls :: "semantic_call list"

definition lowering_env_of :: "st_semantics \<Rightarrow> lowering_env" where
  "lowering_env_of sem =
     \<lparr>le_source = doc_source (sem_document sem), le_types = sem_expression_types sem,
      le_references = sem_references sem, le_accesses = sem_accesses sem, le_calls = sem_calls sem\<rparr>"

definition type_at :: "lowering_env \<Rightarrow> source_span \<Rightarrow> expression_type option" where
  "type_at L sp = dict_of et_span (le_types L) sp"

definition reference_at :: "lowering_env \<Rightarrow> source_span \<Rightarrow> symbol_reference option" where
  "reference_at L sp = dict_of rf_span (le_references L) sp"

definition access_at :: "lowering_env \<Rightarrow> source_span \<Rightarrow> semantic_access option" where
  "access_at L sp = dict_of sa_span (le_accesses L) sp"

definition call_at :: "lowering_env \<Rightarrow> source_span \<Rightarrow> semantic_call option" where
  "call_at L sp = dict_of sc_span (le_calls L) sp"

definition lower_data_type :: "lowering_env \<Rightarrow> source_span \<Rightarrow> string option" where
  "lower_data_type L sp =
     (case type_at L sp of
        None \<Rightarrow> None
      | Some item \<Rightarrow> if et_status item \<noteq> TS_KNOWN then None else et_data_type item)"

definition span_text :: "lowering_env \<Rightarrow> source_span \<Rightarrow> string" where
  "span_text L sp = slice (span_start sp) (span_end sp) (le_source L)"

definition unsupported_expression ::
  "lowering_env \<Rightarrow> source_span \<Rightarrow> string \<Rightarrow> ir_diagnostic list \<Rightarrow> ir_expr \<times> ir_diagnostic list" where
  "unsupported_expression L sp reason ds =
     (IRUnsupportedExpression sp (lower_data_type L sp) (span_text L sp) reason,
      ds @ [STDiagnostic ''unsupported_expression'' reason sp])"

definition unsupported_statement ::
  "lowering_env \<Rightarrow> source_span \<Rightarrow> string \<Rightarrow> ir_diagnostic list \<Rightarrow> ir_stmt \<times> ir_diagnostic list" where
  "unsupported_statement L sp reason ds =
     (IRUnsupportedStatement sp (span_text L sp) reason,
      ds @ [STDiagnostic ''unsupported_statement'' reason sp])"

fun is_missing :: "expr \<Rightarrow> bool" where
  "is_missing (MissingExpression sp) = True"
| "is_missing e = False"

text \<open>\<open>expression\<close>; \<open>lower_exprs\<close> is its loop over indices, \<open>lower_args\<close> that over arguments.\<close>

fun lower_expr :: "lowering_env \<Rightarrow> expr \<Rightarrow> ir_diagnostic list \<Rightarrow> ir_expr \<times> ir_diagnostic list"
  and lower_exprs :: "lowering_env \<Rightarrow> expr list \<Rightarrow> ir_diagnostic list \<Rightarrow> ir_expr list \<times> ir_diagnostic list"
  and lower_args :: "lowering_env \<Rightarrow> call_argument list \<Rightarrow> ir_diagnostic list \<Rightarrow>
        ir_expr list \<times> ir_diagnostic list" where
  "lower_expr L (NameExpression sp n) ds =
     (case reference_at L sp of
        Some r \<Rightarrow> if rf_status r = RS_RESOLVED then (IRReference sp (lower_data_type L sp) n, ds)
                  else unsupported_expression L sp (''unresolved reference '' @ py_repr n) ds
      | None \<Rightarrow> unsupported_expression L sp (''unresolved reference '' @ py_repr n) ds)"
| "lower_expr L (LiteralExpression sp v) ds = (IRLiteral sp (lower_data_type L sp) v, ds)"
| "lower_expr L (UnaryExpression sp op e) ds =
     (let (x, ds1) = lower_expr L e ds in (IRUnary sp (lower_data_type L sp) (py_upper op) x, ds1))"
| "lower_expr L (BinaryExpression sp l op r) ds =
     (let (x, ds1) = lower_expr L l ds; (y, ds2) = lower_expr L r ds1
      in (IRBinary sp (lower_data_type L sp) x (py_upper op) y, ds2))"
| "lower_expr L (MemberExpression sp t m) ds =
     (case access_at L sp of
        Some a \<Rightarrow>
          if sa_status a = AS_RESOLVED
          then let (x, ds1) = lower_expr L t ds in (IRMember sp (lower_data_type L sp) x m, ds1)
          else unsupported_expression L sp ''member access is not semantically resolved'' ds
      | None \<Rightarrow> unsupported_expression L sp ''member access is not semantically resolved'' ds)"
| "lower_expr L (IndexExpression sp t is op) ds =
     (case access_at L sp of
        Some a \<Rightarrow>
          if sa_status a = AS_RESOLVED
          then let (x, ds1) = lower_expr L t ds; (ys, ds2) = lower_exprs L is ds1
               in (IRIndex sp (lower_data_type L sp) x ys op, ds2)
          else unsupported_expression L sp ''index access is not semantically resolved'' ds
      | None \<Rightarrow> unsupported_expression L sp ''index access is not semantically resolved'' ds)"
| "lower_expr L (ParenthesizedExpression sp e) ds = lower_expr L e ds"
| "lower_expr L (CallExpression sp c args) ds =
     (case call_at L sp of
        Some k \<Rightarrow>
          if sc_kind k = CK_UNKNOWN
          then unsupported_expression L sp ''call has no resolved neutral operation'' ds
          else let (xs, ds1) = lower_args L args ds
               in (IRCall sp (lower_data_type L sp) (sc_neutral_name k) xs (sc_vendor k \<noteq> None)
                     (sc_vendor k), ds1)
      | None \<Rightarrow> unsupported_expression L sp ''call has no resolved neutral operation'' ds)"
| "lower_expr L (MissingExpression sp) ds = unsupported_expression L sp ''missing source expression'' ds"
| "lower_expr L (DirectAddressExpression sp a) ds =
     unsupported_expression L sp ''unsupported expression node DirectAddressExpression'' ds"
| "lower_exprs L [] ds = ([], ds)"
| "lower_exprs L (e # es) ds =
     (let (x, ds1) = lower_expr L e ds; (xs, ds2) = lower_exprs L es ds1 in (x # xs, ds2))"
| "lower_args L [] ds = ([], ds)"
| "lower_args L (CallArgument sp v nm d # args) ds =
     (if is_missing v then lower_args L args ds
      else let (x, ds1) = lower_expr L v ds; (xs, ds2) = lower_args L args ds1 in (x # xs, ds2))"

section \<open>Calls that are statements of their own\<close>

fun named :: "string \<Rightarrow> expr \<Rightarrow> bool" where
  "named key (NameExpression sp n) = (py_casefold n = key)"
| "named key e = False"

definition is_wall_clock_read :: "call_argument list \<Rightarrow> bool" where
  "is_wall_clock_read args =
     (length args = 4 \<and> named ''wallclocktime'' (arg_value (args ! 0)) \<and>
      named ''currentvalue'' (arg_value (args ! 2)))"

definition controller_object_intent ::
  "string option \<Rightarrow> string \<Rightarrow> string \<Rightarrow> bool \<Rightarrow> ir_object_intent" where
  "controller_object_intent vendor object_class attribute write =
     (let key = py_casefold attribute
      in if py_casefold (or_empty vendor) \<noteq> ''rockwell automation'' \<or> py_casefold object_class \<noteq> ''module''
         then CI_SOURCE_SPECIFIC
         else if write \<and> key = ''mode'' then CI_SET_INHIBITED
         else if write then CI_SOURCE_SPECIFIC
         else case map_of [(''instance'', CI_INSTANCE_IDENTITY), (''entrystatus'', CI_CONNECTION_STATUS),
                           (''faultcode'', CI_FAULT_CODE), (''faultinfo'', CI_FAULT_INFORMATION),
                           (''mode'', CI_OPERATING_MODE)] key of
                None \<Rightarrow> CI_SOURCE_SPECIFIC
              | Some i \<Rightarrow> i)"

text \<open>\<open>_argument_source\<close>; reading an argument that is not there raises.\<close>

definition argument_source :: "lowering_env \<Rightarrow> call_argument list \<Rightarrow> nat \<Rightarrow> string option" where
  "argument_source L args i =
     (if i < length args then Some (py_strip (span_text L (expr_span (arg_value (args ! i))))) else None)"

definition argument_at :: "call_argument list \<Rightarrow> nat \<Rightarrow> expr option" where
  "argument_at args i = (if i < length args then Some (arg_value (args ! i)) else None)"

definition object_statement ::
  "lowering_env \<Rightarrow> source_span \<Rightarrow> call_argument list \<Rightarrow> semantic_call \<Rightarrow> bool \<Rightarrow> ir_diagnostic list \<Rightarrow>
     (ir_stmt \<times> ir_diagnostic list) option" where
  "object_statement L sp args k write ds = do {
     object_class \<leftarrow> argument_source L args 0;
     attribute \<leftarrow> argument_source L args 2;
     inst \<leftarrow> argument_source L args 1;
     e \<leftarrow> argument_at args 3;
     let (x, ds1) = lower_expr L e ds;
     let intent = controller_object_intent (sc_vendor k) object_class attribute write;
     Some ((if write then IRControllerObjectWrite sp object_class inst attribute x intent (sc_vendor k)
            else IRControllerObjectRead sp object_class inst attribute x intent (sc_vendor k)), ds1)
   }"

text \<open>
  \<open>_instruction_statement\<close>: the outer option is the exception, the inner one the
  \<open>None\<close> of a call that is no statement of its own.
\<close>

definition instruction_statement ::
  "lowering_env \<Rightarrow> source_span \<Rightarrow> call_argument list \<Rightarrow> ir_diagnostic list \<Rightarrow>
     (ir_stmt option \<times> ir_diagnostic list) option" where
  "instruction_statement L sp args ds =
     (case call_at L sp of
        None \<Rightarrow> Some (None, ds)
      | Some k \<Rightarrow>
          if sc_kind k = CK_CONTROLLER_OBJECT_READ \<and> is_wall_clock_read args
          then let (x, ds1) = lower_expr L (arg_value (args ! 3)) ds
               in Some (Some (IRWallClockRead sp x ''microseconds''), ds1)
          else if sc_kind k = CK_CONTROLLER_OBJECT_READ
          then do { (st, ds1) \<leftarrow> object_statement L sp args k False ds; Some (Some st, ds1) }
          else if sc_kind k = CK_CONTROLLER_OBJECT_WRITE
          then do { (st, ds1) \<leftarrow> object_statement L sp args k True ds; Some (Some st, ds1) }
          else if sc_kind k \<noteq> CK_ARRAY_DIMENSION_QUERY then Some (None, ds)
          else (case map arg_value args of
                  [array, dimension, destination] \<Rightarrow>
                    let (t, ds1) = lower_expr L destination ds;
                        (a, ds2) = lower_expr L array ds1;
                        (d, ds3) = lower_expr L dimension ds2
                    in Some (Some (IRAssignment sp t (IRArrayDimension sp (Some ''DINT'') a d)), ds3)
                | _ \<Rightarrow>
                    let (st, ds1) = unsupported_statement L sp
                          ''array dimension query requires array, dimension, destination'' ds
                    in Some (Some st, ds1)))"

text \<open>The branch of \<open>statement\<close> for an expression statement.\<close>

definition lower_expression_statement ::
  "lowering_env \<Rightarrow> source_span \<Rightarrow> expr \<Rightarrow> ir_diagnostic list \<Rightarrow> (ir_stmt \<times> ir_diagnostic list) option" where
  "lower_expression_statement L sp e ds =
     (let no_call = unsupported_statement L sp ''expression statement did not lower to a call''
      in case e of
           CallExpression csp c args \<Rightarrow> do {
             (special, ds1) \<leftarrow> instruction_statement L csp args ds;
             case special of
               Some st \<Rightarrow> Some (st, ds1)
             | None \<Rightarrow>
                 let (x, ds2) = lower_expr L e ds1
                 in Some (if is_ir_call x then (IRCallStatement sp x, ds2) else no_call ds2)
           }
         | _ \<Rightarrow> Some (no_call ds))"

fun lower_stmt :: "lowering_env \<Rightarrow> stmt \<Rightarrow> ir_diagnostic list \<Rightarrow> (ir_stmt \<times> ir_diagnostic list) option"
  and lower_stmts :: "lowering_env \<Rightarrow> stmt list \<Rightarrow> ir_diagnostic list \<Rightarrow>
        (ir_stmt list \<times> ir_diagnostic list) option"
  and lower_branches :: "lowering_env \<Rightarrow> if_branch list \<Rightarrow> ir_diagnostic list \<Rightarrow>
        (ir_branch list \<times> ir_diagnostic list) option" where
  "lower_stmt L (AssignmentStatement sp t op v) ds =
     (let (x, ds1) = lower_expr L t ds; (y, ds2) = lower_expr L v ds1 in Some (IRAssignment sp x y, ds2))"
| "lower_stmt L (ExpressionStatement sp e) ds = lower_expression_statement L sp e ds"
| "lower_stmt L (IfStatement sp bs es) ds = do {
     (xs, ds1) \<leftarrow> lower_branches L bs ds;
     (ys, ds2) \<leftarrow> lower_stmts L es ds1;
     Some (IRIf sp xs ys, ds2)
   }"
| "lower_stmt L (WhileStatement sp c body) ds =
     (let (x, ds1) = lower_expr L c ds
      in do { (ys, ds2) \<leftarrow> lower_stmts L body ds1; Some (IRWhile sp x ys, ds2) })"
| "lower_stmt L (ExitStatement sp) ds = Some (IRExit sp, ds)"
| "lower_stmt L (UnsupportedStatement sp t) ds =
     Some (unsupported_statement L sp ''source parser retained an unsupported statement'' ds)"
| "lower_stmt L (LabelStatement sp n) ds =
     Some (unsupported_statement L sp ''unsupported statement node LabelStatement'' ds)"
| "lower_stmt L (JumpStatement sp l) ds =
     Some (unsupported_statement L sp ''unsupported statement node JumpStatement'' ds)"
| "lower_stmts L [] ds = Some ([], ds)"
| "lower_stmts L (st # sts) ds = do {
     (x, ds1) \<leftarrow> lower_stmt L st ds;
     (xs, ds2) \<leftarrow> lower_stmts L sts ds1;
     Some (x # xs, ds2)
   }"
| "lower_branches L [] ds = Some ([], ds)"
| "lower_branches L (IfBranch sp c body # bs) ds =
     (let (x, ds1) = lower_expr L c ds
      in do {
        (ys, ds2) \<leftarrow> lower_stmts L body ds1;
        (zs, ds3) \<leftarrow> lower_branches L bs ds2;
        Some (IRIfBranch sp x ys # zs, ds3)
      })"

definition lower_structured_text ::
  "st_semantics \<Rightarrow> string \<Rightarrow> ir_routine_role \<Rightarrow> ir_routine option" where
  "lower_structured_text sem routine_name role = do {
     (statements, ds) \<leftarrow> lower_stmts (lowering_env_of sem) (doc_statements (sem_document sem)) [];
     Some \<lparr>ro_name = routine_name, ro_source_language = Some ''ST'',
           ro_source = doc_source (sem_document sem), ro_statements = statements,
           ro_diagnostics = sem_diagnostics sem @ ds, ro_role = role\<rparr>
   }"

section \<open>Reusable units\<close>

definition direction_of :: "string option \<Rightarrow> ir_direction" where
  "direction_of value =
     (let normalized = py_casefold (or_empty value)
      in if normalized = ''input'' then DIR_INPUT
         else if normalized = ''output'' then DIR_OUTPUT
         else if normalized = ''inout'' then DIR_INOUT
         else DIR_UNKNOWN)"

definition named_lifecycle_role :: "string \<Rightarrow> ir_routine_role option" where
  "named_lifecycle_role n =
     map_of [(''prescan'', RR_PRESCAN), (''postscan'', RR_POSTSCAN),
             (''enableinfalse'', RR_ENABLE_IN_FALSE)] (py_casefold n)"

definition scan_mode_role :: "string \<Rightarrow> ir_routine_role" where
  "scan_mode_role n =
     (case named_lifecycle_role n of None \<Rightarrow> RR_UNKNOWN_LIFECYCLE | Some r \<Rightarrow> r)"

definition no_place :: source_span where
  "no_place = SourceSpan 0 0"

text \<open>The loop over \<open>instruction.routines\<close>; the flag is \<open>primary_assigned\<close>.\<close>

fun lower_routines ::
  "(string \<Rightarrow> st_semantics option) \<Rightarrow> bool \<Rightarrow> string list \<Rightarrow>
     (ir_routine list \<times> ir_diagnostic list) option" where
  "lower_routines sems primary [] = Some ([], [])"
| "lower_routines sems primary (n # ns) =
     (case sems n of
        None \<Rightarrow> do {
          (rs, ds) \<leftarrow> lower_routines sems primary ns;
          Some (rs, STDiagnostic ''missing_routine_semantics''
                      (''routine '' @ py_repr n @ '' has no semantic analysis'') no_place # ds)
        }
      | Some sem \<Rightarrow> do {
          let named_role = named_lifecycle_role n;
          let role = (case named_role of Some r \<Rightarrow> r
                      | None \<Rightarrow> if primary then RR_AUXILIARY else RR_PRIMARY);
          r \<leftarrow> lower_structured_text sem n role;
          (rs, ds) \<leftarrow> lower_routines sems (primary \<or> named_role = None) ns;
          Some (r # rs,
            (if named_role \<noteq> None
             then [STDiagnostic ''lifecycle_routine_in_routines_container''
                     (''routine '' @ py_repr n @
                      '' has a documented lifecycle name despite being captured under Routines'') no_place]
             else []) @ ds)
        })"

fun lower_scan_mode_routines ::
  "(string \<Rightarrow> st_semantics option) \<Rightarrow> string list \<Rightarrow> (ir_routine list \<times> ir_diagnostic list) option" where
  "lower_scan_mode_routines sems [] = Some ([], [])"
| "lower_scan_mode_routines sems (n # ns) =
     (case sems n of
        None \<Rightarrow> do {
          (rs, ds) \<leftarrow> lower_scan_mode_routines sems ns;
          Some (rs, STDiagnostic ''missing_routine_semantics''
                      (''scan-mode routine '' @ py_repr n @ '' has no semantic analysis'') no_place # ds)
        }
      | Some sem \<Rightarrow> do {
          let role = scan_mode_role n;
          r \<leftarrow> lower_structured_text sem n role;
          (rs, ds) \<leftarrow> lower_scan_mode_routines sems ns;
          Some (r # rs,
            (if role = RR_UNKNOWN_LIFECYCLE
             then [STDiagnostic ''unknown_scan_mode_routine''
                     (''scan-mode routine '' @ py_repr n @ '' has no documented lifecycle role'') no_place]
             else []) @ ds)
        })"

definition lower_parameter :: "'v aoi_parameter \<Rightarrow> 'v ir_parameter" where
  "lower_parameter p =
     \<lparr>ip_name = ap_name p, ip_direction = direction_of (ap_usage p),
      ip_data_type = effective_data_type p, ip_dimensions = ap_dimensions p,
      ip_generic_dimensions =
        (ap_dimensions p \<noteq> None \<and> py_casefold (or_empty (ap_usage p)) = ''inout''),
      ip_required = ap_required p, ip_visible = ap_visible p,
      ip_system_defined = (py_casefold (ap_name p) \<in> {''enablein'', ''enableout''}),
      ip_default_value = map_option tv_value (ap_default_value p),
      ip_default_lexical_value = map_option tv_lexical_value (ap_default_value p)\<rparr>"

text \<open>
  The loop of \<open>_interface_diagnostics\<close> over the writes of one routine after another; the
  dictionary \<open>inputs\<close> maps a case-folded name to the declared name, \<open>reported\<close> is the set
  of the names already reported.
\<close>

fun report_writes ::
  "(string \<Rightarrow> string option) \<Rightarrow> string set \<Rightarrow> (string \<times> source_span) list \<Rightarrow> ir_diagnostic list" where
  "report_writes inputs reported [] = []"
| "report_writes inputs reported ((root, sp) # ws) =
     (case inputs (py_casefold root) of
        None \<Rightarrow> report_writes inputs reported ws
      | Some n \<Rightarrow>
          if py_casefold n \<in> reported then report_writes inputs reported ws
          else STDiagnostic ''write_to_input_parameter''
                 (''captured logic writes input parameter '' @ py_repr n @
                  ''; a target interface must preserve or redesign this effect'') sp
               # report_writes inputs (insert (py_casefold n) reported) ws)"

definition input_names :: "'v add_on_instruction \<Rightarrow> string \<Rightarrow> string option" where
  "input_names a key =
     map_option ap_name
       (dict_of (py_casefold \<circ> ap_name)
          (filter (\<lambda>p. py_casefold (or_empty (ap_usage p)) = ''input'') (ao_parameters a)) key)"

definition interface_diagnostics :: "'v add_on_instruction \<Rightarrow> ir_routine list \<Rightarrow> ir_diagnostic list" where
  "interface_diagnostics a rs = report_writes (input_names a) {} (scan_writes rs)"

definition lower_add_on_instruction ::
  "'v add_on_instruction \<Rightarrow> (string \<Rightarrow> st_semantics option) \<Rightarrow> 'v ir_unit option" where
  "lower_add_on_instruction a sems = do {
     (rs1, ds1) \<leftarrow> lower_routines sems False (map ru_name (ao_routines a));
     (rs2, ds2) \<leftarrow> lower_scan_mode_routines sems (map ru_name (ao_scan_mode_routines a));
     let routines = rs1 @ rs2;
     Some \<lparr>iu_name = ao_name a,
           iu_kind = (if ao_local_tags a \<noteq> [] \<or> ao_execute_prescan a = Some True \<or>
                         ao_execute_postscan a = Some True \<or> ao_execute_enable_in_false a = Some True
                      then UK_FUNCTION_BLOCK else UK_FUNCTION),
           iu_parameters = map lower_parameter (ao_parameters a),
           iu_variables = map (\<lambda>t. \<lparr>iv_name = tg_name t, iv_data_type = tg_data_type t,
                                    iv_dimensions = tg_dimensions t\<rparr>) (ao_local_tags a),
           iu_routines = routines,
           iu_source_vendor = ao_vendor a,
           iu_lifecycle = \<lparr>lc_prescan_enabled = ao_execute_prescan a,
             lc_postscan_enabled = ao_execute_postscan a,
             lc_enable_in_false_enabled = ao_execute_enable_in_false a\<rparr>,
           iu_diagnostics = ds1 @ ds2 @ interface_diagnostics a routines\<rparr>
   }"

end
