(* ===== verification/Lowering_Facts.thy ===== *)
theory Lowering_Facts imports IR_Lowering "HOL-Library.Sublist" begin

text \<open>
  What the lowering promises: it fails only on a controller-object call with too few
  arguments; whatever it cannot express stays in the tree as an unsupported node with its
  source text, and each such node has a diagnostic; an expression is fully lowered exactly
  when the analysis resolved all of it.
\<close>

section \<open>Unsupported nodes\<close>

fun unsupported_parts :: "ir_expr \<Rightarrow> source_span list" where
  "unsupported_parts (IRUnsupportedExpression sp dt src r) = [sp]"
| "unsupported_parts (IRReference sp dt n) = []"
| "unsupported_parts (IRLiteral sp dt v) = []"
| "unsupported_parts (IRUnary sp dt op e) = unsupported_parts e"
| "unsupported_parts (IRBinary sp dt l op r) = unsupported_parts l @ unsupported_parts r"
| "unsupported_parts (IRMember sp dt t m) = unsupported_parts t"
| "unsupported_parts (IRIndex sp dt t is op) = unsupported_parts t @ concat (map unsupported_parts is)"
| "unsupported_parts (IRCall sp dt op args ad vn) = concat (map unsupported_parts args)"
| "unsupported_parts (IRArrayDimension sp dt a d) = unsupported_parts a @ unsupported_parts d"

fun unsupported_exprs :: "ir_stmt \<Rightarrow> source_span list"
  and unsupported_exprs_branch :: "ir_branch \<Rightarrow> source_span list" where
  "unsupported_exprs (IRAssignment sp t v) = unsupported_parts t @ unsupported_parts v"
| "unsupported_exprs (IRCallStatement sp c) = unsupported_parts c"
| "unsupported_exprs (IRWallClockRead sp d u) = unsupported_parts d"
| "unsupported_exprs (IRControllerObjectRead sp c i a d intent vn) = unsupported_parts d"
| "unsupported_exprs (IRControllerObjectWrite sp c i a d intent vn) = unsupported_parts d"
| "unsupported_exprs (IRIf sp bs es) =
     concat (map unsupported_exprs_branch bs) @ concat (map unsupported_exprs es)"
| "unsupported_exprs (IRWhile sp c body) = unsupported_parts c @ concat (map unsupported_exprs body)"
| "unsupported_exprs (IRExit sp) = []"
| "unsupported_exprs (IRUnsupportedStatement sp src r) = []"
| "unsupported_exprs_branch (IRIfBranch sp c body) =
     unsupported_parts c @ concat (map unsupported_exprs body)"

fun unsupported_stmts :: "ir_stmt \<Rightarrow> source_span list"
  and unsupported_stmts_branch :: "ir_branch \<Rightarrow> source_span list" where
  "unsupported_stmts (IRIf sp bs es) =
     concat (map unsupported_stmts_branch bs) @ concat (map unsupported_stmts es)"
| "unsupported_stmts (IRWhile sp c body) = concat (map unsupported_stmts body)"
| "unsupported_stmts (IRUnsupportedStatement sp src r) = [sp]"
| "unsupported_stmts st = []"
| "unsupported_stmts_branch (IRIfBranch sp c body) = concat (map unsupported_stmts body)"

section \<open>Expressions\<close>

text \<open>The diagnostics an expression adds: one per unsupported node, in order.\<close>

definition expr_diagnostics :: "source_span list \<Rightarrow> ir_diagnostic list \<Rightarrow> bool" where
  "expr_diagnostics sps new =
     (map sd_span new = sps \<and> list_all (\<lambda>d. sd_code d = ''unsupported_expression'') new)"

lemma expr_diagnostics_append:
  "expr_diagnostics xs new \<Longrightarrow> expr_diagnostics ys new2 \<Longrightarrow> expr_diagnostics (xs @ ys) (new @ new2)"
  by (simp add: expr_diagnostics_def)

lemma expr_diagnostics_Nil [simp]: "expr_diagnostics [] []"
  by (simp add: expr_diagnostics_def)

lemma unsupported_expression_diagnostics:
  "\<exists>new. snd (unsupported_expression L sp r ds) = ds @ new \<and>
     expr_diagnostics (unsupported_parts (fst (unsupported_expression L sp r ds))) new"
  by (simp add: unsupported_expression_def expr_diagnostics_def)

definition adds :: "source_span list \<Rightarrow> ir_diagnostic list \<Rightarrow> ir_diagnostic list \<Rightarrow> bool" where
  "adds sps ds ds' = (\<exists>new. ds' = ds @ new \<and> expr_diagnostics sps new)"

lemma adds_refl: "adds [] ds ds"
  by (simp add: adds_def)

lemma adds_trans: "adds xs ds es \<Longrightarrow> adds ys es fs \<Longrightarrow> adds (xs @ ys) ds fs"
  unfolding adds_def by (metis append.assoc expr_diagnostics_append)

lemma adds_unsupported:
  "adds (unsupported_parts (fst (unsupported_expression L sp r ds))) ds
     (snd (unsupported_expression L sp r ds))"
  by (simp add: adds_def unsupported_expression_diagnostics)

lemma lower_expr_adds:
  "adds (unsupported_parts (fst (lower_expr L e ds))) ds (snd (lower_expr L e ds))"
  "adds (concat (map unsupported_parts (fst (lower_exprs L es ds)))) ds (snd (lower_exprs L es ds))"
  "adds (concat (map unsupported_parts (fst (lower_args L args ds)))) ds (snd (lower_args L args ds))"
proof (induction L e ds and L es ds and L args ds rule: lower_expr_lower_exprs_lower_args.induct)
  case (4 L sp l op r ds)
  then show ?case by (auto split: prod.splits intro: adds_trans)
next
  case (6 L sp t "is" op ds)
  then show ?case by (auto simp: adds_unsupported split: prod.splits option.split intro: adds_trans)
next
  case (12 L e es ds)
  then show ?case by (auto split: prod.splits intro: adds_trans)
next
  case (14 L sp v nm d args ds)
  then show ?case by (auto split: prod.splits intro: adds_trans)
qed (auto simp: adds_unsupported adds_refl split: prod.splits option.split)

text \<open>What the analysis must have resolved for an expression to be lowered whole.\<close>

fun resolved :: "lowering_env \<Rightarrow> expr \<Rightarrow> bool" and resolved_arg :: "lowering_env \<Rightarrow> call_argument \<Rightarrow> bool"
  where
  "resolved L (NameExpression sp n) =
     (case reference_at L sp of None \<Rightarrow> False | Some r \<Rightarrow> rf_status r = RS_RESOLVED)"
| "resolved L (LiteralExpression sp v) = True"
| "resolved L (UnaryExpression sp op e) = resolved L e"
| "resolved L (BinaryExpression sp l op r) = (resolved L l \<and> resolved L r)"
| "resolved L (MemberExpression sp t m) =
     ((case access_at L sp of None \<Rightarrow> False | Some a \<Rightarrow> sa_status a = AS_RESOLVED) \<and> resolved L t)"
| "resolved L (IndexExpression sp t is op) =
     ((case access_at L sp of None \<Rightarrow> False | Some a \<Rightarrow> sa_status a = AS_RESOLVED) \<and>
      resolved L t \<and> list_all (resolved L) is)"
| "resolved L (ParenthesizedExpression sp e) = resolved L e"
| "resolved L (CallExpression sp c args) =
     ((case call_at L sp of None \<Rightarrow> False | Some k \<Rightarrow> sc_kind k \<noteq> CK_UNKNOWN) \<and>
      list_all (resolved_arg L) args)"
| "resolved L (MissingExpression sp) = False"
| "resolved L (DirectAddressExpression sp a) = False"
| "resolved_arg L (CallArgument sp v nm d) = (is_missing v \<or> resolved L v)"

lemma unsupported_parts_unsupported [simp]:
  "unsupported_parts (fst (unsupported_expression L sp r ds)) \<noteq> []"
  by (simp add: unsupported_expression_def)

lemma lower_expr_resolved:
  "unsupported_parts (fst (lower_expr L e ds)) = [] \<longleftrightarrow> resolved L e"
  "concat (map unsupported_parts (fst (lower_exprs L es ds))) = [] \<longleftrightarrow> list_all (resolved L) es"
  "concat (map unsupported_parts (fst (lower_args L args ds))) = [] \<longleftrightarrow> list_all (resolved_arg L) args"
proof (induction L e ds and L es ds and L args ds rule: lower_expr_lower_exprs_lower_args.induct)
  case (8 L sp c args ds)
  then show ?case
    by (cases "call_at L sp"; cases "lower_args L args ds") (auto simp del: concat_eq_Nil_conv)
qed (auto split: prod.splits option.split)

section \<open>Statements\<close>

text \<open>
  The diagnostics a statement adds: one per unsupported statement, in order, and one per
  unsupported expression of the tree; an expression statement that lowers to no call drops
  the expression, whose diagnostics then come beside that of the statement.
\<close>

definition stmt_diagnostics :: "source_span list \<Rightarrow> source_span list \<Rightarrow> ir_diagnostic list \<Rightarrow> bool" where
  "stmt_diagnostics su ex new =
     (map sd_span (filter (\<lambda>d. sd_code d = ''unsupported_statement'') new) = su \<and>
      subseq ex (map sd_span (filter (\<lambda>d. sd_code d = ''unsupported_expression'') new)) \<and>
      list_all (\<lambda>d. sd_code d = ''unsupported_statement'' \<or> sd_code d = ''unsupported_expression'') new \<and>
      (new = [] \<longleftrightarrow> su = [] \<and> ex = []))"

lemma stmt_diagnostics_append:
  "stmt_diagnostics su ex new \<Longrightarrow> stmt_diagnostics tu ey new2 \<Longrightarrow>
     stmt_diagnostics (su @ tu) (ex @ ey) (new @ new2)"
  by (auto simp: stmt_diagnostics_def intro: list_emb_append_mono)

definition adds_stmt ::
  "source_span list \<Rightarrow> source_span list \<Rightarrow> ir_diagnostic list \<Rightarrow> ir_diagnostic list \<Rightarrow> bool" where
  "adds_stmt su ex ds ds' = (\<exists>new. ds' = ds @ new \<and> stmt_diagnostics su ex new)"

lemma adds_stmt_refl: "adds_stmt [] [] ds ds"
  by (simp add: adds_stmt_def stmt_diagnostics_def)

lemma adds_stmt_trans:
  "adds_stmt su ex ds es \<Longrightarrow> adds_stmt tu ey es fs \<Longrightarrow> adds_stmt (su @ tu) (ex @ ey) ds fs"
  unfolding adds_stmt_def by (metis append.assoc stmt_diagnostics_append)

lemma adds_stmt_trans_nil:
  "adds_stmt [] ex ds es \<Longrightarrow> adds_stmt tu ey es fs \<Longrightarrow> adds_stmt tu (ex @ ey) ds fs"
  using adds_stmt_trans by fastforce

lemma adds_imp_adds_stmt: "adds sps ds ds' \<Longrightarrow> adds_stmt [] sps ds ds'"
proof -
  assume "adds sps ds ds'"
  then obtain new where new: "ds' = ds @ new" "map sd_span new = sps"
      "list_all (\<lambda>d. sd_code d = ''unsupported_expression'') new"
    by (auto simp: adds_def expr_diagnostics_def)
  have "filter (\<lambda>d. sd_code d = ''unsupported_expression'') new = new"
    "filter (\<lambda>d. sd_code d = ''unsupported_statement'') new = []"
    using new(3) by (auto simp: filter_id_conv filter_empty_conv list_all_iff)
  with new show ?thesis by (auto simp: adds_stmt_def stmt_diagnostics_def list_all_iff)
qed

lemmas lower_expr_adds_stmt = lower_expr_adds(1) [THEN adds_imp_adds_stmt]

lemma adds_stmt_one: "adds_stmt [sp] [] ds (ds @ [STDiagnostic ''unsupported_statement'' r sp])"
  by (simp add: adds_stmt_def stmt_diagnostics_def)

lemma adds_stmt_unsupported:
  "unsupported_statement L sp r ds = (st, ds') \<Longrightarrow>
     adds_stmt (unsupported_stmts st) (unsupported_exprs st) ds ds'"
  by (auto simp: unsupported_statement_def adds_stmt_one)

text \<open>The dropped expression of an expression statement.\<close>

lemma adds_stmt_dropped:
  assumes "adds sps ds ds1"
  shows "adds_stmt [sp] [] ds (snd (unsupported_statement L sp r ds1))"
proof -
  obtain new where new: "ds1 = ds @ new" "list_all (\<lambda>d. sd_code d = ''unsupported_expression'') new"
    using assms by (auto simp: adds_def expr_diagnostics_def)
  then have "filter (\<lambda>d. sd_code d = ''unsupported_statement'') new = []"
    by (auto simp: filter_empty_conv list_all_iff)
  with new show ?thesis
    by (auto simp: adds_stmt_def unsupported_statement_def stmt_diagnostics_def list_all_iff)
qed

lemma lower_expr_stmt:
  assumes "lower_expr L e ds = (x, ds')"
  shows "adds_stmt [] (unsupported_parts x) ds ds'"
  using lower_expr_adds_stmt [of L e ds] assms by simp

lemma object_statement_adds:
  assumes "object_statement L sp args k write ds = Some (st, ds')"
  shows "adds_stmt (unsupported_stmts st) (unsupported_exprs st) ds ds'"
  using assms unfolding object_statement_def
  by (auto simp: Let_def lower_expr_stmt split: Option.bind_splits prod.splits if_splits)

lemma instruction_statement_adds:
  assumes "instruction_statement L sp args ds = Some (r, ds')"
  shows "case r of None \<Rightarrow> ds' = ds | Some st \<Rightarrow> adds_stmt (unsupported_stmts st) (unsupported_exprs st) ds ds'"
proof -
  have q: "adds_stmt [] (unsupported_parts t @ unsupported_parts a @ unsupported_parts d) ds ds3"
    if "lower_expr L x ds = (t, ds1)" "lower_expr L y ds1 = (a, ds2)" "lower_expr L z ds2 = (d, ds3)"
    for x y z t a d ds1 ds2 ds3
    using that by (auto intro!: adds_stmt_trans_nil lower_expr_stmt)
  show ?thesis
    using assms unfolding instruction_statement_def
    by (auto simp: Let_def lower_expr_stmt object_statement_adds q adds_stmt_unsupported
        split: Option.bind_splits prod.splits if_splits option.splits list.splits)
qed

lemma lower_expression_statement_adds:
  assumes "lower_expression_statement L sp e ds = Some (st, ds')"
  shows "adds_stmt (unsupported_stmts st) (unsupported_exprs st) ds ds'"
proof (cases "\<exists>csp c args. e = CallExpression csp c args")
  case False
  then have "unsupported_statement L sp ''expression statement did not lower to a call'' ds = (st, ds')"
    using assms unfolding lower_expression_statement_def by (cases e) (simp_all add: Let_def)
  then show ?thesis by (rule adds_stmt_unsupported)
next
  case True
  then obtain csp c args where e: "e = CallExpression csp c args" by blast
  obtain special ds1 where i: "instruction_statement L csp args ds = Some (special, ds1)"
    using assms by (auto simp: e lower_expression_statement_def Let_def split: Option.bind_splits)
  note si = instruction_statement_adds [OF i]
  show ?thesis
  proof (cases special)
    case (Some x)
    then show ?thesis using assms si i by (simp add: e lower_expression_statement_def Let_def)
  next
    case None
    obtain x ds2 where x: "lower_expr L e ds1 = (x, ds2)" by force
    have a: "adds (unsupported_parts x) ds ds2"
      using lower_expr_adds(1) [of L e ds1] x si None by simp
    show ?thesis
    proof (cases "is_ir_call x")
      case True
      then have "st = IRCallStatement sp x" "ds' = ds2"
        using assms i None x by (simp_all add: e lower_expression_statement_def Let_def)
      then show ?thesis using adds_imp_adds_stmt [OF a] by simp
    next
      case False
      then have "unsupported_statement L sp ''expression statement did not lower to a call'' ds2 = (st, ds')"
        using assms i None x by (simp add: e lower_expression_statement_def Let_def)
      then show ?thesis using adds_stmt_dropped [OF a, of sp L]
        by (auto simp: unsupported_statement_def)
    qed
  qed
qed

lemma lower_stmt_adds:
  "lower_stmt L st ds = Some (x, ds') \<Longrightarrow> adds_stmt (unsupported_stmts x) (unsupported_exprs x) ds ds'"
  "lower_stmts L sts ds = Some (xs, ds') \<Longrightarrow>
     adds_stmt (concat (map unsupported_stmts xs)) (concat (map unsupported_exprs xs)) ds ds'"
  "lower_branches L bs ds = Some (ys, ds') \<Longrightarrow>
     adds_stmt (concat (map unsupported_stmts_branch ys)) (concat (map unsupported_exprs_branch ys)) ds ds'"
proof (induction L st ds and L sts ds and L bs ds arbitrary: x ds' and xs ds' and ys ds'
    rule: lower_stmt_lower_stmts_lower_branches.induct)
  case (1 L sp t op v ds)
  then show ?case by (auto split: prod.splits intro!: adds_stmt_trans_nil lower_expr_stmt)
next
  case (2 L sp e ds)
  then show ?case by (intro lower_expression_statement_adds) simp
next
  case (3 L sp bs es ds)
  then show ?case by (auto split: Option.bind_splits prod.splits intro!: adds_stmt_trans)
next
  case (4 L sp c body ds)
  then show ?case
    by (auto split: Option.bind_splits prod.splits intro!: adds_stmt_trans_nil lower_expr_stmt)
next
  case (10 L st sts ds)
  then show ?case by (auto split: Option.bind_splits prod.splits intro!: adds_stmt_trans)
next
  case (12 L sp c body bs ds)
  then show ?case
    by (fastforce split: Option.bind_splits prod.splits
        intro: adds_stmt_trans [OF adds_stmt_trans_nil [OF lower_expr_stmt], simplified])
qed (auto simp: adds_stmt_refl adds_stmt_unsupported)

section \<open>When lowering fails\<close>

text \<open>Every call to read or write a controller object has its four arguments.\<close>

definition complete_call :: "lowering_env \<Rightarrow> expr \<Rightarrow> bool" where
  "complete_call L e = (case e of
     CallExpression sp c args \<Rightarrow>
       (case call_at L sp of
          None \<Rightarrow> True
        | Some k \<Rightarrow> sc_kind k \<in> {CK_CONTROLLER_OBJECT_READ, CK_CONTROLLER_OBJECT_WRITE} \<longrightarrow> 4 \<le> length args)
   | _ \<Rightarrow> True)"

fun complete :: "lowering_env \<Rightarrow> stmt \<Rightarrow> bool" and complete_branch :: "lowering_env \<Rightarrow> if_branch \<Rightarrow> bool" where
  "complete L (ExpressionStatement sp e) = complete_call L e"
| "complete L (IfStatement sp bs es) = (list_all (complete_branch L) bs \<and> list_all (complete L) es)"
| "complete L (WhileStatement sp c body) = list_all (complete L) body"
| "complete L st = True"
| "complete_branch L (IfBranch sp c body) = list_all (complete L) body"

lemma object_statement_fails: "object_statement L sp args k write ds = None \<longleftrightarrow> length args < 4"
  by (auto simp: object_statement_def argument_source_def argument_at_def Let_def
      split: Option.bind_splits prod.splits)

lemma is_wall_clock_read_length: "is_wall_clock_read args \<Longrightarrow> length args = 4"
  by (simp add: is_wall_clock_read_def)

lemma instruction_statement_fails:
  "instruction_statement L sp args ds = None \<longleftrightarrow>
     (\<exists>k. call_at L sp = Some k \<and>
        sc_kind k \<in> {CK_CONTROLLER_OBJECT_READ, CK_CONTROLLER_OBJECT_WRITE} \<and> length args < 4)"
proof (cases "call_at L sp")
  case (Some k)
  have "(case map arg_value args of
                  [array, dimension, destination] \<Rightarrow>
                    let (t, ds1) = lower_expr L destination ds;
                        (a, ds2) = lower_expr L array ds1;
                        (d, ds3) = lower_expr L dimension ds2
                    in Some (Some (IRAssignment sp t (IRArrayDimension sp (Some ''DINT'') a d)), ds3)
                | _ \<Rightarrow>
                    let (st, ds1) = unsupported_statement L sp
                          ''array dimension query requires array, dimension, destination'' ds
                    in Some (Some st, ds1)) \<noteq> None"
    by (auto simp: Let_def split: list.splits prod.splits)
  then show ?thesis using Some object_statement_fails [of L sp args k _ ds] is_wall_clock_read_length [of args]
    by (cases "sc_kind k") (auto simp: instruction_statement_def Let_def split: prod.splits Option.bind_splits)
qed (simp add: instruction_statement_def)

lemma lower_expression_statement_fails:
  "lower_expression_statement L sp e ds = None \<longleftrightarrow> \<not> complete_call L e"
proof (cases e)
  case (CallExpression csp c args)
  have "lower_expression_statement L sp e ds = None \<longleftrightarrow> instruction_statement L csp args ds = None"
    by (auto simp: CallExpression lower_expression_statement_def Let_def split: Option.bind_splits option.splits prod.splits)
  then show ?thesis
    by (auto simp: CallExpression instruction_statement_fails complete_call_def not_le split: option.splits)
qed (simp_all add: lower_expression_statement_def complete_call_def Let_def)

lemma lower_stmt_fails:
  "lower_stmt L st ds = None \<longleftrightarrow> \<not> complete L st"
  "lower_stmts L sts ds = None \<longleftrightarrow> \<not> list_all (complete L) sts"
  "lower_branches L bs ds = None \<longleftrightarrow> \<not> list_all (complete_branch L) bs"
proof (induction L st ds and L sts ds and L bs ds rule: lower_stmt_lower_stmts_lower_branches.induct)
  case (2 L sp e ds)
  then show ?case by (simp add: lower_expression_statement_fails)
next
  case (4 L sp c body ds)
  then show ?case by (cases "lower_expr L c ds") (auto split: Option.bind_splits)
next
  case (12 L sp c body bs ds)
  then show ?case
    by (cases "lower_expr L c ds"; cases "lower_stmts L body (snd (lower_expr L c ds))")
      (fastforce split: Option.bind_splits)+
qed (auto simp: Let_def split: Option.bind_splits prod.splits)

section \<open>Retained source\<close>

text \<open>Every unsupported node holds the text of its span.\<close>

fun retains_expr :: "string \<Rightarrow> ir_expr \<Rightarrow> bool" where
  "retains_expr src (IRUnsupportedExpression sp dt t r) = (t = slice (span_start sp) (span_end sp) src)"
| "retains_expr src (IRReference sp dt n) = True"
| "retains_expr src (IRLiteral sp dt v) = True"
| "retains_expr src (IRUnary sp dt op e) = retains_expr src e"
| "retains_expr src (IRBinary sp dt l op r) = (retains_expr src l \<and> retains_expr src r)"
| "retains_expr src (IRMember sp dt t m) = retains_expr src t"
| "retains_expr src (IRIndex sp dt t is op) = (retains_expr src t \<and> list_all (retains_expr src) is)"
| "retains_expr src (IRCall sp dt op args ad vn) = list_all (retains_expr src) args"
| "retains_expr src (IRArrayDimension sp dt a d) = (retains_expr src a \<and> retains_expr src d)"

fun retains :: "string \<Rightarrow> ir_stmt \<Rightarrow> bool" and retains_branch :: "string \<Rightarrow> ir_branch \<Rightarrow> bool" where
  "retains src (IRAssignment sp t v) = (retains_expr src t \<and> retains_expr src v)"
| "retains src (IRCallStatement sp c) = retains_expr src c"
| "retains src (IRWallClockRead sp d u) = retains_expr src d"
| "retains src (IRControllerObjectRead sp c i a d intent vn) = retains_expr src d"
| "retains src (IRControllerObjectWrite sp c i a d intent vn) = retains_expr src d"
| "retains src (IRIf sp bs es) = (list_all (retains_branch src) bs \<and> list_all (retains src) es)"
| "retains src (IRWhile sp c body) = (retains_expr src c \<and> list_all (retains src) body)"
| "retains src (IRExit sp) = True"
| "retains src (IRUnsupportedStatement sp t r) = (t = slice (span_start sp) (span_end sp) src)"
| "retains_branch src (IRIfBranch sp c body) = (retains_expr src c \<and> list_all (retains src) body)"

lemma lower_expr_retains:
  "retains_expr (le_source L) (fst (lower_expr L e ds))"
  "list_all (retains_expr (le_source L)) (fst (lower_exprs L es ds))"
  "list_all (retains_expr (le_source L)) (fst (lower_args L args ds))"
  by (induction L e ds and L es ds and L args ds rule: lower_expr_lower_exprs_lower_args.induct)
    (auto simp: unsupported_expression_def span_text_def split: prod.splits option.split)

lemma lower_expr_retained: "lower_expr L e ds = (x, ds') \<Longrightarrow> retains_expr (le_source L) x"
  using lower_expr_retains(1) [of L e ds] by simp

lemma unsupported_statement_retained:
  "unsupported_statement L sp r ds = (st, ds') \<Longrightarrow> retains (le_source L) st"
  by (auto simp: unsupported_statement_def span_text_def)

lemma object_statement_retained:
  "object_statement L sp args k write ds = Some (st, ds') \<Longrightarrow> retains (le_source L) st"
  unfolding object_statement_def
  by (auto simp: Let_def lower_expr_retained split: Option.bind_splits prod.splits if_splits)

lemma instruction_statement_retained:
  "instruction_statement L sp args ds = Some (Some st, ds') \<Longrightarrow> retains (le_source L) st"
  unfolding instruction_statement_def
  by (auto simp: Let_def lower_expr_retained object_statement_retained unsupported_statement_retained
      split: Option.bind_splits prod.splits if_splits option.splits list.splits)

lemma lower_expression_statement_retained:
  "lower_expression_statement L sp e ds = Some (st, ds') \<Longrightarrow> retains (le_source L) st"
  unfolding lower_expression_statement_def Let_def
  by (auto simp: lower_expr_retained instruction_statement_retained
      dest!: sym [of "(st, ds')"] intro: unsupported_statement_retained simp del: lower_expr.simps
      split: Option.bind_splits prod.splits if_splits option.splits expr.splits)

lemma lower_stmt_retains:
  "lower_stmt L st ds = Some (x, ds') \<Longrightarrow> retains (le_source L) x"
  "lower_stmts L sts ds = Some (xs, ds') \<Longrightarrow> list_all (retains (le_source L)) xs"
  "lower_branches L bs ds = Some (ys, ds') \<Longrightarrow> list_all (retains_branch (le_source L)) ys"
proof (induction L st ds and L sts ds and L bs ds arbitrary: x ds' and xs ds' and ys ds'
    rule: lower_stmt_lower_stmts_lower_branches.induct)
  case (2 L sp e ds)
  then show ?case by (intro lower_expression_statement_retained) simp
qed (auto simp: lower_expr_retained unsupported_statement_retained split: Option.bind_splits prod.splits)

section \<open>A document lowered\<close>

text \<open>\<open>IF a THEN a := b; END_IF\<close> with only \<open>a\<close> declared, as the parser builds it.\<close>

definition small_document :: st_document where
  "small_document =
     \<lparr>doc_source = ''IF a THEN a := b; END_IF;'', doc_tokens = [],
      doc_statements =
        [IfStatement (SourceSpan 0 25)
           [IfBranch (SourceSpan 0 17) (NameExpression (SourceSpan 3 4) ''a'')
              [AssignmentStatement (SourceSpan 10 17) (NameExpression (SourceSpan 10 11) ''a'') '':=''
                 (NameExpression (SourceSpan 15 16) ''b'')]] []],
      doc_diagnostics = []\<rparr>"

definition small_context :: sem_context where
  "small_context =
     \<lparr>cx_symbols = [\<lparr>sy_name = ''A'', sy_kind = SK_LOCAL, sy_data_type = Some ''BOOL'', sy_scope = None,
                     sy_dimensions = None\<rparr>],
      cx_types = [], cx_call_rules = [],
      cx_conversion_policy = \<lparr>po_implicit_numeric = False, po_bit_bool_equivalent = False,
        po_implicit_numeric_boolean = False, po_string_family_compatible = False\<rparr>\<rparr>"

definition small_semantics :: st_semantics where
  "small_semantics = analyze_semantics small_document small_context"

section \<open>Properties of the lowering\<close>

text \<open>
  C12. Lowering a document fails in exactly one case: some statement, at any depth, is a call
  that the analysis classified as reading or writing a controller object and that has fewer
  than four arguments (the source then raises \<open>IndexError\<close>).
\<close>

theorem lowering_fails_iff:
  "lower_structured_text sem routine_name role = None \<longleftrightarrow>
     \<not> list_all (complete (lowering_env_of sem)) (doc_statements (sem_document sem))"
  using lower_stmt_fails(2) [of "lowering_env_of sem" "doc_statements (sem_document sem)" "[]"]
  by (auto simp: lower_structured_text_def split: Option.bind_splits)

text \<open>
  C13. Nothing is lost silently: when lowering returns, the routine keeps the source and all
  semantic diagnostics, followed by lowering diagnostics that name every unsupported statement
  of the lowered tree, in order, and every unsupported expression in it; there are none only
  if the tree has no unsupported node; and each unsupported node holds the source text of its
  span.
\<close>

theorem lowering_honest:
  assumes "list_all (complete (lowering_env_of sem)) (doc_statements (sem_document sem))"
  shows "\<exists>r ds. lower_structured_text sem routine_name role = Some r \<and>
     ro_source r = doc_source (sem_document sem) \<and> ro_diagnostics r = sem_diagnostics sem @ ds \<and>
     stmt_diagnostics (concat (map unsupported_stmts (ro_statements r)))
       (concat (map unsupported_exprs (ro_statements r))) ds \<and>
     list_all (retains (ro_source r)) (ro_statements r)"
proof -
  let ?L = "lowering_env_of sem"
  obtain xs ds where l: "lower_stmts ?L (doc_statements (sem_document sem)) [] = Some (xs, ds)"
    using assms lower_stmt_fails(2) [of ?L "doc_statements (sem_document sem)" "[]"] by fastforce
  moreover have "le_source ?L = doc_source (sem_document sem)" by (simp add: lowering_env_of_def)
  ultimately show ?thesis
    using lower_stmt_adds(2) [OF l] lower_stmt_retains(2) [OF l]
    by (auto simp: lower_structured_text_def adds_stmt_def)
qed

lemma lowering_honest_witness:
  "\<exists>r ds. lower_structured_text small_semantics ''Logic'' RR_PRIMARY = Some r \<and>
     ro_diagnostics r = sem_diagnostics small_semantics @ ds \<and>
     stmt_diagnostics (concat (map unsupported_stmts (ro_statements r)))
       (concat (map unsupported_exprs (ro_statements r))) ds"
proof -
  have "list_all (complete (lowering_env_of small_semantics))
     (doc_statements (sem_document small_semantics))"
    by code_simp
  from lowering_honest [OF this, of "''Logic''" RR_PRIMARY] show ?thesis by blast
qed

text \<open>
  C14. An expression is lowered whole exactly when the analysis resolved it: no unsupported
  node is left if and only if every name in it is resolved, every member and index access is
  resolved, every call has a known kind, it holds no direct address (which the lowering never
  supports), and nothing but call arguments is missing; and its
  lowering adds one diagnostic per unsupported node, in order, and no other.
\<close>

theorem lowered_whole_iff_resolved:
  "(unsupported_parts (fst (lower_expr L e ds)) = [] \<longleftrightarrow> resolved L e) \<and>
   (\<exists>new. snd (lower_expr L e ds) = ds @ new \<and>
      map sd_span new = unsupported_parts (fst (lower_expr L e ds)))"
  using lower_expr_resolved(1) [of L e ds] lower_expr_adds(1) [of L e ds]
  by (auto simp: adds_def expr_diagnostics_def)

end
