(* ===== verification/Semantics_Facts.thy ===== *)
theory Semantics_Facts imports ST_Semantics begin

text \<open>
  What the semantic analyser promises: its operations mirror the statements whatever the
  context, every fact that needs attention has a diagnostic of its own and no diagnostic is
  without such a fact, references agree with the declarations, and the type compatibility
  obeys the laws a conversion policy should have.
\<close>

section \<open>Operations\<close>

text \<open>What one statement is in target-independent terms, without a context.\<close>

fun neutral_of :: "stmt \<Rightarrow> neutral_operation" and branch_operations :: "if_branch \<Rightarrow> neutral_operation list"
  where
  "neutral_of (AssignmentStatement sp t op v) = NeutralOperation OK_ASSIGN sp (Some op) []"
| "neutral_of (ExpressionStatement sp e) = NeutralOperation OK_CALL sp (Some (expression_name e)) []"
| "neutral_of (IfStatement sp bs es) =
     NeutralOperation OK_CONDITIONAL sp None (concat (map branch_operations bs) @ map neutral_of es)"
| "neutral_of (WhileStatement sp c body) = NeutralOperation OK_LOOP sp None (map neutral_of body)"
| "neutral_of (ExitStatement sp) = NeutralOperation OK_EXIT sp None []"
| "neutral_of (LabelStatement sp n) = NeutralOperation OK_LABEL sp (Some n) []"
| "neutral_of (JumpStatement sp l) = NeutralOperation OK_JUMP sp (Some l) []"
| "neutral_of (UnsupportedStatement sp t) = NeutralOperation OK_UNSUPPORTED sp (Some t) []"
| "branch_operations (IfBranch sp c body) = map neutral_of body"

lemma sem_stmt_operation:
  "fst (sem_stmt C st s) = neutral_of st"
  "fst (sem_stmts C sts s) = map neutral_of sts"
  "fst (sem_branches C bs s) = concat (map branch_operations bs)"
  by (induction C st s and C sts s and C bs s rule: sem_stmt_sem_stmts_sem_branches.induct)
    (auto simp: Let_def split: prod.splits)

section \<open>Relations kept by the analysis\<close>

text \<open>
  What a relation between the state before and the state after must satisfy for the whole
  analysis to keep it: the steps that record a fact keep it. Its first argument holds the
  bindings that \<open>_bind_arguments\<close> has made but \<open>_call\<close> has not recorded yet.
\<close>

lemma sem_bound_no_contracts [simp]: "sem_bound C args [] s = ([], s)"
  by (cases args) auto

locale analysis_relation =
  fixes C :: sem_context and R :: "argument_binding list \<Rightarrow> sem_state \<Rightarrow> sem_state \<Rightarrow> bool"
  assumes refl: "\<And>s. R [] s s"
    and trans: "\<And>xs ys s t u. R xs s t \<Longrightarrow> R ys t u \<Longrightarrow> R (xs @ ys) s u"
    and type: "\<And>sp v s. R [] s (snd (record_type sp (v, s)))"
    and access: "\<And>p sp st v s. R [] s (snd (record_access p sp (st, v, s)))"
    and reference: "\<And>sp n s. R [] s (snd (sem_reference C sp n s))"
    and member: "\<And>sp m v s. R [] s (snd (snd (member_result C sp m v s)))"
    and index: "\<And>p op sp v s. R [] s (snd (snd (index_result p op sp v s)))"
    and binding: "\<And>sp v p a s. R [fst (bind_argument C sp v p a s)] s (snd (bind_argument C sp v p a s))"
    and call: "\<And>valid s1 rule sp args s callee bs s2 b m sp'.
      (valid, s1) = (case rule of None \<Rightarrow> (None, s) | Some r \<Rightarrow> validate_signature sp (length args) r s) \<Longrightarrow>
      rule = rule_of C (expression_name callee) \<Longrightarrow> R bs s1 s2 \<Longrightarrow> (rule = None \<Longrightarrow> bs = []) \<Longrightarrow>
      R [] s (record_call (make_call C sp callee (length (args :: call_argument list)) valid bs)
        (if b then sem_diagnostic ''unknown_call'' m sp' s2 else s2))"
    and assignment: "\<And>s sp t v.
      R [] s (let compat = compatibility (cx_conversion_policy C) t v;
                  s3 = s\<lparr>ss_assignments := ss_assignments s @
                    [\<lparr>ac_span = sp, ac_target_type = tv_data_type t, ac_value_type = tv_data_type v,
                      ac_compatibility = compat\<rparr>]\<rparr>
              in if compat = TC_INCOMPATIBLE
                 then sem_diagnostic ''incompatible_assignment''
                        (''cannot assign '' @ repr_opt (tv_data_type v) @ '' to '' @
                         repr_opt (tv_data_type t)) sp s3
                 else s3)"
begin

lemma trans_nil: "R [] s t \<Longrightarrow> R ys t u \<Longrightarrow> R ys s u"
  using trans [of "[]"] by simp

lemma type_after: "R xs s t \<Longrightarrow> R xs s (snd (record_type sp (v, t)))"
  using trans [OF _ type] by fastforce

lemma access_after: "R xs s t \<Longrightarrow> R xs s (snd (record_access p sp (st, v, t)))"
  using trans [OF _ access] by fastforce

lemma sem_indices_relation:
  "(\<And>e s. e \<in> set is \<Longrightarrow> R [] s (snd (sem_expr C e s))) \<Longrightarrow> R [] s (sem_indices C is s)"
  by (induction "is" arbitrary: s) (auto intro: refl trans_nil)

lemma sem_bound_relation:
  "(\<And>a s. a \<in> set args \<Longrightarrow> R [] s (snd (sem_expr C (arg_value a) s))) \<Longrightarrow>
     R (fst (sem_bound C args ps s)) s (snd (sem_bound C args ps s))"
proof (induction args arbitrary: ps s)
  case (Cons a args)
  obtain sp v nm d where a: "a = CallArgument sp v nm d" by (cases a)
  show ?case
  proof (cases ps)
    case (Cons p ps')
    obtain x s1 where x: "sem_expr C v s = (x, s1)" by force
    obtain b s2 where b: "bind_argument C sp v p x s1 = (b, s2)" by force
    have "R [] s s1" using Cons.prems [of a s] a x by simp
    moreover have "R [b] s1 s2" using binding [of sp v p x s1] b by simp
    ultimately have "R [b] s s2" by (rule trans_nil)
    moreover have "R (fst (sem_bound C args ps' s2)) s2 (snd (sem_bound C args ps' s2))"
      using Cons.prems by (intro Cons.IH) auto
    ultimately show ?thesis
      using a x b Cons trans by (fastforce simp: case_prod_beta)
  qed (simp add: refl)
qed (simp add: refl)

lemma sem_rest_relation:
  "(\<And>a s. a \<in> set args \<Longrightarrow> R [] s (snd (sem_expr C (arg_value a) s))) \<Longrightarrow>
     R [] s (snd (sem_rest C opaque k i args s))"
proof (induction args arbitrary: i s)
  case (Cons a args)
  obtain sp v nm d where a: "a = CallArgument sp v nm d" by (cases a)
  have IH: "R [] t (snd (sem_rest C opaque k j args t))" for j t
    using Cons.prems by (intro Cons.IH) auto
  have "R [] s (snd (sem_expr C v s))" using Cons.prems [of a s] a by simp
  then show ?case using a IH trans_nil by (auto simp: case_prod_beta)
qed (simp add: refl)

lemma sem_expr_relation:
  "R [] s (snd (sem_expr C e s))"
  "R [] s (snd (sem_expr C (arg_value a) s))"
proof (induction e and a arbitrary: s and s)
  case (NameExpression sp n)
  then show ?case using reference [of s sp n]
    by (cases "sem_reference C sp n s") (auto intro: type_after)
next
  case (UnaryExpression sp op e)
  then show ?case by (cases "sem_expr C e s") (metis type_after sem_expr.simps(5) snd_conv)
next
  case (ParenthesizedExpression sp e)
  then show ?case by (cases "sem_expr C e s") (metis type_after sem_expr.simps(9) snd_conv)
next
  case (BinaryExpression sp l op r)
  obtain a s1 b s2 where e: "sem_expr C l s = (a, s1)" "sem_expr C r s1 = (b, s2)" by fastforce
  then have "R [] s s2"
    using BinaryExpression.IH(1) [of s] BinaryExpression.IH(2) [of s1] trans_nil by simp
  with e show ?case by (simp add: type_after)
next
  case (MemberExpression sp t m)
  obtain a s1 where e: "sem_expr C t s = (a, s1)" by fastforce
  obtain st v s2 where r: "member_result C sp m a s1 = (st, v, s2)" by (cases "member_result C sp m a s1")
  have "R [] s s2"
    using MemberExpression.IH [of s] e r member [of s1 sp m a] trans_nil by simp
  then show ?case using e r using access_after type_after
      by (simp add: case_prod_beta record_access_def)
next
  case (IndexExpression sp t "is" op)
  obtain a s1 where e: "sem_expr C t s = (a, s1)" by fastforce
  let ?path = "expression_name (IndexExpression sp t is op)"
  obtain st v s2 where r: "index_result ?path op sp a s1 = (st, v, s2)"
    by (cases "index_result ?path op sp a s1")
  have "R [] s s2"
    using IndexExpression.IH(1) [of s] e r index [of s1 ?path op sp a] trans_nil by simp
  then have "R [] s (snd (record_access ?path sp (st, v, s2)))" by (rule access_after)
  then have "R [] s (sem_indices C is (snd (record_access ?path sp (st, v, s2))))"
    using sem_indices_relation [OF IndexExpression.IH(2)] trans_nil by blast
  then show ?case using e r by (simp add: Let_def case_prod_beta type_after del: expression_name.simps)
next
  case (CallExpression sp callee args)
  define rule where "rule = rule_of C (expression_name callee)"
  obtain valid s1 where sig: "(case rule of None \<Rightarrow> (None, s) | Some r \<Rightarrow> validate_signature sp (length args) r s) = (valid, s1)"
    by force
  obtain bs s2 where b: "sem_bound C args (case rule of None \<Rightarrow> [] | Some r \<Rightarrow> contracts r) s1 = (bs, s2)"
    by force
  define call where "call = make_call C sp callee (length args) valid bs"
  define s3 where "s3 = (if rule = None \<and> sc_kind call = CK_UNKNOWN
                then sem_diagnostic ''unknown_call''
                       (''call '' @ py_repr (expression_name callee) @ '' has no declared semantic rule'')
                       (expr_span callee) s2
                else s2)"
  define s5 where "s5 = (case callee of NameExpression nsp n \<Rightarrow> record_call call s3
                 | _ \<Rightarrow> snd (sem_expr C callee (record_call call s3)))"
  have "R bs s1 s2"
    using sem_bound_relation [OF CallExpression.IH(2), where s = s1] b by (metis fst_conv snd_conv)
  moreover have "rule = None \<Longrightarrow> bs = []" using b by simp
  ultimately have "R [] s (record_call call s3)"
    unfolding call_def s3_def using sig rule_def by (intro call) auto
  moreover have "R [] (record_call call s3) s5"
    unfolding s5_def using CallExpression.IH(1) by (cases callee) (simp_all add: refl)
  ultimately have "R [] s s5" by (rule trans_nil)
  then have "R [] s (snd (sem_rest C opaque k 0 args s5))" for opaque k
    using sem_rest_relation [OF CallExpression.IH(2)] trans_nil by blast
  then show ?case
    unfolding sem_expr.simps rule_def [symmetric] Let_def sig b prod.case call_def [symmetric]
      s3_def [symmetric] s5_def [symmetric]
    by (simp add: case_prod_beta type_after)
qed (simp_all add: type_after refl)

lemma sem_stmts_relation:
  "(\<And>st s. st \<in> set sts \<Longrightarrow> R [] s (snd (sem_stmt C st s))) \<Longrightarrow> R [] s (snd (sem_stmts C sts s))"
proof (induction sts arbitrary: s)
  case (Cons st sts)
  have "R [] t (snd (sem_stmts C sts t))" for t using Cons.prems by (intro Cons.IH) auto
  with Cons.prems [of st s] show ?case by (auto simp: case_prod_beta intro: trans_nil)
qed (simp add: refl)

lemma sem_branches_relation:
  "(\<And>b s. b \<in> set bs \<Longrightarrow> R [] s (snd (sem_branches C [b] s))) \<Longrightarrow> R [] s (snd (sem_branches C bs s))"
proof (induction bs arbitrary: s)
  case (Cons b bs)
  obtain sp c body where b: "b = IfBranch sp c body" by (cases b)
  have "R [] t (snd (sem_branches C bs t))" for t using Cons.prems by (intro Cons.IH) auto
  with Cons.prems [of b s] b show ?case by (auto simp: case_prod_beta intro: trans_nil)
qed (simp add: refl)

lemma sem_stmt_relation:
  "R [] s (snd (sem_stmt C st s))"
  "R [] s (snd (sem_branches C [b] s))"
proof (induction st and b arbitrary: s and s)
  case (AssignmentStatement sp t op v)
  obtain a s1 b s2 where e: "sem_expr C t s = (a, s1)" "sem_expr C v s1 = (b, s2)" by fastforce
  then have "R [] s s2"
    using sem_expr_relation(1) [of s t] sem_expr_relation(1) [of s1 v] trans_nil by simp
  from trans_nil [OF this assignment [of s2 a b sp]] e show ?case by (simp add: Let_def)
next
  case (ExpressionStatement sp e)
  show ?case by (simp add: sem_expr_relation)
next
  case (IfStatement sp bs es)
  then show ?case using trans_nil [OF sem_branches_relation sem_stmts_relation]
    by (simp add: case_prod_beta)
next
  case (WhileStatement sp c body)
  then show ?case using trans_nil [OF sem_expr_relation(1) sem_stmts_relation]
    by (simp add: case_prod_beta)
next
  case (IfBranch sp c body)
  then show ?case using trans_nil [OF sem_expr_relation(1) sem_stmts_relation]
    by (simp add: case_prod_beta)
qed (simp_all add: refl)

lemma analysis_related: "R [] init_semantics (snd (sem_stmts C sts init_semantics))"
  by (intro sem_stmts_relation sem_stmt_relation)

end

section \<open>Facts and their diagnostics\<close>

text \<open>The places of the diagnostics with a code, and of the facts the code speaks of.\<close>

definition spans_of :: "string \<Rightarrow> st_diagnostic list \<Rightarrow> source_span multiset" where
  "spans_of c ds = mset (map sd_span (filter (\<lambda>d. sd_code d = c) ds))"

definition unresolved_spans :: "symbol_reference list \<Rightarrow> source_span multiset" where
  "unresolved_spans rs = mset (map rf_span (filter (\<lambda>r. rf_status r = RS_UNRESOLVED) rs))"

definition incompatible_bindings :: "argument_binding list \<Rightarrow> source_span multiset" where
  "incompatible_bindings bs = mset (map ab_span (filter (\<lambda>b. ab_compatibility b = TC_INCOMPATIBLE) bs))"

definition incompatible_arguments :: "semantic_call list \<Rightarrow> source_span multiset" where
  "incompatible_arguments cs = incompatible_bindings (concat (map sc_bindings cs))"

definition invalid_counts :: "semantic_call list \<Rightarrow> source_span multiset" where
  "invalid_counts cs = mset (map sc_span (filter (\<lambda>c. sc_signature_valid c = Some False) cs))"

definition incompatible_assignments :: "assignment_check list \<Rightarrow> source_span multiset" where
  "incompatible_assignments as =
     mset (map ac_span (filter (\<lambda>a. ac_compatibility a = TC_INCOMPATIBLE) as))"

text \<open>
  \<open>balanced xs s t\<close>: from state \<open>s\<close> to state \<open>t\<close> the facts and their diagnostics grow alike, save
  for the bindings \<open>xs\<close>, which have their diagnostics already but are not recorded yet.
\<close>

definition balanced :: "argument_binding list \<Rightarrow> sem_state \<Rightarrow> sem_state \<Rightarrow> bool" where
  "balanced xs s t =
     (spans_of ''unresolved_symbol'' (ss_diagnostics t) + unresolved_spans (ss_references s) =
        spans_of ''unresolved_symbol'' (ss_diagnostics s) + unresolved_spans (ss_references t) \<and>
      spans_of ''incompatible_argument'' (ss_diagnostics t) + incompatible_arguments (ss_calls s) =
        spans_of ''incompatible_argument'' (ss_diagnostics s) + incompatible_arguments (ss_calls t) +
        incompatible_bindings xs \<and>
      spans_of ''invalid_argument_count'' (ss_diagnostics t) + invalid_counts (ss_calls s) =
        spans_of ''invalid_argument_count'' (ss_diagnostics s) + invalid_counts (ss_calls t) \<and>
      spans_of ''incompatible_assignment'' (ss_diagnostics t) + incompatible_assignments (ss_assignments s) =
        spans_of ''incompatible_assignment'' (ss_diagnostics s) + incompatible_assignments (ss_assignments t))"

lemmas fact_defs = spans_of_def unresolved_spans_def incompatible_bindings_def
  incompatible_arguments_def invalid_counts_def incompatible_assignments_def

lemma balanced_refl: "balanced [] s s"
  by (simp add: balanced_def incompatible_bindings_def)

lemma sum_trans:
  fixes a :: "'a multiset"
  assumes "b + u = a + v + x" "c + v = b + w + y"
  shows "c + u = a + w + (x + y)"
proof -
  have "(c + u) + (b + v) = (c + v) + (b + u)" by (simp add: ac_simps)
  also have "\<dots> = (b + w + y) + (a + v + x)" by (simp add: assms)
  also have "\<dots> = (a + w + (x + y)) + (b + v)" by (simp add: ac_simps)
  finally show ?thesis by simp
qed

lemma sum_trans_plain:
  fixes a :: "'a multiset"
  assumes "b + u = a + v" "c + v = b + w"
  shows "c + u = a + w"
  using sum_trans [of b u a v "{#}" c w "{#}"] assms by simp

lemma balanced_trans:
  assumes "balanced xs s t" "balanced ys t u"
  shows "balanced (xs @ ys) s u"
proof -
  have i: "incompatible_bindings (xs @ ys) = incompatible_bindings xs + incompatible_bindings ys"
    by (simp add: incompatible_bindings_def)
  note st = assms(1) [unfolded balanced_def] and tu = assms(2) [unfolded balanced_def]
  show ?thesis
    unfolding balanced_def i
    by (intro conjI sum_trans_plain [OF conjunct1 [OF st] conjunct1 [OF tu]]
        sum_trans [OF conjunct1 [OF conjunct2 [OF st]] conjunct1 [OF conjunct2 [OF tu]]]
        sum_trans_plain [OF conjunct1 [OF conjunct2 [OF conjunct2 [OF st]]]
          conjunct1 [OF conjunct2 [OF conjunct2 [OF tu]]]]
        sum_trans_plain [OF conjunct2 [OF conjunct2 [OF conjunct2 [OF st]]]
          conjunct2 [OF conjunct2 [OF conjunct2 [OF tu]]]])
qed

lemma balanced_trans_nil: "balanced [] s t \<Longrightarrow> balanced ys t u \<Longrightarrow> balanced ys s u"
  using balanced_trans [of "[]"] by simp

text \<open>The steps that record a fact or emit a diagnostic.\<close>

lemma balanced_type: "balanced xs s t \<Longrightarrow> balanced xs s (snd (record_type sp (v, t)))"
  by (simp add: record_type_def balanced_def)

lemma balanced_access: "balanced xs s t \<Longrightarrow> balanced xs s (snd (record_access path sp (st, v, t)))"
  by (simp add: record_access_def balanced_def)

lemma spans_of_diagnostic:
  "spans_of c (ss_diagnostics (sem_diagnostic c' m sp s)) =
     spans_of c (ss_diagnostics s) + (if c' = c then {#sp#} else {#})"
  by (simp add: spans_of_def sem_diagnostic_def)

lemma diagnostic_keeps [simp]:
  "ss_references (sem_diagnostic c m sp s) = ss_references s"
  "ss_calls (sem_diagnostic c m sp s) = ss_calls s"
  "ss_assignments (sem_diagnostic c m sp s) = ss_assignments s"
  by (simp_all add: sem_diagnostic_def)

lemma balanced_other_diagnostic:
  assumes "balanced xs s t" "c \<notin> {''unresolved_symbol'', ''incompatible_argument'',
     ''invalid_argument_count'', ''incompatible_assignment''}"
  shows "balanced xs s (sem_diagnostic c m sp t)"
  using assms by (simp add: balanced_def spans_of_diagnostic)

lemma balanced_reference: "balanced [] s (snd (sem_reference C sp n s))"
  by (auto simp: sem_reference_def balanced_def Let_def spans_of_diagnostic unresolved_spans_def
      incompatible_bindings_def split: option.split)

lemma balanced_member: "balanced [] s (snd (snd (member_result C sp m v s)))"
  by (auto simp: member_result_def Let_def intro!: balanced_refl balanced_other_diagnostic
      split: option.split)

lemma balanced_index: "balanced [] s (snd (snd (index_result path op sp v s)))"
  by (auto simp: index_result_def intro!: balanced_refl balanced_other_diagnostic split: option.split)

lemma balanced_binding: "balanced [fst (bind_argument C sp v p a s)] s (snd (bind_argument C sp v p a s))"
  by (auto simp: bind_argument_def Let_def balanced_def spans_of_diagnostic incompatible_bindings_def)


text \<open>The recording of a call settles its bindings and its signature.\<close>

lemma record_call_facts:
  "ss_diagnostics (record_call c s) = ss_diagnostics s"
  "ss_references (record_call c s) = ss_references s"
  "ss_assignments (record_call c s) = ss_assignments s"
  "incompatible_arguments (ss_calls (record_call c s)) =
     incompatible_arguments (ss_calls s) + incompatible_bindings (sc_bindings c)"
  "invalid_counts (ss_calls (record_call c s)) =
     invalid_counts (ss_calls s) + (if sc_signature_valid c = Some False then {#sc_span c#} else {#})"
  by (simp_all add: record_call_def fact_defs)

lemma balanced_valid_call:
  assumes "balanced bs s t" "sc_bindings c = bs" "sc_signature_valid c \<noteq> Some False"
  shows "balanced [] s (record_call c t)"
  using assms by (simp add: balanced_def record_call_facts incompatible_bindings_def ac_simps)

lemma balanced_invalid_call:
  assumes "balanced bs (sem_diagnostic ''invalid_argument_count'' m sp s) t"
    and "sc_bindings c = bs" "sc_signature_valid c = Some False" "sc_span c = sp"
  shows "balanced [] s (record_call c t)"
  using assms by (simp add: balanced_def record_call_facts spans_of_diagnostic incompatible_bindings_def ac_simps)

lemma make_call_rule:
  "rule_of C (expression_name callee) = Some r \<Longrightarrow>
     sc_bindings (make_call C sp callee k v bs) = bs \<and>
     sc_signature_valid (make_call C sp callee k v bs) = v"
  "rule_of C (expression_name callee) = None \<Longrightarrow>
     sc_bindings (make_call C sp callee k v bs) = [] \<and>
     sc_signature_valid (make_call C sp callee k v bs) = None"
  "sc_span (make_call C sp callee k v bs) = sp"
  by (simp_all add: make_call_def Let_def split: option.split)

lemma validate_signature_state:
  "snd (validate_signature sp k r s) =
     (if fst (validate_signature sp k r s) = Some False
      then sem_diagnostic ''invalid_argument_count'' (argument_count_message r k) sp s else s)"
  by (auto simp: validate_signature_def Let_def)

lemma balanced_call:
  assumes sig: "(valid, s1) = (case rule of None \<Rightarrow> (None, s) | Some r \<Rightarrow> validate_signature sp (length args) r s)"
    and rule: "rule = rule_of C (expression_name callee)"
    and bound: "balanced bs s1 s2" "rule = None \<Longrightarrow> bs = []"
  shows "balanced [] s (record_call (make_call C sp callee (length args) valid bs)
     (if b then sem_diagnostic ''unknown_call'' m sp' s2 else s2))"
proof -
  let ?s3 = "if b then sem_diagnostic ''unknown_call'' m sp' s2 else s2"
  have s3: "balanced bs s1 ?s3" using bound(1) by (simp add: balanced_other_diagnostic)
  show ?thesis
  proof (cases rule)
    case None
    then show ?thesis using sig s3 bound(2) rule
      by (intro balanced_valid_call [where bs = bs]) (auto simp: make_call_rule)
  next
    case (Some r)
    then have v: "valid = fst (validate_signature sp (length args) r s)"
        "s1 = snd (validate_signature sp (length args) r s)"
      using sig by (auto simp: prod_eq_iff)
    show ?thesis
    proof (cases "valid = Some False")
      case True
      then show ?thesis using Some v s3 rule
        by (intro balanced_invalid_call [where bs = bs and sp = sp and m = "argument_count_message r (length args)"])
          (auto simp: make_call_rule validate_signature_state)
    next
      case False
      then show ?thesis using Some v s3 rule
        by (intro balanced_valid_call [where bs = bs]) (auto simp: make_call_rule validate_signature_state)
    qed
  qed
qed

lemma balanced_assignment:
  "balanced [] s (let compat = compatibility (cx_conversion_policy C) t v;
                  s3 = s\<lparr>ss_assignments := ss_assignments s @
                    [\<lparr>ac_span = sp, ac_target_type = tv_data_type t, ac_value_type = tv_data_type v,
                      ac_compatibility = compat\<rparr>]\<rparr>
              in if compat = TC_INCOMPATIBLE
                 then sem_diagnostic ''incompatible_assignment''
                        (''cannot assign '' @ repr_opt (tv_data_type v) @ '' to '' @
                         repr_opt (tv_data_type t)) sp s3
                 else s3)"
  by (simp add: Let_def balanced_def spans_of_diagnostic fact_defs sem_diagnostic_def)

interpretation accounted: analysis_relation C balanced for C
  by unfold_locales
    (assumption | rule balanced_refl balanced_trans balanced_reference balanced_member balanced_index
      balanced_binding balanced_assignment balanced_type [OF balanced_refl]
      balanced_access [OF balanced_refl] balanced_call)+

section \<open>References agree with the declarations\<close>

definition agrees :: "sem_context \<Rightarrow> symbol_reference \<Rightarrow> bool" where
  "agrees C r =
     (rf_symbol r = symbol_of C (rf_name r) \<and>
      rf_status r = (if symbol_of C (rf_name r) = None then RS_UNRESOLVED else RS_RESOLVED))"

definition references_agree :: "sem_context \<Rightarrow> sem_state \<Rightarrow> bool" where
  "references_agree C s = list_all (agrees C) (ss_references s)"

lemma references_agree_updates [simp]:
  "references_agree C (sem_diagnostic c m sp s) = references_agree C s"
  "references_agree C (snd (record_type sp (v, s))) = references_agree C s"
  "references_agree C (snd (record_access p sp (st, v, s))) = references_agree C s"
  "references_agree C (record_call k s) = references_agree C s"
  by (simp_all add: references_agree_def record_type_def record_access_def record_call_def)

lemma references_agree_reference:
  "references_agree C s \<Longrightarrow> references_agree C (snd (sem_reference C sp n s))"
  by (auto simp: sem_reference_def Let_def references_agree_def agrees_def split: option.split)

lemma references_agree_results:
  "references_agree C (snd (snd (member_result C sp m v s))) = references_agree C s"
  "references_agree C (snd (snd (index_result path op sp v s))) = references_agree C s"
  "references_agree C (snd (bind_argument C sp e p v s)) = references_agree C s"
  "references_agree C (snd (validate_signature sp k r s)) = references_agree C s"
  by (auto simp: member_result_def index_result_def bind_argument_def validate_signature_def Let_def
      split: option.split)

interpretation resolved: analysis_relation C "\<lambda>xs s t. references_agree C s \<longrightarrow> references_agree C t" for C
proof (unfold_locales, goal_cases)
  case (9 valid s1 rule sp args s callee bs s2 b m sp')
  then have "references_agree C s1 = references_agree C s"
    by (auto simp: references_agree_results prod_eq_iff split: option.splits)
  with 9 show ?case by simp
next
  case (10 s sp t v)
  show ?case by (simp add: Let_def) (simp add: references_agree_def)
qed (simp_all add: references_agree_results references_agree_reference)

section \<open>Numeric promotion\<close>

lemma numeric_order_at: "t \<in> set numeric_order \<Longrightarrow> numeric_rank t < 10 \<and> numeric_order ! numeric_rank t = t"
  by (auto simp: numeric_order_def numeric_rank_def)

lemma promote_pair:
  "promote_numeric (Some a) (Some b) =
     (if py_upper a \<in> set numeric_order \<and> py_upper b \<in> set numeric_order
      then Some (numeric_order ! max (numeric_rank (py_upper a)) (numeric_rank (py_upper b))) else None)"
  using numeric_order_at by (auto simp: promote_numeric_def max_def)

lemma numeric_order_upper: "t \<in> set numeric_order \<Longrightarrow> py_upper t = t"
proof -
  have "list_all (\<lambda>t. py_upper t = t) numeric_order" by code_simp
  then show "t \<in> set numeric_order \<Longrightarrow> py_upper t = t" by (auto simp: list_all_iff)
qed

lemma numeric_rank_at: "i < 10 \<Longrightarrow> numeric_order ! i \<in> set numeric_order \<and> numeric_rank (numeric_order ! i) = i"
proof -
  have "list_all (\<lambda>i. numeric_order ! i \<in> set numeric_order \<and> numeric_rank (numeric_order ! i) = i) [0..<10]"
    by code_simp
  then show "i < 10 \<Longrightarrow> numeric_order ! i \<in> set numeric_order \<and> numeric_rank (numeric_order ! i) = i"
    by (auto simp: list_all_iff)
qed

section \<open>Properties of the analyser\<close>

lemma analysis_accounted:
  "spans_of ''unresolved_symbol'' (sem_diagnostics (analyze_semantics d C)) =
     unresolved_spans (sem_references (analyze_semantics d C))"
  "spans_of ''incompatible_argument'' (sem_diagnostics (analyze_semantics d C)) =
     incompatible_arguments (sem_calls (analyze_semantics d C))"
  "spans_of ''invalid_argument_count'' (sem_diagnostics (analyze_semantics d C)) =
     invalid_counts (sem_calls (analyze_semantics d C))"
  "spans_of ''incompatible_assignment'' (sem_diagnostics (analyze_semantics d C)) =
     incompatible_assignments (sem_assignments (analyze_semantics d C))"
  using accounted.analysis_related [of C "doc_statements d"]
  by (simp_all add: analyze_semantics_def case_prod_beta Let_def balanced_def init_semantics_def fact_defs)

text \<open>
  Operations mirror the statements: whatever the context, the operations of an analysis
  are the target-independent forms of the document's statements, one per statement, in order,
  with the statements of branches and loop bodies as children.
\<close>

theorem operations_mirror_statements:
  "sem_operations (analyze_semantics d C) = map neutral_of (doc_statements d)"
  using sem_stmt_operation(2) [of C "doc_statements d" init_semantics]
  by (simp add: analyze_semantics_def case_prod_beta)

text \<open>
  C11. Every fact that needs review has its own diagnostic and no such diagnostic is spurious:
  with multiplicity, the places reported as unresolved symbols are those of the unresolved
  references, the places reported as incompatible arguments those of the incompatible bindings
  of the recorded calls, the wrong argument counts those of the calls with an invalid
  signature, and the incompatible assignments those of the incompatible assignment checks.
\<close>

theorem diagnostics_accounted:
  "let a = analyze_semantics d C in
     spans_of ''unresolved_symbol'' (sem_diagnostics a) = unresolved_spans (sem_references a) \<and>
     spans_of ''incompatible_argument'' (sem_diagnostics a) = incompatible_arguments (sem_calls a) \<and>
     spans_of ''invalid_argument_count'' (sem_diagnostics a) = invalid_counts (sem_calls a) \<and>
     spans_of ''incompatible_assignment'' (sem_diagnostics a) =
       incompatible_assignments (sem_assignments a)"
  by (simp add: analysis_accounted)

text \<open>
  References agree with the declarations: each recorded reference is resolved exactly
  when the context declares its name, case aside, and then carries the declaration that wins
  the lookup.
\<close>

theorem references_resolve_declarations:
  "list_all (agrees C) (sem_references (analyze_semantics d C))"
proof -
  have "references_agree C init_semantics" by (simp add: references_agree_def init_semantics_def)
  then show ?thesis
    using resolved.analysis_related [of C "doc_statements d"]
    by (simp add: analyze_semantics_def case_prod_beta references_agree_def)
qed

text \<open>A policy that allows at least the conversions of another.\<close>

definition relaxes :: "conversion_policy \<Rightarrow> conversion_policy \<Rightarrow> bool" where
  "relaxes p q =
     ((po_implicit_numeric p \<longrightarrow> po_implicit_numeric q) \<and>
      (po_bit_bool_equivalent p \<longrightarrow> po_bit_bool_equivalent q) \<and>
      (po_implicit_numeric_boolean p \<longrightarrow> po_implicit_numeric_boolean q) \<and>
      (po_string_family_compatible p \<longrightarrow> po_string_family_compatible q))"

definition convertible :: "conversion_policy \<Rightarrow> string \<Rightarrow> string \<Rightarrow> bool" where
  "convertible pol en an =
     (po_bit_bool_equivalent pol \<and> {en, an} \<subseteq> {''BIT'', ''BOOL''} \<or>
      po_implicit_numeric_boolean pol \<and> en \<in> {''BIT'', ''BOOL''} \<and> is_integer_type (Some an) \<or>
      po_string_family_compatible pol \<and> an = ''STRING'' \<and> is_string_type en \<or>
      po_implicit_numeric pol \<and> is_numeric_type (Some en) \<and> is_numeric_type (Some an))"

lemma convertible_mono: "relaxes p q \<Longrightarrow> convertible p en an \<Longrightarrow> convertible q en an"
  unfolding relaxes_def convertible_def by blast

lemma compatibility_convertible:
  "compatibility pol e a =
     (case (tv_data_type e, tv_data_type a) of
        (Some x, Some y) \<Rightarrow>
          if tv_status e \<noteq> TS_KNOWN \<or> tv_status a \<noteq> TS_KNOWN then TC_UNKNOWN
          else if \<not> dimensions_compatible (tv_dimensions e) (tv_dimensions a) (tv_generic_dimensions e)
          then TC_INCOMPATIBLE
          else if py_upper x = py_upper y then TC_EXACT
          else if convertible pol (py_upper x) (py_upper y) then TC_IMPLICIT else TC_INCOMPATIBLE
      | _ \<Rightarrow> TC_UNKNOWN)"
  unfolding compatibility_def convertible_def Let_def
  by (cases "tv_data_type e"; cases "tv_data_type a") (simp_all only: prod.case option.case if_cancel
      HOL.if_True HOL.if_False split: if_split, blast?)

text \<open>
  C15. Compatibility is monotone in the policy and exact only for equal types: a policy that
  allows more conversions keeps every verdict but that of incompatible pairs, which it may
  turn into implicit conversions, never into anything else; and the verdict is exact, under any
  policy, precisely for known values of the same type with compatible dimensions.
\<close>

theorem compatibility_monotone:
  assumes "relaxes p q"
  shows "(compatibility q e a = compatibility p e a \<or>
          compatibility p e a = TC_INCOMPATIBLE \<and> compatibility q e a = TC_IMPLICIT) \<and>
         (compatibility p e a = TC_EXACT \<longleftrightarrow>
            tv_status e = TS_KNOWN \<and> tv_status a = TS_KNOWN \<and>
            (\<exists>x y. tv_data_type e = Some x \<and> tv_data_type a = Some y \<and> py_upper x = py_upper y) \<and>
            dimensions_compatible (tv_dimensions e) (tv_dimensions a) (tv_generic_dimensions e))"
  using convertible_mono [OF assms] unfolding compatibility_convertible
  by (auto split: option.splits)

definition strict_policy :: conversion_policy where
  "strict_policy = \<lparr>po_implicit_numeric = False, po_bit_bool_equivalent = False,
     po_implicit_numeric_boolean = False, po_string_family_compatible = False\<rparr>"

lemma compatibility_monotone_witness:
  "compatibility strict_policy (known_value ''REAL'') (known_value ''DINT'') = TC_INCOMPATIBLE \<and>
   compatibility (strict_policy\<lparr>po_implicit_numeric := True\<rparr>) (known_value ''REAL'') (known_value ''DINT'') =
     TC_IMPLICIT"
proof -
  have r: "relaxes strict_policy (strict_policy\<lparr>po_implicit_numeric := True\<rparr>)" by code_simp
  have n: "compatibility strict_policy (known_value ''REAL'') (known_value ''DINT'') = TC_INCOMPATIBLE"
    "compatibility (strict_policy\<lparr>po_implicit_numeric := True\<rparr>) (known_value ''REAL'')
       (known_value ''DINT'') \<noteq> TC_INCOMPATIBLE"
    by code_simp+
  with compatibility_monotone [OF r, of "known_value ''REAL''" "known_value ''DINT''"] show ?thesis
    by auto
qed

text \<open>
  Numeric promotion is a join: it is commutative and associative, gives a type of the
  promotion order whose rank is the greater of the two operands' ranks, and fails exactly when
  an operand is no numeric type.
\<close>

theorem promotion_is_join:
  "promote_numeric x y = promote_numeric y x \<and>
   Option.bind (promote_numeric (Some a) (Some b)) (\<lambda>t. promote_numeric (Some t) (Some c)) =
     Option.bind (promote_numeric (Some b) (Some c)) (\<lambda>t. promote_numeric (Some a) (Some t)) \<and>
   promote_numeric (Some a) (Some b) =
     (if py_upper a \<in> set numeric_order \<and> py_upper b \<in> set numeric_order
      then Some (numeric_order ! max (numeric_rank (py_upper a)) (numeric_rank (py_upper b))) else None)"
proof (intro conjI)
  show "promote_numeric x y = promote_numeric y x"
    by (cases x; cases y) (simp_all add: promote_pair max.commute, simp_all add: promote_numeric_def)
next
  have at: "py_upper (numeric_order ! i) = numeric_order ! i"
    "numeric_order ! i \<in> set numeric_order" "numeric_rank (numeric_order ! i) = i" if "i < 10" for i
    using numeric_rank_at [OF that] numeric_order_upper by auto
  show "Option.bind (promote_numeric (Some a) (Some b)) (\<lambda>t. promote_numeric (Some t) (Some c)) =
     Option.bind (promote_numeric (Some b) (Some c)) (\<lambda>t. promote_numeric (Some a) (Some t))"
    using numeric_order_at [of "py_upper a"] numeric_order_at [of "py_upper b"]
      numeric_order_at [of "py_upper c"]
    by (simp add: promote_pair at max.assoc)
qed (rule promote_pair)

text \<open>A hexadecimal literal with the digit \<open>E\<close> is taken for a \<open>REAL\<close>.\<close>

lemma hexadecimal_literal_real: "literal_type ''16#FE'' = known_value ''REAL''"
  by code_simp

end
