(* ===== verification/Project_Facts.thy ===== *)
theory Project_Facts imports Project_Analysis Span_Keys Lowering_Facts Semantics_Facts begin

text \<open>
  What the reports over a project promise: every routine in Structured Text is reported once
  and in order, its text is preserved and its statements are counted; both reports see the
  same documents; the totals of the semantic report classify every recorded fact; and a project
  whose reports show no defect is lowered without failure.
\<close>

section \<open>The routines of a project\<close>

definition st_routines :: "string \<Rightarrow> routine list \<Rightarrow> (string \<times> routine) list" where
  "st_routines owner rs = map (Pair owner) (filter is_structured_text rs)"

text \<open>In the order of the reports.\<close>

definition reported_routines :: "'v controller \<Rightarrow> (string \<times> routine) list" where
  "reported_routines c =
     concat (map (\<lambda>a. st_routines (aoi_owner a) (by_name ru_name (iter_aoi_routines a)))
       (by_name ao_name (ct_add_on_instructions c))) @
     concat (map (\<lambda>p. st_routines (program_owner p) (by_name ru_name (pg_routines p)))
       (by_name pg_name (ct_programs c)))"

text \<open>As they are captured.\<close>

definition captured_routines :: "'v controller \<Rightarrow> (string \<times> routine) list" where
  "captured_routines c =
     concat (map (\<lambda>a. st_routines (aoi_owner a) (iter_aoi_routines a)) (ct_add_on_instructions c)) @
     concat (map (\<lambda>p. st_routines (program_owner p) (pg_routines p)) (ct_programs c))"

definition document_of :: "routine \<Rightarrow> st_document" where
  "document_of r = the (parse_structured_text (structured_text r))"

lemma parse_returns: "parse_structured_text src \<noteq> None"
  by (rule parse_outcome [of src]) simp

lemma document_of: "parse_structured_text (structured_text r) = Some (document_of r)"
  using parse_returns [of "structured_text r"] by (auto simp: document_of_def)

lemma document_of_source: "doc_source (document_of r) = structured_text r"
  by (rule parse_outcome [of "structured_text r"]) (use document_of [of r] in simp)

lemma document_of_tokens: "doc_tokens (document_of r) = fst (lex_structured_text (structured_text r))"
  by (rule parse_outcome [of "structured_text r"]) (use document_of [of r] in simp)

lemma parsed_routines_eq:
  "parsed_routines f rs = Some (map (\<lambda>r. f r (document_of r)) (filter is_structured_text rs))"
  by (induction rs) (simp_all add: document_of)

lemma owner_findings_eq:
  "owner_findings routines f xs =
     Some (concat (map (\<lambda>x. map (\<lambda>r. f x r (document_of r))
       (filter is_structured_text (by_name ru_name (routines x)))) xs))"
  by (induction xs) (simp_all add: parsed_routines_eq)

text \<open>A walk in which the owner enters only by its name.\<close>

lemma project_findings_eq:
  "project_findings f g c =
     Some (concat (map (\<lambda>a. map (\<lambda>r. f a r (document_of r))
             (filter is_structured_text (by_name ru_name (iter_aoi_routines a))))
             (by_name ao_name (ct_add_on_instructions c))) @
           concat (map (\<lambda>p. map (\<lambda>r. g p r (document_of r))
             (filter is_structured_text (by_name ru_name (pg_routines p))))
             (by_name pg_name (ct_programs c))))"
  by (simp add: project_findings_def owner_findings_eq)

lemma project_findings_named:
  "project_findings (\<lambda>a. h (aoi_owner a)) (\<lambda>p. h (program_owner p)) c =
     Some (map (\<lambda>(o', r). h o' r (document_of r)) (reported_routines c))"
  by (simp add: project_findings_eq reported_routines_def st_routines_def map_concat comp_def)

lemma mset_by_name: "mset (by_name name xs) = mset xs"
  by (simp add: by_name_def)

lemma mset_concat_map_cong:
  "mset xs = mset ys \<Longrightarrow> (\<And>x. mset (f x) = mset (g x)) \<Longrightarrow> mset (concat (map f xs)) = mset (concat (map g ys))"
proof -
  assume xs: "mset xs = mset ys" and fg: "\<And>x. mset (f x) = mset (g x)"
  have "mset (concat (map f xs)) = \<Sum>\<^sub># (image_mset (mset \<circ> f) (mset xs))"
    by (induction xs) simp_all
  also have "\<dots> = \<Sum>\<^sub># (image_mset (mset \<circ> g) (mset ys))"
    using fg by (simp add: xs comp_def)
  also have "\<dots> = mset (concat (map g ys))"
    by (induction ys) simp_all
  finally show ?thesis .
qed

lemma mset_st_routines: "mset (st_routines owner (by_name ru_name rs)) = mset (st_routines owner rs)"
  by (simp add: st_routines_def mset_filter mset_by_name)

lemma mset_reported: "mset (reported_routines c) = mset (captured_routines c)"
  unfolding reported_routines_def captured_routines_def mset_append
  by (intro arg_cong2 [where f = "(+)"] mset_concat_map_cong mset_by_name mset_st_routines)

section \<open>Statement counts\<close>

text \<open>All statements of a tree, each before the statements inside it.\<close>

fun all_statements :: "stmt \<Rightarrow> stmt list" and branch_statements :: "if_branch \<Rightarrow> stmt list" where
  "all_statements (IfStatement sp bs es) =
     IfStatement sp bs es # concat (map branch_statements bs) @ concat (map all_statements es)"
| "all_statements (WhileStatement sp c body) =
     WhileStatement sp c body # concat (map all_statements body)"
| "all_statements st = [st]"
| "branch_statements (IfBranch sp c body) = concat (map all_statements body)"

fun is_unsupported_statement :: "stmt \<Rightarrow> bool" where
  "is_unsupported_statement (UnsupportedStatement sp t) = True"
| "is_unsupported_statement st = False"

definition statements_of :: "st_document \<Rightarrow> stmt list" where
  "statements_of d = concat (map all_statements (doc_statements d))"

definition counts_of :: "stmt list \<Rightarrow> nat \<times> nat" where
  "counts_of sts = (length sts, length (filter is_unsupported_statement sts))"

lemma counts_of_simps [simp]:
  "counts_of [] = (0, 0)"
  "counts_of (xs @ ys) = add_counts (counts_of xs) (counts_of ys)"
  "counts_of (st # sts) = add_counts (1, if is_unsupported_statement st then 1 else 0) (counts_of sts)"
  by (simp_all add: counts_of_def add_counts_def)

lemma count_stmt_eq:
  "count_stmt st = counts_of (all_statements st)"
  "count_stmts sts = counts_of (concat (map all_statements sts))"
  "count_branches bs = counts_of (concat (map branch_statements bs))"
  by (induction st and sts and bs rule: count_stmt_count_stmts_count_branches.induct)
    (simp_all add: add_counts_def)

lemma understood_supported:
  "understood st \<Longrightarrow> filter is_unsupported_statement (all_statements st) = []"
  "understood_branch b \<Longrightarrow> filter is_unsupported_statement (branch_statements b) = []"
  by (induction st and b) (auto simp: list_all_iff filter_empty_conv filter_concat comp_def)

lemma clean_document:
  assumes "parse_structured_text src = Some d" "doc_diagnostics d = []"
  shows "list_all understood (doc_statements d)" "distinct (map expr_span (document_nodes d))"
proof -
  have "list_all understood (doc_statements d) \<and> distinct (map expr_span (document_nodes d))"
  proof (rule parse_outcome [of src])
    fix statements s
    assume d: "parse_structured_text src =
        Some \<lparr>doc_source = src, doc_tokens = fst (lex_structured_text src),
              doc_statements = statements, doc_diagnostics = ps_diagnostics s\<rparr>"
      and p: "stmts_post (lexed_env src)
        \<lparr>ps_position = 0, ps_diagnostics = snd (lex_structured_text src)\<rparr> (statements, s)"
    have "ps_diagnostics s = []" using assms d by auto
    from clean_statements [OF p this] d assms(1) statements_distinct show ?thesis
      by (simp add: document_nodes_def)
  qed
  then show "list_all understood (doc_statements d)" "distinct (map expr_span (document_nodes d))"
    by simp_all
qed

lemma unsupported_diagnosed:
  assumes "parse_structured_text src = Some d" "doc_diagnostics d = []"
  shows "snd (count_stmts (doc_statements d)) = 0"
  using clean_document(1) [OF assms] understood_supported(1)
  by (auto simp: count_stmt_eq counts_of_def list_all_iff filter_concat)

text \<open>
  C7. The parse report covers the project: for every controller the analysis returns, its
  findings are the routines in Structured Text of all Add-On Instructions and programs, each
  once, with the documents of their texts; every source is preserved; the totals count all
  statements of these documents at any depth and the unsupported ones among them, and a routine
  with an unsupported statement has a diagnostic.
\<close>

theorem project_reported:
  "\<exists>rep. analyze_structured_text c = Some rep \<and>
     map (\<lambda>f. (pf_owner f, pf_routine f, pf_document f)) (pr_routines rep) =
       map (\<lambda>(owner, r). (owner, ru_name r, document_of r)) (reported_routines c) \<and>
     mset (reported_routines c) = mset (captured_routines c) \<and>
     all_source_preserved rep \<and>
     (total_statements rep, unsupported_statements rep) =
       counts_of (concat (map (\<lambda>(owner, r). statements_of (document_of r)) (reported_routines c))) \<and>
     list_all (\<lambda>f. pf_unsupported_count f = 0 \<or> 0 < length (doc_diagnostics (pf_document f))) (pr_routines rep)"
proof -
  let ?fs = "map (\<lambda>(owner, r). parse_finding_of owner r (document_of r)) (reported_routines c)"
  let ?rep = "\<lparr>pr_controller_name = ct_name c, pr_routines = ?fs\<rparr>"
  have rep: "analyze_structured_text c = Some ?rep"
    using project_findings_named [of parse_finding_of c] by (simp add: analyze_structured_text_def)
  have preserved: "source_preserved (parse_finding_of owner r (document_of r))" for owner r
    by (simp add: source_preserved_def parse_finding_of_def case_prod_beta reconstructed_source_def
        document_of_tokens document_of_source lexed_source)
  note diagnosed = unsupported_diagnosed [OF document_of]
  have totals: "(sum_list (map (pf_statement_count \<circ> (\<lambda>(owner, r). parse_finding_of owner r (document_of r))) rs),
       sum_list (map (pf_unsupported_count \<circ> (\<lambda>(owner, r). parse_finding_of owner r (document_of r))) rs)) =
      counts_of (concat (map (\<lambda>(owner, r). statements_of (document_of r)) rs))" for rs
    by (induction rs)
      (auto simp: parse_finding_of_def case_prod_beta count_stmt_eq statements_of_def counts_of_def
        simp del: counts_of_simps)
  have counted: "(total_statements ?rep, unsupported_statements ?rep) =
      counts_of (concat (map (\<lambda>(owner, r). statements_of (document_of r)) (reported_routines c)))"
    using totals by (simp add: total_statements_def unsupported_statements_def)
  have findings: "pf_owner (parse_finding_of owner r d) = owner" "pf_routine (parse_finding_of owner r d) = ru_name r"
    "pf_document (parse_finding_of owner r d) = d"
    "pf_unsupported_count (parse_finding_of owner r d) = snd (count_stmts (doc_statements d))" for owner r d
    by (simp_all add: parse_finding_of_def case_prod_beta)
  show ?thesis
    using rep preserved mset_reported [of c] counted
    by (intro exI [of _ ?rep]) (auto simp: all_source_preserved_def list_all_iff findings diagnosed)
qed

section \<open>The semantic report\<close>

definition report_diagnostics :: "string \<Rightarrow> semantic_report \<Rightarrow> nat" where
  "report_diagnostics code' rep =
     report_total (\<lambda>f. count_if (\<lambda>d. sd_code d = code') (sem_diagnostics (sf_semantics f))) rep"

lemma report_total_add: "report_total f rep + report_total g rep = report_total (\<lambda>x. f x + g x) rep"
  by (simp add: report_total_def sum_list_addf)

lemma report_total_cong:
  "(\<And>f. f \<in> set (sp_routines rep) \<Longrightarrow> g f = h f) \<Longrightarrow> report_total g rep = report_total h rep"
  by (simp add: report_total_def cong: map_cong)

lemma count_if_append [simp]: "count_if P (xs @ ys) = count_if P xs + count_if P ys"
  by (simp add: count_if_def)

lemma count_if_split:
  "count_if (\<lambda>x. h x = RS_RESOLVED) rs + count_if (\<lambda>x. h x = RS_UNRESOLVED) rs = length rs"
  "count_if (\<lambda>x. k x = AS_RESOLVED) as + count_if (\<lambda>x. k x = AS_UNVERIFIED) as +
     count_if (\<lambda>x. k x = AS_INVALID) as = length as"
  "count_if (\<lambda>x. c x = TC_EXACT) xs + count_if (\<lambda>x. c x = TC_IMPLICIT) xs +
     count_if (\<lambda>x. c x = TC_UNKNOWN) xs + count_if (\<lambda>x. c x = TC_INCOMPATIBLE) xs = length xs"
proof -
  show "count_if (\<lambda>x. h x = RS_RESOLVED) rs + count_if (\<lambda>x. h x = RS_UNRESOLVED) rs = length rs"
    by (induction rs) (auto simp: count_if_def intro: reference_status.exhaust)
  show "count_if (\<lambda>x. k x = AS_RESOLVED) as + count_if (\<lambda>x. k x = AS_UNVERIFIED) as +
     count_if (\<lambda>x. k x = AS_INVALID) as = length as"
  proof (induction as)
    case (Cons a as)
    then show ?case by (cases "k a") (auto simp: count_if_def)
  qed (simp add: count_if_def)
  show "count_if (\<lambda>x. c x = TC_EXACT) xs + count_if (\<lambda>x. c x = TC_IMPLICIT) xs +
     count_if (\<lambda>x. c x = TC_UNKNOWN) xs + count_if (\<lambda>x. c x = TC_INCOMPATIBLE) xs = length xs"
  proof (induction xs)
    case (Cons a xs)
    then show ?case by (cases "c a") (auto simp: count_if_def)
  qed (simp add: count_if_def)
qed

lemma size_spans_of: "size (spans_of code' ds) = count_if (\<lambda>d. sd_code d = code') ds"
  by (simp add: spans_of_def count_if_def del: mset_filter)

text \<open>The counters of a finding and the diagnostics that go with them.\<close>

lemma finding_diagnostics:
  defines "n \<equiv> \<lambda>code' f. count_if (\<lambda>d. sd_code d = code') (sem_diagnostics (sf_semantics f))"
  assumes "\<exists>C owner r d. f = semantic_finding_of C owner r d"
  shows "finding_references RS_UNRESOLVED f = n ''unresolved_symbol'' f"
    and "finding_arguments TC_INCOMPATIBLE f = n ''incompatible_argument'' f"
    and "count_if (\<lambda>k. sc_signature_valid k = Some False) (sem_calls (sf_semantics f)) =
      n ''invalid_argument_count'' f"
    and "finding_assignments TC_INCOMPATIBLE f = n ''incompatible_assignment'' f"
proof -
  obtain C owner r d where f: "f = semantic_finding_of C owner r d" using assms(2) by blast
  show "finding_references RS_UNRESOLVED f = n ''unresolved_symbol'' f"
    "finding_arguments TC_INCOMPATIBLE f = n ''incompatible_argument'' f"
    "count_if (\<lambda>k. sc_signature_valid k = Some False) (sem_calls (sf_semantics f)) =
      n ''invalid_argument_count'' f"
    "finding_assignments TC_INCOMPATIBLE f = n ''incompatible_assignment'' f"
    using analysis_accounted [of d C, THEN arg_cong [where f = size]]
    by (simp_all add: f assms(1) semantic_finding_of_def size_spans_of finding_references_def
        finding_arguments_def finding_assignments_def unresolved_spans_def incompatible_bindings_def
        incompatible_arguments_def invalid_counts_def incompatible_assignments_def count_if_def
        del: mset_filter)
qed

lemma report_classified:
  "report_total (finding_references RS_RESOLVED) rep + report_total (finding_references RS_UNRESOLVED) rep =
     report_total (\<lambda>f. length (sem_references (sf_semantics f))) rep"
  "report_total (finding_accesses AS_RESOLVED) rep + report_total (finding_accesses AS_UNVERIFIED) rep +
     report_total (finding_accesses AS_INVALID) rep =
     report_total (\<lambda>f. length (sem_accesses (sf_semantics f))) rep"
  "(\<Sum>k\<leftarrow>[TC_EXACT, TC_IMPLICIT, TC_UNKNOWN, TC_INCOMPATIBLE]. report_total (finding_assignments k) rep) =
     report_total (\<lambda>f. length (sem_assignments (sf_semantics f))) rep"
  "(\<Sum>k\<leftarrow>[TC_EXACT, TC_IMPLICIT, TC_UNKNOWN, TC_INCOMPATIBLE]. report_total (finding_arguments k) rep) =
     report_total (\<lambda>f. length (concat (map sc_bindings (sem_calls (sf_semantics f))))) rep"
  by (simp_all add: report_total_add count_if_split finding_references_def finding_accesses_def
      finding_assignments_def finding_arguments_def add.assoc [symmetric] del: length_concat)

lemma semantic_findings:
  obtains fs where
    "analyze_structured_text_semantics c = Some \<lparr>sp_controller_name = ct_name c, sp_routines = fs\<rparr>"
    "map (\<lambda>f. (sf_owner f, sf_routine f, sem_document (sf_semantics f))) fs =
       map (\<lambda>(owner, r). (owner, ru_name r, document_of r)) (reported_routines c)"
    "\<forall>f\<in>set fs. \<exists>C owner r d. f = semantic_finding_of C owner r d"
proof -
  have doc: "sem_document (analyze_semantics d C) = d" for d C
    by (simp add: analyze_semantics_def case_prod_beta)
  let ?fs = "the (project_findings (\<lambda>a. semantic_finding_of (aoi_context c a) (aoi_owner a))
            (\<lambda>p. semantic_finding_of (program_context c p) (program_owner p)) c)"
  show ?thesis
    by (rule that [of ?fs])
      (auto simp: analyze_structured_text_semantics_def project_findings_eq semantic_finding_of_def doc
        reported_routines_def st_routines_def map_concat comp_def)
qed

text \<open>
  C8. The semantic report agrees with the parse report and with itself: for every controller the
  analysis returns with one finding per reported routine, over the same document; its totals
  classify every recorded reference, access, assignment and bound argument once; and the
  defects it counts are the diagnostics of the findings, code by code.
\<close>

theorem project_resolved:
  "\<exists>rep. analyze_structured_text_semantics c = Some rep \<and>
     map (\<lambda>f. (sf_owner f, sf_routine f, sem_document (sf_semantics f))) (sp_routines rep) =
       map (\<lambda>(owner, r). (owner, ru_name r, document_of r)) (reported_routines c) \<and>
     report_total (finding_references RS_RESOLVED) rep + report_total (finding_references RS_UNRESOLVED) rep =
       report_total (\<lambda>f. length (sem_references (sf_semantics f))) rep \<and>
     report_total (finding_accesses AS_RESOLVED) rep + report_total (finding_accesses AS_UNVERIFIED) rep +
       report_total (finding_accesses AS_INVALID) rep =
       report_total (\<lambda>f. length (sem_accesses (sf_semantics f))) rep \<and>
     (\<Sum>k\<leftarrow>[TC_EXACT, TC_IMPLICIT, TC_UNKNOWN, TC_INCOMPATIBLE]. report_total (finding_assignments k) rep) =
       report_total (\<lambda>f. length (sem_assignments (sf_semantics f))) rep \<and>
     (\<Sum>k\<leftarrow>[TC_EXACT, TC_IMPLICIT, TC_UNKNOWN, TC_INCOMPATIBLE]. report_total (finding_arguments k) rep) =
       report_total (\<lambda>f. length (concat (map sc_bindings (sem_calls (sf_semantics f))))) rep \<and>
     report_total (finding_references RS_UNRESOLVED) rep = report_diagnostics ''unresolved_symbol'' rep \<and>
     report_total (finding_arguments TC_INCOMPATIBLE) rep = report_diagnostics ''incompatible_argument'' rep \<and>
     invalid_signatures rep = report_diagnostics ''invalid_argument_count'' rep \<and>
     report_total (finding_assignments TC_INCOMPATIBLE) rep = report_diagnostics ''incompatible_assignment'' rep"
proof -
  obtain fs where fs: "analyze_structured_text_semantics c = Some \<lparr>sp_controller_name = ct_name c, sp_routines = fs\<rparr>"
      "map (\<lambda>f. (sf_owner f, sf_routine f, sem_document (sf_semantics f))) fs =
         map (\<lambda>(owner, r). (owner, ru_name r, document_of r)) (reported_routines c)"
      "\<forall>f\<in>set fs. \<exists>C owner r d. f = semantic_finding_of C owner r d"
    by (rule semantic_findings)
  let ?rep = "\<lparr>sp_controller_name = ct_name c, sp_routines = fs\<rparr>"
  have diags: "report_total (finding_references RS_UNRESOLVED) ?rep = report_diagnostics ''unresolved_symbol'' ?rep"
    "report_total (finding_arguments TC_INCOMPATIBLE) ?rep = report_diagnostics ''incompatible_argument'' ?rep"
    "invalid_signatures ?rep = report_diagnostics ''invalid_argument_count'' ?rep"
    "report_total (finding_assignments TC_INCOMPATIBLE) ?rep = report_diagnostics ''incompatible_assignment'' ?rep"
    unfolding report_diagnostics_def invalid_signatures_def
    using fs(3) by (intro report_total_cong finding_diagnostics; simp)+
  show ?thesis
    using fs(1,2) diags by (intro exI [of _ ?rep] conjI report_classified) simp_all
qed

end
