(* ===== verification/Project_Lowering.thy ===== *)
theory Project_Lowering imports Project_Facts begin

text \<open>
  From the reports to the lowering: the calls recorded for a document are those of its call
  expressions, so in a document without diagnostics the lowering finds for each call the fact
  recorded for that very call; and a project without invalid signatures is lowered whole.
\<close>

section \<open>Recorded calls and call expressions\<close>

definition signature_validity :: "sem_context \<Rightarrow> expr \<Rightarrow> nat \<Rightarrow> bool option" where
  "signature_validity C callee given =
     (case rule_of C (expression_name callee) of None \<Rightarrow> None
      | Some r \<Rightarrow> fst (validate_signature (SourceSpan 0 0) given r init_semantics))"

text \<open>The facts that may be recorded for the call expressions among some nodes.\<close>

fun call_facts_at :: "sem_context \<Rightarrow> expr \<Rightarrow> semantic_call set" where
  "call_facts_at C (CallExpression sp callee args) =
     range (make_call C sp callee (length args) (signature_validity C callee (length args)))"
| "call_facts_at C e = {}"

definition call_facts :: "sem_context \<Rightarrow> expr list \<Rightarrow> semantic_call set" where
  "call_facts C es = (\<Union>e\<in>set es. call_facts_at C e)"

lemma call_facts_simps [simp]:
  "call_facts C [] = {}"
  "call_facts C (es @ fs) = call_facts C es \<union> call_facts C fs"
  "call_facts C (e # es) = call_facts_at C e \<union> call_facts C es"
  by (simp_all add: call_facts_def)

lemma call_facts_mono: "set es \<subseteq> set fs \<Longrightarrow> call_facts C es \<subseteq> call_facts C fs"
  by (auto simp: call_facts_def)

lemma calls_unchanged:
  "ss_calls (snd (record_type sp r)) = ss_calls (snd r)"
  "ss_calls (snd (sem_reference C sp n s)) = ss_calls s"
  "ss_calls (snd (record_access path sp a)) = ss_calls (snd (snd a))"
  "ss_calls (snd (snd (member_result C sp m v s))) = ss_calls s"
  "ss_calls (snd (snd (index_result path op sp v s))) = ss_calls s"
  "ss_calls (snd (bind_argument C sp e p v s)) = ss_calls s"
  "ss_calls (snd (validate_signature sp k rule s)) = ss_calls s"
  "ss_calls (sem_diagnostic c m sp s) = ss_calls s"
  by (auto simp: record_type_def sem_reference_def record_access_def member_result_def index_result_def
      bind_argument_def validate_signature_def sem_diagnostic_def Let_def case_prod_beta
      split: option.split)

lemma validity_state: "fst (validate_signature sp k rule s) = fst (validate_signature sp' k rule s')"
  by (simp add: validate_signature_def Let_def)

definition adds_calls :: "sem_context \<Rightarrow> expr list \<Rightarrow> sem_state \<Rightarrow> sem_state \<Rightarrow> bool" where
  "adds_calls C es s t \<longleftrightarrow> set (ss_calls t) \<subseteq> set (ss_calls s) \<union> call_facts C es"

lemma adds_calls_trans: "adds_calls C es s t \<Longrightarrow> adds_calls C fs t u \<Longrightarrow> adds_calls C (es @ fs) s u"
  by (auto simp: adds_calls_def)

lemma adds_calls_mono: "adds_calls C es s t \<Longrightarrow> set es \<subseteq> set fs \<Longrightarrow> adds_calls C fs s t"
  using call_facts_mono [of es fs C] by (auto simp: adds_calls_def)

lemma adds_calls_same: "ss_calls t = ss_calls s \<Longrightarrow> adds_calls C es s t"
  by (simp add: adds_calls_def)

lemma adds_calls_congL: "ss_calls s = ss_calls s' \<Longrightarrow> adds_calls C es s t = adds_calls C es s' t"
  by (simp add: adds_calls_def)

lemma adds_calls_congR: "ss_calls t = ss_calls t' \<Longrightarrow> adds_calls C es s t = adds_calls C es s t'"
  by (simp add: adds_calls_def)

lemma sem_bound_calls:
  "(\<And>a s. a \<in> set args \<Longrightarrow> adds_calls C (arg_nodes a) s (snd (sem_expr C (arg_value a) s))) \<Longrightarrow>
     adds_calls C (concat (map arg_nodes args)) s (snd (sem_bound C args ps s))"
proof (induction args arbitrary: ps s)
  case (Cons a args)
  obtain sp v nm d where a: "a = CallArgument sp v nm d" by (cases a)
  show ?case
  proof (cases ps)
    case Nil
    then show ?thesis by (simp add: adds_calls_same)
  next
    case (Cons p ps')
    let ?s1 = "snd (sem_expr C v s)"
    let ?s2 = "snd (bind_argument C sp v p (fst (sem_expr C v s)) ?s1)"
    have "adds_calls C (arg_nodes a) s ?s1" using Cons.prems [of a s] a by simp
    then have "adds_calls C (arg_nodes a) s ?s2" by (simp add: adds_calls_def calls_unchanged)
    moreover have "adds_calls C (concat (map arg_nodes args)) ?s2 (snd (sem_bound C args ps' ?s2))"
      using Cons.prems by (intro Cons.IH) auto
    ultimately show ?thesis
      using Cons a by (auto simp: case_prod_beta dest: adds_calls_trans)
  qed
qed (simp add: adds_calls_same)

lemma sem_rest_calls:
  "(\<And>a s. a \<in> set args \<Longrightarrow> adds_calls C (arg_nodes a) s (snd (sem_expr C (arg_value a) s))) \<Longrightarrow>
     adds_calls C (concat (map arg_nodes args)) s (snd (sem_rest C opaque k i args s))"
proof (induction args arbitrary: i s)
  case (Cons a args)
  obtain sp v nm d where a: "a = CallArgument sp v nm d" by (cases a)
  have IH: "adds_calls C (concat (map arg_nodes args)) t (snd (sem_rest C opaque k j args t))" for t j
    using Cons.prems by (intro Cons.IH) auto
  have "adds_calls C (arg_nodes a) s (snd (sem_expr C v s))" using Cons.prems [of a s] a by simp
  then show ?case using a adds_calls_trans [OF _ IH] adds_calls_mono [OF IH]
    by (auto simp: case_prod_beta)
qed (simp add: adds_calls_same)

lemma sem_indices_calls:
  "(\<And>e s. e \<in> set is \<Longrightarrow> adds_calls C (nodes e) s (snd (sem_expr C e s))) \<Longrightarrow>
     adds_calls C (concat (map nodes is)) s (sem_indices C is s)"
  by (induction "is" arbitrary: s) (auto intro: adds_calls_same adds_calls_trans)

lemma sem_expr_calls:
  "adds_calls C (nodes e) s (snd (sem_expr C e s))"
  "adds_calls C (arg_nodes a) s (snd (sem_expr C (arg_value a) s))"
proof (induction e and a arbitrary: s and s)
  case (UnaryExpression sp op e)
  then show ?case by (auto simp: adds_calls_def calls_unchanged)
next
  case (BinaryExpression sp l op r)
  have "adds_calls C (nodes l @ nodes r) s (snd (sem_expr C r (snd (sem_expr C l s))))"
    by (rule adds_calls_trans) (rule BinaryExpression.IH)+
  then show ?case by (auto simp: adds_calls_def calls_unchanged case_prod_beta)
next
  case (MemberExpression sp t m)
  then show ?case by (auto simp: adds_calls_def calls_unchanged case_prod_beta)
next
  case (IndexExpression sp t "is" op)
  let ?path = "expression_name (IndexExpression sp t is op)"
  let ?r = "record_access ?path sp (index_result ?path op sp (fst (sem_expr C t s)) (snd (sem_expr C t s)))"
  have "adds_calls C (nodes t) s (snd ?r)"
    using IndexExpression.IH(1) [of s] by (simp add: adds_calls_def calls_unchanged)
  moreover have "adds_calls C (concat (map nodes is)) (snd ?r) (sem_indices C is (snd ?r))"
    by (intro sem_indices_calls IndexExpression.IH(2))
  ultimately have "adds_calls C (nodes t @ concat (map nodes is)) s (sem_indices C is (snd ?r))"
    by (rule adds_calls_trans)
  then show ?case
    by (auto simp: adds_calls_def calls_unchanged case_prod_beta Let_def simp del: expression_name.simps)
next
  case (ParenthesizedExpression sp e)
  then show ?case by (auto simp: adds_calls_def calls_unchanged)
next
  case (CallExpression sp callee args)
  define rule where "rule = rule_of C (expression_name callee)"
  define p where "p = (case rule of None \<Rightarrow> (None, s) | Some r \<Rightarrow> validate_signature sp (length args) r s)"
  define b where "b = sem_bound C args (case rule of None \<Rightarrow> [] | Some r \<Rightarrow> contracts r) (snd p)"
  define call where "call = make_call C sp callee (length args) (fst p) (fst b)"
  define s3 where "s3 = (if rule = None \<and> sc_kind call = CK_UNKNOWN
                then sem_diagnostic ''unknown_call''
                       (''call '' @ py_repr (expression_name callee) @ '' has no declared semantic rule'')
                       (expr_span callee) (snd b)
                else snd b)"
  define s5 where "s5 = (case callee of NameExpression nsp n \<Rightarrow> record_call call s3
                 | _ \<Rightarrow> snd (sem_expr C callee (record_call call s3)))"
  have p: "ss_calls (snd p) = ss_calls s" "fst p = signature_validity C callee (length args)"
    by (auto simp: p_def rule_def signature_validity_def calls_unchanged intro: validity_state
        split: option.split)
  have "adds_calls C (concat (map arg_nodes args)) (snd p) (snd b)"
    unfolding b_def by (intro sem_bound_calls CallExpression.IH(2))
  then have "adds_calls C (concat (map arg_nodes args)) s (snd b)"
    using p(1) by (simp add: adds_calls_def)
  then have "adds_calls C (CallExpression sp callee args # concat (map arg_nodes args)) s (record_call call s3)"
    using p(2) by (auto simp: s3_def call_def adds_calls_def calls_unchanged record_call_def)
  moreover have "adds_calls C (nodes callee) (record_call call s3) s5"
    using CallExpression.IH(1) [of "record_call call s3"]
    by (auto simp: s5_def adds_calls_same split: expr.split)
  ultimately have "adds_calls C (nodes (CallExpression sp callee args)) s s5"
    by (auto dest: adds_calls_trans intro: adds_calls_mono)
  moreover have "adds_calls C (concat (map arg_nodes args)) s5 (snd (sem_rest C opaque k 0 args s5))" for opaque k
    by (intro sem_rest_calls CallExpression.IH(2))
  ultimately have "adds_calls C (nodes (CallExpression sp callee args)) s (snd (sem_rest C opaque k 0 args s5))" for opaque k
    by (auto simp: adds_calls_def)
  moreover have "sem_expr C (CallExpression sp callee args) s =
      (let r = sem_rest C (case rule of None \<Rightarrow> {} | Some r \<Rightarrow> cr_opaque_argument_indices r)
                 (length (sc_bindings call)) 0 args s5
       in record_type sp (call_result rule (fst r), snd r))"
    unfolding sem_expr.simps Let_def case_prod_beta rule_def [symmetric] p_def [symmetric] b_def [symmetric]
      call_def [symmetric] s3_def [symmetric] s5_def [symmetric] by (rule refl)
  ultimately show ?case by (simp add: Let_def adds_calls_def calls_unchanged)
next
  case (CallArgument sp v nm d)
  then show ?case by simp
qed (auto simp: adds_calls_def calls_unchanged)

lemma sem_stmts_calls:
  "(\<And>st s. st \<in> set sts \<Longrightarrow> adds_calls C (stmt_nodes st) s (snd (sem_stmt C st s))) \<Longrightarrow>
     adds_calls C (concat (map stmt_nodes sts)) s (snd (sem_stmts C sts s))"
proof (induction sts arbitrary: s)
  case (Cons st sts)
  have "adds_calls C (concat (map stmt_nodes sts)) t (snd (sem_stmts C sts t))" for t
    using Cons.prems by (intro Cons.IH) auto
  with Cons.prems [of st s] show ?case by (auto simp: case_prod_beta dest: adds_calls_trans)
qed (simp add: adds_calls_same)

lemma sem_branches_calls:
  "(\<And>b s. b \<in> set bs \<Longrightarrow> adds_calls C (branch_nodes b) s (snd (sem_branches C [b] s))) \<Longrightarrow>
     adds_calls C (concat (map branch_nodes bs)) s (snd (sem_branches C bs s))"
proof (induction bs arbitrary: s)
  case (Cons b bs)
  obtain sp c body where b: "b = IfBranch sp c body" by (cases b)
  have "adds_calls C (concat (map branch_nodes bs)) t (snd (sem_branches C bs t))" for t
    using Cons.prems by (intro Cons.IH) auto
  from adds_calls_trans [OF Cons.prems [of b s] this] b show ?case by (simp add: case_prod_beta)
qed (simp add: adds_calls_same)

lemma sem_stmt_calls:
  "adds_calls C (stmt_nodes st) s (snd (sem_stmt C st s))"
  "adds_calls C (branch_nodes b) s (snd (sem_branches C [b] s))"
proof (induction st and b arbitrary: s and s)
  case (AssignmentStatement sp t op v)
  have "adds_calls C (nodes t @ nodes v) s (snd (sem_expr C v (snd (sem_expr C t s))))"
    by (rule adds_calls_trans) (rule sem_expr_calls)+
  then show ?case by (simp add: Let_def case_prod_beta adds_calls_def calls_unchanged)
next
  case (ExpressionStatement sp e)
  then show ?case by (simp add: sem_expr_calls)
next
  case (IfStatement sp bs es)
  then show ?case using adds_calls_trans [OF sem_branches_calls sem_stmts_calls]
    by (simp add: case_prod_beta)
next
  case (WhileStatement sp c body)
  then show ?case using adds_calls_trans [OF sem_expr_calls(1) sem_stmts_calls]
    by (simp add: case_prod_beta)
next
  case (IfBranch sp c body)
  then show ?case using adds_calls_trans [OF sem_expr_calls(1) sem_stmts_calls]
    by (simp add: case_prod_beta)
qed (simp_all add: adds_calls_same)

lemma recorded_calls: "set (sem_calls (analyze_semantics d C)) \<subseteq> call_facts C (document_nodes d)"
proof -
  have "adds_calls C (document_nodes d) init_semantics (snd (sem_stmts C (doc_statements d) init_semantics))"
    unfolding document_nodes_def by (intro sem_stmts_calls sem_stmt_calls)
  then show ?thesis
    by (simp add: adds_calls_def analyze_semantics_def case_prod_beta init_semantics_def)
qed

section \<open>The fact found for a call\<close>

lemma make_call_span: "k \<in> call_facts_at C e \<Longrightarrow> sc_span k = expr_span e"
  by (cases "(C, e)" rule: call_facts_at.cases) (auto simp: make_call_def Let_def split: option.split)

lemma call_found:
  assumes "distinct (map expr_span (document_nodes d))" "CallExpression sp callee args \<in> set (document_nodes d)"
    and "call_at (lowering_env_of (analyze_semantics d C)) sp = Some k"
  shows "k \<in> set (sem_calls (analyze_semantics d C)) \<and> k \<in> call_facts_at C (CallExpression sp callee args)"
proof -
  have k: "k \<in> set (sem_calls (analyze_semantics d C))" "sc_span k = sp"
    using assms(3) dict_of_Some by (fastforce simp: call_at_def lowering_env_of_def)+
  then obtain e where e: "e \<in> set (document_nodes d)" "k \<in> call_facts_at C e"
    using recorded_calls [of d C] by (auto simp: call_facts_def)
  with k(2) make_call_span have "expr_span e = expr_span (CallExpression sp callee args)" by simp
  moreover have "inj_on expr_span (set (document_nodes d))" using assms(1) by (simp add: distinct_map)
  ultimately have "e = CallExpression sp callee args" using e(1) assms(2) by (blast dest: inj_onD)
  with e(2) k(1) show ?thesis by simp
qed

text \<open>Contexts in which the rules for controller objects demand four arguments.\<close>

definition object_rules_fixed :: "sem_context \<Rightarrow> bool" where
  "object_rules_fixed C = list_all (\<lambda>r. cr_kind r \<in> {CK_CONTROLLER_OBJECT_READ, CK_CONTROLLER_OBJECT_WRITE} \<longrightarrow>
     cr_minimum_arguments r = Some 4) (cx_call_rules C)"

lemma aoi_context_fixed: "object_rules_fixed (aoi_context c a)"
  by (auto simp: object_rules_fixed_def aoi_context_def call_rules_def source_call_rules_def
      aoi_call_rule_def fixed_arguments_def call_rule_for_def Let_def list_all_iff)

lemma program_context_fixed: "object_rules_fixed (program_context c p)"
  by (auto simp: object_rules_fixed_def program_context_def call_rules_def source_call_rules_def
      aoi_call_rule_def fixed_arguments_def call_rule_for_def routine_rules_def Let_def list_all_iff)

lemma call_arguments:
  assumes "object_rules_fixed C" "k \<in> call_facts_at C (CallExpression sp callee args)"
    and "sc_kind k \<in> {CK_CONTROLLER_OBJECT_READ, CK_CONTROLLER_OBJECT_WRITE}" "sc_signature_valid k \<noteq> Some False"
  shows "4 \<le> length args"
proof (cases "rule_of C (expression_name callee)")
  case None
  then show ?thesis using assms(2,3) by (auto simp: make_call_def Let_def split: expr.splits if_splits)
next
  case (Some r)
  then have "r \<in> set (cx_call_rules C)" by (auto simp: rule_of_def dest: dict_of_Some)
  with assms Some have "cr_minimum_arguments r = Some 4"
    by (auto simp: object_rules_fixed_def list_all_iff make_call_def)
  with assms(2,4) Some show ?thesis
    by (auto simp: make_call_def signature_validity_def validate_signature_def Let_def split: if_splits option.splits)
qed

lemma complete_nodes:
  "(\<And>e. e \<in> set (stmt_nodes st) \<Longrightarrow> complete_call L e) \<Longrightarrow> complete L st"
  "(\<And>e. e \<in> set (branch_nodes b) \<Longrightarrow> complete_call L e) \<Longrightarrow> complete_branch L b"
proof (induction st and b)
  case (ExpressionStatement sp e)
  have "e \<in> set (nodes e) \<or> complete_call L e" by (cases e) (auto simp: complete_call_def)
  with ExpressionStatement show ?case by auto
qed (fastforce simp: list_all_iff)+

lemma lowering_returns:
  assumes "object_rules_fixed C" "doc_diagnostics d = []" "parse_structured_text src = Some d"
    and "\<And>k. k \<in> set (sem_calls (analyze_semantics d C)) \<Longrightarrow> sc_signature_valid k \<noteq> Some False"
  shows "\<exists>r. lower_structured_text (analyze_semantics d C) n role = Some r"
proof -
  let ?L = "lowering_env_of (analyze_semantics d C)"
  have doc: "sem_document (analyze_semantics d C) = d" by (simp add: analyze_semantics_def case_prod_beta)
  have "complete_call ?L e" if "e \<in> set (document_nodes d)" for e
  proof (cases e)
    case (CallExpression sp callee args)
    have "4 \<le> length args" if k: "call_at ?L sp = Some k"
      "sc_kind k \<in> {CK_CONTROLLER_OBJECT_READ, CK_CONTROLLER_OBJECT_WRITE}" for k
      using call_found [OF clean_document(2) [OF assms(3,2)] _ k(1)] assms(4) k(2)
        call_arguments [OF assms(1)] \<open>e \<in> set (document_nodes d)\<close> CallExpression by blast
    then show ?thesis by (auto simp: complete_call_def CallExpression split: option.split)
  qed (simp_all add: complete_call_def)
  then have "complete ?L st" if "st \<in> set (doc_statements d)" for st
    using that by (intro complete_nodes(1)) (auto simp: document_nodes_def)
  then have "list_all (complete ?L) (doc_statements d)" by (simp add: list_all_iff)
  then show ?thesis
    using lower_stmt_fails(2) [of ?L "doc_statements d" "[]"]
    by (auto simp: lower_structured_text_def doc split: Option.bind_splits)
qed

section \<open>Projects without defects\<close>

lemma report_contexts:
  assumes "analyze_structured_text_semantics c = Some rep" "f \<in> set (sp_routines rep)"
  shows "\<exists>C owner r. object_rules_fixed C \<and> f = semantic_finding_of C owner r (document_of r)"
  using assms aoi_context_fixed program_context_fixed
  by (fastforce simp: analyze_structured_text_semantics_def project_findings_eq)

lemma report_lowers:
  assumes "analyze_structured_text_semantics c = Some rep" "invalid_signatures rep = 0"
    and "\<forall>f\<in>set (sp_routines rep). doc_diagnostics (sem_document (sf_semantics f)) = []"
    and "f \<in> set (sp_routines rep)"
  shows "\<exists>r. lower_structured_text (sf_semantics f) n role = Some r"
proof -
  obtain C owner r where f: "object_rules_fixed C" "f = semantic_finding_of C owner r (document_of r)"
    using report_contexts [OF assms(1,4)] by blast
  have doc: "sem_document (analyze_semantics d C) = d" for d
    by (simp add: analyze_semantics_def case_prod_beta)
  have "filter (\<lambda>k. sc_signature_valid k = Some False) (sem_calls (sf_semantics f)) = []"
    using assms(2,4) by (simp add: invalid_signatures_def report_total_def count_if_def)
  then have "sc_signature_valid k \<noteq> Some False" if "k \<in> set (sem_calls (analyze_semantics (document_of r) C))" for k
    using that f(2) by (auto simp: semantic_finding_of_def filter_empty_conv)
  moreover have "doc_diagnostics (document_of r) = []"
    using assms(3,4) f(2) by (auto simp: semantic_finding_of_def doc)
  ultimately show ?thesis
    using lowering_returns [OF f(1) _ document_of] f(2) by (simp add: semantic_finding_of_def)
qed

lemma lower_routines_names:
  assumes "\<And>n sem role. sems n = Some sem \<Longrightarrow> \<exists>r. lower_structured_text sem n role = Some r"
  shows "\<exists>rs ds. lower_routines sems assigned ns = Some (rs, ds) \<and> map ro_name rs = filter (\<lambda>n. sems n \<noteq> None) ns"
    and "\<exists>rs ds. lower_scan_mode_routines sems ns = Some (rs, ds) \<and> map ro_name rs = filter (\<lambda>n. sems n \<noteq> None) ns"
proof -
  have name: "lower_structured_text sem n role = Some r \<Longrightarrow> ro_name r = n" for sem n role r
    by (auto simp: lower_structured_text_def split: Option.bind_splits)
  show "\<exists>rs ds. lower_routines sems assigned ns = Some (rs, ds) \<and> map ro_name rs = filter (\<lambda>n. sems n \<noteq> None) ns"
  proof (induction ns arbitrary: assigned)
    case (Cons n ns)
    show ?case
    proof (cases "sems n")
      case None
      with Cons.IH [of assigned] show ?thesis by auto
    next
      case (Some sem)
      obtain r where "lower_structured_text sem n
          (case named_lifecycle_role n of Some r \<Rightarrow> r | None \<Rightarrow> if assigned then RR_AUXILIARY else RR_PRIMARY) = Some r"
        using assms [OF Some] by blast
      moreover obtain rs ds where "lower_routines sems (assigned \<or> named_lifecycle_role n = None) ns = Some (rs, ds)"
          "map ro_name rs = filter (\<lambda>n. sems n \<noteq> None) ns"
        using Cons.IH by blast
      ultimately show ?thesis using Some name by (simp add: Let_def)
    qed
  qed simp
  show "\<exists>rs ds. lower_scan_mode_routines sems ns = Some (rs, ds) \<and> map ro_name rs = filter (\<lambda>n. sems n \<noteq> None) ns"
  proof (induction ns)
    case (Cons n ns)
    show ?case
    proof (cases "sems n")
      case None
      with Cons.IH show ?thesis by auto
    next
      case (Some sem)
      obtain r where "lower_structured_text sem n (scan_mode_role n) = Some r" using assms [OF Some] by blast
      with Cons.IH Some name show ?thesis by (auto simp: Let_def)
    qed
  qed simp
qed

text \<open>
  C9. A project whose reports show no defect is lowered: when the semantic report counts no
  invalid signature and its documents parsed without diagnostics, every Add-On Instruction,
  whatever of its routines are given their reported analyses, is lowered without failure into a
  unit of its name with one routine for each of them, in captured order.
\<close>

theorem project_lowers:
  assumes "analyze_structured_text_semantics c = Some rep" "invalid_signatures rep = 0"
    and "\<forall>f\<in>set (sp_routines rep). doc_diagnostics (sem_document (sf_semantics f)) = []"
    and "ran sems \<subseteq> sf_semantics ` set (sp_routines rep)"
  shows "\<exists>u. lower_add_on_instruction a sems = Some u \<and> iu_name u = ao_name a \<and>
     map ro_name (iu_routines u) = filter (\<lambda>n. sems n \<noteq> None) (map ru_name (iter_aoi_routines a))"
proof -
  have lowers: "\<exists>r. lower_structured_text sem n role = Some r" if "sems n = Some sem" for n sem role
    using report_lowers [OF assms(1-3)] assms(4) ranI [of sems n sem, OF that] by blast
  obtain rs1 ds1 where 1: "lower_routines sems False (map ru_name (ao_routines a)) = Some (rs1, ds1)"
      "map ro_name rs1 = filter (\<lambda>n. sems n \<noteq> None) (map ru_name (ao_routines a))"
    using lower_routines_names(1) [OF lowers] by blast
  obtain rs2 ds2 where 2: "lower_scan_mode_routines sems (map ru_name (ao_scan_mode_routines a)) = Some (rs2, ds2)"
      "map ro_name rs2 = filter (\<lambda>n. sems n \<noteq> None) (map ru_name (ao_scan_mode_routines a))"
    using lower_routines_names(2) [OF lowers] by blast
  show ?thesis using 1 2 by (simp add: lower_add_on_instruction_def Let_def iter_aoi_routines_def)
qed

text \<open>A controller with one instruction whose routine assigns its output.\<close>

definition demo_instruction :: "unit add_on_instruction" where
  "demo_instruction =
     \<lparr>ao_name = ''Set'', ao_vendor = None, ao_execute_prescan = None, ao_execute_postscan = None,
      ao_execute_enable_in_false = None,
      ao_parameters = [\<lparr>ap_name = ''a'', ap_data_type = Some ''DINT'', ap_resolved_data_type = None,
        ap_usage = Some ''Output'', ap_dimensions = None, ap_required = None, ap_visible = None,
        ap_default_value = None\<rparr>],
      ao_routines = [\<lparr>ru_name = ''Logic'', ru_language = Some ''ST'', ru_lines = [demo_source]\<rparr>],
      ao_scan_mode_routines = [], ao_local_tags = []\<rparr>"

definition demo_controller :: "unit controller" where
  "demo_controller = \<lparr>ct_name = ''PLC'', ct_programs = [], ct_tags = [], ct_datatypes = [],
     ct_add_on_instructions = [demo_instruction]\<rparr>"

definition demo_semantics :: st_semantics where
  "demo_semantics = analyze_semantics
     (document_of \<lparr>ru_name = ''Logic'', ru_language = Some ''ST'', ru_lines = [demo_source]\<rparr>)
     (aoi_context demo_controller demo_instruction)"

lemma demo_report: "analyze_structured_text_semantics demo_controller =
   Some \<lparr>sp_controller_name = ''PLC'',
         sp_routines = [\<lparr>sf_owner = ''AOI:Set'', sf_routine = ''Logic'', sf_semantics = demo_semantics\<rparr>]\<rparr>"
proof -
  have "is_structured_text \<lparr>ru_name = ''Logic'', ru_language = Some ''ST'', ru_lines = [demo_source]\<rparr>"
    by code_simp
  then show ?thesis
    by (simp add: analyze_structured_text_semantics_def project_findings_eq demo_controller_def [abs_def]
        demo_instruction_def by_name_def iter_aoi_routines_def semantic_finding_of_def demo_semantics_def aoi_owner_def)
qed

lemma demo_document: "document_of \<lparr>ru_name = ''Logic'', ru_language = Some ''ST'', ru_lines = [demo_source]\<rparr> =
    \<lparr>doc_source = demo_source, doc_tokens = demo_tokens,
          doc_statements = [AssignmentStatement (SourceSpan 0 5) (NameExpression (SourceSpan 0 1) ''a'')
             '':='' (LiteralExpression (SourceSpan 3 4) ''1'')],
          doc_diagnostics = []\<rparr>"
  by (simp add: document_of_def structured_text_def demo_parsed)

lemma project_lowers_witness:
  "\<exists>u. lower_add_on_instruction demo_instruction [''Logic'' \<mapsto> demo_semantics] = Some u \<and>
     iu_name u = ''Set'' \<and> map ro_name (iu_routines u) = [''Logic'']"
proof -
  have no_calls: "sem_calls demo_semantics = []" "sem_document demo_semantics =
      document_of \<lparr>ru_name = ''Logic'', ru_language = Some ''ST'', ru_lines = [demo_source]\<rparr>"
    using recorded_calls [of "document_of \<lparr>ru_name = ''Logic'', ru_language = Some ''ST'', ru_lines = [demo_source]\<rparr>"
        "aoi_context demo_controller demo_instruction"]
    by (simp_all add: demo_semantics_def demo_document document_nodes_def)
      (simp add: analyze_semantics_def case_prod_beta)
  have "\<exists>u. lower_add_on_instruction demo_instruction [''Logic'' \<mapsto> demo_semantics] = Some u \<and>
      iu_name u = ao_name demo_instruction \<and>
      map ro_name (iu_routines u) =
        filter (\<lambda>n. [''Logic'' \<mapsto> demo_semantics] n \<noteq> None) (map ru_name (iter_aoi_routines demo_instruction))"
    by (rule project_lowers [OF demo_report])
      (simp_all add: invalid_signatures_def report_total_def count_if_def no_calls demo_document)
  then show ?thesis by (simp add: demo_instruction_def iter_aoi_routines_def)
qed

end
