(* ===== verification/IR_Passes.thy ===== *)
theory IR_Passes imports Lowering_Facts begin

text \<open>
  The two passes over a lowered unit: the interface normalisation of
  \<open>ir/normalization.py\<close> and the execution semantics of Add-On Instructions of
  \<open>ir/execution.py\<close>, with what they change and what they keep.
\<close>

section \<open>Normalisation\<close>

datatype normalization_policy = NP_PRESERVE | NP_PROMOTE_WRITTEN_INPUTS

text \<open>The dictionary of \<open>_written_inputs\<close>, as its entries in insertion order.\<close>

definition written_inputs :: "'v ir_unit \<Rightarrow> (string \<times> source_span) list" where
  "written_inputs u =
     first_writes (py_casefold ` ip_name ` set (filter (\<lambda>p. ip_direction p = DIR_INPUT) (iu_parameters u)))
       {} (scan_writes (iu_routines u))"

definition promotes :: "(string \<times> source_span) list \<Rightarrow> 'v ir_parameter \<Rightarrow> bool" where
  "promotes written p =
     (ip_direction p = DIR_INPUT \<and> map_of written (py_casefold (ip_name p)) \<noteq> None)"

definition promote_parameter :: "(string \<times> source_span) list \<Rightarrow> 'v ir_parameter \<Rightarrow> 'v ir_parameter" where
  "promote_parameter written p = (if promotes written p then p\<lparr>ip_direction := DIR_OUTPUT\<rparr> else p)"

definition promotion_change :: "(string \<times> source_span) list \<Rightarrow> 'v ir_parameter \<Rightarrow> ir_diagnostic" where
  "promotion_change written p =
     STDiagnostic ''input_promoted_to_output''
       (''promoted written input parameter '' @ py_repr (ip_name p) @ '' to an IEC output'')
       (the (map_of written (py_casefold (ip_name p))))"

definition kind_change :: "(string \<times> source_span) list \<Rightarrow> ir_diagnostic" where
  "kind_change written =
     STDiagnostic ''unit_promoted_to_function_block''
       (''promoted function candidate to function block to preserve '' @
        ''the normalized multi-direction interface'') (snd (hd written))"

definition normalize_reusable_unit ::
  "'v ir_unit \<Rightarrow> normalization_policy \<Rightarrow> 'v ir_unit \<times> ir_diagnostic list" where
  "normalize_reusable_unit u policy =
     (let written = written_inputs u
      in if policy = NP_PRESERVE \<or> written = [] then (u, [])
         else let changes =
                map (promotion_change written) (filter (promotes written) (iu_parameters u)) @
                (if iu_kind u \<noteq> UK_FUNCTION_BLOCK then [kind_change written] else [])
              in (u\<lparr>iu_kind := UK_FUNCTION_BLOCK,
                    iu_parameters := map (promote_parameter written) (iu_parameters u),
                    iu_diagnostics :=
                      filter (\<lambda>d. sd_code d \<noteq> ''write_to_input_parameter'') (iu_diagnostics u) @ changes\<rparr>,
                  changes))"

lemma first_writes_fst: "k \<in> fst ` set (first_writes names seen ws) \<Longrightarrow> k \<in> names"
  using first_writes_keys [of names seen ws] by auto

lemma first_writes_empty_names [simp]: "first_writes {} seen ws = []"
  by (induction ws arbitrary: seen) (auto simp: Let_def)

lemma first_writes_mono:
  assumes "first_writes names seen ws = []" "names' \<subseteq> names"
  shows "first_writes names' seen ws = []"
proof -
  have "set (map fst (first_writes names' seen ws)) \<subseteq> set (map fst (first_writes names seen ws))"
    unfolding first_writes_keys using assms(2) by blast
  with assms(1) show ?thesis by simp
qed

lemma first_writes_removed:
  assumes "names' \<subseteq> names - fst ` set (first_writes names {} ws)"
  shows "first_writes names' {} ws = []"
proof -
  have k: "fst ` set (first_writes ns {} ws) = py_casefold ` fst ` set ws \<inter> ns" for ns
    using first_writes_keys [of ns "{}" ws] by simp
  have "fst ` set (first_writes names' {} ws) = {}"
    using assms unfolding k by blast
  then show ?thesis by simp
qed

lemma written_inputs_promoted:
  "written_inputs (fst (normalize_reusable_unit u NP_PROMOTE_WRITTEN_INPUTS)) = []"
proof (cases "written_inputs u = []")
  case True
  then show ?thesis by (simp add: normalize_reusable_unit_def)
next
  case False
  let ?w = "written_inputs u"
  let ?names = "py_casefold ` ip_name ` set (filter (\<lambda>p. ip_direction p = DIR_INPUT) (iu_parameters u))"
  have w: "?w = first_writes ?names {} (scan_writes (iu_routines u))" by (simp add: written_inputs_def)
  have "py_casefold ` ip_name ` set (filter (\<lambda>p. ip_direction p = DIR_INPUT)
          (map (promote_parameter ?w) (iu_parameters u))) \<subseteq> ?names - fst ` set ?w"
    by (auto simp: promote_parameter_def promotes_def map_of_eq_None_iff split: if_splits)
  then have "first_writes (py_casefold ` ip_name ` set (filter (\<lambda>p. ip_direction p = DIR_INPUT)
          (map (promote_parameter ?w) (iu_parameters u)))) {} (scan_writes (iu_routines u)) = []"
    unfolding w by (rule first_writes_removed)
  then show ?thesis using False
    by (simp add: normalize_reusable_unit_def Let_def written_inputs_def)
qed

section \<open>Execution semantics of Add-On Instructions\<close>

definition system_parameter :: "'v ir_unit \<Rightarrow> string \<Rightarrow> ir_direction \<Rightarrow> 'v ir_parameter option" where
  "system_parameter u n dir =
     find (\<lambda>p. ip_system_defined p \<and> py_casefold (ip_name p) = n \<and> ip_direction p = dir)
       (iu_parameters u)"

definition mapping_required :: "string \<Rightarrow> bool option \<Rightarrow> ir_diagnostic list" where
  "mapping_required n enabled =
     (if enabled = Some True
      then [STDiagnostic (n @ ''_mapping_required'')
              (''enabled AOI '' @ map (\<lambda>c. if c = CHR ''_'' then CHR '' '' else c) n @
               '' behavior is captured '' @ ''but requires an explicit target lifecycle mapping'') no_place]
      else [])"

definition enable_in_false_routine :: "'v ir_unit \<Rightarrow> ir_routine option" where
  "enable_in_false_routine u = find (\<lambda>r. ro_role r = RR_ENABLE_IN_FALSE) (iu_routines u)"

definition unmapped_lifecycle_diagnostics :: "'v ir_unit \<Rightarrow> ir_diagnostic list" where
  "unmapped_lifecycle_diagnostics u =
     mapping_required ''prescan'' (lc_prescan_enabled (iu_lifecycle u)) @
     mapping_required ''postscan'' (lc_postscan_enabled (iu_lifecycle u)) @
     (if lc_enable_in_false_enabled (iu_lifecycle u) = Some True \<and>
         \<not> list_ex (\<lambda>r. ro_role r = RR_ENABLE_IN_FALSE) (iu_routines u)
      then [STDiagnostic ''enable_in_false_mapping_required''
              (''enabled AOI enable in false behavior requires a '' @
               ''captured EnableInFalse ScanModeRoutine'') no_place]
      else [])"

fun find_index_from :: "('a \<Rightarrow> bool) \<Rightarrow> nat \<Rightarrow> 'a list \<Rightarrow> nat option" where
  "find_index_from p i [] = None"
| "find_index_from p i (x # xs) = (if p x then Some i else find_index_from p (Suc i) xs)"

definition primary_index :: "'v ir_unit \<Rightarrow> nat option" where
  "primary_index u = find_index_from (\<lambda>r. ro_role r = RR_PRIMARY) 0 (iu_routines u)"

definition maps_enable_in_false :: "'v ir_unit \<Rightarrow> bool" where
  "maps_enable_in_false u =
     (lc_enable_in_false_enabled (iu_lifecycle u) = Some True \<and> enable_in_false_routine u \<noteq> None)"

text \<open>The statements that replace those of the primary routine.\<close>

definition bool_reference :: "source_span \<Rightarrow> string \<Rightarrow> ir_expr" where
  "bool_reference sp n = IRReference sp (Some ''BOOL'') n"

definition guarded_statements :: "'v ir_unit \<Rightarrow> string \<Rightarrow> string \<Rightarrow> ir_routine \<Rightarrow> ir_stmt list" where
  "guarded_statements u enable_in enable_out primary =
     (let sp = (case ro_statements primary of [] \<Rightarrow> no_place | st # sts \<Rightarrow> ir_stmt_span st)
      in [IRAssignment sp (bool_reference sp enable_out) (bool_reference sp enable_in),
          IRIf sp [IRIfBranch sp (bool_reference sp enable_in) (ro_statements primary)]
            (case enable_in_false_routine u of
               Some r \<Rightarrow> if lc_enable_in_false_enabled (iu_lifecycle u) = Some True
                         then ro_statements r else []
             | None \<Rightarrow> [])])"

definition applied_code :: string where
  "applied_code = ''aoi_enable_semantics_applied''"

definition applied_diagnostics :: "'v ir_unit \<Rightarrow> source_span \<Rightarrow> ir_diagnostic list" where
  "applied_diagnostics u sp =
     [STDiagnostic ''default_enable_out_synthesized''
        (''synthesized the documented AOI default '' @ ''EnableOut := EnableIn behavior'') sp,
      STDiagnostic ''main_routine_guarded_by_enable_in''
        ''guarded the AOI primary routine with EnableIn'' sp,
      STDiagnostic applied_code ''applied target-neutral AOI normal-scan semantics'' sp] @
     (if maps_enable_in_false u
      then [STDiagnostic ''enable_in_false_mapped''
              ''mapped enabled EnableInFalse logic to the false branch'' sp]
      else [])"

definition apply_aoi_execution_semantics :: "'v ir_unit \<Rightarrow> 'v ir_unit" where
  "apply_aoi_execution_semantics u =
     (if list_ex (\<lambda>d. sd_code d = applied_code) (iu_diagnostics u) then u
      else let ds = iu_diagnostics u @ unmapped_lifecycle_diagnostics u
           in case (system_parameter u ''enablein'' DIR_INPUT, system_parameter u ''enableout'' DIR_OUTPUT,
                    primary_index u) of
                (Some enable_in, Some enable_out, Some i) \<Rightarrow>
                  let primary = iu_routines u ! i;
                      body = guarded_statements u (ip_name enable_in) (ip_name enable_out) primary
                  in u\<lparr>iu_kind := UK_FUNCTION_BLOCK,
                       iu_routines := (iu_routines u)[i := primary\<lparr>ro_statements := body\<rparr>],
                       iu_diagnostics := ds @ applied_diagnostics u (ir_stmt_span (hd body))\<rparr>
              | _ \<Rightarrow>
                  u\<lparr>iu_diagnostics := ds @
                      [STDiagnostic ''aoi_enable_interface_unavailable''
                         (''AOI execution semantics require system-defined EnableIn, '' @
                          ''EnableOut, and a primary routine'') no_place]\<rparr>)"

section \<open>The interface diagnostics of a lowered unit\<close>

lemma report_writes_first:
  assumes "\<And>k n. inputs k = Some n \<Longrightarrow> py_casefold n = k"
  shows "map sd_span (report_writes inputs reported ws) = map snd (first_writes (dom inputs) reported ws)"
proof (induction ws arbitrary: reported)
  case (Cons w ws)
  obtain n sp where w: "w = (n, sp)" by (cases w)
  show ?case
  proof (cases "inputs (py_casefold n)")
    case None
    then show ?thesis using Cons.IH by (simp add: w Let_def domIff)
  next
    case (Some m)
    then show ?thesis using Cons.IH assms [OF Some] by (auto simp: w Let_def domIff)
  qed
qed simp

lemma report_writes_code:
  "list_all (\<lambda>d. sd_code d = ''write_to_input_parameter'') (report_writes inputs reported ws)"
  by (induction inputs reported ws rule: report_writes.induct) (auto split: option.split)

lemma lower_routines_codes:
  "lower_routines sems b ns = Some (rs, ds) \<Longrightarrow>
     list_all (\<lambda>d. sd_code d \<noteq> ''write_to_input_parameter'') ds"
  by (induction sems b ns arbitrary: rs ds rule: lower_routines.induct)
    (auto simp: Let_def split: Option.bind_splits option.splits if_splits)

lemma lower_scan_mode_routines_codes:
  "lower_scan_mode_routines sems ns = Some (rs, ds) \<Longrightarrow>
     list_all (\<lambda>d. sd_code d \<noteq> ''write_to_input_parameter'') ds"
  by (induction sems ns arbitrary: rs ds rule: lower_scan_mode_routines.induct)
    (auto simp: Let_def split: Option.bind_splits option.splits if_splits)

lemma input_names_key: "input_names a k = Some n \<Longrightarrow> py_casefold n = k"
  by (auto simp: input_names_def dest!: dict_of_Some)

lemma input_names_dom:
  "dom (input_names a) =
     py_casefold ` ip_name ` set (filter (\<lambda>p. ip_direction p = DIR_INPUT) (map lower_parameter (ao_parameters a)))"
proof -
  have d: "direction_of x = DIR_INPUT \<longleftrightarrow> py_casefold (or_empty x) = ''input''" for x
    by (simp add: direction_of_def Let_def)
  have "py_casefold ` ip_name ` set (filter (\<lambda>p. ip_direction p = DIR_INPUT) (map lower_parameter (ao_parameters a)))
      = (py_casefold \<circ> ap_name) ` set (filter (\<lambda>p. py_casefold (or_empty (ap_usage p)) = ''input'') (ao_parameters a))"
    by (simp only: filter_map set_map image_image) (simp add: comp_def lower_parameter_def d)
  moreover have "dom (input_names a) =
      (py_casefold \<circ> ap_name) ` set (filter (\<lambda>p. py_casefold (or_empty (ap_usage p)) = ''input'') (ao_parameters a))"
    using dict_of_None [of "py_casefold \<circ> ap_name"
        "filter (\<lambda>p. py_casefold (or_empty (ap_usage p)) = ''input'') (ao_parameters a)"]
    unfolding input_names_def dom_def by (simp del: set_filter)
  ultimately show ?thesis by simp
qed

lemma filter_all: "list_all P xs \<Longrightarrow> filter P xs = xs"
  by (simp add: filter_id_conv list_all_iff)

lemma filter_none: "list_all (\<lambda>x. \<not> P x) xs \<Longrightarrow> filter P xs = []"
  by (simp add: filter_empty_conv list_all_iff)

section \<open>Properties of the passes\<close>

text \<open>
  The lowering and the normalisation see the same writes: in a unit lowered from an
  Add-On Instruction, the places reported as writes to input parameters are exactly those the
  normalisation finds, one for each input written in a normal scan, in order.
\<close>

theorem interface_writes_agree:
  assumes "lower_add_on_instruction a sems = Some u"
  shows "map sd_span (filter (\<lambda>d. sd_code d = ''write_to_input_parameter'') (iu_diagnostics u)) =
     map snd (written_inputs u)"
proof -
  obtain rs1 ds1 rs2 ds2 where
    r: "lower_routines sems False (map ru_name (ao_routines a)) = Some (rs1, ds1)"
      "lower_scan_mode_routines sems (map ru_name (ao_scan_mode_routines a)) = Some (rs2, ds2)"
    and u: "iu_diagnostics u = ds1 @ ds2 @ interface_diagnostics a (rs1 @ rs2)"
      "iu_routines u = rs1 @ rs2" "iu_parameters u = map lower_parameter (ao_parameters a)"
    using assms by (auto simp: lower_add_on_instruction_def Let_def split: Option.bind_splits)
  have none: "filter (\<lambda>d. sd_code d = ''write_to_input_parameter'') ds1 = []"
      "filter (\<lambda>d. sd_code d = ''write_to_input_parameter'') ds2 = []"
    using r lower_routines_codes lower_scan_mode_routines_codes by (blast intro: filter_none)+
  have "filter (\<lambda>d. sd_code d = ''write_to_input_parameter'') (iu_diagnostics u) =
      report_writes (input_names a) {} (scan_writes (rs1 @ rs2))"
    using none filter_all [OF report_writes_code] by (simp add: u interface_diagnostics_def)
  then show ?thesis
    using report_writes_first [of "input_names a", OF input_names_key] 
    unfolding input_names_dom by (simp only: written_inputs_def u)
qed

text \<open>A function with an input \<open>A\<close> that its routine, the document above, assigns.\<close>

definition small_instruction :: "unit add_on_instruction" where
  "small_instruction =
     \<lparr>ao_name = ''Latch'', ao_vendor = None, ao_execute_prescan = None, ao_execute_postscan = None,
      ao_execute_enable_in_false = None,
      ao_parameters = [\<lparr>ap_name = ''A'', ap_data_type = Some ''BOOL'', ap_resolved_data_type = None,
        ap_usage = Some ''Input'', ap_dimensions = None, ap_required = Some True, ap_visible = Some True,
        ap_default_value = None\<rparr>],
      ao_routines = [\<lparr>ru_name = ''Logic'', ru_language = Some ''ST'', ru_lines = [doc_source small_document]\<rparr>], ao_scan_mode_routines = [], ao_local_tags = []\<rparr>"

definition small_unit :: "unit ir_unit" where
  "small_unit = the (lower_add_on_instruction small_instruction [''Logic'' \<mapsto> small_semantics])"

lemma small_unit_lowered:
  "lower_add_on_instruction small_instruction [''Logic'' \<mapsto> small_semantics] = Some small_unit"
proof -
  have "lower_add_on_instruction small_instruction [''Logic'' \<mapsto> small_semantics] \<noteq> None" by code_simp
  then show ?thesis by (auto simp: small_unit_def)
qed

lemma interface_writes_agree_witness:
  "map snd (written_inputs small_unit) = [SourceSpan 10 17] \<and>
   map sd_span (filter (\<lambda>d. sd_code d = ''write_to_input_parameter'') (iu_diagnostics small_unit)) =
     [SourceSpan 10 17]"
proof -
  have "map snd (written_inputs small_unit) = [SourceSpan 10 17]" by code_simp
  with interface_writes_agree [OF small_unit_lowered] show ?thesis by simp
qed

lemma map_filter_length_zip:
  "length (filter P xs) = length (filter (\<lambda>(p, q). D p \<noteq> D q) (zip xs (map f xs)))"
  if "\<And>x. P x \<longleftrightarrow> D x \<noteq> D (f x)"
  using that by (induction xs) auto

text \<open>
  C21. Promotion changes only what it must: name, vendor, variables, routines and lifecycle of
  the unit stay, each parameter stays but for the direction of the written inputs, which
  become outputs, and the unit is a function block if anything was written; afterwards no
  normal-scan routine writes an input, a second promotion changes nothing, and the audit trail
  has one entry per changed direction and one for a changed kind.
\<close>

theorem promotion_effect:
  "let (v, changes) = normalize_reusable_unit u NP_PROMOTE_WRITTEN_INPUTS in
     iu_name v = iu_name u \<and> iu_source_vendor v = iu_source_vendor u \<and>
     iu_variables v = iu_variables u \<and> iu_routines v = iu_routines u \<and>
     iu_lifecycle v = iu_lifecycle u \<and>
     iu_parameters v = map (promote_parameter (written_inputs u)) (iu_parameters u) \<and>
     iu_kind v = (if written_inputs u = [] then iu_kind u else UK_FUNCTION_BLOCK) \<and>
     written_inputs v = [] \<and> normalize_reusable_unit v NP_PROMOTE_WRITTEN_INPUTS = (v, []) \<and>
     length changes =
       length (filter (\<lambda>(p, q). ip_direction p \<noteq> ip_direction q) (zip (iu_parameters u) (iu_parameters v))) +
       (if iu_kind v = iu_kind u then 0 else 1)"
proof -
  obtain v changes where n: "normalize_reusable_unit u NP_PROMOTE_WRITTEN_INPUTS = (v, changes)" by force
  have w: "written_inputs v = []" using written_inputs_promoted [of u] n by simp
  then have idem: "normalize_reusable_unit v NP_PROMOTE_WRITTEN_INPUTS = (v, [])"
    by (simp add: normalize_reusable_unit_def)
  have none: "promote_parameter [] p = p" for p :: "'a ir_parameter"
    by (simp add: promote_parameter_def promotes_def)
  have len: "length (filter (promotes (written_inputs u)) (iu_parameters u)) =
      length (filter (\<lambda>(p, q). ip_direction p \<noteq> ip_direction q)
        (zip (iu_parameters u) (map (promote_parameter (written_inputs u)) (iu_parameters u))))"
    by (rule map_filter_length_zip) (auto simp: promote_parameter_def promotes_def)
  show ?thesis
  proof (cases "written_inputs u = []")
    case True
    then have "v = u" "changes = []" using n by (simp_all add: normalize_reusable_unit_def)
    moreover have "filter (\<lambda>(p, q). ip_direction p \<noteq> ip_direction q) (zip (iu_parameters u) (iu_parameters u)) = []"
      by (auto simp: filter_empty_conv in_set_zip)
    ultimately show ?thesis using n w idem True none by (simp add: map_idI)
  next
    case False
    then show ?thesis using n w idem len
      by (auto simp: normalize_reusable_unit_def Let_def)
  qed
qed

definition aoi_ready :: "'v ir_unit \<Rightarrow> bool" where
  "aoi_ready u =
     (system_parameter u ''enablein'' DIR_INPUT \<noteq> None \<and>
      system_parameter u ''enableout'' DIR_OUTPUT \<noteq> None \<and> primary_index u \<noteq> None)"

definition aoi_applied :: "'v ir_unit \<Rightarrow> bool" where
  "aoi_applied u = list_ex (\<lambda>d. sd_code d = applied_code) (iu_diagnostics u)"

lemma unmapped_codes: "\<not> list_ex (\<lambda>d. sd_code d = applied_code) (unmapped_lifecycle_diagnostics u)"
  by (auto simp: unmapped_lifecycle_diagnostics_def mapping_required_def applied_code_def)

lemma find_index_from_bounds:
  "find_index_from p i xs = Some j \<Longrightarrow> i \<le> j \<and> j < i + length xs \<and> p (xs ! (j - i))"
proof (induction p i xs rule: find_index_from.induct)
  case (2 p i x xs)
  then show ?case by (cases "p x") (auto simp: nth_Cons' Suc_diff_Suc split: if_splits)
qed simp

definition missing_interface :: "'v ir_unit \<Rightarrow> ir_diagnostic list" where
  "missing_interface u =
     unmapped_lifecycle_diagnostics u @
       [STDiagnostic ''aoi_enable_interface_unavailable''
          (''AOI execution semantics require system-defined EnableIn, '' @
           ''EnableOut, and a primary routine'') no_place]"

lemma missing_interface_codes: "\<not> list_ex (\<lambda>d. sd_code d = applied_code) (missing_interface u)"
  using unmapped_codes [of u] by (simp add: missing_interface_def applied_code_def)

lemma apply_not_ready:
  assumes "\<not> aoi_applied u" "\<not> aoi_ready u"
  shows "apply_aoi_execution_semantics u = u\<lparr>iu_diagnostics := iu_diagnostics u @ missing_interface u\<rparr>"
  using assms unfolding apply_aoi_execution_semantics_def aoi_applied_def aoi_ready_def missing_interface_def
  by (auto simp: Let_def split: option.split)

lemma apply_ready:
  assumes "\<not> aoi_applied u" "aoi_ready u"
  obtains enable_in enable_out i where
    "system_parameter u ''enablein'' DIR_INPUT = Some enable_in"
    "system_parameter u ''enableout'' DIR_OUTPUT = Some enable_out" "primary_index u = Some i"
    "apply_aoi_execution_semantics u =
       (let body = guarded_statements u (ip_name enable_in) (ip_name enable_out) (iu_routines u ! i)
        in u\<lparr>iu_kind := UK_FUNCTION_BLOCK,
             iu_routines := (iu_routines u)[i := (iu_routines u ! i)\<lparr>ro_statements := body\<rparr>],
             iu_diagnostics := (iu_diagnostics u @ unmapped_lifecycle_diagnostics u) @
               applied_diagnostics u (ir_stmt_span (hd body))\<rparr>)"
  using assms unfolding apply_aoi_execution_semantics_def aoi_applied_def aoi_ready_def
  by (auto simp: Let_def)

text \<open>
  C15. The execution semantics are applied once: applying them a second time changes nothing
  precisely when they were applied before or the unit has the enable interface and a primary
  routine. Otherwise the unit gains the diagnostics of its unmapped lifecycle routines and of the
  missing interface each time, and nothing else of it changes.
\<close>

theorem aoi_semantics_once:
  "(apply_aoi_execution_semantics (apply_aoi_execution_semantics u) = apply_aoi_execution_semantics u
     \<longleftrightarrow> aoi_applied u \<or> aoi_ready u) \<and>
   apply_aoi_execution_semantics (apply_aoi_execution_semantics u) =
     (if aoi_applied u \<or> aoi_ready u then apply_aoi_execution_semantics u
      else u\<lparr>iu_diagnostics := iu_diagnostics u @ missing_interface u @ missing_interface u\<rparr>)"
proof (cases "aoi_applied u")
  case True
  then show ?thesis by (simp add: apply_aoi_execution_semantics_def aoi_applied_def)
next
  case fresh: False
  show ?thesis
  proof (cases "aoi_ready u")
    case True
    obtain enable_in enable_out i where
        "system_parameter u ''enablein'' DIR_INPUT = Some enable_in"
        "system_parameter u ''enableout'' DIR_OUTPUT = Some enable_out" "primary_index u = Some i"
      and a: "apply_aoi_execution_semantics u =
       (let body = guarded_statements u (ip_name enable_in) (ip_name enable_out) (iu_routines u ! i)
        in u\<lparr>iu_kind := UK_FUNCTION_BLOCK,
             iu_routines := (iu_routines u)[i := (iu_routines u ! i)\<lparr>ro_statements := body\<rparr>],
             iu_diagnostics := (iu_diagnostics u @ unmapped_lifecycle_diagnostics u) @
               applied_diagnostics u (ir_stmt_span (hd body))\<rparr>)"
      by (rule apply_ready [OF fresh True])
    then have "aoi_applied (apply_aoi_execution_semantics u)"
      by (simp add: aoi_applied_def Let_def applied_diagnostics_def)
    with True show ?thesis by (simp add: apply_aoi_execution_semantics_def aoi_applied_def)
  next
    case False
    let ?v = "apply_aoi_execution_semantics u"
    note v = apply_not_ready [OF fresh False]
    have "\<not> aoi_applied ?v"
      using fresh missing_interface_codes [of u] unfolding v by (simp add: aoi_applied_def)
    moreover have "\<not> aoi_ready ?v"
      using False unfolding v by (simp add: aoi_ready_def system_parameter_def primary_index_def)
    ultimately have "apply_aoi_execution_semantics ?v = ?v\<lparr>iu_diagnostics := iu_diagnostics ?v @ missing_interface ?v\<rparr>"
      by (rule apply_not_ready)
    moreover have "missing_interface ?v = missing_interface u"
      unfolding v by (simp add: missing_interface_def unmapped_lifecycle_diagnostics_def)
    ultimately have twice: "apply_aoi_execution_semantics ?v =
        u\<lparr>iu_diagnostics := iu_diagnostics u @ missing_interface u @ missing_interface u\<rparr>"
      unfolding v by simp
    then have "length (iu_diagnostics (apply_aoi_execution_semantics ?v)) > length (iu_diagnostics ?v)"
      unfolding v by (simp add: missing_interface_def)
    then have "apply_aoi_execution_semantics ?v \<noteq> ?v" by (metis less_irrefl)
    with twice show ?thesis using fresh False by simp
  qed
qed

text \<open>
  Applied, the semantics guard the primary routine: its statements become the propagation
  \<open>EnableOut := EnableIn\<close> and a conditional on \<open>EnableIn\<close> around the captured statements, with
  the statements of the \<open>EnableInFalse\<close> routine, when that is enabled and present, as the
  other branch; every other routine, the parameters, the variables and the earlier
  diagnostics stay.
\<close>

theorem aoi_semantics_guard:
  assumes "\<not> aoi_applied u" and "aoi_ready u"
  shows "\<exists>i enable_in enable_out sp.
     system_parameter u ''enablein'' DIR_INPUT = Some enable_in \<and>
     system_parameter u ''enableout'' DIR_OUTPUT = Some enable_out \<and>
     i < length (iu_routines u) \<and> ro_role (iu_routines u ! i) = RR_PRIMARY \<and>
     ro_statements (iu_routines (apply_aoi_execution_semantics u) ! i) =
       [IRAssignment sp (bool_reference sp (ip_name enable_out)) (bool_reference sp (ip_name enable_in)),
        IRIf sp [IRIfBranch sp (bool_reference sp (ip_name enable_in)) (ro_statements (iu_routines u ! i))]
          (if maps_enable_in_false u then ro_statements (the (enable_in_false_routine u)) else [])] \<and>
     (\<forall>j. j \<noteq> i \<longrightarrow> iu_routines (apply_aoi_execution_semantics u) ! j = iu_routines u ! j) \<and>
     length (iu_routines (apply_aoi_execution_semantics u)) = length (iu_routines u) \<and>
     iu_parameters (apply_aoi_execution_semantics u) = iu_parameters u \<and>
     iu_variables (apply_aoi_execution_semantics u) = iu_variables u \<and>
     iu_kind (apply_aoi_execution_semantics u) = UK_FUNCTION_BLOCK \<and>
     (\<exists>ds. iu_diagnostics (apply_aoi_execution_semantics u) = iu_diagnostics u @ ds)"
proof -
  obtain enable_in enable_out i where p: "system_parameter u ''enablein'' DIR_INPUT = Some enable_in"
    "system_parameter u ''enableout'' DIR_OUTPUT = Some enable_out" "primary_index u = Some i"
    and a: "apply_aoi_execution_semantics u =
       (let body = guarded_statements u (ip_name enable_in) (ip_name enable_out) (iu_routines u ! i)
        in u\<lparr>iu_kind := UK_FUNCTION_BLOCK,
             iu_routines := (iu_routines u)[i := (iu_routines u ! i)\<lparr>ro_statements := body\<rparr>],
             iu_diagnostics := (iu_diagnostics u @ unmapped_lifecycle_diagnostics u) @
               applied_diagnostics u (ir_stmt_span (hd body))\<rparr>)"
    by (rule apply_ready [OF assms])
  have i: "i < length (iu_routines u)" "ro_role (iu_routines u ! i) = RR_PRIMARY"
    using find_index_from_bounds [of _ 0 "iu_routines u" i] p(3) by (auto simp: primary_index_def)
  have e: "(case enable_in_false_routine u of
               Some r \<Rightarrow> if lc_enable_in_false_enabled (iu_lifecycle u) = Some True
                         then ro_statements r else []
             | None \<Rightarrow> []) =
      (if maps_enable_in_false u then ro_statements (the (enable_in_false_routine u)) else [])"
    by (auto simp: maps_enable_in_false_def split: option.split)
  let ?sp = "case ro_statements (iu_routines u ! i) of [] \<Rightarrow> no_place | st # sts \<Rightarrow> ir_stmt_span st"
  show ?thesis
    by (rule exI [of _ i], rule exI [of _ enable_in], rule exI [of _ enable_out], rule exI [of _ ?sp])
      (use p i in \<open>simp add: a Let_def guarded_statements_def e\<close>)
qed

definition enable_parameter :: "string \<Rightarrow> ir_direction \<Rightarrow> unit ir_parameter" where
  "enable_parameter n dir =
     \<lparr>ip_name = n, ip_direction = dir, ip_data_type = Some ''BOOL'', ip_dimensions = None,
      ip_generic_dimensions = False, ip_required = None, ip_visible = None, ip_system_defined = True,
      ip_default_value = None, ip_default_lexical_value = None\<rparr>"

lemma aoi_semantics_guard_witness:
  "let u = small_unit\<lparr>iu_parameters := [enable_parameter ''EnableIn'' DIR_INPUT,
                                        enable_parameter ''EnableOut'' DIR_OUTPUT]\<rparr>
   in iu_kind u = UK_FUNCTION \<and> iu_kind (apply_aoi_execution_semantics u) = UK_FUNCTION_BLOCK"
proof -
  let ?u = "small_unit\<lparr>iu_parameters := [enable_parameter ''EnableIn'' DIR_INPUT,
                                        enable_parameter ''EnableOut'' DIR_OUTPUT]\<rparr>"
  have "\<not> aoi_applied ?u" "aoi_ready ?u" "iu_kind ?u = UK_FUNCTION" by code_simp+
  with aoi_semantics_guard [of ?u] show ?thesis by (auto simp: Let_def)
qed

end
