(* ===== verification/IEC_Emitter.thy ===== *)
theory IEC_Emitter imports IR_Passes "HOL-Library.List_Lexorder" "HOL-Library.Char_ord" begin

text \<open>
  The emission of executable IR as IEC Structured Text, \<open>exporters/iec_st.py\<close>. The emitter's
  two fields are the record \<open>emit_state\<close>; a method returns its text or lines beside the new
  state. A dialect, the protocol \<open>IECSTDialect\<close>, is a record of its three operations, and
  \<open>None\<close> stands for the absent one.
\<close>

section \<open>Requirements and dialects\<close>

datatype iec_requirement =
    RQ_ARRAY_DIMENSION | RQ_DYNAMIC_BIT_ACCESS | RQ_GENERIC_ARRAY_INTERFACE
  | RQ_SOURCE_OPERATION_ADAPTER | RQ_WALL_CLOCK_READ | RQ_CONTROLLER_OBJECT_ACCESS

primrec requirement_value :: "iec_requirement \<Rightarrow> string" where
  "requirement_value RQ_ARRAY_DIMENSION = ''array_dimension''"
| "requirement_value RQ_DYNAMIC_BIT_ACCESS = ''dynamic_bit_access''"
| "requirement_value RQ_GENERIC_ARRAY_INTERFACE = ''generic_array_interface''"
| "requirement_value RQ_SOURCE_OPERATION_ADAPTER = ''source_operation_adapter''"
| "requirement_value RQ_WALL_CLOCK_READ = ''wall_clock_read''"
| "requirement_value RQ_CONTROLLER_OBJECT_ACCESS = ''controller_object_access''"

lemma requirement_value_inject: "requirement_value a = requirement_value b \<longleftrightarrow> a = b"
  by (cases a; cases b) simp_all

text \<open>Requirements are ordered by their value, as \<open>_sorted_requirements\<close> sorts them.\<close>

instantiation iec_requirement :: linorder
begin

definition less_eq_iec_requirement :: "iec_requirement \<Rightarrow> iec_requirement \<Rightarrow> bool" where
  "less_eq_iec_requirement a b = (requirement_value a \<le> requirement_value b)"

definition less_iec_requirement :: "iec_requirement \<Rightarrow> iec_requirement \<Rightarrow> bool" where
  "less_iec_requirement a b = (requirement_value a < requirement_value b)"

instance
proof
  fix a b c :: iec_requirement
  show "a < b \<longleftrightarrow> a \<le> b \<and> \<not> b \<le> a"
    by (auto simp: less_eq_iec_requirement_def less_iec_requirement_def)
  show "a \<le> a" by (simp add: less_eq_iec_requirement_def)
  show "a \<le> b \<Longrightarrow> b \<le> c \<Longrightarrow> a \<le> c" by (auto simp: less_eq_iec_requirement_def)
  show "a \<le> b \<Longrightarrow> b \<le> a \<Longrightarrow> a = b"
    by (auto simp: less_eq_iec_requirement_def requirement_value_inject [symmetric])
  show "a \<le> b \<or> b \<le> a" by (auto simp: less_eq_iec_requirement_def)
qed

end

record st_dialect =
  di_array_dimension :: "string \<Rightarrow> string \<Rightarrow> string option"
  di_generic_array_interface :: "ir_direction \<Rightarrow> bool"
  di_wall_clock_read :: "string \<Rightarrow> string \<Rightarrow> string list option"

record emit_state =
  em_diagnostics :: "ir_diagnostic list"
  em_requirements :: "iec_requirement list"

record iec_emission =
  ie_text :: string
  ie_diagnostics :: "ir_diagnostic list"
  ie_requirements :: "iec_requirement list"

definition blocking_codes :: "string list" where
  "blocking_codes =
     [''unsupported_expression'', ''unsupported_statement'', ''write_to_input_parameter'',
      ''unknown_data_type'', ''multiple_routines_require_lifecycle_mapping'',
      ''prescan_mapping_required'', ''postscan_mapping_required'',
      ''enable_in_false_mapping_required'', ''aoi_enable_interface_unavailable'',
      ''unknown_scan_mode_routine'']"

definition emission_complete :: "iec_emission \<Rightarrow> bool" where
  "emission_complete e = (\<not> list_ex (\<lambda>d. sd_code d \<in> set blocking_codes) (ie_diagnostics e))"

text \<open>The set of requirements is kept as a list; only its elements matter.\<close>

definition require :: "iec_requirement \<Rightarrow> emit_state \<Rightarrow> emit_state" where
  "require r s = s\<lparr>em_requirements := r # em_requirements s\<rparr>"

definition emit_diagnostic :: "string \<Rightarrow> string \<Rightarrow> source_span \<Rightarrow> emit_state \<Rightarrow> emit_state" where
  "emit_diagnostic c m sp s = s\<lparr>em_diagnostics := em_diagnostics s @ [STDiagnostic c m sp]\<rparr>"

definition sorted_requirements :: "iec_requirement list \<Rightarrow> iec_requirement list" where
  "sorted_requirements rs = sort (remdups rs)"

section \<open>Text helpers\<close>

definition emit_operator :: "string \<Rightarrow> string" where
  "emit_operator value =
     (let v = py_upper value
      in case map_of [(''&'', ''AND''), (''|'', ''OR''), (''^'', ''XOR'')] v of None \<Rightarrow> v | Some w \<Rightarrow> w)"

definition is_word_char :: "char \<Rightarrow> bool" where
  "is_word_char c = (py_isalnum c \<or> c = CHR ''_'')"

text \<open>\<open>re.sub(r"\W+", "_", s)\<close>: each maximal run of non-word characters becomes one underscore.\<close>

fun sub_non_word :: "bool \<Rightarrow> string \<Rightarrow> string" where
  "sub_non_word in_run [] = []"
| "sub_non_word in_run (c # cs) =
     (if is_word_char c then c # sub_non_word False cs
      else if in_run then sub_non_word True cs
      else CHR ''_'' # sub_non_word True cs)"

definition strip_char :: "char \<Rightarrow> string \<Rightarrow> string" where
  "strip_char c s = rev (dropWhile (\<lambda>x. x = c) (rev (dropWhile (\<lambda>x. x = c) s)))"

definition emit_identifier :: "string \<Rightarrow> string" where
  "emit_identifier value =
     (let cleaned = strip_char CHR ''_'' (sub_non_word False value)
      in if cleaned = [] then ''Operation'' else cleaned)"

definition comment_text :: "string \<Rightarrow> string" where
  "comment_text value =
     join '' '' (split_ws (replace2 CHR ''*'' CHR '')'' ([CHR ''*'', CHR '' '', CHR '')'']) value))"

text \<open>A block comment around a text.\<close>

definition comment :: "string \<Rightarrow> string" where
  "comment s = [CHR ''('', CHR ''*''] @ '' '' @ s @ '' '' @ [CHR ''*'', CHR '')'']"

definition indentation :: "nat \<Rightarrow> string" where
  "indentation n = concat (replicate n ''    '')"

definition newline_text :: string where
  "newline_text = [CHR 0x0A]"

section \<open>Expressions\<close>

fun emit_expr :: "st_dialect option \<Rightarrow> ir_expr \<Rightarrow> emit_state \<Rightarrow> string \<times> emit_state"
  and emit_exprs :: "st_dialect option \<Rightarrow> ir_expr list \<Rightarrow> emit_state \<Rightarrow> string list \<times> emit_state" where
  "emit_expr D (IRReference sp dt n) s = (n, s)"
| "emit_expr D (IRLiteral sp dt v) s = (v, s)"
| "emit_expr D (IRUnary sp dt op e) s =
     (let (x, s1) = emit_expr D e s in (op @ '' ('' @ x @ '')'', s1))"
| "emit_expr D (IRBinary sp dt l op r) s =
     (let (x, s1) = emit_expr D l s; (y, s2) = emit_expr D r s1
      in (''('' @ x @ '' '' @ emit_operator op @ '' '' @ y @ '')'', s2))"
| "emit_expr D (IRMember sp dt t m) s =
     (let (x, s1) = emit_expr D t s in (x @ ''.'' @ m, s1))"
| "emit_expr D (IRIndex sp dt t is op) s =
     (let (ys, s1) = emit_exprs D is s;
          indices = join '', '' ys
      in if op = ''.[]''
         then let (x, s2) = emit_expr D t (require RQ_DYNAMIC_BIT_ACCESS s1)
              in (''TF_BitAt('' @ x @ '', '' @ indices @ '')'', s2)
         else let (x, s2) = emit_expr D t s1 in (x @ ''['' @ indices @ '']'', s2))"
| "emit_expr D (IRArrayDimension sp dt a d) s =
     (let (x, s1) = emit_expr D a s; (y, s2) = emit_expr D d s1
      in case Option.bind D (\<lambda>dialect. di_array_dimension dialect x y) of
           Some rendered \<Rightarrow> (rendered, s2)
         | None \<Rightarrow> (''TF_ArrayDimension('' @ x @ '', '' @ y @ '')'', require RQ_ARRAY_DIMENSION s2))"
| "emit_expr D (IRCall sp dt op args adapter vn) s =
     (let s1 = (if adapter then require RQ_SOURCE_OPERATION_ADAPTER s else s);
          n = (if adapter then ''TF_'' @ emit_identifier op
               else if op = ''absolute_value'' then ''ABS'' else op);
          (ys, s2) = emit_exprs D args s1
      in (n @ ''('' @ join '', '' ys @ '')'', s2))"
| "emit_expr D (IRUnsupportedExpression sp dt src r) s =
     (''TF_UNSUPPORTED()'', emit_diagnostic ''unsupported_expression'' r sp s)"
| "emit_exprs D [] s = ([], s)"
| "emit_exprs D (e # es) s =
     (let (x, s1) = emit_expr D e s; (xs, s2) = emit_exprs D es s1 in (x # xs, s2))"

section \<open>Statements\<close>

text \<open>The comment that stands for a controller-object access.\<close>

definition object_comment ::
  "string \<Rightarrow> string \<Rightarrow> string \<Rightarrow> string \<Rightarrow> string \<Rightarrow> string \<Rightarrow> string" where
  "object_comment access object_class inst attribute arrow text =
     comment (''TwinForge target adapter required: '' @ access @ '' '' @ comment_text object_class @ ''/'' @
       comment_text inst @ ''/'' @ comment_text attribute @ '' '' @ arrow @ '' '' @ comment_text text)"

definition keyword_line :: "bool \<Rightarrow> string" where
  "keyword_line first = (if first then ''IF '' else ''ELSIF '')"

fun emit_stmt :: "st_dialect option \<Rightarrow> nat \<Rightarrow> ir_stmt \<Rightarrow> emit_state \<Rightarrow> string list \<times> emit_state"
  and emit_stmts :: "st_dialect option \<Rightarrow> nat \<Rightarrow> ir_stmt list \<Rightarrow> emit_state \<Rightarrow> string list \<times> emit_state"
  and emit_branches :: "st_dialect option \<Rightarrow> nat \<Rightarrow> bool \<Rightarrow> ir_branch list \<Rightarrow> emit_state \<Rightarrow>
        string list \<times> emit_state" where
  "emit_stmt D n (IRAssignment sp t v) s =
     (let (x, s1) = emit_expr D t s; (y, s2) = emit_expr D v s1
      in ([indentation n @ x @ '' := '' @ y @ '';''], s2))"
| "emit_stmt D n (IRCallStatement sp c) s =
     (let (x, s1) = emit_expr D c s in ([indentation n @ x @ '';''], s1))"
| "emit_stmt D n (IRWallClockRead sp d u) s =
     (let (x, s1) = emit_expr D d s
      in case Option.bind D (\<lambda>dialect. di_wall_clock_read dialect x u) of
           None \<Rightarrow> ([indentation n @ ''TF_WallClockRead('' @ x @ '');''], require RQ_WALL_CLOCK_READ s1)
         | Some ls \<Rightarrow> (map (\<lambda>l. indentation n @ l) ls, s1))"
| "emit_stmt D n (IRControllerObjectRead sp c i a d intent vn) s =
     (let (x, s1) = emit_expr D d (require RQ_CONTROLLER_OBJECT_ACCESS s)
      in ([indentation n @ object_comment ''read'' c i a ''->'' x], s1))"
| "emit_stmt D n (IRControllerObjectWrite sp c i a d intent vn) s =
     (let (x, s1) = emit_expr D d (require RQ_CONTROLLER_OBJECT_ACCESS s)
      in ([indentation n @ object_comment ''write'' c i a ''<-'' x], s1))"
| "emit_stmt D n (IRIf sp bs es) s =
     (let (xs, s1) = emit_branches D n True bs s; (ys, s2) = emit_stmts D (Suc n) es s1
      in (xs @ (if es = [] then [] else (indentation n @ ''ELSE'') # ys) @ [indentation n @ ''END_IF;''], s2))"
| "emit_stmt D n (IRWhile sp c body) s =
     (let (x, s1) = emit_expr D c s; (ys, s2) = emit_stmts D (Suc n) body s1
      in ((indentation n @ ''WHILE '' @ x @ '' DO'') # ys @ [indentation n @ ''END_WHILE;''], s2))"
| "emit_stmt D n (IRExit sp) s = ([indentation n @ ''EXIT;''], s)"
| "emit_stmt D n (IRUnsupportedStatement sp src r) s =
     ([indentation n @ comment (''TwinForge unsupported: '' @ comment_text src)],
      emit_diagnostic ''unsupported_statement'' r sp s)"
| "emit_stmts D n [] s = ([], s)"
| "emit_stmts D n (st # sts) s =
     (let (xs, s1) = emit_stmt D n st s; (ys, s2) = emit_stmts D n sts s1 in (xs @ ys, s2))"
| "emit_branches D n first [] s = ([], s)"
| "emit_branches D n first (IRIfBranch sp c body # bs) s =
     (let (x, s1) = emit_expr D c s; (ys, s2) = emit_stmts D (Suc n) body s1;
          (zs, s3) = emit_branches D n False bs s2
      in ((indentation n @ keyword_line first @ x @ '' THEN'') # ys @ zs, s3))"

section \<open>Declarations\<close>

text \<open>One dimension of \<open>data_type\<close>: its number of elements when the text is an integer.\<close>

definition dimension_bounds :: "string \<Rightarrow> string" where
  "dimension_bounds dimension =
     (case py_int dimension of None \<Rightarrow> ''0..0'' | Some n \<Rightarrow> ''0..'' @ nat_str (nat (max (n - 1) 0)))"

definition emit_data_type ::
  "string option \<Rightarrow> string option \<Rightarrow> emit_state \<Rightarrow> string \<times> emit_state" where
  "emit_data_type data_type dimensions s =
     (let (base, s1) = (case data_type of
            None \<Rightarrow> (''TF_UNRESOLVED_TYPE'',
              emit_diagnostic ''unknown_data_type'' ''declaration has no resolved data type'' no_place s)
          | Some t \<Rightarrow> (t, s))
      in case dimensions of
           None \<Rightarrow> (base, s1)
         | Some ds \<Rightarrow>
             (''ARRAY['' @ join '', '' (map dimension_bounds (split_on CHR '','' ds)) @ ''] OF '' @ base, s1))"

definition emit_parameter_type ::
  "st_dialect option \<Rightarrow> 'v ir_parameter \<Rightarrow> emit_state \<Rightarrow> string \<times> emit_state" where
  "emit_parameter_type D p s =
     (case ip_dimensions p of
        None \<Rightarrow> emit_data_type (ip_data_type p) None s
      | Some ds \<Rightarrow>
          let (element, s1) = emit_data_type (ip_data_type p) None s
          in if ip_generic_dimensions p
             then (''ARRAY['' @ join '', '' (map (\<lambda>x. ''*'') (split_on CHR '','' ds)) @ ''] OF '' @ element,
                   (case D of
                      None \<Rightarrow> require RQ_GENERIC_ARRAY_INTERFACE s1
                    | Some dialect \<Rightarrow>
                        if di_generic_array_interface dialect (ip_direction p) then s1
                        else require RQ_GENERIC_ARRAY_INTERFACE s1))
             else emit_data_type (ip_data_type p) (ip_dimensions p) s1)"

definition declaration_line :: "string \<Rightarrow> string \<Rightarrow> string" where
  "declaration_line n t = ''    '' @ n @ '' : '' @ t @ '';''"

fun emit_parameters ::
  "st_dialect option \<Rightarrow> 'v ir_parameter list \<Rightarrow> emit_state \<Rightarrow> string list \<times> emit_state" where
  "emit_parameters D [] s = ([], s)"
| "emit_parameters D (p # ps) s =
     (let (t, s1) = emit_parameter_type D p s; (ls, s2) = emit_parameters D ps s1
      in (declaration_line (ip_name p) t # ls, s2))"

definition parameter_groups :: "(ir_direction \<times> string) list" where
  "parameter_groups = [(DIR_INPUT, ''VAR_INPUT''), (DIR_OUTPUT, ''VAR_OUTPUT''),
                       (DIR_INOUT, ''VAR_IN_OUT''), (DIR_UNKNOWN, ''VAR'')]"

fun emit_groups ::
  "st_dialect option \<Rightarrow> 'v ir_parameter list \<Rightarrow> (ir_direction \<times> string) list \<Rightarrow> emit_state \<Rightarrow>
     string list \<times> emit_state" where
  "emit_groups D ps [] s = ([], s)"
| "emit_groups D ps ((dir, kw) # gs) s =
     (let members = filter (\<lambda>p. ip_direction p = dir) ps
      in if members = [] then emit_groups D ps gs s
         else let (ls, s1) = emit_parameters D members s; (ms, s2) = emit_groups D ps gs s1
              in (kw # ls @ ''END_VAR'' # ms, s2))"

definition emit_interface ::
  "st_dialect option \<Rightarrow> 'v ir_parameter list \<Rightarrow> emit_state \<Rightarrow> string list \<times> emit_state" where
  "emit_interface D ps = emit_groups D ps parameter_groups"

fun emit_variables :: "ir_variable list \<Rightarrow> emit_state \<Rightarrow> string list \<times> emit_state" where
  "emit_variables [] s = ([], s)"
| "emit_variables (v # vs) s =
     (let (t, s1) = emit_data_type (iv_data_type v) (iv_dimensions v) s; (ls, s2) = emit_variables vs s1
      in (declaration_line (iv_name v) t # ls, s2))"

section \<open>Routines and units\<close>

definition init_emitter :: emit_state where
  "init_emitter = \<lparr>em_diagnostics = [], em_requirements = []\<rparr>"

definition emit_iec_st_routine :: "ir_routine \<Rightarrow> st_dialect option \<Rightarrow> iec_emission" where
  "emit_iec_st_routine r D =
     (let (ls, s) = emit_stmts D 0 (ro_statements r) init_emitter
      in \<lparr>ie_text = join newline_text ls @ (if ls = [] then [] else newline_text),
          ie_diagnostics = ro_diagnostics r @ em_diagnostics s,
          ie_requirements = sorted_requirements (em_requirements s)\<rparr>)"

definition executable_routines :: "'v ir_unit \<Rightarrow> ir_routine list" where
  "executable_routines u = filter (\<lambda>r. ro_role r \<notin> lifecycle_roles) (iu_routines u)"

text \<open>The loop over the executable routines; \<open>several\<close> is \<open>len(executable_routines) > 1\<close>.\<close>

fun emit_routines ::
  "st_dialect option \<Rightarrow> bool \<Rightarrow> ir_routine list \<Rightarrow> emit_state \<Rightarrow> string list \<times> emit_state" where
  "emit_routines D several [] s = ([], s)"
| "emit_routines D several (r # rs) s =
     (let (ls, s1) = emit_stmts D 0 (ro_statements r) s; (ms, s2) = emit_routines D several rs s1
      in ((if several then [comment (''Routine: '' @ ro_name r)] else []) @ ls @
          (if rs = [] then [] else [[]]) @ ms, s2))"

definition unit_diagnostics :: "'v ir_unit \<Rightarrow> ir_diagnostic list" where
  "unit_diagnostics u =
     iu_diagnostics u @
     (if iu_kind u \<noteq> UK_FUNCTION_BLOCK
      then [STDiagnostic ''implementation_shape_adjusted''
              (''neutral IEC text uses FUNCTION_BLOCK to preserve the '' @
               ''captured multi-direction interface'') no_place] else []) @
     (if 1 < length (executable_routines u)
      then [STDiagnostic ''multiple_routines_require_lifecycle_mapping''
              (''multiple source routines require explicit execution-role '' @
               ''and lifecycle mapping before target emission'') no_place] else []) @
     concat (map ro_diagnostics (iu_routines u))"

definition emit_iec_st_unit :: "'v ir_unit \<Rightarrow> st_dialect option \<Rightarrow> iec_emission" where
  "emit_iec_st_unit u D =
     (let (interface, s1) = emit_interface D (iu_parameters u) init_emitter;
          (variables, s2) = emit_variables (iu_variables u) s1;
          routines = executable_routines u;
          (body, s3) = emit_routines D (1 < length routines) routines s2;
          ls = (''FUNCTION_BLOCK '' @ iu_name u) # interface @
               (if iu_variables u = [] then [] else ''VAR'' # variables @ [''END_VAR'']) @ body @
               [''END_FUNCTION_BLOCK'']
      in \<lparr>ie_text = join newline_text ls @ newline_text,
          ie_diagnostics = unit_diagnostics u @ em_diagnostics s3,
          ie_requirements = sorted_requirements (em_requirements s3)\<rparr>)"

end
