(* ===== verification/Emitter_Facts.thy ===== *)
theory Emitter_Facts imports IEC_Emitter Lowering_Facts "HOL-Library.Multiset" begin

text \<open>
  What the emitter promises: retained source in a comment cannot end the comment, every
  unsupported node of the tree and every declaration without a type has its diagnostic, so
  that a complete emission has none; and the requirements are listed once each, in order.
\<close>

section \<open>Comments\<close>

text \<open>The text has the two characters that end a block comment side by side.\<close>

fun closes :: "string \<Rightarrow> bool" where
  "closes (x # y # zs) = (x = CHR ''*'' \<and> y = CHR '')'' \<or> closes (y # zs))"
| "closes s = False"

lemma closes_Cons:
  "closes (x # ys) \<longleftrightarrow> (ys \<noteq> [] \<and> x = CHR ''*'' \<and> hd ys = CHR '')'') \<or> closes ys"
  by (cases ys) auto

lemma closes_append:
  "closes (xs @ ys) \<longleftrightarrow> closes xs \<or> closes ys \<or>
     (xs \<noteq> [] \<and> ys \<noteq> [] \<and> last xs = CHR ''*'' \<and> hd ys = CHR '')'')"
proof (induction xs)
  case (Cons x xs)
  then show ?case by (cases xs) (auto simp: closes_Cons [of _ ys])
qed simp

lemma replace2_hd: "replace2 a b r s \<noteq> [] \<Longrightarrow> r \<noteq> [] \<Longrightarrow> hd r = a \<Longrightarrow> hd (replace2 a b r s) = hd s"
  by (induction a b r s rule: replace2.induct) (auto simp: hd_append)

lemma replace2_close: "\<not> closes (replace2 CHR ''*'' CHR '')'' [CHR ''*'', CHR '' '', CHR '')''] s)"
proof (induction "CHR ''*''" "CHR '')''" "[CHR ''*'', CHR '' '', CHR '')'']" s rule: replace2.induct)
  case (1 x y zs)
  let ?r = "[CHR ''*'', CHR '' '', CHR '')'']"
  let ?rest = "replace2 CHR ''*'' CHR '')'' ?r (y # zs)"
  show ?case
  proof (cases "x = CHR ''*'' \<and> y = CHR '')''")
    case True
    with 1 show ?thesis by (auto simp: closes_append [of ?r, simplified])
  next
    case False
    have "?rest \<noteq> [] \<Longrightarrow> hd ?rest = y" using replace2_hd [of _ _ ?r "y # zs"] by simp
    with False 1 show ?thesis by (cases ?rest) auto
  qed
qed auto

lemma closes_split_ws_from:
  "\<not> closes (rev acc @ s) \<Longrightarrow> list_all (\<lambda>w. \<not> closes w) (split_ws_from acc s)"
proof (induction acc s rule: split_ws_from.induct)
  case (2 acc x xs)
  then show ?case by (auto simp: closes_append [of "rev acc"] closes_append [of "[x]", simplified])
qed auto

lemma closes_join_space: "list_all (\<lambda>w. \<not> closes w) ws \<Longrightarrow> \<not> closes (join '' '' ws)"
proof (induction "'' ''" ws rule: join.induct)
  case (3 x y ys)
  then show ?case by (auto simp: closes_append closes_append [of "'' ''", simplified])
qed auto

lemma comment_text_open: "\<not> closes (comment_text v)"
  unfolding comment_text_def split_ws_def
  by (intro closes_join_space closes_split_ws_from) (simp add: replace2_close)

lemma comment_closes_at_end:
  assumes "\<not> closes s"
  shows "\<not> closes (butlast (tl (tl (comment s))))"
proof -
  have "butlast (tl (tl (comment s))) = '' '' @ s @ '' '' @ ''*''"
    by (simp add: comment_def butlast_append)
  moreover have "\<not> closes ('' '' @ s @ '' '' @ ''*'')"
    using assms by (simp add: closes_append closes_append [of "'' ''", simplified])
  ultimately show ?thesis by simp
qed

section \<open>Diagnostics\<close>

text \<open>The places of the diagnostics with one code.\<close>

definition spans_of :: "string \<Rightarrow> ir_diagnostic list \<Rightarrow> source_span multiset" where
  "spans_of c ds = mset (map sd_span (filter (\<lambda>d. sd_code d = c) ds))"

text \<open>What a step of the emitter adds: one diagnostic for each unsupported node.\<close>

definition emits_diagnostics ::
  "source_span list \<Rightarrow> source_span list \<Rightarrow> emit_state \<Rightarrow> emit_state \<Rightarrow> bool" where
  "emits_diagnostics su ex s t =
     (\<exists>new. em_diagnostics t = em_diagnostics s @ new \<and>
        spans_of ''unsupported_statement'' new = mset su \<and>
        spans_of ''unsupported_expression'' new = mset ex \<and>
        list_all (\<lambda>d. sd_code d = ''unsupported_statement'' \<or> sd_code d = ''unsupported_expression'') new)"

lemma spans_of_append: "spans_of c (xs @ ys) = spans_of c xs + spans_of c ys"
  by (simp add: spans_of_def)

lemma emits_refl: "emits_diagnostics [] [] s s"
  by (simp add: emits_diagnostics_def spans_of_def)

lemma emits_trans:
  assumes "emits_diagnostics su ex s t" "emits_diagnostics tu ey t u"
  shows "emits_diagnostics (su @ tu) (ex @ ey) s u"
proof -
  obtain n1 n2 where
    "em_diagnostics t = em_diagnostics s @ n1" "spans_of ''unsupported_statement'' n1 = mset su"
    "spans_of ''unsupported_expression'' n1 = mset ex"
    "list_all (\<lambda>d. sd_code d = ''unsupported_statement'' \<or> sd_code d = ''unsupported_expression'') n1"
    "em_diagnostics u = em_diagnostics t @ n2" "spans_of ''unsupported_statement'' n2 = mset tu"
    "spans_of ''unsupported_expression'' n2 = mset ey"
    "list_all (\<lambda>d. sd_code d = ''unsupported_statement'' \<or> sd_code d = ''unsupported_expression'') n2"
    using assms unfolding emits_diagnostics_def by blast
  then show ?thesis
    unfolding emits_diagnostics_def by (intro exI [of _ "n1 @ n2"]) (simp add: spans_of_append)
qed

lemma emits_perm:
  "emits_diagnostics su ex s t \<Longrightarrow> mset su = mset tu \<Longrightarrow> mset ex = mset ey \<Longrightarrow> emits_diagnostics tu ey s t"
  by (simp add: emits_diagnostics_def)

lemma emits_require [simp]:
  "emits_diagnostics su ex (require r s) t = emits_diagnostics su ex s t"
  "emits_diagnostics su ex s (require r t) = emits_diagnostics su ex s t"
  by (simp_all add: emits_diagnostics_def require_def)

lemma emits_expression: "emits_diagnostics [] [sp] s (emit_diagnostic ''unsupported_expression'' r sp s)"
  and emits_statement: "emits_diagnostics [sp] [] s (emit_diagnostic ''unsupported_statement'' r sp s)"
  by (simp_all add: emits_diagnostics_def emit_diagnostic_def spans_of_def)

lemma emit_expr_emits:
  "emits_diagnostics [] (unsupported_parts e) s (snd (emit_expr D e s))"
  "emits_diagnostics [] (concat (map unsupported_parts es)) s (snd (emit_exprs D es s))"
proof (induction D e s and D es s rule: emit_expr_emit_exprs.induct)
  case (4 D sp dt l op r s)
  then show ?case using emits_trans [of "[]" _ s _ "[]"] by (auto split: prod.splits)
next
  case (6 D sp dt t "is" op s)
  obtain ys s1 where ys: "emit_exprs D is s = (ys, s1)" by force
  let ?t = "if op = ''.[]'' then require RQ_DYNAMIC_BIT_ACCESS s1 else s1"
  have "emits_diagnostics [] (concat (map unsupported_parts is) @ unsupported_parts t) s
      (snd (emit_expr D t ?t))"
    using 6 ys emits_trans [of "[]" _ s s1 "[]"] by (auto split: if_splits)
  then show ?case using ys
    by (auto simp: case_prod_beta Let_def intro: emits_perm)
next
  case (7 D sp dt a d s)
  then show ?case using emits_trans [of "[]" _ s _ "[]"]
    by (auto split: prod.splits option.splits)
next
  case (11 D e es s)
  then show ?case using emits_trans [of "[]" _ s _ "[]"] by (auto split: prod.splits)
qed (auto simp: emits_refl emits_expression split: prod.splits)

lemma emit_stmt_emits:
  "emits_diagnostics (unsupported_stmts st) (unsupported_exprs st) s (snd (emit_stmt D n st s))"
  "emits_diagnostics (concat (map unsupported_stmts sts)) (concat (map unsupported_exprs sts)) s
     (snd (emit_stmts D n sts s))"
  "emits_diagnostics (concat (map unsupported_stmts_branch bs)) (concat (map unsupported_exprs_branch bs)) s
     (snd (emit_branches D n first bs s))"
proof (induction D n st s and D n sts s and D n first bs s rule: emit_stmt_emit_stmts_emit_branches.induct)
  case (1 D n sp t v s)
  show ?case using emits_trans [OF emit_expr_emits(1) emit_expr_emits(1)]
    by (simp add: case_prod_beta Let_def)
next
  case (2 D n sp c s)
  show ?case using emit_expr_emits(1) by (simp add: case_prod_beta Let_def)
next
  case (3 D n sp d u s)
  show ?case using emit_expr_emits(1) by (auto simp: case_prod_beta Let_def split: option.splits)
next
  case (4 D n sp c i a d intent vn s)
  show ?case using emit_expr_emits(1) [of d "require RQ_CONTROLLER_OBJECT_ACCESS s" D] by (simp add: case_prod_beta Let_def)
next
  case (5 D n sp c i a d intent vn s)
  show ?case using emit_expr_emits(1) [of d "require RQ_CONTROLLER_OBJECT_ACCESS s" D] by (simp add: case_prod_beta Let_def)
next
  case (6 D n sp bs es s)
  show ?case using emits_trans [OF 6(1) 6(2) [OF refl prod.collapse]]
    by (simp add: case_prod_beta Let_def)
next
  case (7 D n sp c body s)
  show ?case using emits_trans [OF emit_expr_emits(1) 7 [OF refl prod.collapse]]
    by (simp add: case_prod_beta Let_def)
next
  case (11 D n st sts s)
  show ?case using emits_trans [OF 11(1) 11(2) [OF refl prod.collapse]]
    by (simp add: case_prod_beta Let_def)
next
  case (13 D n first sp c body bs s)
  show ?case
    using emits_trans [OF emit_expr_emits(1) emits_trans [OF 13(1) [OF refl prod.collapse]
      13(2) [OF refl prod.collapse refl prod.collapse]]]
    by (simp add: case_prod_beta Let_def)
qed (auto simp: emits_refl emits_statement)

lemma emit_routines_emits:
  "emits_diagnostics (concat (map unsupported_stmts (concat (map ro_statements rs))))
     (concat (map unsupported_exprs (concat (map ro_statements rs)))) s
     (snd (emit_routines D several rs s))"
proof (induction D several rs s rule: emit_routines.induct)
  case (2 D several r rs s)
  show ?case using emits_trans [OF emit_stmt_emits(2) 2 [OF refl prod.collapse]]
    by (simp add: case_prod_beta Let_def)
qed (simp add: emits_refl)

text \<open>What a step over declarations adds: nothing exactly when every type is known.\<close>

definition emits_types :: "bool \<Rightarrow> emit_state \<Rightarrow> emit_state \<Rightarrow> bool" where
  "emits_types known s t =
     (\<exists>new. em_diagnostics t = em_diagnostics s @ new \<and> (new = [] \<longleftrightarrow> known) \<and>
        list_all (\<lambda>d. sd_code d = ''unknown_data_type'') new)"

lemma emits_types_refl: "emits_types True s s"
  by (simp add: emits_types_def)

lemma emits_types_trans:
  assumes "emits_types a s t" "emits_types b t u"
  shows "emits_types (a \<and> b) s u"
proof -
  obtain n1 n2 where
    "em_diagnostics t = em_diagnostics s @ n1" "n1 = [] \<longleftrightarrow> a"
    "list_all (\<lambda>d. sd_code d = ''unknown_data_type'') n1"
    "em_diagnostics u = em_diagnostics t @ n2" "n2 = [] \<longleftrightarrow> b"
    "list_all (\<lambda>d. sd_code d = ''unknown_data_type'') n2"
    using assms unfolding emits_types_def by blast
  then show ?thesis unfolding emits_types_def by (intro exI [of _ "n1 @ n2"]) simp
qed

lemma emits_types_require [simp]:
  "emits_types k s (require r t) = emits_types k s t"
  by (simp add: emits_types_def require_def)

lemma emit_data_type_types: "emits_types (t \<noteq> None) s (snd (emit_data_type t ds s))"
  by (auto simp: emit_data_type_def emits_types_def emit_diagnostic_def split: option.splits)

lemma emit_parameter_type_types: "emits_types (ip_data_type p \<noteq> None) s (snd (emit_parameter_type D p s))"
  using emits_types_trans [OF emit_data_type_types [of "ip_data_type p" s None]
      emit_data_type_types [of "ip_data_type p" _ "ip_dimensions p"]]
    emit_data_type_types [of "ip_data_type p" s None]
  by (auto simp: emit_parameter_type_def case_prod_beta Let_def split: option.splits simp del: not_None_eq)

lemma emit_parameters_types:
  "emits_types (\<forall>p \<in> set ps. ip_data_type p \<noteq> None) s (snd (emit_parameters D ps s))"
proof (induction D ps s rule: emit_parameters.induct)
  case (2 D p ps s)
  show ?case using emits_types_trans [OF emit_parameter_type_types 2 [OF refl prod.collapse]]
    by (simp add: case_prod_beta Let_def)
qed (simp add: emits_types_refl)

lemma emit_variables_types:
  "emits_types (\<forall>v \<in> set vs. iv_data_type v \<noteq> None) s (snd (emit_variables vs s))"
proof (induction vs s rule: emit_variables.induct)
  case (2 v vs s)
  show ?case using emits_types_trans [OF emit_data_type_types 2 [OF refl prod.collapse]]
    by (simp add: case_prod_beta Let_def)
qed (simp add: emits_types_refl)

lemma emit_groups_types:
  "emits_types (\<forall>p \<in> set ps. ip_direction p \<in> fst ` set gs \<longrightarrow> ip_data_type p \<noteq> None) s
     (snd (emit_groups D ps gs s))"
proof (induction D ps gs s rule: emit_groups.induct)
  case (2 D ps dir kw gs s)
  let ?m = "filter (\<lambda>p. ip_direction p = dir) ps"
  show ?case
  proof (cases "?m = []")
    case True
    then have "\<forall>p \<in> set ps. ip_direction p \<noteq> dir" by (simp add: filter_empty_conv)
    then have eq: "(\<forall>p \<in> set ps. ip_direction p \<in> fst ` set ((dir, kw) # gs) \<longrightarrow> ip_data_type p \<noteq> None) =
      (\<forall>p \<in> set ps. ip_direction p \<in> fst ` set gs \<longrightarrow> ip_data_type p \<noteq> None)" by auto
    show ?thesis using 2(1) [OF refl True] unfolding eq using True by simp
  next
    case False
    have eq: "(\<forall>p \<in> set ps. ip_direction p \<in> fst ` set ((dir, kw) # gs) \<longrightarrow> ip_data_type p \<noteq> None) =
      ((\<forall>p \<in> set ?m. ip_data_type p \<noteq> None) \<and>
       (\<forall>p \<in> set ps. ip_direction p \<in> fst ` set gs \<longrightarrow> ip_data_type p \<noteq> None))" by auto
    show ?thesis unfolding eq
      using emits_types_trans [OF emit_parameters_types [of ?m s D] 2(2) [OF refl False refl prod.collapse]] False
      by (simp add: case_prod_beta Let_def del: not_None_eq set_filter)
  qed
qed (simp add: emits_types_refl)

lemma emit_interface_types:
  "emits_types (\<forall>p \<in> set ps. ip_data_type p \<noteq> None) s (snd (emit_interface D ps s))"
proof -
  have "fst ` set parameter_groups = UNIV"
    using ir_direction.exhaust by (auto simp: parameter_groups_def)
  then show ?thesis using emit_groups_types [of ps parameter_groups s D] by (simp add: emit_interface_def)
qed

section \<open>Whole units\<close>

lemma emits_diagnostics_blocking:
  assumes "emits_diagnostics su ex s t"
  shows "\<exists>new. em_diagnostics t = em_diagnostics s @ new \<and>
     (list_ex (\<lambda>d. sd_code d \<in> set blocking_codes) new \<longleftrightarrow> su \<noteq> [] \<or> ex \<noteq> [])"
proof -
  obtain new where new: "em_diagnostics t = em_diagnostics s @ new"
    "spans_of ''unsupported_statement'' new = mset su" "spans_of ''unsupported_expression'' new = mset ex"
    "list_all (\<lambda>d. sd_code d = ''unsupported_statement'' \<or> sd_code d = ''unsupported_expression'') new"
    using assms unfolding emits_diagnostics_def by blast
  have "list_ex (\<lambda>d. sd_code d \<in> set blocking_codes) new \<longleftrightarrow> new \<noteq> []"
    using new(4) by (cases new) (auto simp: blocking_codes_def)
  also have "\<dots> \<longleftrightarrow> spans_of ''unsupported_statement'' new \<noteq> {#} \<or> spans_of ''unsupported_expression'' new \<noteq> {#}"
    using new(4) by (cases new) (auto simp: spans_of_def)
  finally show ?thesis using new(1-3) by auto
qed

lemma emits_types_blocking:
  assumes "emits_types known s t"
  shows "\<exists>new. em_diagnostics t = em_diagnostics s @ new \<and>
     (list_ex (\<lambda>d. sd_code d \<in> set blocking_codes) new \<longleftrightarrow> \<not> known)"
proof -
  obtain new where "em_diagnostics t = em_diagnostics s @ new" "new = [] \<longleftrightarrow> known"
    "list_all (\<lambda>d. sd_code d = ''unknown_data_type'') new"
    using assms unfolding emits_types_def by blast
  then show ?thesis by (cases new) (auto simp: blocking_codes_def)
qed

text \<open>The statements of a unit that are emitted.\<close>

definition emitted_statements :: "'v ir_unit \<Rightarrow> ir_stmt list" where
  "emitted_statements u = concat (map ro_statements (executable_routines u))"

lemma unit_diagnostics_blocking:
  "list_ex (\<lambda>d. sd_code d \<in> set blocking_codes) (unit_diagnostics u) \<longleftrightarrow>
     list_ex (\<lambda>d. sd_code d \<in> set blocking_codes) (iu_diagnostics u) \<or>
     1 < length (executable_routines u) \<or>
     list_ex (\<lambda>d. sd_code d \<in> set blocking_codes) (concat (map ro_diagnostics (iu_routines u)))"
  by (auto simp: unit_diagnostics_def blocking_codes_def)

text \<open>
  C16. A complete emission is exactly one nothing was lost in: the emission of a unit counts as
  complete if and only if the unit and its routines carried no blocking diagnostic, at most one
  routine is executable, no emitted statement or expression, at any depth, is an unsupported
  node, and every parameter and variable has a data type. The dialect plays no part in it.
\<close>

theorem emission_complete_iff:
  "emission_complete (emit_iec_st_unit u D) \<longleftrightarrow>
     \<not> list_ex (\<lambda>d. sd_code d \<in> set blocking_codes) (iu_diagnostics u) \<and>
     \<not> list_ex (\<lambda>d. sd_code d \<in> set blocking_codes) (concat (map ro_diagnostics (iu_routines u))) \<and>
     length (executable_routines u) \<le> 1 \<and>
     concat (map unsupported_stmts (emitted_statements u)) = [] \<and>
     concat (map unsupported_exprs (emitted_statements u)) = [] \<and>
     None \<notin> ip_data_type ` set (iu_parameters u) \<and> None \<notin> iv_data_type ` set (iu_variables u)"
proof -
  let ?b = "list_ex (\<lambda>d. sd_code d \<in> set blocking_codes)"
  obtain i s1 where i: "emit_interface D (iu_parameters u) init_emitter = (i, s1)" by force
  obtain v s2 where v: "emit_variables (iu_variables u) s1 = (v, s2)" by force
  obtain b s3 where b: "emit_routines D (1 < length (executable_routines u)) (executable_routines u) s2 = (b, s3)"
    by force
  obtain n1 where n1: "em_diagnostics s1 = em_diagnostics init_emitter @ n1"
    "?b n1 \<longleftrightarrow> \<not> (\<forall>p \<in> set (iu_parameters u). ip_data_type p \<noteq> None)"
    using emits_types_blocking [OF emit_interface_types [of "iu_parameters u" init_emitter D]] i by auto
  obtain n2 where n2: "em_diagnostics s2 = em_diagnostics s1 @ n2"
    "?b n2 \<longleftrightarrow> \<not> (\<forall>x \<in> set (iu_variables u). iv_data_type x \<noteq> None)"
    using emits_types_blocking [OF emit_variables_types [of "iu_variables u" s1]] v by auto
  obtain n3 where n3: "em_diagnostics s3 = em_diagnostics s2 @ n3"
    "?b n3 \<longleftrightarrow> concat (map unsupported_stmts (emitted_statements u)) \<noteq> [] \<or>
       concat (map unsupported_exprs (emitted_statements u)) \<noteq> []"
    using emits_diagnostics_blocking [OF emit_routines_emits [of "executable_routines u" s2 D
      "1 < length (executable_routines u)"]] b unfolding emitted_statements_def by (simp only: snd_conv) blast
  have known: "(\<forall>p \<in> set (iu_parameters u). ip_data_type p \<noteq> None) \<longleftrightarrow> None \<notin> ip_data_type ` set (iu_parameters u)"
    "(\<forall>x \<in> set (iu_variables u). iv_data_type x \<noteq> None) \<longleftrightarrow> None \<notin> iv_data_type ` set (iu_variables u)"
    by (auto simp: image_iff) (metis not_Some_eq)+
  have "ie_diagnostics (emit_iec_st_unit u D) = unit_diagnostics u @ n1 @ n2 @ n3"
    using i v b n1(1) n2(1) n3(1) by (simp add: emit_iec_st_unit_def init_emitter_def Let_def)
  then have "emission_complete (emit_iec_st_unit u D) \<longleftrightarrow>
      \<not> ?b (unit_diagnostics u) \<and> \<not> ?b n1 \<and> \<not> ?b n2 \<and> \<not> ?b n3"
    by (simp add: emission_complete_def)
  then show ?thesis
    unfolding unit_diagnostics_blocking n1(2) n2(2) n3(2) known by (simp add: not_less) blast
qed

end
