(* ===== verification/Emission_Readback.thy ===== *)
theory Emission_Readback imports Emitter_Facts Token_Stream begin

text \<open>
  The emitter and the lexer together: the comment in which the emitter keeps source text it
  cannot express is read by the lexer of the same program as one comment, whatever the text.
\<close>

section \<open>A comment read back\<close>

lemma advance_while_upto:
  assumes "lx_position s \<le> k" "k \<le> length (lx_source s)"
    and "\<And>u. lx_source u = lx_source s \<Longrightarrow> lx_position s \<le> lx_position u \<Longrightarrow> lx_position u < k \<Longrightarrow> P u"
    and "\<And>u. lx_source u = lx_source s \<Longrightarrow> lx_position u = k \<Longrightarrow> \<not> P u"
  shows "lx_position (advance_while P s) = k \<and> lx_source (advance_while P s) = lx_source s \<and>
     lx_tokens (advance_while P s) = lx_tokens s \<and> lx_diagnostics (advance_while P s) = lx_diagnostics s"
  using assms
proof (induction P s rule: advance_while.induct)
  case (1 P s)
  show ?case
  proof (cases "lx_position s < k")
    case True
    then have c: "\<not> at_end s \<and> P s" using "1.prems" by (simp add: at_end_def)
    have "lx_position (advance_while P (advance s)) = k \<and>
        lx_source (advance_while P (advance s)) = lx_source (advance s) \<and>
        lx_tokens (advance_while P (advance s)) = lx_tokens (advance s) \<and>
        lx_diagnostics (advance_while P (advance s)) = lx_diagnostics (advance s)"
      using True "1.prems" by (intro "1.IH" [OF c]) auto
    then show ?thesis using c by (subst (1 2 3 4) advance_while.simps) simp
  next
    case False
    then have "\<not> P s" "lx_position s = k" using "1.prems" by auto
    then show ?thesis by (subst (1 2 3 4) advance_while.simps) simp
  qed
qed

lemma looking_at_closing:
  assumes "\<not> closes (m @ ''*'')"
    and "lx_source u = pre @ [CHR ''('', CHR ''*''] @ m @ [CHR ''*'', CHR '')'']"
    and "length pre + 2 \<le> lx_position u" "lx_position u < length pre + 2 + length m"
  shows "\<not> looking_at [CHR ''*'', CHR '')''] u"
proof
  let ?d = "drop (lx_position u - (length pre + 2)) m"
  have "drop (lx_position u) (lx_source u) = drop (lx_position u - (length pre + 2)) (m @ [CHR ''*'', CHR '')''])"
    using assms(2,3) by (simp add: drop_Cons' numeral_2_eq_2)
  also have "\<dots> = ?d @ [CHR ''*'', CHR '')'']" using assms(4) by simp
  finally have drop: "drop (lx_position u) (lx_source u) = ?d @ [CHR ''*'', CHR '')'']" .
  assume "looking_at [CHR ''*'', CHR '')''] u"
  then have sw: "startswith [CHR ''*'', CHR '')''] (?d @ [CHR ''*'', CHR '')''])" by (simp only: looking_at_def drop)
  have "?d \<noteq> []" using assms(3,4) by auto
  with sw have "closes (?d @ ''*'')" by (cases ?d rule: closes.cases) auto
  then have "closes ((take (lx_position u - (length pre + 2)) m @ ?d) @ ''*'')"
    unfolding append.assoc by (subst closes_append) simp
  with assms(1) show False by simp
qed

lemma advance_power [simp]:
  "lx_source ((advance ^^ n) s) = lx_source s" "lx_tokens ((advance ^^ n) s) = lx_tokens s"
  "lx_diagnostics ((advance ^^ n) s) = lx_diagnostics s"
  "lx_position ((advance ^^ n) s) = lx_position s + n"
  by (induction n) simp_all

text \<open>The token of the text between two positions, as far as kind and text go.\<close>

definition reads_token :: "lex_state \<Rightarrow> token_kind \<Rightarrow> string \<Rightarrow> lex_state \<Rightarrow> bool" where
  "reads_token s k t s' =
     (lx_source s' = lx_source s \<and> lx_position s' = lx_position s + length t \<and>
      lx_diagnostics s' = lx_diagnostics s \<and>
      map tok_kind (lx_tokens s') = map tok_kind (lx_tokens s) @ [k] \<and>
      map tok_text (lx_tokens s') = map tok_text (lx_tokens s) @ [t])"

lemma reads_token_append:
  assumes "lx_source u = lx_source s" "lx_position u = lx_position s + length t"
    "lx_diagnostics u = lx_diagnostics s" "lx_tokens u = lx_tokens s" "lx_source s = pre @ t @ post" "lx_position s = length pre"
  shows "reads_token s k t (append_token k (lx_position s) l c u)"
  using assms by (simp add: reads_token_def append_token_def slice_def)

lemma comment_token:
  assumes "\<not> closes s" "lx_source st = pre @ comment s" "lx_position st = length pre"
  shows "reads_token st TK_COMMENT (comment s) (next_token st)"
proof -
  let ?m = "'' '' @ s @ '' ''" and ?close = "[CHR ''*'', CHR '')'']"
  let ?body = "advance_while (\<lambda>u. \<not> looking_at ?close u) ((advance ^^ 2) st)"
  have src: "comment s = [CHR ''('', CHR ''*''] @ ?m @ ?close" by (simp add: comment_def)
  have open_m: "\<not> closes (?m @ ''*'')" using assms(1) by (simp add: closes_append closes_append [of "'' ''", simplified])
  have "lx_position ?body = length pre + 2 + length ?m \<and> lx_source ?body = lx_source ((advance ^^ 2) st) \<and>
      lx_tokens ?body = lx_tokens ((advance ^^ 2) st) \<and> lx_diagnostics ?body = lx_diagnostics ((advance ^^ 2) st)"
  proof (rule advance_while_upto)
    fix u :: lex_state assume "lx_source u = lx_source ((advance ^^ 2) st)"
      "lx_position ((advance ^^ 2) st) \<le> lx_position u" "lx_position u < length pre + 2 + length ?m"
    then show "\<not> looking_at ?close u"
      by (intro looking_at_closing [OF open_m, of _ pre]) (simp_all add: src assms)
  next
    fix u :: lex_state assume "lx_source u = lx_source ((advance ^^ 2) st)" "lx_position u = length pre + 2 + length ?m"
    then show "\<not> \<not> looking_at ?close u" by (simp add: src assms looking_at_def eval_nat_numeral)
  qed (simp_all add: src assms)
  then have body: "lx_position ?body = length pre + 2 + length ?m" "lx_source ?body = lx_source st"
    "lx_tokens ?body = lx_tokens st" "lx_diagnostics ?body = lx_diagnostics st" by simp_all
  have look: "looking_at ?close ?body" using body by (simp add: looking_at_def src assms eval_nat_numeral)
  have "\<not> py_isspace CHR ''(''" by code_simp
  then have "next_token st = block_comment [CHR ''('', CHR ''*''] ?close st"
    by (simp add: next_token_def current_char_def looking_at_def assms comment_def Let_def nth_append)
  also have "\<dots> = append_token TK_COMMENT (lx_position st) (lx_line st) (lx_column st) ((advance ^^ 2) ?body)"
    using look by (simp add: block_comment_def numeral_2_eq_2)
  finally have "next_token st = append_token TK_COMMENT (lx_position st) (lx_line st) (lx_column st) ((advance ^^ 2) ?body)" .
  moreover have "reads_token st TK_COMMENT (comment s)
      (append_token TK_COMMENT (lx_position st) (lx_line st) (lx_column st) ((advance ^^ 2) ?body))"
    using body by (intro reads_token_append [of _ _ _ pre "[]"]) (simp_all add: assms comment_def)
  ultimately show ?thesis by simp
qed

lemma space_token:
  assumes "pre \<noteq> []" "list_all py_isspace pre" "\<not> py_isspace c" "lx_source st = pre @ c # post" "lx_position st = 0"
  shows "reads_token st TK_WHITESPACE pre (next_token st)"
proof -
  let ?body = "advance_while (\<lambda>u. py_isspace (current_char u)) st"
  have "lx_position ?body = length pre \<and> lx_source ?body = lx_source st \<and> lx_tokens ?body = lx_tokens st \<and>
      lx_diagnostics ?body = lx_diagnostics st"
  proof (rule advance_while_upto)
    fix u :: lex_state assume "lx_source u = lx_source st" "lx_position u < length pre"
    then show "py_isspace (current_char u)" using assms(2,4) by (simp add: current_char_def nth_append list_all_length)
  next
    fix u :: lex_state assume "lx_source u = lx_source st" "lx_position u = length pre"
    then show "\<not> py_isspace (current_char u)" using assms(3,4) by (simp add: current_char_def)
  qed (simp_all add: assms)
  moreover have "py_isspace (current_char st)" using assms(1,2,4,5) by (cases pre) (simp_all add: current_char_def)
  then have "next_token st = append_token TK_WHITESPACE (lx_position st) (lx_line st) (lx_column st) ?body"
    by (simp add: next_token_def consume_while_def)
  ultimately show ?thesis
    using reads_token_append [of ?body st pre "[]" "c # post" TK_WHITESPACE "lx_line st" "lx_column st"] assms(4,5) by simp
qed

lemma lex_comment:
  assumes "\<not> closes s" "list_all py_isspace pre"
  defines "src \<equiv> pre @ comment s"
  shows "map tok_kind (fst (lex_structured_text src)) = (if pre = [] then [] else [TK_WHITESPACE]) @ [TK_COMMENT, TK_END_OF_FILE] \<and>
     map tok_text (fst (lex_structured_text src)) = (if pre = [] then [] else [pre]) @ [comment s, []] \<and>
     snd (lex_structured_text src) = []"
proof -
  have final: "map tok_kind (fst (lex_structured_text src)) = map tok_kind (lx_tokens st) @ [TK_COMMENT, TK_END_OF_FILE] \<and>
      map tok_text (fst (lex_structured_text src)) = map tok_text (lx_tokens st) @ [comment s, []] \<and>
      snd (lex_structured_text src) = lx_diagnostics st"
    if "lex_loop (init_lexer src) = lex_loop st" "lx_source st = src" "lx_position st = length pre" for st
  proof -
    have r: "reads_token st TK_COMMENT (comment s) (next_token st)"
      using that by (intro comment_token [OF assms(1)]) (simp_all add: src_def)
    have "\<not> at_end st" using that by (simp add: at_end_def src_def comment_def)
    moreover have "at_end (next_token st)" using r that by (simp add: reads_token_def at_end_def src_def)
    ultimately have "lex_loop st = next_token st"
      using lex_loop.simps [of st] lex_loop.simps [of "next_token st"] by presburger
    with that(1) r show ?thesis by (simp add: lex_structured_text_def reads_token_def Let_def)
  qed
  have init: "lx_source (init_lexer src) = src" "lx_position (init_lexer src) = 0" "lx_tokens (init_lexer src) = []"
    "lx_diagnostics (init_lexer src) = []"
    by (simp_all add: init_lexer_def)
  show ?thesis
  proof (cases "pre = []")
    case True
    with final [OF refl] init show ?thesis by simp
  next
    case False
    have "\<not> py_isspace CHR ''(''" by code_simp
    moreover have "lx_source (init_lexer src) = pre @ CHR ''('' # tl (comment s)"
      unfolding init by (simp add: src_def comment_def)
    ultimately have r: "reads_token (init_lexer src) TK_WHITESPACE pre (next_token (init_lexer src))"
      using init(2) by (rule space_token [OF False assms(2)])
    have "\<not> at_end (init_lexer src)" unfolding at_end_def init using False by (simp add: src_def)
    then have "lex_loop (init_lexer src) = lex_loop (next_token (init_lexer src))"
      using lex_loop.simps [of "init_lexer src"] by presburger
    from final [OF this] r init False show ?thesis by (simp add: reads_token_def)
  qed
qed

lemma indentation_space: "list_all py_isspace (indentation n)" "indentation n = [] \<longleftrightarrow> n = 0"
proof -
  have "list_all py_isspace ''    ''" by code_simp
  then show "list_all py_isspace (indentation n)" by (auto simp: indentation_def list_all_iff)
  show "indentation n = [] \<longleftrightarrow> n = 0" by (cases n) (simp_all add: indentation_def)
qed

text \<open>
  C17. Retained source text cannot escape: whatever text a statement kept as unsupported has,
  comment terminators, line breaks and unbalanced quotes included, and at whatever depth it stands,
  the line emitted for it is its indentation and one block comment; read by the lexer of the same
  program it is one white space token for the indentation, absent at depth zero, one comment token with exactly the
  emitted comment as its text, and the end marker, with no diagnostic.
\<close>

theorem unsupported_text_stays_comment:
  "let kept = comment (''TwinForge unsupported: '' @ comment_text src);
       line = indentation n @ kept;
       (tokens, diagnostics) = lex_structured_text line
   in emit_stmt D n (IRUnsupportedStatement sp src r) s = ([line], emit_diagnostic ''unsupported_statement'' r sp s) \<and>
      map tok_kind tokens = (if n = 0 then [] else [TK_WHITESPACE]) @ [TK_COMMENT, TK_END_OF_FILE] \<and>
      map tok_text tokens = (if n = 0 then [] else [indentation n]) @ [kept, []] \<and> diagnostics = []"
proof -
  have "\<not> closes (''TwinForge unsupported: '' @ comment_text src)"
    using comment_text_open [of src] by (simp add: closes_append [of "''TwinForge unsupported: ''", simplified])
  from lex_comment [OF this indentation_space(1) [of n]] show ?thesis
    by (simp add: indentation_space(2) split_beta Let_def)
qed

end
