(* ===== verification/Codesys_Adapter.thy ===== *)
theory Codesys_Adapter imports IEC_Emitter begin

text \<open>
  The CODESYS rendering of executable IR, \<open>exporters/codesys_st.py\<close>: the dialect, and the
  adaptation of a unit whose clock reads can fail on the target.
\<close>

section \<open>The dialect\<close>

definition codesys_array_dimension :: "string \<Rightarrow> string \<Rightarrow> string" where
  "codesys_array_dimension array dimension =
     (let target_dimension = ''('' @ dimension @ '' + 1)''
      in ''((UPPER_BOUND('' @ array @ '', '' @ target_dimension @ '') - '' @
         ''LOWER_BOUND('' @ array @ '', '' @ target_dimension @ '')) + 1)'')"

definition codesys_wall_clock_read :: "string \<Rightarrow> string \<Rightarrow> string list option" where
  "codesys_wall_clock_read destination timestamp_unit =
     (if timestamp_unit \<noteq> ''microseconds'' then None
      else Some
        [''tfWallClockResult := '' @ ''SysTimeRtcHighResGet(tfWallClockMilliseconds);'',
         ''IF tfWallClockResult = 0 THEN'',
         ''    '' @ destination @ '' := '' @ ''ULINT_TO_LINT(tfWallClockMilliseconds * ULINT#1000);'',
         ''END_IF;''])"

definition codesys_dialect :: st_dialect where
  "codesys_dialect =
     \<lparr>di_array_dimension = (\<lambda>array dimension. Some (codesys_array_dimension array dimension)),
      di_generic_array_interface = (\<lambda>direction. direction = DIR_INOUT),
      di_wall_clock_read = codesys_wall_clock_read\<rparr>"

section \<open>The adaptation\<close>

fun has_wall_clock_read :: "ir_stmt \<Rightarrow> bool" and branch_has_wall_clock_read :: "ir_branch \<Rightarrow> bool" where
  "has_wall_clock_read (IRWallClockRead sp d u) = True"
| "has_wall_clock_read (IRIf sp bs es) =
     (list_ex branch_has_wall_clock_read bs \<or> list_ex has_wall_clock_read es)"
| "has_wall_clock_read (IRWhile sp c body) = list_ex has_wall_clock_read body"
| "has_wall_clock_read st = False"
| "branch_has_wall_clock_read (IRIfBranch sp c body) = list_ex has_wall_clock_read body"

definition clock_condition :: "source_span \<Rightarrow> ir_expr" where
  "clock_condition sp =
     IRBinary sp (Some ''BOOL'') (IRReference sp (Some ''SysTypes.RTS_IEC_RESULT'') ''tfWallClockResult'') ''=''
       (IRLiteral sp (Some ''DINT'') ''0'')"

text \<open>The guard after a clock read at \<open>sp\<close>.\<close>

definition clock_guard :: "source_span \<Rightarrow> ir_stmt list \<Rightarrow> ir_stmt list \<Rightarrow> ir_stmt" where
  "clock_guard sp remaining failure = IRIf sp [IRIfBranch sp (clock_condition sp) remaining] failure"

fun guard_clock_reads :: "ir_stmt list \<Rightarrow> ir_stmt list \<Rightarrow> ir_stmt list"
  and guard_branches :: "ir_stmt list \<Rightarrow> ir_branch list \<Rightarrow> ir_branch list" where
  "guard_clock_reads failure [] = []"
| "guard_clock_reads failure (IRWallClockRead sp d u # sts) =
     [IRWallClockRead sp d u, clock_guard sp (guard_clock_reads failure sts) failure]"
| "guard_clock_reads failure (IRIf sp bs es # sts) =
     IRIf sp (guard_branches failure bs) (guard_clock_reads failure es) # guard_clock_reads failure sts"
| "guard_clock_reads failure (IRWhile sp c body # sts) =
     IRWhile sp c (guard_clock_reads failure body) # guard_clock_reads failure sts"
| "guard_clock_reads failure (st # sts) = st # guard_clock_reads failure sts"
| "guard_branches failure [] = []"
| "guard_branches failure (IRIfBranch sp c body # bs) =
     IRIfBranch sp c (guard_clock_reads failure body) # guard_branches failure bs"

definition clock_failure_assignments :: "'v ir_parameter list \<Rightarrow> ir_stmt list" where
  "clock_failure_assignments ps =
     map (\<lambda>p. IRAssignment no_place (IRReference no_place (Some ''BOOL'') (ip_name p))
                 (IRLiteral no_place (Some ''BOOL'') ''FALSE''))
       (filter (\<lambda>p. ip_direction p = DIR_OUTPUT \<and> ip_data_type p = Some ''BOOL'' \<and> \<not> ip_system_defined p) ps)"

definition clock_variables :: "ir_variable list" where
  "clock_variables =
     [\<lparr>iv_name = ''tfWallClockMilliseconds'', iv_data_type = Some ''SysTime'', iv_dimensions = None\<rparr>,
      \<lparr>iv_name = ''tfWallClockResult'', iv_data_type = Some ''SysTypes.RTS_IEC_RESULT'', iv_dimensions = None\<rparr>]"

definition clock_applied_code :: string where
  "clock_applied_code = ''codesys_wall_clock_adapter_applied''"

definition clock_applied_diagnostic :: ir_diagnostic where
  "clock_applied_diagnostic = STDiagnostic clock_applied_code
     (''mapped wall-clock reads to SysTimeRtcHighResGet, converted '' @
      ''milliseconds to source microseconds, and guarded subsequent '' @
      ''logic against a failed read'') no_place"

definition reads_clock :: "'v ir_unit \<Rightarrow> bool" where
  "reads_clock u = list_ex (\<lambda>r. list_ex has_wall_clock_read (ro_statements r)) (iu_routines u)"

definition clock_adapted :: "'v ir_unit \<Rightarrow> bool" where
  "clock_adapted u = list_ex (\<lambda>d. sd_code d = clock_applied_code) (iu_diagnostics u)"

definition adapt_codesys_runtime :: "'v ir_unit \<Rightarrow> 'v ir_unit" where
  "adapt_codesys_runtime u =
     (if clock_adapted u \<or> \<not> reads_clock u then u
      else let names = map (py_casefold \<circ> iv_name) (iu_variables u);
               failure = clock_failure_assignments (iu_parameters u)
           in u\<lparr>iu_variables := iu_variables u @
                  filter (\<lambda>v. py_casefold (iv_name v) \<notin> set names) clock_variables,
                iu_routines := map (\<lambda>r. r\<lparr>ro_statements := guard_clock_reads failure (ro_statements r)\<rparr>) (iu_routines u),
                iu_diagnostics := iu_diagnostics u @ [clock_applied_diagnostic]\<rparr>)"

definition emit_codesys_st_unit :: "'v ir_unit \<Rightarrow> iec_emission" where
  "emit_codesys_st_unit u = emit_iec_st_unit (adapt_codesys_runtime u) (Some codesys_dialect)"

definition emit_codesys_st_routine :: "ir_routine \<Rightarrow> iec_emission" where
  "emit_codesys_st_routine r = emit_iec_st_routine r (Some codesys_dialect)"

end
