(* ===== verification/Emission_Needs.thy ===== *)
theory Emission_Needs imports Emitter_Facts Codesys_Adapter begin

text \<open>
  Which requirements an emission lists. The emitter asks its dialect about array dimensions,
  clock reads and generic arrays; the locale \<open>uniform_dialect\<close> is the contract of a dialect
  whose answers depend on the kind of the question only. It is interpreted on the absent
  dialect and on the CODESYS dialect, so that the requirements of both emissions are known.
\<close>

section \<open>What a tree needs\<close>

text \<open>
  The requirements of an expression, of statements and of parameters, when dimensions are left
  open (\<open>dim\<close>), clock reads in a unit are left open (\<open>clk\<close>), and generic arrays of a
  direction are left open (\<open>gen\<close>).
\<close>

fun expr_needs :: "bool \<Rightarrow> ir_expr \<Rightarrow> iec_requirement set" where
  "expr_needs dim (IRReference sp dt n) = {}"
| "expr_needs dim (IRLiteral sp dt v) = {}"
| "expr_needs dim (IRUnary sp dt op e) = expr_needs dim e"
| "expr_needs dim (IRBinary sp dt l op r) = expr_needs dim l \<union> expr_needs dim r"
| "expr_needs dim (IRMember sp dt t m) = expr_needs dim t"
| "expr_needs dim (IRIndex sp dt t is op) =
     (if op = ''.[]'' then {RQ_DYNAMIC_BIT_ACCESS} else {}) \<union> (\<Union>i \<in> set is. expr_needs dim i) \<union> expr_needs dim t"
| "expr_needs dim (IRArrayDimension sp dt a d) =
     (if dim then {RQ_ARRAY_DIMENSION} else {}) \<union> expr_needs dim a \<union> expr_needs dim d"
| "expr_needs dim (IRCall sp dt op args adapter vn) =
     (if adapter then {RQ_SOURCE_OPERATION_ADAPTER} else {}) \<union> (\<Union>i \<in> set args. expr_needs dim i)"
| "expr_needs dim (IRUnsupportedExpression sp dt src r) = {}"

fun stmt_needs :: "bool \<Rightarrow> (string \<Rightarrow> bool) \<Rightarrow> ir_stmt \<Rightarrow> iec_requirement set"
  and branch_needs :: "bool \<Rightarrow> (string \<Rightarrow> bool) \<Rightarrow> ir_branch \<Rightarrow> iec_requirement set" where
  "stmt_needs dim clk (IRAssignment sp t v) = expr_needs dim t \<union> expr_needs dim v"
| "stmt_needs dim clk (IRCallStatement sp c) = expr_needs dim c"
| "stmt_needs dim clk (IRWallClockRead sp d u) = (if clk u then {RQ_WALL_CLOCK_READ} else {}) \<union> expr_needs dim d"
| "stmt_needs dim clk (IRControllerObjectRead sp c i a d intent vn) = {RQ_CONTROLLER_OBJECT_ACCESS} \<union> expr_needs dim d"
| "stmt_needs dim clk (IRControllerObjectWrite sp c i a d intent vn) = {RQ_CONTROLLER_OBJECT_ACCESS} \<union> expr_needs dim d"
| "stmt_needs dim clk (IRIf sp bs es) =
     (\<Union>b \<in> set bs. branch_needs dim clk b) \<union> (\<Union>st \<in> set es. stmt_needs dim clk st)"
| "stmt_needs dim clk (IRWhile sp c body) = expr_needs dim c \<union> (\<Union>st \<in> set body. stmt_needs dim clk st)"
| "stmt_needs dim clk (IRExit sp) = {}"
| "stmt_needs dim clk (IRUnsupportedStatement sp src r) = {}"
| "branch_needs dim clk (IRIfBranch sp c body) = expr_needs dim c \<union> (\<Union>st \<in> set body. stmt_needs dim clk st)"

definition parameter_needs :: "(ir_direction \<Rightarrow> bool) \<Rightarrow> 'v ir_parameter \<Rightarrow> iec_requirement set" where
  "parameter_needs gen p =
     (if ip_dimensions p \<noteq> None \<and> ip_generic_dimensions p \<and> gen (ip_direction p)
      then {RQ_GENERIC_ARRAY_INTERFACE} else {})"

definition unit_needs ::
  "bool \<Rightarrow> (string \<Rightarrow> bool) \<Rightarrow> (ir_direction \<Rightarrow> bool) \<Rightarrow> 'v ir_unit \<Rightarrow> iec_requirement set" where
  "unit_needs dim clk gen u =
     (\<Union>p \<in> set (iu_parameters u). parameter_needs gen p) \<union>
     (\<Union>st \<in> set (emitted_statements u). stmt_needs dim clk st)"

section \<open>The contract of a dialect\<close>

abbreviation reqs :: "emit_state \<Rightarrow> iec_requirement set" where
  "reqs s \<equiv> set (em_requirements s)"

lemma reqs_require [simp]: "reqs (require r s) = insert r (reqs s)"
  by (simp add: require_def)

lemma reqs_diagnostic [simp]: "reqs (emit_diagnostic c m sp s) = reqs s"
  by (simp add: emit_diagnostic_def)

lemma reqs_data_type: "reqs (snd (emit_data_type t ds s)) = reqs s"
  by (simp add: emit_data_type_def split: option.split)

lemma reqs_variables: "reqs (snd (emit_variables vs s)) = reqs s"
proof (induction vs s rule: emit_variables.induct)
  case (2 v vs s)
  show ?case using 2 [OF refl prod.collapse] by (simp add: case_prod_beta Let_def reqs_data_type)
qed simp

locale uniform_dialect =
  fixes D :: "st_dialect option" and dim :: bool and clk :: "string \<Rightarrow> bool" and gen :: "ir_direction \<Rightarrow> bool"
  assumes dimension: "Option.bind D (\<lambda>d. di_array_dimension d x y) = None \<longleftrightarrow> dim"
    and clock: "Option.bind D (\<lambda>d. di_wall_clock_read d x unit) = None \<longleftrightarrow> clk unit"
    and generic: "D = None \<or> \<not> di_generic_array_interface (the D) direction \<longleftrightarrow> gen direction"
begin

lemma exprs_reqs:
  assumes "\<And>e s. e \<in> set es \<Longrightarrow> reqs (snd (emit_expr D e s)) = reqs s \<union> expr_needs dim e"
  shows "reqs (snd (emit_exprs D es s)) = reqs s \<union> (\<Union>e \<in> set es. expr_needs dim e)"
  using assms by (induction es arbitrary: s) (auto simp: case_prod_beta Let_def)

lemma expr_reqs: "reqs (snd (emit_expr D e s)) = reqs s \<union> expr_needs dim e"
proof (induction e arbitrary: s)
  case (IRIndex sp dt t "is" op)
  then show ?case by (auto simp: case_prod_beta Let_def exprs_reqs)
next
  case (IRCall sp dt op args ad vn)
  then show ?case by (auto simp: case_prod_beta Let_def exprs_reqs)
next
  case (IRArrayDimension sp dt a d)
  obtain x s1 where a: "emit_expr D a s = (x, s1)" by force
  obtain y s2 where d: "emit_expr D d s1 = (y, s2)" by force
  have "reqs s2 = reqs s \<union> expr_needs dim a \<union> expr_needs dim d"
    using IRArrayDimension(1) [of s] IRArrayDimension(2) [of s1] a d by simp
  then show ?case
    using dimension [of x y] by (auto simp: a d split: option.splits)
qed (auto simp: case_prod_beta Let_def)

lemma stmts_reqs:
  assumes "\<And>st n s. st \<in> set sts \<Longrightarrow> reqs (snd (emit_stmt D n st s)) = reqs s \<union> stmt_needs dim clk st"
  shows "reqs (snd (emit_stmts D n sts s)) = reqs s \<union> (\<Union>st \<in> set sts. stmt_needs dim clk st)"
  using assms by (induction sts arbitrary: s) (auto simp: case_prod_beta Let_def)

lemma branches_reqs:
  assumes "\<And>b n f s. b \<in> set bs \<Longrightarrow> reqs (snd (emit_branches D n f [b] s)) = reqs s \<union> branch_needs dim clk b"
  shows "reqs (snd (emit_branches D n f bs s)) = reqs s \<union> (\<Union>b \<in> set bs. branch_needs dim clk b)"
  using assms
proof (induction bs arbitrary: f s)
  case (Cons b bs)
  obtain sp c body where b: "b = IRIfBranch sp c body" by (cases b)
  have "reqs (snd (emit_branches D n f (b # bs) s)) = reqs (snd (emit_branches D n f [b] s)) \<union>
      (\<Union>b \<in> set bs. branch_needs dim clk b)"
    using Cons.IH [OF Cons.prems] by (simp add: b case_prod_beta Let_def)
  then show ?case using Cons.prems [of b n f s] by auto
qed simp

lemma stmt_reqs:
  "reqs (snd (emit_stmt D n st s)) = reqs s \<union> stmt_needs dim clk st"
  "reqs (snd (emit_branches D n f [b] s)) = reqs s \<union> branch_needs dim clk b"
proof (induction st and b arbitrary: n s and n s f)
  case (IRWallClockRead sp d u)
  obtain x s1 where d: "emit_expr D d s = (x, s1)" by force
  then have "reqs s1 = reqs s \<union> expr_needs dim d" using expr_reqs [of d s] by simp
  then show ?case using clock [of x u] by (auto simp: d split: option.splits)
next
  case (IRIf sp bs es)
  then show ?case by (auto simp: case_prod_beta Let_def stmts_reqs branches_reqs)
next
  case (IRWhile sp c body)
  then show ?case by (auto simp: case_prod_beta Let_def stmts_reqs expr_reqs)
next
  case (IRIfBranch sp c body)
  then show ?case by (auto simp: case_prod_beta Let_def stmts_reqs expr_reqs)
qed (auto simp: case_prod_beta Let_def expr_reqs)

lemma routines_reqs:
  "reqs (snd (emit_routines D several rs s)) =
     reqs s \<union> (\<Union>st \<in> set (concat (map ro_statements rs)). stmt_needs dim clk st)"
  by (induction rs arbitrary: s) (auto simp: case_prod_beta Let_def stmts_reqs stmt_reqs(1))

lemma parameter_type_reqs: "reqs (snd (emit_parameter_type D p s)) = reqs s \<union> parameter_needs gen p"
  using generic [of "ip_direction p"]
  by (cases D) (auto simp: emit_parameter_type_def parameter_needs_def case_prod_beta Let_def reqs_data_type
      split: option.splits)

lemma parameters_reqs:
  "reqs (snd (emit_parameters D ps s)) = reqs s \<union> (\<Union>p \<in> set ps. parameter_needs gen p)"
  by (induction ps arbitrary: s) (auto simp: case_prod_beta Let_def parameter_type_reqs)

lemma groups_reqs:
  "reqs (snd (emit_groups D ps gs s)) =
     reqs s \<union> (\<Union>p \<in> {p \<in> set ps. ip_direction p \<in> fst ` set gs}. parameter_needs gen p)"
proof (induction gs arbitrary: s)
  case (Cons g gs)
  obtain dir kw where g: "g = (dir, kw)" by (cases g)
  show ?case using Cons.IH by (auto simp: g case_prod_beta Let_def parameters_reqs filter_empty_conv)
qed simp

lemma unit_reqs: "set (ie_requirements (emit_iec_st_unit u D)) = unit_needs dim clk gen u"
proof -
  have groups: "fst ` set parameter_groups = UNIV"
    using ir_direction.exhaust by (auto simp: parameter_groups_def)
  show ?thesis
    by (simp add: emit_iec_st_unit_def sorted_requirements_def case_prod_beta Let_def routines_reqs reqs_variables
        emit_interface_def groups_reqs groups unit_needs_def emitted_statements_def init_emitter_def)
qed

end

interpretation no_dialect: uniform_dialect None True "\<lambda>u. True" "\<lambda>d. True"
  by unfold_locales simp_all

interpretation codesys: uniform_dialect "Some codesys_dialect" False "\<lambda>u. u \<noteq> ''microseconds''" "\<lambda>d. d \<noteq> DIR_INOUT"
  by unfold_locales (simp_all add: codesys_dialect_def codesys_wall_clock_read_def)

lemma ordered_requirements:
  "sorted (ie_requirements (emit_iec_st_unit u D)) \<and> distinct (ie_requirements (emit_iec_st_unit u D))"
  by (simp add: emit_iec_st_unit_def sorted_requirements_def case_prod_beta Let_def)

text \<open>
  C18. The requirements of an emission are exactly what the unit needs, listed once each in
  canonical order: without a dialect, array dimensions, bit accesses, adapters of source
  operations, clock reads and controller-object accesses at any depth of the executable
  routines, and generic array parameters; for CODESYS, of the adapted unit, the same without
  array dimensions, clock reads in microseconds and generic arrays passed by reference.
\<close>

theorem requirements_exact:
  "set (ie_requirements (emit_iec_st_unit u None)) = unit_needs True (\<lambda>u. True) (\<lambda>d. True) u \<and>
   set (ie_requirements (emit_codesys_st_unit u)) =
     unit_needs False (\<lambda>u. u \<noteq> ''microseconds'') (\<lambda>d. d \<noteq> DIR_INOUT) (adapt_codesys_runtime u) \<and>
   sorted (ie_requirements (emit_iec_st_unit u D)) \<and> distinct (ie_requirements (emit_iec_st_unit u D))"
  by (simp add: no_dialect.unit_reqs codesys.unit_reqs emit_codesys_st_unit_def ordered_requirements)

end
