(* ===== verification/Codesys_Export.thy ===== *)
theory Codesys_Export imports Codesys_Adapter begin

text \<open>
  The CODESYS PLCopen document for executable IR: \<open>exporters/codesys_plcopen_ir.py\<close> with its
  collaborators \<open>codesys_ir_pou.py\<close>, \<open>codesys_ir_lifecycle.py\<close>,
  \<open>codesys_ir_libraries.py\<close> and \<open>codesys_ir_integration.py\<close>.

  An \<open>ElementTree\<close> element is a tree; a function that appends sub-elements to its parent
  returns the list of them. The document's tree is the result, and its serialisation by the
  library is left out. A \<open>ValueError\<close> is the \<open>Inl\<close> of an \<open>export_error\<close>. Three things
  are parameters: \<open>oid\<close>, the identifier \<open>uuid5\<close> gives a path (the cache of
  \<open>CodesysProfileSupport\<close> only keeps it); \<open>seconds\<close>, the text of an interval in seconds
  as \<open>:g\<close> prints the quotient; and the time stamp.
\<close>

section \<open>Elements\<close>

datatype xml = Element (xml_tag: string) (xml_attributes: "(string \<times> string) list")
  (xml_text: "string option") (xml_children: "xml list")

definition qualified_name :: "string \<Rightarrow> string \<Rightarrow> string" where
  "qualified_name namespace n = ''{'' @ namespace @ ''}'' @ n"

definition plcopen_namespace :: string where
  "plcopen_namespace = ''http://www.plcopen.org/xml/tc6_0200''"

definition codesys_namespace :: string where
  "codesys_namespace = ''http://www.3s-software.com/plcopenxml''"

definition xhtml_namespace :: string where
  "xhtml_namespace = ''http://www.w3.org/1999/xhtml''"

text \<open>An element of the document's namespace without text.\<close>

definition el :: "string \<Rightarrow> (string \<times> string) list \<Rightarrow> xml list \<Rightarrow> xml" where
  "el n attributes children = Element (qualified_name plcopen_namespace n) attributes None children"

definition data_element :: "string \<Rightarrow> string \<Rightarrow> xml list \<Rightarrow> xml" where
  "data_element kind handling children =
     el ''data'' [(''name'', codesys_namespace @ ''/'' @ kind), (''handleUnknown'', handling)] children"

text \<open>\<open>ST\<close> with its text in an XHTML element.\<close>

definition st_body :: "string \<Rightarrow> xml" where
  "st_body t = el ''body'' [] [el ''ST'' [] [Element (qualified_name xhtml_namespace ''xhtml'') [] (Some t) []]]"

definition object_id_data :: "string \<Rightarrow> xml" where
  "object_id_data object_id =
     data_element ''objectid'' ''discard''
       [Element (qualified_name plcopen_namespace ''ObjectId'') [] (Some object_id) []]"

text \<open>\<open>append_object_id_data\<close>, and \<open>append_object_id\<close>, which goes to the first \<open>addData\<close>.\<close>

definition append_object_id_data :: "string \<Rightarrow> xml \<Rightarrow> xml" where
  "append_object_id_data object_id e =
     Element (xml_tag e) (xml_attributes e) (xml_text e) (xml_children e @ [object_id_data object_id])"

fun append_to_add_data :: "string \<Rightarrow> xml list \<Rightarrow> xml list" where
  "append_to_add_data object_id [] = [append_object_id_data object_id (el ''addData'' [] [])]"
| "append_to_add_data object_id (c # cs) =
     (if xml_tag c = qualified_name plcopen_namespace ''addData''
      then append_object_id_data object_id c # cs else c # append_to_add_data object_id cs)"

definition append_object_id :: "string \<Rightarrow> xml \<Rightarrow> xml" where
  "append_object_id object_id e =
     Element (xml_tag e) (xml_attributes e) (xml_text e) (append_to_add_data object_id (xml_children e))"

section \<open>Errors\<close>

datatype export_error =
    Invalid_Dimension string | Unknown_Unit string | Unknown_Parameter string string
  | Duplicate_Variable string

text \<open>The first error of a sequence of steps, or all their results.\<close>

fun traverse :: "('a \<Rightarrow> 'e + 'b) \<Rightarrow> 'a list \<Rightarrow> 'e + 'b list" where
  "traverse f [] = Inr []"
| "traverse f (x # xs) =
     (case f x of Inl e \<Rightarrow> Inl e
      | Inr y \<Rightarrow> (case traverse f xs of Inl e \<Rightarrow> Inl e | Inr ys \<Rightarrow> Inr (y # ys)))"

section \<open>Interfaces\<close>

definition elementary_types :: "string list" where
  "elementary_types =
     [''BOOL'', ''BYTE'', ''DATE'', ''DINT'', ''DWORD'', ''INT'', ''LINT'', ''LREAL'', ''LWORD'', ''REAL'',
      ''SINT'', ''STRING'', ''TIME'', ''TIME_OF_DAY'', ''TOD'', ''UDINT'', ''UINT'', ''ULINT'', ''USINT'',
      ''WORD'', ''WSTRING'']"

text \<open>\<open>(W?STRING)\((\d+)\)\<close>, whatever the case: the type and the length.\<close>

definition bounded_string :: "string \<Rightarrow> (string \<times> string) option" where
  "bounded_string t =
     (let n = (if startswith ''STRING('' (py_upper t) then 6
               else if startswith ''WSTRING('' (py_upper t) then 7 else 0);
          inner = drop (Suc n) t
      in if 0 < n \<and> 2 \<le> length inner \<and> last inner = CHR '')'' \<and> str_isdigit (butlast inner)
         then Some (take n t, butlast inner) else None)"

definition scalar_type :: "string option \<Rightarrow> xml" where
  "scalar_type data_type =
     (case data_type of
        None \<Rightarrow> el ''derived'' [(''name'', ''TF_UNRESOLVED_TYPE'')] []
      | Some t \<Rightarrow>
          if py_upper t \<in> set elementary_types then el (py_upper t) [] []
          else case bounded_string t of
                 Some (k, n) \<Rightarrow> el (map lower_char k) [(''length'', n)] []
               | None \<Rightarrow> el ''derived'' [(''name'', if t = [] then ''TF_UNRESOLVED_TYPE'' else t)] [])"

definition dimension_element :: "string \<Rightarrow> export_error + xml" where
  "dimension_element dimension =
     (case py_int dimension of
        None \<Rightarrow> Inl (Invalid_Dimension dimension)
      | Some n \<Rightarrow>
          Inr (el ''dimension'' [(''lower'', ''0''), (''upper'', nat_str (nat (max (n - 1) 0)))] []))"

text \<open>\<open>data_type\<close> and, around it, one variable.\<close>

definition type_element :: "string option \<Rightarrow> string option \<Rightarrow> export_error + xml" where
  "type_element data_type dimensions =
     (case dimensions of
        None \<Rightarrow> Inr (scalar_type data_type)
      | Some ds \<Rightarrow>
          (case traverse dimension_element (split_on CHR '','' ds) of
             Inl e \<Rightarrow> Inl e
           | Inr xs \<Rightarrow> Inr (el ''array'' [] (xs @ [el ''baseType'' [] [scalar_type data_type]]))))"

definition variable_element :: "string \<Rightarrow> string option \<Rightarrow> string option \<Rightarrow> xml list \<Rightarrow> export_error + xml" where
  "variable_element n data_type dimensions more' =
     map_sum id (\<lambda>x. el ''variable'' [(''name'', n)] (el ''type'' [] [x] # more')) (type_element data_type dimensions)"

definition parameter_element :: "'v ir_parameter \<Rightarrow> export_error + xml" where
  "parameter_element p = variable_element (ip_name p) (ip_data_type p) (ip_dimensions p) []"

definition ir_variable_element :: "ir_variable \<Rightarrow> export_error + xml" where
  "ir_variable_element v = variable_element (iv_name v) (iv_data_type v) (iv_dimensions v) []"

fun scope_name :: "ir_direction \<Rightarrow> string" where
  "scope_name DIR_INPUT = ''Input''"
| "scope_name DIR_OUTPUT = ''Output''"
| "scope_name DIR_INOUT = ''Inout''"
| "scope_name DIR_UNKNOWN = ''Local''"

definition attribute_element :: "string \<times> string \<Rightarrow> xml" where
  "attribute_element nv = el ''Attribute'' [(''Name'', fst nv), (''Value'', snd nv)] []"

text \<open>\<open>f"{x}"\<close> of an optional string.\<close>

definition format_opt :: "string option \<Rightarrow> string" where
  "format_opt x = (case x of None \<Rightarrow> ''None'' | Some s \<Rightarrow> s)"

definition generic_array_parameter :: "'v ir_parameter \<Rightarrow> xml" where
  "generic_array_parameter p =
     (let dimension_count = length (split_on CHR '','' (or_empty (ip_dimensions p)));
          array_shape = join '', '' (replicate dimension_count ''*'')
      in el ''inputVars'' []
           [el ''variable'' [(''name'', ip_name p)]
              [el ''type'' [] [el ''pointer'' [] [el ''baseType'' [] [scalar_type (ip_data_type p)]]],
               el ''addData'' []
                 [data_element ''attributes'' ''implementation''
                    [el ''Attributes'' []
                       (map attribute_element
                          [(''variable_length_array_original_scope'', scope_name (ip_direction p)),
                           (''variable_length_array'',
                            ''ARRAY['' @ array_shape @ ''] OF '' @ format_opt (ip_data_type p)),
                           (''Dimensions'', nat_str dimension_count)])]]]])"

definition interface_groups :: "(ir_direction \<times> string) list" where
  "interface_groups = [(DIR_INPUT, ''inputVars''), (DIR_OUTPUT, ''outputVars''),
                       (DIR_INOUT, ''inOutVars''), (DIR_UNKNOWN, ''localVars'')]"

definition group_elements :: "'v ir_parameter list \<Rightarrow> ir_direction \<times> string \<Rightarrow> export_error + xml list" where
  "group_elements ps g =
     (let members = filter (\<lambda>p. ip_direction p = fst g) ps;
          ordinary = filter (\<lambda>p. \<not> ip_generic_dimensions p) members;
          generic = filter ip_generic_dimensions members
      in map_sum id
           (\<lambda>xs. (if ordinary = [] then [] else [el (snd g) [] xs]) @ map generic_array_parameter generic)
           (traverse parameter_element ordinary))"

definition local_elements :: "ir_variable list \<Rightarrow> export_error + xml list" where
  "local_elements vs =
     (if vs = [] then Inr [] else map_sum id (\<lambda>xs. [el ''localVars'' [] xs]) (traverse ir_variable_element vs))"

definition interface_elements :: "'v ir_unit \<Rightarrow> export_error + xml list" where
  "interface_elements u =
     (case traverse (group_elements (iu_parameters u)) interface_groups of
        Inl e \<Rightarrow> Inl e
      | Inr xss \<Rightarrow> map_sum id (\<lambda>xs. concat xss @ xs) (local_elements (iu_variables u)))"

section \<open>Lifecycle\<close>

definition mapped_prescan :: "'v ir_unit \<Rightarrow> ir_routine option" where
  "mapped_prescan u =
     (if iu_kind u \<noteq> UK_FUNCTION_BLOCK \<or> lc_prescan_enabled (iu_lifecycle u) \<noteq> Some True then None
      else find (\<lambda>r. ro_role r = RR_PRESCAN) (iu_routines u))"

definition unit_path :: "'v ir_unit \<Rightarrow> string" where
  "unit_path u = ''Application/pou/'' @ iu_name u"

definition method_path :: "'v ir_unit \<Rightarrow> string" where
  "method_path u = unit_path u @ ''/method/FB_Init''"

definition rstrip :: "string \<Rightarrow> string" where
  "rstrip s = rev (dropWhile py_isspace (rev s))"

definition bool_variable :: "string \<Rightarrow> xml" where
  "bool_variable n = el ''variable'' [(''name'', n)] [el ''type'' [] [el ''BOOL'' [] []]]"

definition prescan_method :: "(string \<Rightarrow> string) \<Rightarrow> 'v ir_unit \<Rightarrow> ir_routine \<Rightarrow> xml" where
  "prescan_method oid u r =
     data_element ''method'' ''implementation''
       [el ''Method'' [(''name'', ''FB_Init''), (''ObjectId'', oid (method_path u))]
          [el ''interface'' []
             [el ''returnType'' [] [el ''BOOL'' [] []],
              el ''inputVars'' [] (map bool_variable [''bInitRetains'', ''bInCopyCode''])],
           st_body (rstrip (ie_text (emit_codesys_st_routine r)) @ newline_text @ ''FB_Init := TRUE;''),
           el ''addData'' [] []]]"

definition lifecycle_elements :: "(string \<Rightarrow> string) \<Rightarrow> 'v ir_unit \<Rightarrow> xml list" where
  "lifecycle_elements oid u = (case mapped_prescan u of None \<Rightarrow> [] | Some r \<Rightarrow> [prescan_method oid u r])"

section \<open>Program organisation units\<close>

definition body_text :: "'v ir_unit \<Rightarrow> string" where
  "body_text u =
     (let routines = executable_routines u
      in if routines = [] then []
         else join newline_text (map rstrip (concat (map (\<lambda>r.
                (if 1 < length routines then [comment (''Routine: '' @ ro_name r) @ newline_text] else []) @
                [ie_text (emit_codesys_st_routine r)]) routines))))"

definition pou_element :: "(string \<Rightarrow> string) \<Rightarrow> 'v ir_unit \<Rightarrow> export_error + xml" where
  "pou_element oid u =
     map_sum id (\<lambda>interface.
       el ''pou'' [(''name'', iu_name u),
                   (''pouType'', if iu_kind u = UK_FUNCTION_BLOCK then ''functionBlock'' else ''function'')]
         [el ''interface'' [] interface, st_body (body_text u),
          append_object_id_data (oid (unit_path u)) (el ''addData'' [] (lifecycle_elements oid u))])
       (interface_elements u)"

definition pou_wrapper :: "xml \<Rightarrow> xml" where
  "pou_wrapper pou = data_element ''pou'' ''implementation'' [pou]"

section \<open>Libraries\<close>

definition wall_clock_types :: "string list" where
  "wall_clock_types = [''SysTime'', ''SysTypes.RTS_IEC_RESULT'']"

definition libraries_required :: "'v ir_unit list \<Rightarrow> bool" where
  "libraries_required us =
     list_ex (\<lambda>u. list_ex (\<lambda>v. iv_data_type v \<in> Some ` set wall_clock_types) (iu_variables u)) us"

definition wall_clock_libraries :: "(string \<times> string) list list" where
  "wall_clock_libraries =
     [[(''Name'', ''#SysTimeRtc''), (''Namespace'', ''SysTimeRtc''),
       (''DefaultResolution'', ''SysTimeRtc, * (System)'')],
      [(''Name'', ''SysTime, 3.5.17.0 (System)''), (''Namespace'', ''SysTime'')],
      [(''Name'', ''SysTypes2 Interfaces, * (System)''), (''Namespace'', ''SysTypes'')]]"

definition library_defaults :: "(string \<times> string) list" where
  "library_defaults =
     [(''HideWhenReferencedAsDependency'', ''false''), (''PublishSymbolsInContainer'', ''false''),
      (''SystemLibrary'', ''false''), (''LinkAllContent'', ''false'')]"

definition library_path :: string where
  "library_path = ''Application/Library Manager''"

definition library_elements :: "(string \<Rightarrow> string) \<Rightarrow> 'v ir_unit list \<Rightarrow> xml list" where
  "library_elements oid us =
     (if \<not> libraries_required us then []
      else [data_element ''libraries'' ''implementation''
              [append_object_id (oid library_path)
                 (el ''Libraries'' []
                    (map (\<lambda>d. el ''Library'' (d @ library_defaults) []) wall_clock_libraries))]])"

definition object_element :: "(string \<Rightarrow> string) \<Rightarrow> string \<Rightarrow> string \<Rightarrow> xml list \<Rightarrow> xml" where
  "object_element oid n path children = el ''Object'' [(''Name'', n), (''ObjectId'', oid path)] children"

definition library_object :: "(string \<Rightarrow> string) \<Rightarrow> 'v ir_unit list \<Rightarrow> xml list" where
  "library_object oid us =
     (if libraries_required us then [object_element oid ''Library Manager'' library_path []] else [])"

section \<open>Integration\<close>

record argument_binding_ir =
  gb_parameter_name :: string
  gb_variable_name :: string
  gb_dimensions :: "string option"
  gb_initial_value :: "string option"

record program_variable =
  gv_name :: string
  gv_data_type :: string
  gv_dimensions :: "string option"
  gv_initial_value :: "string option"

record program_call =
  gc_unit_name :: string
  gc_instance_name :: string
  gc_bindings :: "argument_binding_ir list"
  gc_before :: "string list"
  gc_after :: "string list"

record project_integration =
  gi_bindings :: "argument_binding_ir list"
  gi_program_name :: string
  gi_task_name :: string
  gi_instance_name :: string
  gi_interval_ms :: int
  gi_priority :: int
  gi_program_variables :: "program_variable list"
  gi_before :: "string list"
  gi_after :: "string list"
  gi_calls :: "program_call list"

text \<open>The captured default as \<open>ScalarTagValue\<close> has it, floats by their text.\<close>

datatype scalar_value = SV_BOOL bool | SV_INT int | SV_FLOAT string | SV_STRING string

definition program_variable_name :: "'v ir_parameter \<Rightarrow> string" where
  "program_variable_name p =
     (let prefix = (case map_of [(''BOOL'', ''x''), (''DINT'', ''di''), (''INT'', ''i''), (''LINT'', ''li''),
              (''REAL'', ''r''), (''LREAL'', ''lr''), (''SINT'', ''si''), (''UDINT'', ''udi''),
              (''UINT'', ''ui''), (''ULINT'', ''uli''), (''USINT'', ''usi'')]
              (py_upper (or_empty (ip_data_type p))) of None \<Rightarrow> ''v'' | Some x \<Rightarrow> x);
          identifier = strip_char CHR ''_'' (sub_non_word False (ip_name p))
      in prefix @ (if identifier = [] then ''Value'' else identifier))"

definition parameter_initial_value :: "scalar_value ir_parameter \<Rightarrow> string option" where
  "parameter_initial_value p =
     (case ip_default_value p of
        Some (SV_BOOL b) \<Rightarrow> Some (if b then ''TRUE'' else ''FALSE'')
      | Some _ \<Rightarrow> ip_default_lexical_value p
      | None \<Rightarrow> if py_casefold (ip_name p) = ''enablein'' then Some ''TRUE'' else None)"

definition program_calls :: "'v ir_unit \<Rightarrow> project_integration \<Rightarrow> program_call list" where
  "program_calls u g =
     (if gi_calls g \<noteq> [] then gi_calls g
      else [\<lparr>gc_unit_name = iu_name u, gc_instance_name = gi_instance_name g, gc_bindings = gi_bindings g,
             gc_before = [], gc_after = []\<rparr>])"

definition unit_named :: "'v ir_unit list \<Rightarrow> string \<Rightarrow> 'v ir_unit option" where
  "unit_named us n = dict_of iu_name us n"

definition parameter_named :: "'v ir_unit \<Rightarrow> string \<Rightarrow> 'v ir_parameter option" where
  "parameter_named u n = dict_of ip_name (iu_parameters u) n"

text \<open>
  The declarations the loop over the calls asks for, in its order; a lookup that fails stands
  where the loop raises.
\<close>

definition binding_declaration :: "'v ir_unit \<Rightarrow> string \<Rightarrow> argument_binding_ir \<Rightarrow> export_error + program_variable" where
  "binding_declaration u unit_name b =
     (case parameter_named u (gb_parameter_name b) of
        None \<Rightarrow> Inl (Unknown_Parameter unit_name (gb_parameter_name b))
      | Some p \<Rightarrow>
          Inr \<lparr>gv_name = gb_variable_name b,
               gv_data_type = (if or_empty (ip_data_type p) = [] then ''BOOL'' else or_empty (ip_data_type p)),
               gv_dimensions = gb_dimensions b, gv_initial_value = gb_initial_value b\<rparr>)"

definition call_declarations :: "'v ir_unit list \<Rightarrow> program_call \<Rightarrow> (export_error + program_variable) list" where
  "call_declarations us k =
     (case unit_named us (gc_unit_name k) of
        None \<Rightarrow> [Inl (Unknown_Unit (gc_unit_name k))]
      | Some u \<Rightarrow>
          Inr \<lparr>gv_name = gc_instance_name k, gv_data_type = gc_unit_name k, gv_dimensions = None,
               gv_initial_value = None\<rparr> #
          map (binding_declaration u (gc_unit_name k)) (gc_bindings k))"

definition program_declarations ::
  "'v ir_unit list \<Rightarrow> project_integration \<Rightarrow> (export_error + program_variable) list" where
  "program_declarations us g =
     concat (map (call_declarations us) (program_calls (hd us) g)) @ map Inr (gi_program_variables g)"

definition program_variable_element :: "program_variable \<Rightarrow> export_error + xml" where
  "program_variable_element v =
     variable_element (gv_name v) (Some (gv_data_type v)) (gv_dimensions v)
       (case gv_initial_value v of
          None \<Rightarrow> []
        | Some x \<Rightarrow> [el ''initialValue'' [] [el ''simpleValue'' [(''value'', x)] []]])"

text \<open>\<open>_declare_program_variable\<close> one after another; the set holds the declared names.\<close>

fun declare_variables :: "string set \<Rightarrow> (export_error + program_variable) list \<Rightarrow> export_error + xml list" where
  "declare_variables declared [] = Inr []"
| "declare_variables declared (Inl e # ds) = Inl e"
| "declare_variables declared (Inr v # ds) =
     (if gv_name v \<in> declared then Inl (Duplicate_Variable (gv_name v))
      else case program_variable_element v of
             Inl e \<Rightarrow> Inl e
           | Inr x \<Rightarrow> map_sum id (\<lambda>xs. x # xs) (declare_variables (insert (gv_name v) declared) ds))"

text \<open>The call of a unit; every lookup has succeeded before.\<close>

definition argument_text :: "'v ir_unit \<Rightarrow> argument_binding_ir \<Rightarrow> string" where
  "argument_text u b =
     (let output = (case parameter_named u (gb_parameter_name b) of
                      None \<Rightarrow> False | Some p \<Rightarrow> ip_direction p = DIR_OUTPUT)
      in ''    '' @ gb_parameter_name b @ '' '' @ (if output then ''=>'' else '':='') @ '' '' @ gb_variable_name b)"

definition call_text :: "'v ir_unit list \<Rightarrow> program_call \<Rightarrow> string" where
  "call_text us k =
     (case unit_named us (gc_unit_name k) of
        None \<Rightarrow> []
      | Some u \<Rightarrow>
          gc_instance_name k @ ''('' @ newline_text @
          join ('','' @ newline_text) (map (argument_text u) (gc_bindings k)) @ newline_text @ '');'')"

definition program_statements :: "'v ir_unit list \<Rightarrow> project_integration \<Rightarrow> string list" where
  "program_statements us g =
     gi_before g @
     concat (map (\<lambda>k. gc_before k @ [call_text us k] @ gc_after k) (program_calls (hd us) g)) @ gi_after g"

definition program_path :: "project_integration \<Rightarrow> string" where
  "program_path g = ''Application/program/'' @ gi_program_name g"

definition task_path :: "project_integration \<Rightarrow> string" where
  "task_path g = ''Application/task/'' @ gi_task_name g"

definition program_element ::
  "(string \<Rightarrow> string) \<Rightarrow> 'v ir_unit list \<Rightarrow> project_integration \<Rightarrow> export_error + xml" where
  "program_element oid us g =
     map_sum id (\<lambda>variables.
       append_object_id (oid (program_path g))
         (el ''pou'' [(''name'', gi_program_name g), (''pouType'', ''program'')]
            [el ''interface'' [] [el ''localVars'' [] variables],
             st_body (join (newline_text @ newline_text)
               (map py_strip (filter (\<lambda>s. py_strip s \<noteq> []) (program_statements us g))))]))
       (declare_variables {} (program_declarations us g))"

definition task_element :: "(string \<Rightarrow> string) \<Rightarrow> (int \<Rightarrow> string) \<Rightarrow> project_integration \<Rightarrow> xml" where
  "task_element oid seconds g =
     el ''task'' [(''name'', gi_task_name g), (''interval'', ''PT'' @ seconds (gi_interval_ms g) @ ''S''),
                  (''priority'', int_str (gi_priority g))]
       [el ''pouInstance'' [(''name'', gi_program_name g), (''typeName'', [])]
          [el ''documentation'' [] [Element (qualified_name xhtml_namespace ''xhtml'') [] None []]],
        append_object_id_data (oid (task_path g))
          (el ''addData'' []
             [data_element ''tasksettings'' ''implementation''
                [el ''TaskSettings''
                   [(''KindOfTask'', ''Cyclic''), (''Interval'', ''t#'' @ int_str (gi_interval_ms g) @ ''ms''),
                    (''IntervalUnit'', ''ms''), (''WithinSPSTimeSlicing'', ''true'')]
                   [el ''Watchdog'' [(''Enabled'', ''false''), (''TimeUnit'', ''ms''), (''Sensitivity'', ''1'')] []]]])]"

section \<open>The document\<close>

definition unit_object :: "(string \<Rightarrow> string) \<Rightarrow> 'v ir_unit \<Rightarrow> xml" where
  "unit_object oid u =
     object_element oid (iu_name u) (unit_path u)
       (if mapped_prescan u \<noteq> None then [object_element oid ''FB_Init'' (method_path u) []] else [])"

definition application_path :: string where
  "application_path = ''Application''"

definition project_structure ::
  "(string \<Rightarrow> string) \<Rightarrow> 'v ir_unit list \<Rightarrow> project_integration option \<Rightarrow> xml" where
  "project_structure oid us integration =
     data_element ''projectstructure'' ''discard''
       [el ''ProjectStructure'' []
          [object_element oid ''Application'' application_path
             (library_object oid us @
              (case integration of
                 None \<Rightarrow> []
               | Some g \<Rightarrow> [object_element oid (gi_program_name g) (program_path g) [],
                            object_element oid (gi_task_name g) (task_path g) []]) @
              map (unit_object oid) us)]]"

definition coordinate_info :: xml where
  "coordinate_info =
     el ''coordinateInfo'' []
       (map (\<lambda>language. el language [] [el ''scaling'' [(''x'', ''1''), (''y'', ''1'')] []]) [''fbd'', ''ld'', ''sfc''])"

text \<open>The program is built before the units, so its errors come first.\<close>

definition program_elements ::
  "(string \<Rightarrow> string) \<Rightarrow> 'v ir_unit list \<Rightarrow> project_integration option \<Rightarrow> export_error + xml list" where
  "program_elements oid us integration =
     (case integration of
        None \<Rightarrow> Inr []
      | Some g \<Rightarrow> map_sum id (\<lambda>p. [pou_wrapper p]) (program_element oid us g))"

definition build_document ::
  "(string \<Rightarrow> string) \<Rightarrow> (int \<Rightarrow> string) \<Rightarrow> string \<Rightarrow> string \<Rightarrow> 'v ir_unit list \<Rightarrow>
     project_integration option \<Rightarrow> export_error + xml" where
  "build_document oid seconds timestamp project_name us integration =
     (case program_elements oid us integration of
        Inl e \<Rightarrow> Inl e
      | Inr program \<Rightarrow>
          (case traverse (pou_element oid) us of
             Inl e \<Rightarrow> Inl e
           | Inr pous \<Rightarrow>
               Inr (el ''project'' []
                 [el ''fileHeader'' [(''companyName'', ''TwinForge''), (''productName'', ''TwinForge''),
                    (''productVersion'', ''0.1.0''), (''creationDateTime'', timestamp)] [],
                  el ''contentHeader'' [(''name'', project_name)] [coordinate_info],
                  el ''types'' [] [el ''dataTypes'' [] [], el ''pous'' [] []],
                  el ''instances'' [] [el ''configurations'' [] []],
                  el ''addData'' []
                    [data_element ''application'' ''implementation''
                       [el ''resource'' [(''name'', ''Application'')]
                          ((case integration of None \<Rightarrow> [] | Some g \<Rightarrow> [task_element oid seconds g]) @
                           [append_object_id_data (oid application_path)
                              (el ''addData'' [] (program @ map pou_wrapper pous @ library_elements oid us))])],
                     project_structure oid us integration]])))"

record export_result =
  xr_document :: xml
  xr_diagnostics :: "ir_diagnostic list"
  xr_requirements :: "iec_requirement list"

definition export_complete :: "export_result \<Rightarrow> bool" where
  "export_complete r =
     (xr_requirements r = [] \<and> \<not> list_ex (\<lambda>d. sd_code d \<in> set blocking_codes) (xr_diagnostics r))"

definition prescan_mapped_diagnostic :: ir_diagnostic where
  "prescan_mapped_diagnostic = STDiagnostic ''codesys_prescan_mapped_to_fb_init''
     (''mapped enabled AOI Prescan logic to the CODESYS '' @ ''FB_Init lifecycle method'') no_place"

definition export_diagnostics :: "'v ir_unit \<Rightarrow> 'v ir_unit list \<Rightarrow> ir_diagnostic list" where
  "export_diagnostics u additional =
     (let ds = concat (map (\<lambda>v. ie_diagnostics (emit_codesys_st_unit v)) (u # additional))
      in case mapped_prescan u of
           None \<Rightarrow> ds
         | Some r \<Rightarrow> filter (\<lambda>d. sd_code d \<noteq> ''prescan_mapping_required'') ds @ [prescan_mapped_diagnostic])"

definition export_requirements :: "'v ir_unit \<Rightarrow> 'v ir_unit list \<Rightarrow> iec_requirement list" where
  "export_requirements u additional =
     sorted_requirements
       (concat (map (\<lambda>v. ie_requirements (emit_codesys_st_unit v)) (u # additional)) @
        (case mapped_prescan u of None \<Rightarrow> [] | Some r \<Rightarrow> ie_requirements (emit_codesys_st_routine r)))"

definition export_plcopen ::
  "(string \<Rightarrow> string) \<Rightarrow> (int \<Rightarrow> string) \<Rightarrow> string \<Rightarrow> string \<Rightarrow> 'v ir_unit \<Rightarrow> 'v ir_unit list \<Rightarrow>
     project_integration option \<Rightarrow> export_error + export_result" where
  "export_plcopen oid seconds timestamp project_name captured additional_captured integration =
     (let u = adapt_codesys_runtime captured; additional = map adapt_codesys_runtime additional_captured
      in map_sum id (\<lambda>root.
           \<lparr>xr_document = root, xr_diagnostics = export_diagnostics u additional,
            xr_requirements = export_requirements u additional\<rparr>)
           (build_document oid seconds timestamp project_name (u # additional) integration))"

end
