(* ===== verification/IR_Semantics.thy ===== *)
theory IR_Semantics imports IR_Model begin

text \<open>
  A big-step semantics of the executable IR, with the control structure of Structured Text: the
  first true branch of a conditional runs, \<open>EXIT\<close> leaves the innermost loop. The meaning of
  expressions, \<open>ev\<close>, and of simple statements, \<open>ex\<close>, over a state \<open>'s\<close> are parameters:
  nothing the passes do depends on them. A run ends normally or by an \<open>EXIT\<close> (\<open>True\<close>) no
  loop of the list has caught.
\<close>

fun is_simple :: "ir_stmt \<Rightarrow> bool" where
  "is_simple (IRIf sp bs es) = False"
| "is_simple (IRWhile sp c body) = False"
| "is_simple (IRExit sp) = False"
| "is_simple st = True"

fun chosen :: "(ir_expr \<Rightarrow> 's \<Rightarrow> bool) \<Rightarrow> ir_branch list \<Rightarrow> ir_stmt list \<Rightarrow> 's \<Rightarrow> ir_stmt list" where
  "chosen ev [] es s = es"
| "chosen ev (IRIfBranch sp c body # bs) es s = (if ev c s then body else chosen ev bs es s)"

inductive run_stmts ::
  "(ir_expr \<Rightarrow> 's \<Rightarrow> bool) \<Rightarrow> (ir_stmt \<Rightarrow> 's \<Rightarrow> 's) \<Rightarrow> ir_stmt list \<Rightarrow> 's \<Rightarrow> bool \<Rightarrow> 's \<Rightarrow> bool"
  for ev ex where
  run_nil: "run_stmts ev ex [] s False s"
| run_simple: "is_simple st \<Longrightarrow> run_stmts ev ex sts (ex st s) x t \<Longrightarrow> run_stmts ev ex (st # sts) s x t"
| run_exit: "run_stmts ev ex (IRExit sp # sts) s True s"
| run_if: "run_stmts ev ex (chosen ev bs es s) s False u \<Longrightarrow> run_stmts ev ex sts u x t \<Longrightarrow>
     run_stmts ev ex (IRIf sp bs es # sts) s x t"
| run_if_exit: "run_stmts ev ex (chosen ev bs es s) s True t \<Longrightarrow> run_stmts ev ex (IRIf sp bs es # sts) s True t"
| run_while_done: "\<not> ev c s \<Longrightarrow> run_stmts ev ex sts s x t \<Longrightarrow> run_stmts ev ex (IRWhile sp c body # sts) s x t"
| run_while_again: "ev c s \<Longrightarrow> run_stmts ev ex body s False u \<Longrightarrow>
     run_stmts ev ex (IRWhile sp c body # sts) u x t \<Longrightarrow> run_stmts ev ex (IRWhile sp c body # sts) s x t"
| run_while_exit: "ev c s \<Longrightarrow> run_stmts ev ex body s True u \<Longrightarrow> run_stmts ev ex sts u x t \<Longrightarrow>
     run_stmts ev ex (IRWhile sp c body # sts) s x t"

declare run_stmts.intros [intro]

inductive_cases run_nilE [elim!]: "run_stmts ev ex [] s x t"
inductive_cases run_consE: "run_stmts ev ex (st # sts) s x t"
inductive_cases run_exitE [elim!]: "run_stmts ev ex (IRExit sp # sts) s x t"
inductive_cases run_ifE: "run_stmts ev ex (IRIf sp bs es # sts) s x t"
inductive_cases run_whileE: "run_stmts ev ex (IRWhile sp c body # sts) s x t"

inductive_simps run_nil_iff [simp]: "run_stmts ev ex [] s x t"

lemma run_simple_iff: "is_simple st \<Longrightarrow> run_stmts ev ex (st # sts) s x t \<longleftrightarrow> run_stmts ev ex sts (ex st s) x t"
  by (auto elim: run_consE)

lemma run_if_iff:
  "run_stmts ev ex (IRIf sp bs es # sts) s x t \<longleftrightarrow>
     (\<exists>u. run_stmts ev ex (chosen ev bs es s) s False u \<and> run_stmts ev ex sts u x t) \<or>
     (x \<and> run_stmts ev ex (chosen ev bs es s) s True t)"
  by (auto elim: run_ifE)

lemma run_while_iff:
  "run_stmts ev ex (IRWhile sp c body # sts) s x t \<longleftrightarrow>
     (if ev c s
      then (\<exists>u. run_stmts ev ex body s False u \<and> run_stmts ev ex (IRWhile sp c body # sts) u x t) \<or>
           (\<exists>u. run_stmts ev ex body s True u \<and> run_stmts ev ex sts u x t)
      else run_stmts ev ex sts s x t)"
  by (auto elim: run_whileE)

text \<open>The last statement of a list that is a conditional is its chosen branch.\<close>

lemma run_last_if: "run_stmts ev ex [IRIf sp bs es] s x t \<longleftrightarrow> run_stmts ev ex (chosen ev bs es s) s x t"
  unfolding run_if_iff by (cases x) auto

text \<open>Runs are deterministic, in the state reached and in the way they end.\<close>

lemma run_deterministic:
  "run_stmts ev ex sts s x t \<Longrightarrow> run_stmts ev ex sts s y u \<Longrightarrow> x = y \<and> t = u"
proof (induction arbitrary: y u rule: run_stmts.induct)
  case (run_simple st sts s x t)
  then show ?case by (simp add: run_simple_iff)
next
  case (run_if bs es s v sts x t sp)
  from run_if.prems show ?case unfolding run_if_iff using run_if.IH by blast
next
  case (run_if_exit bs es s t sp sts)
  from run_if_exit.prems show ?case unfolding run_if_iff using run_if_exit.IH by blast
next
  case (run_while_done c s sts x t sp body)
  from run_while_done.prems show ?case
    unfolding run_while_iff [of ev ex sp c body sts s] using run_while_done.hyps run_while_done.IH by simp
next
  case (run_while_again c s body v sp sts x t)
  from run_while_again.prems run_while_again.hyps(1)
  consider (again) w where "run_stmts ev ex body s False w" "run_stmts ev ex (IRWhile sp c body # sts) w y u"
    | (left) w where "run_stmts ev ex body s True w"
    unfolding run_while_iff [of ev ex sp c body sts s] by auto
  then show ?case
  proof cases
    case again
    from run_while_again.IH(1) [OF again(1)] run_while_again.IH(2) [of y u] again(2) show ?thesis by simp
  next
    case left
    from run_while_again.IH(1) [OF this] show ?thesis by simp
  qed
next
  case (run_while_exit c s body v sts x t sp)
  from run_while_exit.prems run_while_exit.hyps(1)
  consider (again) w where "run_stmts ev ex body s False w"
    | (left) w where "run_stmts ev ex body s True w" "run_stmts ev ex sts w y u"
    unfolding run_while_iff [of ev ex sp c body sts s] by auto
  then show ?case
  proof cases
    case again
    from run_while_exit.IH(1) [OF this] show ?thesis by simp
  next
    case left
    from run_while_exit.IH(1) [OF left(1)] run_while_exit.IH(2) [of y u] left(2) show ?thesis by simp
  qed
qed auto

end
