(* ===== verification/Codesys_Facts.thy ===== *)
theory Codesys_Facts imports Codesys_Adapter IR_Semantics Emitter_Facts begin

text \<open>
  What the CODESYS adaptation promises: as long as the clock can be read, the adapted
  statements run exactly as the captured ones; after a failed read the rest of the block is
  replaced by the failure assignments; and the adaptation is applied once.
\<close>

section \<open>Guarding preserves runs\<close>

text \<open>The clock works: its status, tested after a read, is good. It fails: it is not.\<close>

definition clock_works :: "(ir_expr \<Rightarrow> 's \<Rightarrow> bool) \<Rightarrow> (ir_stmt \<Rightarrow> 's \<Rightarrow> 's) \<Rightarrow> bool" where
  "clock_works ev ex \<longleftrightarrow> (\<forall>sp d u s. ev (clock_condition sp) (ex (IRWallClockRead sp d u) s))"

definition clock_fails :: "(ir_expr \<Rightarrow> 's \<Rightarrow> bool) \<Rightarrow> (ir_stmt \<Rightarrow> 's \<Rightarrow> 's) \<Rightarrow> bool" where
  "clock_fails ev ex \<longleftrightarrow> (\<forall>sp d u s. \<not> ev (clock_condition sp) (ex (IRWallClockRead sp d u) s))"

lemma chosen_guard:
  "chosen ev (guard_branches F bs) (guard_clock_reads F es) s = guard_clock_reads F (chosen ev bs es s)"
  by (induction ev bs es s rule: chosen.induct) auto

lemma run_guard:
  "run_stmts ev ex [clock_guard sp remaining failure] s x t \<longleftrightarrow>
     (if ev (clock_condition sp) s then run_stmts ev ex remaining s x t else run_stmts ev ex failure s x t)"
  by (simp add: clock_guard_def run_last_if)

lemma guard_simple:
  "is_simple st \<Longrightarrow> guard_clock_reads F (st # sts) =
     (case st of IRWallClockRead sp d u \<Rightarrow> [st, clock_guard sp (guard_clock_reads F sts) F]
      | _ \<Rightarrow> st # guard_clock_reads F sts)"
  by (cases st) simp_all

lemma run_guarded:
  assumes "clock_works ev ex" "run_stmts ev ex sts s x t"
  shows "run_stmts ev ex (guard_clock_reads F sts) s x t"
  using assms(2)
proof (induction rule: run_stmts.induct)
  case (run_simple st sts s x t)
  show ?case
  proof (cases "\<exists>sp d u. st = IRWallClockRead sp d u")
    case True
    then obtain sp d u where st: "st = IRWallClockRead sp d u" by blast
    with assms(1) have "ev (clock_condition sp) (ex st s)" by (simp add: clock_works_def)
    with run_simple.IH have "run_stmts ev ex [clock_guard sp (guard_clock_reads F sts) F] (ex st s) x t"
      by (simp add: run_guard)
    then show ?thesis by (auto simp: st)
  next
    case False
    with run_simple.hyps run_simple.IH show ?thesis by (cases st) auto
  qed
next
  case (run_if bs es s u sts x t sp)
  then show ?case by (auto simp flip: chosen_guard)
next
  case (run_if_exit bs es s t sp sts)
  then show ?case by (auto simp flip: chosen_guard)
qed auto

text \<open>
  The converse, by induction on the run of the guarded list; the guard of a clock read stands
  for the list it guards.
\<close>

definition guards :: "(ir_expr \<Rightarrow> 's \<Rightarrow> bool) \<Rightarrow> ir_stmt list \<Rightarrow> 's \<Rightarrow> ir_stmt list \<Rightarrow> ir_stmt list \<Rightarrow> bool" where
  "guards ev F s gs sts \<longleftrightarrow> gs = guard_clock_reads F sts \<or>
     (\<exists>sp. gs = [clock_guard sp (guard_clock_reads F sts) F] \<and> ev (clock_condition sp) s)"

lemma guard_is_nil:
  assumes "guard_clock_reads F sts = []"
  shows "sts = []"
proof (cases sts)
  case (Cons st rest)
  with assms show ?thesis by (cases st) auto
qed

lemma guard_is_if:
  assumes "guard_clock_reads F sts = IRIf sp bs es # gs"
  obtains bs1 es1 rest where "sts = IRIf sp bs1 es1 # rest" "bs = guard_branches F bs1"
    "es = guard_clock_reads F es1" "gs = guard_clock_reads F rest"
proof (cases sts)
  case (Cons st rest)
  with assms that show thesis by (cases st) auto
qed (use assms in simp)

lemma guard_is_while:
  assumes "guard_clock_reads F sts = IRWhile sp c body # gs"
  obtains body1 rest where "sts = IRWhile sp c body1 # rest" "body = guard_clock_reads F body1"
    "gs = guard_clock_reads F rest"
proof (cases sts)
  case (Cons st rest)
  with assms that show thesis by (cases st) auto
qed (use assms in simp)

lemma guard_is_exit:
  assumes "guard_clock_reads F sts = IRExit sp # gs"
  obtains rest where "sts = IRExit sp # rest"
proof (cases sts)
  case (Cons st rest)
  with assms that show thesis by (cases st) auto
qed (use assms in simp)

lemma guard_is_simple:
  assumes "guard_clock_reads F sts = st # gs" "is_simple st"
  obtains rest where "sts = st # rest"
    "gs = (case st of IRWallClockRead sp d u \<Rightarrow> [clock_guard sp (guard_clock_reads F rest) F]
      | _ \<Rightarrow> guard_clock_reads F rest)"
proof (cases sts)
  case (Cons st1 rest)
  with assms that show thesis by (cases st1) auto
qed (use assms in simp)

lemma guards_while: "guards ev F s (IRWhile sp c body # gs) sts \<longleftrightarrow> guard_clock_reads F sts = IRWhile sp c body # gs"
  by (auto simp: guards_def clock_guard_def)

lemma guards_self: "guards ev F s (guard_clock_reads F sts) sts"
  by (simp add: guards_def)

lemma guards_if:
  assumes "guards ev F s (IRIf sp bs es # gs) sts"
  shows "(\<exists>bs1 es1 rest. sts = IRIf sp bs1 es1 # rest \<and> chosen ev bs es s = guard_clock_reads F (chosen ev bs1 es1 s) \<and>
      gs = guard_clock_reads F rest) \<or>
    chosen ev bs es s = guard_clock_reads F sts \<and> gs = []"
  using assms unfolding guards_def
proof (elim disjE exE conjE)
  assume "IRIf sp bs es # gs = guard_clock_reads F sts"
  then show ?thesis by (metis guard_is_if chosen_guard)
qed (auto simp: clock_guard_def)

lemma run_unguarded:
  assumes works: "clock_works ev ex" and "run_stmts ev ex gs s x t" "guards ev F s gs sts"
  shows "run_stmts ev ex sts s x t"
  using assms(2,3)
proof (induction arbitrary: sts rule: run_stmts.induct)
  case (run_nil s)
  then have "guard_clock_reads F sts = []" by (auto simp: guards_def)
  then have "sts = []" by (rule guard_is_nil)
  then show ?case by simp
next
  case (run_simple st gs s x t)
  then have "guard_clock_reads F sts = st # gs" by (auto simp: guards_def clock_guard_def)
  from guard_is_simple [OF this run_simple.hyps(1)] obtain rest where rest: "sts = st # rest"
    "gs = (case st of IRWallClockRead sp d u \<Rightarrow> [clock_guard sp (guard_clock_reads F rest) F]
      | _ \<Rightarrow> guard_clock_reads F rest)" by blast
  have "guards ev F (ex st s) gs rest"
    using works by (cases st) (auto simp: rest(2) guards_def clock_works_def)
  from run_simple.IH [OF this] run_simple.hyps(1) show ?case by (simp add: rest(1) run_simple_iff)
next
  case (run_exit sp gs s)
  then have "guard_clock_reads F sts = IRExit sp # gs" by (auto simp: guards_def clock_guard_def)
  then show ?case by (rule guard_is_exit) auto
next
  case (run_if bs es s u gs x t sp)
  from guards_if [OF run_if.prems] show ?case
  proof (elim disjE exE conjE)
    fix bs1 es1 rest
    assume "sts = IRIf sp bs1 es1 # rest" "chosen ev bs es s = guard_clock_reads F (chosen ev bs1 es1 s)"
      "gs = guard_clock_reads F rest"
    then show ?thesis using run_if.IH(1) [of "chosen ev bs1 es1 s"] run_if.IH(2) [of rest]
      by (auto simp: guards_self)
  next
    assume "chosen ev bs es s = guard_clock_reads F sts" "gs = []"
    then show ?thesis using run_if.IH(1) [of sts] run_if.hyps(2) by (auto simp: guards_self)
  qed
next
  case (run_if_exit bs es s t sp gs)
  from guards_if [OF run_if_exit.prems] show ?case
  proof (elim disjE exE conjE)
    fix bs1 es1 rest
    assume "sts = IRIf sp bs1 es1 # rest" "chosen ev bs es s = guard_clock_reads F (chosen ev bs1 es1 s)"
    then show ?thesis using run_if_exit.IH [of "chosen ev bs1 es1 s"] by (auto simp: guards_self)
  next
    assume "chosen ev bs es s = guard_clock_reads F sts"
    then show ?thesis using run_if_exit.IH [of sts] by (auto simp: guards_self)
  qed
next
  case (run_while_done c s gs x t sp body)
  from run_while_done.prems have "guard_clock_reads F sts = IRWhile sp c body # gs" by (simp add: guards_while)
  then show ?case using run_while_done.hyps(1) run_while_done.IH by (elim guard_is_while) (auto simp: guards_self)
next
  case (run_while_again c s body u sp gs x t)
  from run_while_again.prems have g: "guard_clock_reads F sts = IRWhile sp c body # gs" by (simp add: guards_while)
  then obtain body1 rest where b: "sts = IRWhile sp c body1 # rest" "body = guard_clock_reads F body1"
    by (rule guard_is_while)
  have "run_stmts ev ex sts u x t" using run_while_again.IH(2) [of sts] g by (simp add: guards_while)
  moreover have "run_stmts ev ex body1 s False u" using run_while_again.IH(1) [of body1] b(2) by (simp add: guards_self)
  ultimately show ?case using run_stmts.run_while_again [of ev c s ex body1 u sp rest x t] run_while_again.hyps(1) b(1) by simp
next
  case (run_while_exit c s body u gs x t sp)
  from run_while_exit.prems have "guard_clock_reads F sts = IRWhile sp c body # gs" by (simp add: guards_while)
  then obtain body1 rest where b: "sts = IRWhile sp c body1 # rest" "body = guard_clock_reads F body1"
    "gs = guard_clock_reads F rest" by (rule guard_is_while)
  have "run_stmts ev ex body1 s True u" "run_stmts ev ex rest u x t"
    using run_while_exit.IH(1) [of body1] run_while_exit.IH(2) [of rest] b(2,3) by (simp_all add: guards_self)
  then show ?case
    using run_stmts.run_while_exit [of ev c s ex body1 u rest x t sp] run_while_exit.hyps(1) b(1) by simp
qed

lemma run_guarded_iff:
  "clock_works ev ex \<Longrightarrow> run_stmts ev ex (guard_clock_reads F sts) s x t \<longleftrightarrow> run_stmts ev ex sts s x t"
  using run_guarded [of ev ex sts s x t F] run_unguarded [of ev ex "guard_clock_reads F sts" s x t F sts]
  by (auto simp: guards_self)

section \<open>The adaptation of units\<close>

text \<open>
  C19. While the clock works the adaptation is transparent: for any meaning of expressions and
  simple statements under which the status is good after every clock read, each routine of the
  adapted unit has exactly the runs of the captured routine, with the same end and final
  state; routines keep their order, names, roles, sources and diagnostics.
\<close>

theorem adaptation_transparent:
  assumes "clock_works ev ex"
  shows "list_all2 (\<lambda>a r. ro_name a = ro_name r \<and> ro_role a = ro_role r \<and> ro_source a = ro_source r \<and>
       ro_diagnostics a = ro_diagnostics r \<and>
       run_stmts ev ex (ro_statements a) s x t = run_stmts ev ex (ro_statements r) s x t)
     (iu_routines (adapt_codesys_runtime u)) (iu_routines u)"
  using run_guarded_iff [OF assms]
  by (auto simp: adapt_codesys_runtime_def Let_def list_all2_conv_all_nth)

text \<open>A state of one number; every condition holds, every simple statement counts.\<close>

definition counting :: "ir_stmt \<Rightarrow> nat \<Rightarrow> nat" where
  "counting st n = Suc n"

definition always :: "ir_expr \<Rightarrow> nat \<Rightarrow> bool" where
  "always e n = True"

definition never :: "ir_expr \<Rightarrow> nat \<Rightarrow> bool" where
  "never e n = False"

definition clock_unit :: "unit ir_unit" where
  "clock_unit = \<lparr>iu_name = ''Stamp'', iu_kind = UK_FUNCTION_BLOCK,
     iu_parameters = [\<lparr>ip_name = ''Done'', ip_direction = DIR_OUTPUT, ip_data_type = Some ''BOOL'',
       ip_dimensions = None, ip_generic_dimensions = False, ip_required = None, ip_visible = None,
       ip_system_defined = False, ip_default_value = None, ip_default_lexical_value = None\<rparr>],
     iu_variables = [], iu_routines = [\<lparr>ro_name = ''Logic'', ro_source_language = Some ''ST'', ro_source = [],
       ro_statements = [IRWallClockRead (SourceSpan 0 3) (IRReference (SourceSpan 1 2) (Some ''LINT'') ''Now'') ''microseconds'',
         IRAssignment (SourceSpan 4 8) (IRReference (SourceSpan 4 5) (Some ''BOOL'') ''Done'')
           (IRLiteral (SourceSpan 6 8) (Some ''BOOL'') ''TRUE'')],
       ro_diagnostics = [], ro_role = RR_PRIMARY\<rparr>],
     iu_source_vendor = None,
     iu_lifecycle = \<lparr>lc_prescan_enabled = None, lc_postscan_enabled = None, lc_enable_in_false_enabled = None\<rparr>,
     iu_diagnostics = []\<rparr>"

theorem adaptation_transparent_witness:
  "run_stmts always counting (ro_statements (hd (iu_routines (adapt_codesys_runtime clock_unit)))) 0 False 2"
proof -
  have "clock_works always counting" by (simp add: clock_works_def always_def)
  note t = adaptation_transparent [OF this, of 0 False 2 clock_unit]
  have "run_stmts always counting (ro_statements (hd (iu_routines clock_unit))) 0 False 2"
    by (simp add: clock_unit_def run_simple_iff counting_def)
  with t show ?thesis by (cases "iu_routines (adapt_codesys_runtime clock_unit)") (auto simp: clock_unit_def)
qed

text \<open>
  A failed clock read stops its block: when the clock fails, a block that begins with a
  clock read runs the read and the failure assignments, and nothing of what followed the read
  in that block.
\<close>

theorem failed_read_stops_block:
  assumes "clock_fails ev ex"
  shows "run_stmts ev ex (guard_clock_reads failure (IRWallClockRead sp d unit # sts)) s x t \<longleftrightarrow>
     run_stmts ev ex failure (ex (IRWallClockRead sp d unit) s) x t"
  using assms by (simp add: run_simple_iff run_guard clock_fails_def)

theorem failed_read_stops_block_witness:
  "run_stmts never counting
     (guard_clock_reads (clock_failure_assignments (iu_parameters clock_unit)) (ro_statements (hd (iu_routines clock_unit))))
     0 False 2"
proof -
  have "clock_fails never counting" by (simp add: clock_fails_def never_def)
  from failed_read_stops_block [OF this] show ?thesis
    by (simp add: clock_unit_def clock_failure_assignments_def run_simple_iff counting_def
        del: guard_clock_reads.simps)
qed

text \<open>
  C31. The guard ends with its block: when a clock read that fails stands alone in the branch
  of a conditional, the failure assignments run, and then the statements after the conditional
  run as if the read had succeeded, although they follow it.
\<close>

theorem nested_read_unguarded:
  assumes "clock_fails ev ex" "ev c s" "list_all is_simple failure"
  shows "run_stmts ev ex
       (guard_clock_reads failure (IRIf sp [IRIfBranch sp c [IRWallClockRead spr d unit]] [] # sts)) s x t \<longleftrightarrow>
     run_stmts ev ex (guard_clock_reads failure sts) (fold ex failure (ex (IRWallClockRead spr d unit) s)) x t"
proof -
  have simple: "run_stmts ev ex failure v y w \<longleftrightarrow> \<not> y \<and> w = fold ex failure v" for v y w
    using assms(3) by (induction failure arbitrary: v) (auto simp: run_simple_iff)
  from assms(1,2) show ?thesis
    by (simp add: run_if_iff run_simple_iff run_guard clock_fails_def simple)
qed

definition first_only :: "ir_expr \<Rightarrow> nat \<Rightarrow> bool" where
  "first_only e n = (n = 0)"

theorem nested_read_unguarded_witness:
  "run_stmts first_only counting
     (guard_clock_reads []
       [IRIf no_place [IRIfBranch no_place (IRReference no_place None ''c'')
          [IRWallClockRead no_place (IRReference no_place None ''Now'') ''microseconds'']] [],
        IRAssignment no_place (IRReference no_place None ''y'') (IRReference no_place None ''Now'')]) 0 False 2"
proof -
  have "clock_fails first_only counting" by (simp add: clock_fails_def first_only_def counting_def)
  note n = nested_read_unguarded [OF this, of "IRReference no_place None ''c''" 0 "[]"]
  show ?thesis
    by (subst n) (simp_all add: first_only_def run_simple_iff counting_def)
qed

text \<open>
  The adaptation is applied once and only where it is needed: a second application changes
  nothing, a unit without clock reads stays as it is, and an adapted unit keeps its name,
  parameters and lifecycle, carries the adapter's diagnostic last and declares the clock's
  variables, case aside, exactly once more than it had to.
\<close>

theorem adaptation_once:
  "adapt_codesys_runtime (adapt_codesys_runtime u) = adapt_codesys_runtime u \<and>
   (adapt_codesys_runtime u = u \<longleftrightarrow> \<not> (reads_clock u \<and> \<not> clock_adapted u)) \<and>
   iu_parameters (adapt_codesys_runtime u) = iu_parameters u \<and>
   iu_diagnostics (adapt_codesys_runtime u) =
     iu_diagnostics u @ (if reads_clock u \<and> \<not> clock_adapted u then [clock_applied_diagnostic] else []) \<and>
   (py_casefold \<circ> iv_name) ` set (iu_variables (adapt_codesys_runtime u)) =
     (py_casefold \<circ> iv_name) ` set (iu_variables u) \<union>
     (if reads_clock u \<and> \<not> clock_adapted u then (py_casefold \<circ> iv_name) ` set clock_variables else {})"
proof (cases "\<not> (reads_clock u \<and> \<not> clock_adapted u)")
  case True
  then show ?thesis by (auto simp: adapt_codesys_runtime_def)
next
  case False
  let ?v = "adapt_codesys_runtime u"
  have diag: "iu_diagnostics ?v = iu_diagnostics u @ [clock_applied_diagnostic]"
    using False by (simp add: adapt_codesys_runtime_def Let_def)
  then have "clock_adapted ?v" by (simp add: clock_adapted_def clock_applied_diagnostic_def)
  then have "adapt_codesys_runtime ?v = ?v" by (simp add: adapt_codesys_runtime_def)
  moreover have "?v \<noteq> u" using diag by (metis append_self_conv list.distinct(1))
  moreover have "(py_casefold \<circ> iv_name) ` set (iu_variables ?v) =
      (py_casefold \<circ> iv_name) ` set (iu_variables u) \<union> (py_casefold \<circ> iv_name) ` set clock_variables"
    using False by (auto simp: adapt_codesys_runtime_def Let_def image_iff)
  ultimately show ?thesis using False diag by (auto simp: adapt_codesys_runtime_def Let_def)
qed

end
