(* ===== verification/Codesys_Export_Facts.thy ===== *)
theory Codesys_Export_Facts imports Codesys_Export Codesys_Facts begin

text \<open>
  What the export promises: exactly when it fails; that the objects of the navigator are the
  identified elements of the document, one for one, the library manager among them just when
  the clock needs it; and what a complete result says about the emitted units.
\<close>

section \<open>When the export fails\<close>

lemma traverse_Inr: "(\<exists>ys. traverse f xs = Inr ys) \<longleftrightarrow> (\<forall>x\<in>set xs. \<exists>y. f x = Inr y)"
  by (induction xs) (auto split: sum.splits)

lemma traverse_results: "traverse f xs = Inr ys \<Longrightarrow> list_all2 (\<lambda>x y. f x = Inr y) xs ys"
  by (induction xs arbitrary: ys) (auto split: sum.splits)

lemma map_sum_Inr: "map_sum id g m = Inr y \<longleftrightarrow> (\<exists>x. m = Inr x \<and> y = g x)"
  by (cases m) auto

definition dimensions_ok :: "string option \<Rightarrow> bool" where
  "dimensions_ok ds =
     (case ds of None \<Rightarrow> True | Some s \<Rightarrow> list_all (\<lambda>d. py_int d \<noteq> None) (split_on CHR '','' s))"

lemma type_element_ok: "(\<exists>x. type_element t ds = Inr x) \<longleftrightarrow> dimensions_ok ds"
proof (cases ds)
  case (Some s)
  have "(\<exists>ys. traverse dimension_element (split_on CHR '','' s) = Inr ys) \<longleftrightarrow> dimensions_ok ds"
    unfolding traverse_Inr
    by (auto simp: dimension_element_def dimensions_ok_def Some list_all_iff split: option.splits)
  then show ?thesis by (auto simp: type_element_def Some split: sum.splits)
qed (simp add: type_element_def dimensions_ok_def)

lemma variable_element_ok: "(\<exists>x. variable_element n t ds more' = Inr x) \<longleftrightarrow> dimensions_ok ds"
  using type_element_ok [of t ds] by (auto simp: variable_element_def map_sum_Inr)

definition unit_dimensions_ok :: "'v ir_unit \<Rightarrow> bool" where
  "unit_dimensions_ok u =
     (list_all (\<lambda>p. ip_generic_dimensions p \<or> dimensions_ok (ip_dimensions p)) (iu_parameters u) \<and>
      list_all (\<lambda>v. dimensions_ok (iv_dimensions v)) (iu_variables u))"

lemma group_elements_ok:
  "(\<exists>xs. group_elements ps g = Inr xs) \<longleftrightarrow>
     (\<forall>p\<in>set ps. ip_direction p = fst g \<longrightarrow> ip_generic_dimensions p \<or> dimensions_ok (ip_dimensions p))"
proof -
  have "(\<exists>xs. group_elements ps g = Inr xs) \<longleftrightarrow>
      (\<exists>xs. traverse parameter_element
        (filter (\<lambda>p. \<not> ip_generic_dimensions p) (filter (\<lambda>p. ip_direction p = fst g) ps)) = Inr xs)"
    by (auto simp: group_elements_def Let_def map_sum_Inr)
  also have "\<dots> \<longleftrightarrow> (\<forall>p\<in>set ps. ip_direction p = fst g \<longrightarrow> ip_generic_dimensions p \<or> dimensions_ok (ip_dimensions p))"
    unfolding traverse_Inr parameter_element_def variable_element_ok by auto
  finally show ?thesis .
qed

lemma interface_elements_ok: "(\<exists>xs. interface_elements u = Inr xs) \<longleftrightarrow> unit_dimensions_ok u"
proof -
  have groups: "(\<exists>xss. traverse (group_elements (iu_parameters u)) interface_groups = Inr xss) \<longleftrightarrow>
      list_all (\<lambda>p. ip_generic_dimensions p \<or> dimensions_ok (ip_dimensions p)) (iu_parameters u)"
    unfolding traverse_Inr group_elements_ok
    by (auto simp: interface_groups_def list_all_iff) (metis ir_direction.exhaust)
  have locals': "(\<exists>xs. local_elements (iu_variables u) = Inr xs) \<longleftrightarrow>
      list_all (\<lambda>v. dimensions_ok (iv_dimensions v)) (iu_variables u)"
    using traverse_Inr [of ir_variable_element "iu_variables u"]
    by (auto simp: local_elements_def map_sum_Inr ir_variable_element_def variable_element_ok list_all_iff)
  show ?thesis
    using groups locals' unfolding interface_elements_def unit_dimensions_ok_def
    by (cases "traverse (group_elements (iu_parameters u)) interface_groups") (auto simp: map_sum_Inr)
qed

lemma pou_element_ok: "(\<exists>x. pou_element oid u = Inr x) \<longleftrightarrow> unit_dimensions_ok u"
  using interface_elements_ok [of u] by (auto simp: pou_element_def map_sum_Inr)

text \<open>The declarations of the program, when every call and binding is known.\<close>

lemma program_variable_ok: "(\<exists>x. program_variable_element v = Inr x) \<longleftrightarrow> dimensions_ok (gv_dimensions v)"
  by (simp add: program_variable_element_def variable_element_ok)

lemma declare_variables_Inr: "declare_variables declared ds = Inr xs \<Longrightarrow> \<exists>vs. ds = map Inr vs"
proof (induction declared ds arbitrary: xs rule: declare_variables.induct)
  case (1 declared)
  show ?case by simp
next
  case (2 declared e ds)
  then show ?case by simp
next
  case (3 declared v ds)
  from "3.prems" obtain x ys where fresh: "gv_name v \<notin> declared" and x: "program_variable_element v = Inr x"
    and ys: "declare_variables (insert (gv_name v) declared) ds = Inr ys"
    by (auto simp: map_sum_Inr split: if_splits sum.splits)
  from "3.IH" [OF fresh x ys] obtain vs where "ds = map Inr vs" ..
  then have "Inr v # ds = map Inr (v # vs)" by simp
  then show ?case ..
qed

lemma declare_variables_ok:
  "(\<exists>xs. declare_variables declared (map Inr vs) = Inr xs) \<longleftrightarrow>
     distinct (map gv_name vs) \<and> gv_name ` set vs \<inter> declared = {} \<and>
     list_all (\<lambda>v. dimensions_ok (gv_dimensions v)) vs"
proof (induction vs arbitrary: declared)
  case (Cons v vs)
  show ?case
  proof (cases "gv_name v \<in> declared \<or> \<not> dimensions_ok (gv_dimensions v)")
    case True
    then have "\<nexists>xs. declare_variables declared (map Inr (v # vs)) = Inr xs"
      using program_variable_ok [of v] by (auto split: sum.splits)
    with True show ?thesis by auto
  next
    case False
    then obtain x where "program_variable_element v = Inr x" using program_variable_ok [of v] by blast
    with False have "(\<exists>xs. declare_variables declared (map Inr (v # vs)) = Inr xs) \<longleftrightarrow>
        (\<exists>xs. declare_variables (insert (gv_name v) declared) (map Inr vs) = Inr xs)"
      by (auto simp: map_sum_Inr)
    with False show ?thesis unfolding Cons.IH by auto
  qed
qed simp

text \<open>What an integration must satisfy, and the variables it then declares.\<close>

definition call_known :: "'v ir_unit list \<Rightarrow> program_call \<Rightarrow> bool" where
  "call_known us k =
     (case unit_named us (gc_unit_name k) of None \<Rightarrow> False
      | Some u \<Rightarrow> list_all (\<lambda>b. parameter_named u (gb_parameter_name b) \<noteq> None) (gc_bindings k))"

definition call_variables :: "program_call \<Rightarrow> string list" where
  "call_variables k = gc_instance_name k # map gb_variable_name (gc_bindings k)"

definition integration_ok :: "'v ir_unit list \<Rightarrow> project_integration \<Rightarrow> bool" where
  "integration_ok us g =
     (let calls = program_calls (hd us) g
      in list_all (call_known us) calls \<and>
         distinct (concat (map call_variables calls) @ map gv_name (gi_program_variables g)) \<and>
         list_all (\<lambda>k. list_all (\<lambda>b. dimensions_ok (gb_dimensions b)) (gc_bindings k)) calls \<and>
         list_all (\<lambda>v. dimensions_ok (gv_dimensions v)) (gi_program_variables g))"

text \<open>The declarations are all there exactly if every call and parameter is known.\<close>

lemma binding_declaration_Inr:
  "(\<exists>v. binding_declaration u n b = Inr v) \<longleftrightarrow> parameter_named u (gb_parameter_name b) \<noteq> None"
  by (auto simp: binding_declaration_def split: option.splits)

lemma map_Inr_iff: "(\<exists>vs. xs = map Inr vs) \<longleftrightarrow> (\<forall>x\<in>set xs. \<exists>v. x = Inr v)"
proof
  assume "\<forall>x\<in>set xs. \<exists>v. x = Inr v"
  then have "xs = map Inr (map projr xs)" by (induction xs) auto
  then show "\<exists>vs. xs = map Inr vs" ..
qed auto

lemma call_declarations_Inr:
  "(\<forall>x\<in>set (call_declarations us k). \<exists>v. x = Inr v) \<longleftrightarrow> call_known us k"
  using binding_declaration_Inr
  by (fastforce simp: call_declarations_def call_known_def list_all_iff split: option.splits)

lemma binding_declaration_fields:
  assumes "binding_declaration u n b = Inr v"
  shows "gv_name v = gb_variable_name b" "gv_dimensions v = gb_dimensions b"
  using assms by (auto simp: binding_declaration_def split: option.splits)

lemma bindings_fields:
  assumes "map (binding_declaration u n) bs = map Inr vs"
  shows "map gv_name vs = map gb_variable_name bs \<and> map gv_dimensions vs = map gb_dimensions bs"
  using assms
proof (induction bs arbitrary: vs)
  case (Cons b bs)
  then obtain v ws where "vs = v # ws" "binding_declaration u n b = Inr v"
    "map (binding_declaration u n) bs = map Inr ws" by (cases vs) auto
  with Cons.IH show ?case by (simp add: binding_declaration_fields)
qed simp

lemma call_declared:
  assumes "call_known us k"
  obtains vs where "call_declarations us k = map Inr vs" "map gv_name vs = call_variables k"
    "list_all (\<lambda>v. dimensions_ok (gv_dimensions v)) vs \<longleftrightarrow> list_all (\<lambda>b. dimensions_ok (gb_dimensions b)) (gc_bindings k)"
proof -
  from assms obtain u where u: "unit_named us (gc_unit_name k) = Some u"
    and "\<forall>x\<in>set (map (binding_declaration u (gc_unit_name k)) (gc_bindings k)). \<exists>v. x = Inr v"
    by (auto simp: call_known_def binding_declaration_Inr list_all_iff split: option.splits)
  then obtain vs where vs: "map (binding_declaration u (gc_unit_name k)) (gc_bindings k) = map Inr vs"
    using map_Inr_iff by blast
  have dims: "list_all (\<lambda>v. dimensions_ok (gv_dimensions v)) vs \<longleftrightarrow> list_all (\<lambda>b. dimensions_ok (gb_dimensions b)) (gc_bindings k)"
    using bindings_fields [OF vs] by (metis list_all_length length_map nth_map)
  let ?v = "\<lparr>gv_name = gc_instance_name k, gv_data_type = gc_unit_name k, gv_dimensions = None, gv_initial_value = None\<rparr>"
  show thesis
    using that [of "?v # vs"] bindings_fields [OF vs] dims
    by (simp add: call_declarations_def u vs call_variables_def dimensions_ok_def)
qed

lemma calls_declared:
  assumes "list_all (call_known us) ks"
  shows "\<exists>vs. concat (map (call_declarations us) ks) = map Inr vs \<and>
    map gv_name vs = concat (map call_variables ks) \<and>
    (list_all (\<lambda>v. dimensions_ok (gv_dimensions v)) vs \<longleftrightarrow>
       list_all (\<lambda>k. list_all (\<lambda>b. dimensions_ok (gb_dimensions b)) (gc_bindings k)) ks)"
  using assms
proof (induction ks)
  case (Cons k ks)
  then obtain ws where ws: "concat (map (call_declarations us) ks) = map Inr ws"
    "map gv_name ws = concat (map call_variables ks)"
    "list_all (\<lambda>v. dimensions_ok (gv_dimensions v)) ws \<longleftrightarrow>
       list_all (\<lambda>k. list_all (\<lambda>b. dimensions_ok (gb_dimensions b)) (gc_bindings k)) ks" by auto
  from Cons.prems have "call_known us k" by simp
  then obtain vs where "call_declarations us k = map Inr vs" "map gv_name vs = call_variables k"
    "list_all (\<lambda>v. dimensions_ok (gv_dimensions v)) vs \<longleftrightarrow> list_all (\<lambda>b. dimensions_ok (gb_dimensions b)) (gc_bindings k)"
    by (rule call_declared)
  with ws show ?case by (intro exI [of _ "vs @ ws"]) simp
qed simp

lemma program_element_ok: "(\<exists>x. program_element oid us g = Inr x) \<longleftrightarrow> integration_ok us g"
proof -
  let ?calls = "program_calls (hd us) g"
  have "(\<exists>x. program_element oid us g = Inr x) \<longleftrightarrow> (\<exists>xs. declare_variables {} (program_declarations us g) = Inr xs)"
    by (auto simp: program_element_def map_sum_Inr)
  also have "\<dots> \<longleftrightarrow> integration_ok us g"
  proof (cases "list_all (call_known us) ?calls")
    case True
    from calls_declared [OF True] obtain vs where
      "concat (map (call_declarations us) ?calls) = map Inr vs"
      "map gv_name vs = concat (map call_variables ?calls)"
      "list_all (\<lambda>v. dimensions_ok (gv_dimensions v)) vs \<longleftrightarrow>
         list_all (\<lambda>k. list_all (\<lambda>b. dimensions_ok (gb_dimensions b)) (gc_bindings k)) ?calls" by blast
    then have decls: "program_declarations us g = map Inr (vs @ gi_program_variables g)"
      and names: "map gv_name (vs @ gi_program_variables g) =
        concat (map call_variables ?calls) @ map gv_name (gi_program_variables g)"
      and dims: "list_all (\<lambda>v. dimensions_ok (gv_dimensions v)) (vs @ gi_program_variables g) \<longleftrightarrow>
        list_all (\<lambda>k. list_all (\<lambda>b. dimensions_ok (gb_dimensions b)) (gc_bindings k)) ?calls \<and>
        list_all (\<lambda>v. dimensions_ok (gv_dimensions v)) (gi_program_variables g)"
      by (simp_all add: program_declarations_def)
    show ?thesis
      unfolding decls declare_variables_ok names dims integration_ok_def Let_def using True by blast
  next
    case False
    then obtain k where k: "k \<in> set ?calls" "\<not> call_known us k" by (auto simp: list_all_iff)
    then obtain x where x: "x \<in> set (call_declarations us k)" "\<nexists>v. x = Inr v"
      using call_declarations_Inr [of us k] by blast
    with k have "x \<in> set (program_declarations us g)" by (auto simp: program_declarations_def)
    with x have "\<nexists>vs. program_declarations us g = map Inr vs" using map_Inr_iff by blast
    then have "\<nexists>xs. declare_variables {} (program_declarations us g) = Inr xs"
      using declare_variables_Inr by blast
    with False show ?thesis by (simp add: integration_ok_def Let_def)
  qed
  finally show ?thesis .
qed

lemma program_elements_ok:
  "(\<exists>xs. program_elements oid us i = Inr xs) \<longleftrightarrow> (case i of None \<Rightarrow> True | Some g \<Rightarrow> integration_ok us g)"
  using program_element_ok by (auto simp: program_elements_def map_sum_Inr split: option.splits)

lemma build_document_ok:
  "(\<exists>x. build_document oid seconds timestamp n us i = Inr x) \<longleftrightarrow>
     (case i of None \<Rightarrow> True | Some g \<Rightarrow> integration_ok us g) \<and> list_all unit_dimensions_ok us"
  using program_elements_ok [of oid us i] traverse_Inr [of "pou_element oid" us] pou_element_ok [of oid]
  by (auto simp: build_document_def list_all_iff split: sum.splits)

text \<open>The adaptation to the CODESYS clock changes neither names nor parameters, nor adds an array.\<close>

lemma adapt_fields [simp]:
  "iu_name (adapt_codesys_runtime u) = iu_name u" "iu_parameters (adapt_codesys_runtime u) = iu_parameters u"
  "iu_kind (adapt_codesys_runtime u) = iu_kind u" "iu_lifecycle (adapt_codesys_runtime u) = iu_lifecycle u"
  by (simp_all add: adapt_codesys_runtime_def Let_def)

lemma adapt_dimensions [simp]: "unit_dimensions_ok (adapt_codesys_runtime u) = unit_dimensions_ok u"
  by (auto simp: unit_dimensions_ok_def adapt_codesys_runtime_def Let_def list_all_iff clock_variables_def
      dimensions_ok_def)

lemma adapt_unit_named:
  "unit_named (map adapt_codesys_runtime us) n = map_option adapt_codesys_runtime (unit_named us n)"
  by (induction us rule: rev_induct) (simp_all add: unit_named_def dict_of_snoc dict_of_def)

lemma adapt_integration: "integration_ok (map adapt_codesys_runtime us) g = integration_ok us g" if "us \<noteq> []"
proof -
  have "parameter_named (adapt_codesys_runtime u) = parameter_named u" for u :: "'a ir_unit"
    by (simp add: parameter_named_def fun_eq_iff)
  then have "call_known (map adapt_codesys_runtime us) = call_known us"
    by (simp add: call_known_def adapt_unit_named fun_eq_iff split: option.splits)
  moreover have "program_calls (hd (map adapt_codesys_runtime us)) g = program_calls (hd us) g"
    using that by (simp add: program_calls_def hd_map)
  ultimately show ?thesis by (simp add: integration_ok_def)
qed

lemma export_ok:
  "(\<exists>r. export_plcopen oid seconds timestamp n u us i = Inr r) \<longleftrightarrow>
     (case i of None \<Rightarrow> True | Some g \<Rightarrow> integration_ok (u # us) g) \<and> list_all unit_dimensions_ok (u # us)"
  using build_document_ok [of oid seconds timestamp n "map adapt_codesys_runtime (u # us)" i]
    adapt_integration [of "u # us"]
  by (auto simp: export_plcopen_def Let_def map_sum_Inr list.pred_map comp_def split: option.splits)

section \<open>The objects of the navigator\<close>

text \<open>
  An \<open>Object\<close> of the project structure names an identifier; a method carries one in an
  attribute and everything else in the text of an \<open>ObjectId\<close> element.
\<close>

datatype mark = Navigator string | Carrier string

definition mark_of :: "xml \<Rightarrow> mark list" where
  "mark_of e =
     (let attribute = map_of (xml_attributes e)
      in if xml_tag e = qualified_name plcopen_namespace ''Object''
         then map Navigator (case attribute ''ObjectId'' of None \<Rightarrow> [] | Some i \<Rightarrow> [i])
         else if xml_tag e = qualified_name plcopen_namespace ''ObjectId''
         then map Carrier (case xml_text e of None \<Rightarrow> [] | Some i \<Rightarrow> [i])
         else if xml_tag e = qualified_name plcopen_namespace ''Method''
         then map Carrier (case attribute ''ObjectId'' of None \<Rightarrow> [] | Some i \<Rightarrow> [i])
         else [])"

fun marks :: "xml \<Rightarrow> mark list" where
  "marks (Element t a x cs) = mark_of (Element t a x cs) @ concat (map marks cs)"

definition all_marks :: "xml list \<Rightarrow> mark list" where
  "all_marks es = concat (map marks es)"

lemma all_marks_simps [simp]:
  "all_marks [] = []" "all_marks (e # es) = marks e @ all_marks es"
  "all_marks (es @ fs) = all_marks es @ all_marks fs"
  by (simp_all add: all_marks_def)

lemma all_marks_map: "all_marks (map f xs) = concat (map (marks \<circ> f) xs)"
  by (simp add: all_marks_def)

definition plain_tag :: "string \<Rightarrow> bool" where
  "plain_tag n = (n \<notin> {''Object'', ''ObjectId'', ''Method''})"

lemma marks_el: "plain_tag n \<Longrightarrow> marks (el n a cs) = all_marks cs"
  by (simp add: el_def mark_of_def plain_tag_def qualified_name_def all_marks_def)

lemma marks_data_element [simp]: "marks (data_element k h cs) = all_marks cs"
  by (simp add: data_element_def marks_el plain_tag_def)

lemma marks_xhtml [simp]: "mark_of (Element (qualified_name xhtml_namespace ''xhtml'') a x []) = []"
  by (simp add: mark_of_def qualified_name_def xhtml_namespace_def plcopen_namespace_def)

lemma marks_st_body [simp]: "marks (st_body t) = []"
  by (simp add: st_body_def marks_el plain_tag_def)

lemma marks_object_id_data [simp]: "marks (object_id_data i) = [Carrier i]"
  by (simp add: object_id_data_def mark_of_def qualified_name_def)

lemma marks_append_object_id_data:
  "xml_tag e = qualified_name plcopen_namespace ''addData'' \<Longrightarrow>
     marks (append_object_id_data i e) = marks e @ [Carrier i]"
  by (cases e) (simp add: append_object_id_data_def mark_of_def Let_def qualified_name_def all_marks_def [symmetric])

lemma marks_add_data [simp]: "marks (append_object_id_data i (el ''addData'' [] cs)) = all_marks cs @ [Carrier i]"
  by (simp add: append_object_id_data_def el_def mark_of_def qualified_name_def all_marks_def)

lemma tag_el [simp]: "xml_tag (el n a cs) = qualified_name plcopen_namespace n"
  by (simp add: el_def)

lemma qualified_name_inject [simp]: "qualified_name ns n = qualified_name ns m \<longleftrightarrow> n = m"
  by (simp add: qualified_name_def)

lemma marks_append_to_add_data:
  "mset (all_marks (append_to_add_data i cs)) = add_mset (Carrier i) (mset (all_marks cs))"
  by (induction cs) (auto simp: marks_append_object_id_data)

lemma marks_append_object_id:
  "plain_tag n \<Longrightarrow> mset (marks (append_object_id i (el n a cs))) = add_mset (Carrier i) (mset (all_marks cs))"
  using marks_append_to_add_data [of i cs] marks_el [of n a "append_to_add_data i cs"]
  by (simp add: append_object_id_def el_def)

lemma marks_object_element [simp]: "marks (object_element oid n p cs) = Navigator (oid p) # all_marks cs"
  by (simp add: object_element_def el_def mark_of_def all_marks_def)

text \<open>Types, variables and interfaces carry no identifier.\<close>

lemmas marks_plain = marks_el plain_tag_def

lemma lower_capitals: "lower_char CHR ''O'' = CHR ''o''" "lower_char CHR ''M'' = CHR ''m''"
  by code_simp+

lemma marks_scalar_type [simp]: "marks (scalar_type t) = []"
proof -
  have "plain_tag n" if "n \<in> set elementary_types" for n
    using that unfolding elementary_types_def by (auto simp: plain_tag_def)
  moreover have "plain_tag (map lower_char k)" for k
  proof -
    have "map lower_char (map lower_char k) = map lower_char k" by simp
    moreover have "map lower_char n \<noteq> n" if "\<not> plain_tag n" for n
      using that lower_capitals by (auto simp: plain_tag_def)
    ultimately show ?thesis by metis
  qed
  ultimately show ?thesis
    by (auto simp: scalar_type_def marks_el split: option.splits) (simp_all add: marks_plain)
qed

lemma all_marks_traverse:
  assumes "traverse f xs = Inr es" "\<And>x e. f x = Inr e \<Longrightarrow> marks e = []"
  shows "all_marks es = []"
  using traverse_results [OF assms(1)] by (induction rule: list_all2_induct) (auto simp: assms(2))

lemma marks_type_element: "type_element t ds = Inr e \<Longrightarrow> marks e = []"
proof (cases ds)
  case (Some s)
  have "marks e = []" if "dimension_element d = Inr e" for d e
    using that by (auto simp: dimension_element_def marks_plain split: option.splits)
  then have "all_marks xs = []" if "traverse dimension_element (split_on CHR '','' s) = Inr xs" for xs
    using that all_marks_traverse by blast
  then show "type_element t ds = Inr e \<Longrightarrow> marks e = []"
    by (auto simp: type_element_def Some marks_plain split: sum.splits)
qed (auto simp: type_element_def)

lemma marks_variable_element:
  "variable_element n t ds xs = Inr e \<Longrightarrow> marks e = all_marks xs"
  by (auto simp: variable_element_def map_sum_Inr marks_plain marks_type_element)

lemma marks_generic_array [simp]: "marks (generic_array_parameter p) = []"
  by (simp add: generic_array_parameter_def marks_plain attribute_element_def Let_def all_marks_map)

lemma marks_parameters: "traverse parameter_element ps = Inr es \<Longrightarrow> all_marks es = []"
  by (erule all_marks_traverse) (auto simp: parameter_element_def dest: marks_variable_element)

lemma marks_variables: "traverse ir_variable_element vs = Inr es \<Longrightarrow> all_marks es = []"
  by (erule all_marks_traverse) (auto simp: ir_variable_element_def dest: marks_variable_element)

lemma marks_group_elements: "group_elements ps g = Inr es \<Longrightarrow> g \<in> set interface_groups \<Longrightarrow> all_marks es = []"
  by (auto simp: group_elements_def Let_def map_sum_Inr marks_plain interface_groups_def all_marks_map comp_def
      dest!: marks_parameters)

lemma marks_groups:
  "traverse (group_elements ps) gs = Inr ess \<Longrightarrow> set gs \<subseteq> set interface_groups \<Longrightarrow> all_marks (concat ess) = []"
  by (induction gs arbitrary: ess) (auto simp: marks_group_elements split: sum.splits)

lemma marks_interface: "interface_elements u = Inr es \<Longrightarrow> all_marks es = []"
  by (auto simp: interface_elements_def local_elements_def map_sum_Inr marks_plain marks_groups marks_variables
      split: sum.splits if_splits)

text \<open>A unit, a program and a task carry their own identifiers, and a mapped prescan that of its method.\<close>

definition unit_paths :: "'v ir_unit \<Rightarrow> string list" where
  "unit_paths u = unit_path u # (if mapped_prescan u = None then [] else [method_path u])"

lemma marks_pou: "pou_element oid u = Inr e \<Longrightarrow> mset (marks e) = mset (map (Carrier \<circ> oid) (unit_paths u))"
  by (auto simp: pou_element_def map_sum_Inr marks_plain marks_interface lifecycle_elements_def unit_paths_def
      prescan_method_def el_def [of "''Method''"] mark_of_def bool_variable_def all_marks_map split: option.splits)

lemma marks_declared: "declare_variables declared ds = Inr es \<Longrightarrow> all_marks es = []"
proof (induction declared ds arbitrary: es rule: declare_variables.induct)
  case (3 declared v ds)
  from "3.prems" obtain x ys where fresh: "gv_name v \<notin> declared" and x: "program_variable_element v = Inr x"
    and ys: "declare_variables (insert (gv_name v) declared) ds = Inr ys" and es: "es = x # ys"
    by (auto simp: map_sum_Inr split: if_splits sum.splits)
  from x have "marks x = []"
    by (auto simp: program_variable_element_def marks_plain dest!: marks_variable_element split: option.splits)
  with "3.IH" [OF fresh x ys] es show ?case by simp
qed auto

lemma marks_program:
  "program_element oid us g = Inr e \<Longrightarrow> marks e = [Carrier (oid (program_path g))]"
proof -
  assume "program_element oid us g = Inr e"
  then obtain vs t where vs: "all_marks vs = []" and e: "e = append_object_id (oid (program_path g))
      (el ''pou'' [(''name'', gi_program_name g), (''pouType'', ''program'')]
        [el ''interface'' [] [el ''localVars'' [] vs], st_body t])"
    by (auto simp: program_element_def map_sum_Inr dest: marks_declared)
  have "mset (marks e) = add_mset (Carrier (oid (program_path g)))
      (mset (all_marks [el ''interface'' [] [el ''localVars'' [] vs], st_body t]))"
    unfolding e by (rule marks_append_object_id) (simp add: plain_tag_def)
  with vs show ?thesis by (simp add: marks_plain)
qed

lemma marks_task: "marks (task_element oid seconds g) = [Carrier (oid (task_path g))]"
  by (simp add: task_element_def marks_plain)

lemma marks_libraries:
  "mset (all_marks (library_elements oid us)) =
     (if libraries_required us then {#Carrier (oid library_path)#} else {#})"
proof -
  have "all_marks (map (\<lambda>d. el ''Library'' (d @ library_defaults) []) ls) = []" for ls
    by (induction ls) (simp_all add: marks_plain)
  then show ?thesis by (simp add: library_elements_def marks_append_object_id plain_tag_def)
qed

lemma marks_units:
  "traverse (pou_element oid) us = Inr es \<Longrightarrow>
     mset (all_marks (map pou_wrapper es)) = mset (map (Carrier \<circ> oid) (concat (map unit_paths us)))"
proof (induction us arbitrary: es)
  case (Cons u us)
  then obtain x xs where "pou_element oid u = Inr x" "traverse (pou_element oid) us = Inr xs" "es = x # xs"
    by (auto split: sum.splits)
  with Cons.IH show ?case by (simp add: pou_wrapper_def marks_pou comp_def)
qed simp

definition object_paths :: "'v ir_unit list \<Rightarrow> project_integration option \<Rightarrow> string list" where
  "object_paths us i =
     application_path # (if libraries_required us then [library_path] else []) @
     (case i of None \<Rightarrow> [] | Some g \<Rightarrow> [program_path g, task_path g]) @ concat (map unit_paths us)"

lemma marks_unit_object: "marks (unit_object oid u) = map (Navigator \<circ> oid) (unit_paths u)"
  by (simp add: unit_object_def unit_paths_def)

lemma marks_structure:
  "marks (project_structure oid us i) = map (Navigator \<circ> oid) (object_paths us i)"
proof -
  have "all_marks (map (unit_object oid) us) = map (Navigator \<circ> oid) (concat (map unit_paths us))"
    by (induction us) (simp_all add: marks_unit_object)
  then show ?thesis
    by (simp add: project_structure_def marks_plain object_paths_def library_object_def split: option.split)
qed

lemma document_marks:
  assumes "build_document oid seconds timestamp n us i = Inr root"
  shows "mset (marks root) =
    mset (map (Navigator \<circ> oid) (object_paths us i)) + mset (map (Carrier \<circ> oid) (object_paths us i))"
proof -
  from assms obtain program pous where program: "program_elements oid us i = Inr program"
    and pous: "traverse (pou_element oid) us = Inr pous"
    by (auto simp: build_document_def split: sum.splits)
  have p: "mset (all_marks program) =
      (case i of None \<Rightarrow> {#} | Some g \<Rightarrow> {#Carrier (oid (program_path g))#})"
    using program by (auto simp: program_elements_def map_sum_Inr pou_wrapper_def marks_program split: option.splits)
  have header: "marks coordinate_info = []" by (simp add: coordinate_info_def marks_plain)
  show ?thesis
    using assms p marks_units [OF pous] marks_libraries [of oid us] header
    by (auto simp: build_document_def program pous marks_plain marks_structure marks_task object_paths_def
        split: option.splits)
qed

section \<open>Libraries and completeness\<close>

text \<open>The adaptation declares a clock variable unless its name is taken.\<close>

definition declares_clock :: "'v ir_unit \<Rightarrow> bool" where
  "declares_clock u = list_ex (\<lambda>v. iv_data_type v \<in> Some ` set wall_clock_types) (iu_variables u)"

definition clock_name_free :: "'v ir_unit \<Rightarrow> bool" where
  "clock_name_free u =
     list_ex (\<lambda>c. \<not> list_ex (\<lambda>v. py_casefold (iv_name v) = py_casefold (iv_name c)) (iu_variables u)) clock_variables"

lemma clock_variables_typed: "v \<in> set clock_variables \<Longrightarrow> iv_data_type v \<in> Some ` set wall_clock_types"
  by (auto simp: clock_variables_def wall_clock_types_def)

lemma adapt_declares_clock:
  "declares_clock (adapt_codesys_runtime u) \<longleftrightarrow>
     declares_clock u \<or> reads_clock u \<and> \<not> clock_adapted u \<and> clock_name_free u"
proof (cases "clock_adapted u \<or> \<not> reads_clock u")
  case False
  let ?new = "filter (\<lambda>v. py_casefold (iv_name v) \<notin> set (map (py_casefold \<circ> iv_name) (iu_variables u))) clock_variables"
  have "list_ex (\<lambda>v. iv_data_type v \<in> Some ` set wall_clock_types) ?new \<longleftrightarrow> ?new \<noteq> []"
    using clock_variables_typed by (force simp: list_ex_iff filter_empty_conv)
  also have "\<dots> \<longleftrightarrow> clock_name_free u"
  proof -
    have some': "(filter P cs \<noteq> []) = list_ex P cs" for P and cs :: "ir_variable list" by (induction cs) auto
    have taken: "py_casefold (iv_name c) \<notin> set (map (py_casefold \<circ> iv_name) vs) \<longleftrightarrow>
        \<not> list_ex (\<lambda>v. py_casefold (iv_name v) = py_casefold (iv_name c)) vs" for c vs
      by (force simp: list_ex_iff)
    show ?thesis unfolding some' taken clock_name_free_def ..
  qed
  finally have "list_ex (\<lambda>v. iv_data_type v \<in> Some ` set wall_clock_types) ?new \<longleftrightarrow> clock_name_free u" .
  with False show ?thesis by (simp add: declares_clock_def adapt_codesys_runtime_def Let_def)
qed (auto simp: adapt_codesys_runtime_def)

lemma libraries_required_iff:
  "libraries_required (map adapt_codesys_runtime us) \<longleftrightarrow>
     list_ex (\<lambda>u. declares_clock u \<or> reads_clock u \<and> \<not> clock_adapted u \<and> clock_name_free u) us"
proof -
  have "libraries_required vs = list_ex declares_clock vs" for vs :: "'a ir_unit list"
    by (simp add: libraries_required_def declares_clock_def list_ex_iff)
  then show ?thesis by (simp add: list_ex_iff adapt_declares_clock)
qed

lemma mapped_prescan_adapt:
  "mapped_prescan (adapt_codesys_runtime u) = None \<longleftrightarrow> mapped_prescan u = None"
proof -
  have "find (\<lambda>r. ro_role r = RR_PRESCAN) (map (\<lambda>r. r\<lparr>ro_statements := f (ro_statements r)\<rparr>) rs) = None \<longleftrightarrow>
      find (\<lambda>r. ro_role r = RR_PRESCAN) rs = None" for f :: "ir_stmt list \<Rightarrow> ir_stmt list" and rs
    by (induction rs) auto
  then show ?thesis by (auto simp: mapped_prescan_def adapt_codesys_runtime_def Let_def)
qed

text \<open>
  The diagnostics that keep a result from being complete, the required mapping of a prescan
  left out once the first unit's prescan is mapped.
\<close>

definition blockers :: "bool \<Rightarrow> ir_diagnostic list \<Rightarrow> ir_diagnostic list" where
  "blockers covered ds =
     filter (\<lambda>d. sd_code d \<in> set blocking_codes \<and> (covered \<longrightarrow> sd_code d \<noteq> ''prescan_mapping_required'')) ds"

lemma blockers_append [simp]: "blockers c (ds @ es) = blockers c ds @ blockers c es"
  by (simp add: blockers_def)

lemma blockers_concat: "blockers c (concat dss) = concat (map (blockers c) dss)"
  by (induction dss) (simp_all add: blockers_def)

lemma no_blockers: "\<not> list_ex (\<lambda>d. sd_code d \<in> set blocking_codes) ds \<longleftrightarrow> blockers False ds = []"
  by (auto simp: blockers_def list_ex_iff filter_empty_conv)

lemma blockers_filter: "blockers False (filter (\<lambda>d. sd_code d \<noteq> ''prescan_mapping_required'') ds) = blockers True ds"
  by (simp add: blockers_def conj_commute)

lemma export_diagnostics_blockers:
  "blockers False (export_diagnostics u us) =
     concat (map (\<lambda>v. blockers (mapped_prescan u \<noteq> None) (ie_diagnostics (emit_codesys_st_unit v))) (u # us))"
proof -
  have "blockers False [prescan_mapped_diagnostic] = []"
    by (simp add: blockers_def prescan_mapped_diagnostic_def blocking_codes_def)
  then show ?thesis
    by (cases "mapped_prescan u") (simp_all add: export_diagnostics_def blockers_filter blockers_concat comp_def)
qed

lemma sorted_requirements_empty [simp]: "sorted_requirements rs = [] \<longleftrightarrow> rs = []"
  by (metis length_0_conv length_sort remdups_eq_nil_iff sorted_requirements_def)

lemma emit_adapted: "emit_codesys_st_unit (adapt_codesys_runtime u) = emit_codesys_st_unit u"
  by (simp add: emit_codesys_st_unit_def adaptation_once)

section \<open>An example\<close>

text \<open>Two units whose prescan is enabled; only the first has the logic.\<close>

definition demo_call :: ir_stmt where
  "demo_call = IRAssignment no_place (IRReference no_place (Some ''BOOL'') ''Done'')
     (IRLiteral no_place (Some ''BOOL'') ''FALSE'')"

definition demo_unit :: "string \<Rightarrow> ir_routine list \<Rightarrow> ir_diagnostic list \<Rightarrow> unit ir_unit" where
  "demo_unit n rs ds =
     \<lparr>iu_name = n, iu_kind = UK_FUNCTION_BLOCK, iu_parameters = [], iu_variables = [], iu_routines = rs,
      iu_source_vendor = None,
      iu_lifecycle = \<lparr>lc_prescan_enabled = Some True, lc_postscan_enabled = None,
        lc_enable_in_false_enabled = None\<rparr>, iu_diagnostics = ds\<rparr>"

definition demo_prescan :: ir_routine where
  "demo_prescan = \<lparr>ro_name = ''Prescan'', ro_source_language = None, ro_source = [],
     ro_statements = [demo_call], ro_diagnostics = [], ro_role = RR_PRESCAN\<rparr>"

definition demo_required :: ir_diagnostic where
  "demo_required = STDiagnostic ''prescan_mapping_required'' [] no_place"

definition demo_first :: "unit ir_unit" where
  "demo_first = demo_unit ''A'' [demo_prescan] [demo_required]"

definition demo_second :: "unit ir_unit" where
  "demo_second = demo_unit ''B'' [] [demo_required]"

lemmas demo_units = demo_first_def demo_second_def demo_unit_def demo_prescan_def demo_call_def demo_required_def

lemma demo_emissions:
  "ie_requirements (emit_codesys_st_unit demo_first) = []" "ie_requirements (emit_codesys_st_unit demo_second) = []"
  "ie_diagnostics (emit_codesys_st_unit demo_first) = [demo_required]"
  "ie_diagnostics (emit_codesys_st_unit demo_second) = [demo_required]"
  "mapped_prescan demo_first = Some demo_prescan" "mapped_prescan (adapt_codesys_runtime demo_first) = Some demo_prescan"
  "ie_requirements (emit_codesys_st_routine demo_prescan) = []"
  "list_all unit_dimensions_ok [demo_first, demo_second]"
  by code_simp+

lemma demo_paths:
  "[application_path] @
     (if list_ex (\<lambda>v. declares_clock v \<or> reads_clock v \<and> \<not> clock_adapted v \<and> clock_name_free v) [demo_first, demo_second]
      then [library_path] else []) @ concat (map unit_paths [demo_first, demo_second]) =
   [''Application'', ''Application/pou/A'', ''Application/pou/A/method/FB_Init'', ''Application/pou/B'']"
  by code_simp

lemma demo_export: "\<exists>r. export_plcopen id int_str [] ''P'' demo_first [demo_second] None = Inr r"
  unfolding export_ok using demo_emissions(8) by simp

section \<open>The export\<close>

text \<open>
  C20. When the export fails: it returns a result if and only if every dimension of an interface
  is a list of integers, pointers to arrays of any size aside, and, if there is a program to
  build, every call names a unit of the export and every binding a parameter of it, the
  instances, the bound variables and the program's own variables have pairwise different
  names, and their dimensions are integers too. Otherwise it raises an error.
\<close>

theorem export_outcome:
  "(\<exists>r. export_plcopen oid seconds timestamp n u us i = Inr r) \<longleftrightarrow>
     (case i of None \<Rightarrow> True | Some g \<Rightarrow> integration_ok (u # us) g) \<and> list_all unit_dimensions_ok (u # us)"
  by (rule export_ok)

text \<open>
  C21. Every object of the navigator is an element of the document and has its identifier, and
  the other way round: in an exported document the identifiers the project structure lists and
  those the elements carry are both exactly those of the application, of the program and its
  task if there is an integration, of each unit, of the method a mapped prescan becomes, and of
  the library manager; and that one is there if and only if a unit declares a variable of a
  clock type, or reads the clock, was not adapted before and leaves one of the two names of
  the clock variables free.
\<close>

theorem export_identifies_objects:
  assumes "export_plcopen oid seconds timestamp n u us i = Inr r"
  shows "mset (marks (xr_document r)) =
      mset (map (Navigator \<circ> oid) (object_paths (map adapt_codesys_runtime (u # us)) i)) +
      mset (map (Carrier \<circ> oid) (object_paths (map adapt_codesys_runtime (u # us)) i)) \<and>
    object_paths (map adapt_codesys_runtime (u # us)) i =
      [application_path] @
      (if list_ex (\<lambda>v. declares_clock v \<or> reads_clock v \<and> \<not> clock_adapted v \<and> clock_name_free v) (u # us)
       then [library_path] else []) @
      (case i of None \<Rightarrow> [] | Some g \<Rightarrow> [program_path g, task_path g]) @ concat (map unit_paths (u # us))"
proof -
  let ?us = "map adapt_codesys_runtime (u # us)"
  have "build_document oid seconds timestamp n ?us i = Inr (xr_document r)"
    using assms by (auto simp: export_plcopen_def Let_def map_sum_Inr)
  then have marked: "mset (marks (xr_document r)) =
      mset (map (Navigator \<circ> oid) (object_paths ?us i)) + mset (map (Carrier \<circ> oid) (object_paths ?us i))"
    by (rule document_marks)
  have "unit_paths \<circ> adapt_codesys_runtime = (unit_paths :: 'a ir_unit \<Rightarrow> string list)"
    by (simp add: fun_eq_iff unit_paths_def unit_path_def method_path_def mapped_prescan_adapt)
  then have "map unit_paths ?us = map unit_paths (u # us)" by (simp only: map_map)
  then have "object_paths ?us i = [application_path] @
      (if list_ex (\<lambda>v. declares_clock v \<or> reads_clock v \<and> \<not> clock_adapted v \<and> clock_name_free v) (u # us)
       then [library_path] else []) @
      (case i of None \<Rightarrow> [] | Some g \<Rightarrow> [program_path g, task_path g]) @ concat (map unit_paths (u # us))"
    unfolding object_paths_def libraries_required_iff by (simp only: append.simps)
  with marked show ?thesis ..
qed

theorem export_identifies_objects_witness:
  "\<exists>r. export_plcopen id int_str [] ''P'' demo_first [demo_second] None = Inr r \<and>
     mset (marks (xr_document r)) =
       {#Navigator ''Application'', Navigator ''Application/pou/A'', Navigator ''Application/pou/A/method/FB_Init'',
         Navigator ''Application/pou/B'', Carrier ''Application'', Carrier ''Application/pou/A'',
         Carrier ''Application/pou/A/method/FB_Init'', Carrier ''Application/pou/B''#}"
proof -
  from demo_export obtain r where r: "export_plcopen id int_str [] ''P'' demo_first [demo_second] None = Inr r" ..
  note identified = export_identifies_objects [OF r]
  have "object_paths (map adapt_codesys_runtime [demo_first, demo_second]) None =
      [''Application'', ''Application/pou/A'', ''Application/pou/A/method/FB_Init'', ''Application/pou/B'']"
    using demo_paths identified by simp
  with r identified show ?thesis by simp
qed

text \<open>
  C22. What a complete export says: a result is complete if and only if no unit needs a target
  requirement, no diagnostic of a unit is blocking, and the prescan of the first unit needs
  nothing either. A prescan still to be mapped is blocking only while the first unit has no
  mapped prescan: once it has one, the result is complete even if the prescan logic of another
  unit is lost.
\<close>

theorem export_complete_iff:
  assumes "export_plcopen oid seconds timestamp n u us i = Inr r"
  shows "export_complete r \<longleftrightarrow>
    list_all (\<lambda>v. ie_requirements (emit_codesys_st_unit v) = [] \<and>
      blockers (mapped_prescan u \<noteq> None) (ie_diagnostics (emit_codesys_st_unit v)) = []) (u # us) \<and>
    (case mapped_prescan (adapt_codesys_runtime u) of None \<Rightarrow> True
     | Some p \<Rightarrow> ie_requirements (emit_codesys_st_routine p) = [])"
proof -
  let ?us = "map adapt_codesys_runtime us" and ?u = "adapt_codesys_runtime u"
  have r: "xr_diagnostics r = export_diagnostics ?u ?us" "xr_requirements r = export_requirements ?u ?us"
    using assms by (auto simp: export_plcopen_def Let_def map_sum_Inr)
  have requirements: "xr_requirements r = [] \<longleftrightarrow>
      list_all (\<lambda>v. ie_requirements (emit_codesys_st_unit v) = []) (u # us) \<and>
      (case mapped_prescan ?u of None \<Rightarrow> True | Some p \<Rightarrow> ie_requirements (emit_codesys_st_routine p) = [])"
    unfolding r export_requirements_def
    by (auto simp: emit_adapted list_all_iff split: option.splits)
  have "\<not> list_ex (\<lambda>d. sd_code d \<in> set blocking_codes) (xr_diagnostics r) \<longleftrightarrow>
      list_all (\<lambda>v. blockers (mapped_prescan u \<noteq> None) (ie_diagnostics (emit_codesys_st_unit v)) = []) (u # us)"
    unfolding no_blockers r export_diagnostics_blockers
    by (auto simp: emit_adapted list_all_iff mapped_prescan_adapt)
  then show ?thesis unfolding export_complete_def requirements by (auto simp: list_all_iff)
qed

theorem export_complete_iff_witness:
  "\<exists>r. export_plcopen id int_str [] ''P'' demo_first [demo_second] None = Inr r \<and> export_complete r \<and>
     \<not> emission_complete (emit_codesys_st_unit demo_second) \<and> mapped_prescan demo_second = None"
proof -
  from demo_export obtain r where r: "export_plcopen id int_str [] ''P'' demo_first [demo_second] None = Inr r" ..
  have "export_complete r"
    unfolding export_complete_iff [OF r] by (simp add: demo_emissions blockers_def demo_required_def)
  moreover have "\<not> emission_complete (emit_codesys_st_unit demo_second)"
    by (simp add: emission_complete_def demo_emissions demo_required_def blocking_codes_def)
  moreover have "mapped_prescan demo_second = None" by code_simp
  ultimately show ?thesis using r by blast
qed

end
