(* ===== verification/Ladder_Model.thy ===== *)
theory Ladder_Model imports Py_Text begin

text \<open>
  Ladder logic as the model keeps it: the typed expressions of \<open>model/expression.py\<close>, the
  networks of \<open>model/ladder.py\<close>, and the grid rules of
  \<open>schema/machine_expert_basic/ladder.py\<close>.

  An \<open>Expression\<close> is a tagged union by \<open>kind\<close>; the types it names are the datatype
  \<open>box_type\<close>, \<open>ANY_INT\<close> being the type of an integer literal still without a context. A
  \<open>LadderSeries\<close> is the list of its elements.
\<close>

section \<open>Steps\<close>

text \<open>A step of the readers: \<open>None\<close> when it does not return, an error, or a value.\<close>

definition andthen :: "('e + 'a) option \<Rightarrow> ('a \<Rightarrow> ('e + 'b) option) \<Rightarrow> ('e + 'b) option" where
  "andthen m f = (case m of None \<Rightarrow> None | Some (Inl e) \<Rightarrow> Some (Inl e) | Some (Inr x) \<Rightarrow> f x)"

lemma andthen_Some [simp]:
  "andthen (Some (Inl e)) f = Some (Inl e)" "andthen (Some (Inr x)) f = f x" "andthen None f = None"
  by (simp_all add: andthen_def)

lemma andthen_InrE:
  assumes "andthen m f = Some (Inr y)"
  obtains x where "m = Some (Inr x)" "f x = Some (Inr y)"
  using assms by (auto simp: andthen_def split: option.splits sum.splits)

lemma andthen_None_iff: "andthen m f = None \<longleftrightarrow> m = None \<or> (\<exists>x. m = Some (Inr x) \<and> f x = None)"
  by (auto simp: andthen_def split: option.splits sum.splits)

section \<open>Expressions\<close>

datatype box_type = T_BOOL | T_INT | T_DINT | T_REAL | T_ANY_INT

datatype box_expr =
    Box_Literal (box_type: box_type) string
  | Box_Variable (box_type: box_type) string "string option"
  | Box_Binary (box_type: box_type) string box_expr box_expr
  | Box_Call (box_type: box_type) string box_expr box_expr

definition arithmetic_operators :: "string set" where
  "arithmetic_operators = {''+'', ''-'', ''*'', ''/''}"

definition comparison_operators :: "string set" where
  "comparison_operators = {''='', ''<>'', ''<'', ''>'', ''<='', ''>=''}"

definition assignment_operator :: string where
  "assignment_operator = '':=''"

definition shift_functions :: "string set" where
  "shift_functions = {''SHL'', ''SHR'', ''ROL'', ''ROR''}"

text \<open>\<open>iter_nodes\<close> and \<open>render\<close>.\<close>

primrec iter_nodes :: "box_expr \<Rightarrow> box_expr list" where
  "iter_nodes (Box_Literal t x) = [Box_Literal t x]"
| "iter_nodes (Box_Variable t x a) = [Box_Variable t x a]"
| "iter_nodes (Box_Binary t op l r) = Box_Binary t op l r # iter_nodes l @ iter_nodes r"
| "iter_nodes (Box_Call t f l r) = Box_Call t f l r # iter_nodes l @ iter_nodes r"

fun is_binary :: "box_expr \<Rightarrow> bool" where
  "is_binary (Box_Binary t op l r) = True"
| "is_binary e = False"

definition parenthesised :: "box_expr \<Rightarrow> string \<Rightarrow> string" where
  "parenthesised e s = (if is_binary e then ''('' @ s @ '')'' else s)"

primrec render :: "box_expr \<Rightarrow> string" where
  "render (Box_Literal t x) = x"
| "render (Box_Variable t x a) = x"
| "render (Box_Binary t op l r) =
     parenthesised l (render l) @ '' '' @ op @ '' '' @ parenthesised r (render r)"
| "render (Box_Call t f l r) = f @ ''('' @ render l @ '', '' @ render r @ '')''"

section \<open>Networks\<close>

datatype ladder_operation =
    NORMALLY_OPEN_CONTACT | NORMALLY_CLOSED_CONTACT | COIL | SET_COIL | RESET_COIL
  | POSITIVE_TRANSITION_CONTACT | NEGATIVE_TRANSITION_CONTACT | NEGATED_COIL
  | BLOCK_OUTPUT_REFERENCE | FUNCTION_BLOCK_INPUT | COMPARISON | ASSIGNMENT | UNSUPPORTED

text \<open>A position is a row and a column, in the order the code compares them.\<close>

record ladder_instruction =
  li_operation :: ladder_operation
  li_mnemonic :: string
  li_operand :: "string option"
  li_annotations :: "string list"
  li_position :: "(int \<times> int) option"
  li_expression :: "box_expr option"

datatype ladder_element = Leaf ladder_instruction | Parallel "ladder_element list list"

type_synonym ladder_series = "ladder_element list"

section \<open>The grid rules\<close>

text \<open>\<open>BlockPins\<close>: the row offset of every pin.\<close>

record block_pins =
  bp_inputs :: "(string \<times> int) list"
  bp_outputs :: "(string \<times> int) list"

record ladder_spec =
  sp_wires :: "string list"
  sp_vertical :: "string list"
  sp_ignored :: "string list"
  sp_conditions :: "(string \<times> ladder_operation \<times> string option) list"
  sp_outputs :: "(string \<times> ladder_operation \<times> string option) list"
  sp_blocks :: "(string \<times> block_pins) list"
  sp_block_prefixes :: "(string \<times> string) list"
  sp_expression_fields :: "(string \<times> string) list"
  sp_operand_types :: "(string \<times> box_type) list"
  sp_widths :: "(string \<times> int) list"
  sp_element_type :: string
  sp_row :: string
  sp_column :: string
  sp_connection :: string
  sp_block_name :: string

definition pins_at :: "(string \<times> int) list \<Rightarrow> (string \<times> int) list \<Rightarrow> block_pins" where
  "pins_at inputs outputs = \<lparr>bp_inputs = inputs, bp_outputs = outputs\<rparr>"

definition LADDER_SPEC :: ladder_spec where
  "LADDER_SPEC =
     \<lparr>sp_wires = [''Line'', ''Short''],
      sp_vertical = [''VerticalLine''],
      sp_ignored = [''None''],
      sp_conditions =
        [(''NormalContact'', NORMALLY_OPEN_CONTACT, Some ''Descriptor''),
         (''NegatedContact'', NORMALLY_CLOSED_CONTACT, Some ''Descriptor''),
         (''RisingEdge'', POSITIVE_TRANSITION_CONTACT, Some ''Descriptor''),
         (''FallingEdge'', NEGATIVE_TRANSITION_CONTACT, Some ''Descriptor''),
         (''Xor'', UNSUPPORTED, Some ''Descriptor''),
         (''Not'', UNSUPPORTED, None),
         (''RisingEdgeBlock'', UNSUPPORTED, Some ''Descriptor''),
         (''Comparison'', UNSUPPORTED, Some ''ComparisonExpression'')],
      sp_outputs =
        [(''Coil'', COIL, Some ''Descriptor''), (''SetCoil'', SET_COIL, Some ''Descriptor''),
         (''ResetCoil'', RESET_COIL, Some ''Descriptor''), (''NegativeCoil'', NEGATED_COIL, Some ''Descriptor''),
         (''Operation'', UNSUPPORTED, Some ''OperationExpression'')],
      sp_blocks =
        [(''Timer'', pins_at [(''IN'', 0)] [(''Q'', 0)]),
         (''Counter'', pins_at [(''R'', 0), (''S'', 1), (''CU'', 2), (''CD'', 3)] [(''E'', 0), (''D'', 1), (''F'', 2)]),
         (''Drum'', pins_at [(''R'', 0), (''U'', 1)] [(''F'', 0)]),
         (''WriteVarBasic'', pins_at [(''Execute'', 0)] [(''Done'', 0)])],
      sp_block_prefixes =
        [(''%TM'', ''Timer''), (''%DR'', ''Drum''), (''%C'', ''Counter''), (''%WRITE_VAR'', ''WriteVarBasic'')],
      sp_expression_fields =
        [(''Comparison'', ''ComparisonExpression''), (''Operation'', ''OperationExpression'')],
      sp_operand_types =
        [(''%MW'', T_INT), (''%KW'', T_INT), (''%SW'', T_INT), (''%IW'', T_INT), (''%QW'', T_INT),
         (''%IWS'', T_INT), (''%QWS'', T_INT), (''%IWE'', T_INT), (''%QWE'', T_INT), (''%IWM'', T_INT),
         (''%QWM'', T_INT), (''%MD'', T_DINT), (''%KD'', T_DINT), (''%MF'', T_REAL), (''%KF'', T_REAL)],
      sp_widths =
        [(''Timer'', 2), (''Counter'', 2), (''Drum'', 2), (''Comparison'', 2), (''Operation'', 2),
         (''WriteVarBasic'', 4)],
      sp_element_type = ''ElementType'', sp_row = ''Row'', sp_column = ''Column'',
      sp_connection = ''ChosenConnection'', sp_block_name = ''Descriptor''\<rparr>"

definition spec_width :: "ladder_spec \<Rightarrow> string \<Rightarrow> int" where
  "spec_width spec k = (case map_of (sp_widths spec) k of None \<Rightarrow> 1 | Some w \<Rightarrow> w)"

definition spec_known :: "ladder_spec \<Rightarrow> string \<Rightarrow> bool" where
  "spec_known spec k =
     (k \<in> set (sp_wires spec) \<or> k \<in> set (sp_vertical spec) \<or> k \<in> set (sp_ignored spec) \<or>
      k \<in> fst ` set (sp_conditions spec) \<or> k \<in> fst ` set (sp_outputs spec) \<or> k \<in> fst ` set (sp_blocks spec))"

end
