(* ===== verification/Basic_Expression.thy ===== *)
theory Basic_Expression imports Ladder_Model begin

text \<open>
  The expression boxes of Machine Expert - Basic: \<open>parsers/machine_expert_basic/expression.py\<close>.
  An \<open>ExpressionUnsupported\<close> is the \<open>Inl\<close> of its message. The recursive descent takes
  fuel, with \<open>None\<close> when it runs out; \<open>parser_fuel\<close> is enough for every token list
  (\<open>Basic_Expression_Facts\<close>). The mapping from addresses to symbols is a parameter, as it is
  of the code.
\<close>

section \<open>Tokens\<close>

definition is_word_char :: "char \<Rightarrow> bool" where
  "is_word_char c = (py_isalnum c \<or> c = CHR ''_'')"

definition is_word_start :: "char \<Rightarrow> bool" where
  "is_word_start c = (py_isalpha c \<or> c = CHR ''_'')"

definition two_character_tokens :: "string list" where
  "two_character_tokens = ['':='', ''<='', ''>='', ''<>'']"

definition one_character_tokens :: string where
  "one_character_tokens = ''-+*/()<>=,''"

text \<open>\<open>\d+\.\d+|\d+\<close>, \<open>(?:\.\d+)*\<close> and the rest of an address.\<close>

definition number_token :: "string \<Rightarrow> string \<times> string" where
  "number_token s =
     (let whole = takeWhile py_isdigit s; rest = dropWhile py_isdigit s
      in case rest of
           c # d # more' \<Rightarrow>
             if c = CHR ''.'' \<and> py_isdigit d
             then (whole @ c # takeWhile py_isdigit (d # more'), dropWhile py_isdigit (d # more'))
             else (whole, rest)
         | _ \<Rightarrow> (whole, rest))"

function index_parts :: "string \<Rightarrow> string \<times> string" where
  "index_parts s =
     (case s of
        c # d # more' \<Rightarrow>
          if c = CHR ''.'' \<and> py_isdigit d
          then (let (part, rest) = index_parts (dropWhile py_isdigit (d # more'))
                in (c # takeWhile py_isdigit (d # more') @ part, rest))
          else ([], s)
      | _ \<Rightarrow> ([], s))"
  by pat_completeness auto
termination
proof (relation "measure length", simp)
  fix s :: string and c more' d rest
  assume "s = c # more'" "more' = d # rest" "c = CHR ''.'' \<and> py_isdigit d"
  then show "(dropWhile py_isdigit (d # rest), s) \<in> measure length"
    using length_dropWhile_le [of py_isdigit rest] by simp
qed

declare index_parts.simps [simp del]

definition member_part :: "string \<Rightarrow> string \<times> string" where
  "member_part s =
     (case s of
        c # d # more' \<Rightarrow>
          if (c = CHR ''.'' \<or> c = CHR '':'') \<and> py_isalpha d
          then (c # d # takeWhile is_word_char more', dropWhile is_word_char more')
          else ([], s)
      | _ \<Rightarrow> ([], s))"

definition address_token :: "string \<Rightarrow> (string \<times> string) option" where
  "address_token s =
     (let letters = takeWhile py_isalpha s; after_letters = dropWhile py_isalpha s;
          digits = takeWhile py_isdigit after_letters; after_digits = dropWhile py_isdigit after_letters;
          (parts, after_parts) = index_parts after_digits; (member, rest) = member_part after_parts
      in if letters = [] \<or> digits = [] then None
         else Some (CHR ''%'' # letters @ digits @ parts @ member, rest))"

text \<open>One match of \<open>_TOKEN\<close>: the token and what follows it.\<close>

definition next_token_of :: "string \<Rightarrow> (string \<times> string) option" where
  "next_token_of text =
     (let s = dropWhile py_isspace text
      in case s of
           [] \<Rightarrow> None
         | c # more' \<Rightarrow>
             if take 2 s \<in> set two_character_tokens then Some (take 2 s, drop 2 s)
             else if c \<in> set one_character_tokens then Some ([c], more')
             else if py_isdigit c then Some (number_token s)
             else if c = CHR ''%'' then address_token more'
             else if is_word_start c then Some (c # takeWhile is_word_char more', dropWhile is_word_char more')
             else None)"

lemma index_parts_length: "length (snd (index_parts s)) \<le> length s"
proof (induction s rule: index_parts.induct)
  case (1 s)
  show ?case
  proof (cases "\<exists>c d r. s = c # d # r \<and> c = CHR ''.'' \<and> py_isdigit d")
    case True
    then obtain d r where s: "s = CHR ''.'' # d # r" "py_isdigit d" by blast
    have "length (snd (index_parts (dropWhile py_isdigit (d # r)))) \<le> length (dropWhile py_isdigit (d # r))"
      using 1 [OF s(1) refl] s by simp
    also have "\<dots> \<le> length r" using s(2) by (simp add: length_dropWhile_le)
    finally show ?thesis by (subst index_parts.simps) (simp add: s case_prod_beta)
  next
    case False
    then show ?thesis by (subst index_parts.simps) (auto split: list.splits)
  qed
qed

lemma member_part_length: "length (snd (member_part s)) \<le> length s"
  by (auto simp: member_part_def length_dropWhile_le le_SucI split: list.splits)

lemma number_token_shorter: "py_isdigit c \<Longrightarrow> length (snd (number_token (c # s))) < length (c # s)"
  using length_dropWhile_le [of py_isdigit s]
  by (auto simp: number_token_def Let_def split: list.splits)
    (metis length_dropWhile_le le_SucI le_imp_less_Suc length_Cons order_trans)+

lemma address_token_length: "address_token s = Some (t, rest) \<Longrightarrow> length rest \<le> length s"
proof -
  assume "address_token s = Some (t, rest)"
  then have rest: "rest = snd (member_part (snd (index_parts (dropWhile py_isdigit (dropWhile py_isalpha s)))))"
    by (auto simp: address_token_def Let_def case_prod_beta split: if_splits)
  show ?thesis
    unfolding rest
    by (rule order_trans [OF member_part_length] order_trans [OF index_parts_length]
        order_trans [OF length_dropWhile_le] length_dropWhile_le)+
qed

lemma next_token_shorter: "next_token_of s = Some (t, rest) \<Longrightarrow> length rest < length s"
proof -
  assume token: "next_token_of s = Some (t, rest)"
  then obtain c r where s: "dropWhile py_isspace s = c # r"
    by (auto simp: next_token_of_def Let_def split: list.splits)
  have "length rest < length (c # r)"
    using token number_token_shorter [of c r] address_token_length [of r t rest]
    by (auto simp: next_token_of_def s Let_def length_dropWhile_le le_imp_less_Suc split: if_splits)
  also have "\<dots> \<le> length s" using length_dropWhile_le [of py_isspace s] s by simp
  finally show ?thesis .
qed

function tokenize_loop :: "string \<Rightarrow> string + string list" where
  "tokenize_loop text =
     (if text = [] then Inr []
      else case next_token_of text of
             None \<Rightarrow> Inl (''cannot read '' @ py_repr text)
           | Some (t, rest) \<Rightarrow> map_sum id (\<lambda>ts. t # ts) (tokenize_loop rest))"
  by pat_completeness auto
termination
  by (relation "measure length") (auto simp: next_token_shorter)

declare tokenize_loop.simps [simp del]

definition tokenize :: "string \<Rightarrow> string + string list" where
  "tokenize text = tokenize_loop (py_strip text)"

section \<open>Types\<close>

fun type_name :: "box_type \<Rightarrow> string" where
  "type_name T_BOOL = ''BOOL''"
| "type_name T_INT = ''INT''"
| "type_name T_DINT = ''DINT''"
| "type_name T_REAL = ''REAL''"
| "type_name T_ANY_INT = ''ANY_INT''"

fun integer_range :: "box_type \<Rightarrow> (int \<times> int) option" where
  "integer_range T_INT = Some (-32768, 32767)"
| "integer_range T_DINT = Some (-2147483648, 2147483647)"
| "integer_range t = None"

fun shift_width :: "box_type \<Rightarrow> int option" where
  "shift_width T_INT = Some 16"
| "shift_width T_DINT = Some 32"
| "shift_width t = None"

definition in_range :: "box_type \<Rightarrow> string \<Rightarrow> bool" where
  "in_range t text =
     (case (integer_range t, py_int text) of
        (Some (low, high), Some n) \<Rightarrow> low \<le> n \<and> n \<le> high
      | _ \<Rightarrow> False)"

text \<open>\<open>_adopt\<close> and \<open>_unify\<close>.\<close>

fun adopt :: "box_expr \<Rightarrow> box_type \<Rightarrow> string + box_expr" where
  "adopt (Box_Literal T_ANY_INT text) t =
     (if t = T_REAL then Inr (Box_Literal T_REAL (text @ ''.0''))
      else if in_range t text then Inr (Box_Literal t text)
      else Inl (''literal '' @ text @ '' does not fit '' @ type_name t))"
| "adopt node t = Inr node"

definition pair_up :: "string + 'a \<Rightarrow> string + 'b \<Rightarrow> string + 'a \<times> 'b" where
  "pair_up x y =
     (case x of Inl e \<Rightarrow> Inl e | Inr a \<Rightarrow> (case y of Inl e \<Rightarrow> Inl e | Inr b \<Rightarrow> Inr (a, b)))"

definition unify :: "string \<Rightarrow> box_expr \<Rightarrow> box_expr \<Rightarrow> string + box_expr \<times> box_expr" where
  "unify operator left right =
     (case (if box_type left = T_ANY_INT \<and> box_type right = T_ANY_INT
            then pair_up (adopt left T_INT) (adopt right T_INT)
            else if box_type left = T_ANY_INT then pair_up (adopt left (box_type right)) (Inr right)
            else if box_type right = T_ANY_INT then pair_up (Inr left) (adopt right (box_type left))
            else Inr (left, right)) of
        Inl e \<Rightarrow> Inl e
      | Inr (l, r) \<Rightarrow>
          if box_type l = box_type r then Inr (l, r)
          else Inl (type_name (box_type l) @ '' '' @ operator @ '' '' @ type_name (box_type r) @ '' mixes types''))"

section \<open>The parser\<close>

type_synonym parsed = "(string + box_expr \<times> string list) option"

definition is_number :: "string \<Rightarrow> bool" where
  "is_number t = (t \<noteq> [] \<and> py_isdigit (hd t) \<and> snd (number_token t) = [])"

definition is_name :: "string \<Rightarrow> bool" where
  "is_name t = (t \<noteq> [] \<and> is_word_start (hd t) \<and> list_all is_word_char (tl t))"

definition ends_early :: string where
  "ends_early = ''expression ends early''"

definition expect :: "string \<Rightarrow> string list \<Rightarrow> string + string list" where
  "expect t ts =
     (case ts of [] \<Rightarrow> Inl ends_early
      | u # rest \<Rightarrow> if u = t then Inr rest else Inl (''expected '' @ py_repr t))"

text \<open>\<open>re.search(r"[.:][A-Z]", address)\<close>.\<close>

fun reads_member :: "string \<Rightarrow> bool" where
  "reads_member (c # d # s) = ((c = CHR ''.'' \<or> c = CHR '':'') \<and> py_isupper d \<or> reads_member (d # s))"
| "reads_member s = False"

definition address_prefix :: "string \<Rightarrow> string" where
  "address_prefix address = CHR ''%'' # takeWhile py_isupper (tl address)"

definition symbol_for :: "(string \<Rightarrow> string option) \<Rightarrow> string \<Rightarrow> string option" where
  "symbol_for symbols address =
     (case symbols address of None \<Rightarrow> None | Some s \<Rightarrow> if s = [] then None else Some s)"

definition read_operand :: "(string \<Rightarrow> string option) \<Rightarrow> string list \<Rightarrow> string + box_expr \<times> string list" where
  "read_operand symbols ts =
     (case ts of
        [] \<Rightarrow> Inl ends_early
      | t # rest \<Rightarrow>
          let address = py_upper t; symbol = symbol_for symbols address
          in if \<not> startswith ''%'' t then Inl (''expected an operand, found '' @ py_repr t)
             else if reads_member address then Inl (t @ '' reads a member or bit, which is not converted'')
             else (case map_of (sp_operand_types LADDER_SPEC) (address_prefix address) of
                     None \<Rightarrow> Inl (t @ '' has no documented numeric type'')
                   | Some ty \<Rightarrow>
                       (case symbol of
                          None \<Rightarrow> Inr (Box_Variable ty address None, rest)
                        | Some s \<Rightarrow> Inr (Box_Variable ty s (Some address), rest))))"

definition read_literal :: "string \<Rightarrow> box_expr" where
  "read_literal text = Box_Literal (if CHR ''.'' \<in> set text then T_REAL else T_ANY_INT) text"

text \<open>The checks of \<open>call\<close> once its parts are read.\<close>

definition shift_call :: "string \<Rightarrow> box_expr \<Rightarrow> string \<Rightarrow> string + box_expr" where
  "shift_call f v n =
     (case shift_width (box_type v) of
        None \<Rightarrow> Inl (f @ '' of '' @ type_name (box_type v) @ '' '' @ render v @ '' is not a word or double word'')
      | Some w \<Rightarrow>
          if str_isdigit n \<and> 1 \<le> digits_value n \<and> int (digits_value n) \<le> w
          then Inr (Box_Call (box_type v) f v (Box_Literal T_INT n))
          else Inl (f @ '' bit count '' @ py_repr n @ '' is not an immediate 1..'' @ int_str w))"

definition read_call :: "(string \<Rightarrow> string option) \<Rightarrow> string list \<Rightarrow> string + box_expr \<times> string list" where
  "read_call symbols ts =
     (case ts of
        [] \<Rightarrow> Inl ends_early
      | t # ts1 \<Rightarrow>
          let f = py_upper t
          in if f \<notin> shift_functions
             then Inl (''function '' @ f @ '' has no IEC equivalent evidenced for every target'')
             else case expect ''('' ts1 of Inl e \<Rightarrow> Inl e | Inr ts2 \<Rightarrow>
               (case read_operand symbols ts2 of Inl e \<Rightarrow> Inl e | Inr (v, ts3) \<Rightarrow>
                 (case expect '','' ts3 of Inl e \<Rightarrow> Inl e | Inr ts4 \<Rightarrow>
                   (case ts4 of [] \<Rightarrow> Inl ends_early | n # ts5 \<Rightarrow>
                     (case expect '')'' ts5 of Inl e \<Rightarrow> Inl e | Inr ts6 \<Rightarrow>
                       map_sum id (\<lambda>x. (x, ts6)) (shift_call f v n))))))"

definition combine :: "string \<Rightarrow> box_expr \<Rightarrow> box_expr \<Rightarrow> string + box_expr" where
  "combine operator left right =
     map_sum id (\<lambda>(l, r). Box_Binary (box_type l) operator l r) (unify operator left right)"

text \<open>
  The methods call each other through \<open>self\<close>, which is given the reader and its tokens; a loop
  is a reader that carries the node read so far.
\<close>

datatype reader = Read_Sum | Read_Sum_Loop box_expr | Read_Term | Read_Term_Loop box_expr | Read_Factor

definition read_sum :: "(reader \<Rightarrow> string list \<Rightarrow> parsed) \<Rightarrow> string list \<Rightarrow> parsed" where
  "read_sum self ts = andthen (self Read_Term ts) (\<lambda>(node, rest). self (Read_Sum_Loop node) rest)"

definition read_term :: "(reader \<Rightarrow> string list \<Rightarrow> parsed) \<Rightarrow> string list \<Rightarrow> parsed" where
  "read_term self ts = andthen (self Read_Factor ts) (\<lambda>(node, rest). self (Read_Term_Loop node) rest)"

definition read_loop ::
  "string set \<Rightarrow> reader \<Rightarrow> (box_expr \<Rightarrow> reader) \<Rightarrow> (reader \<Rightarrow> string list \<Rightarrow> parsed) \<Rightarrow> box_expr \<Rightarrow> string list \<Rightarrow> parsed"
where
  "read_loop operators side again self node ts =
     (case ts of
        [] \<Rightarrow> Some (Inr (node, ts))
      | t # rest \<Rightarrow>
          if t \<in> operators
          then andthen (self side rest) (\<lambda>(right, rest').
               andthen (Some (combine t node right)) (\<lambda>node'. self (again node') rest'))
          else Some (Inr (node, ts)))"

definition read_factor ::
  "(string \<Rightarrow> string option) \<Rightarrow> (reader \<Rightarrow> string list \<Rightarrow> parsed) \<Rightarrow> string list \<Rightarrow> parsed" where
  "read_factor syms self ts =
     (case ts of
        [] \<Rightarrow> Some (read_operand syms ts)
      | t # rest \<Rightarrow>
          if t = ''('' then andthen (self Read_Sum rest)
            (\<lambda>(node, rest'). Some (map_sum id (\<lambda>r. (node, r)) (expect '')'' rest')))
          else if t = ''-'' then
            (case rest of
               [] \<Rightarrow> Some (Inl ends_early)
             | number # rest' \<Rightarrow>
                 if is_number number then Some (Inr (read_literal (''-'' @ number), rest'))
                 else Some (Inl ''unary minus is only supported on a literal''))
          else if is_number t then Some (Inr (read_literal t, rest))
          else if is_name t then Some (read_call syms ts)
          else Some (read_operand syms ts))"

primrec parse_at :: "(string \<Rightarrow> string option) \<Rightarrow> nat \<Rightarrow> reader \<Rightarrow> string list \<Rightarrow> parsed" where
  "parse_at syms 0 m ts = None"
| "parse_at syms (Suc n) m ts =
     (case m of
        Read_Sum \<Rightarrow> read_sum (parse_at syms n) ts
      | Read_Sum_Loop node \<Rightarrow> read_loop {''+'', ''-''} Read_Term Read_Sum_Loop (parse_at syms n) node ts
      | Read_Term \<Rightarrow> read_term (parse_at syms n) ts
      | Read_Term_Loop node \<Rightarrow> read_loop {''*'', ''/''} Read_Factor Read_Term_Loop (parse_at syms n) node ts
      | Read_Factor \<Rightarrow> read_factor syms (parse_at syms n) ts)"

definition parser_fuel :: "string list \<Rightarrow> nat" where
  "parser_fuel ts = 4 * length ts + 4"

definition parse_end :: "string list \<Rightarrow> (string + unit) option" where
  "parse_end ts = (case ts of [] \<Rightarrow> Some (Inr ()) | t # rest \<Rightarrow> Some (Inl (''unexpected '' @ py_repr t)))"

definition parse_assignment :: "(string \<Rightarrow> string option) \<Rightarrow> string list \<Rightarrow> (string + box_expr) option" where
  "parse_assignment syms ts =
     andthen (Some (read_operand syms ts)) (\<lambda>(target, ts1).
     andthen (Some (expect assignment_operator ts1)) (\<lambda>ts2.
     andthen (parse_at syms (parser_fuel ts) Read_Sum ts2) (\<lambda>(node, ts3).
     andthen (Some (adopt node (box_type target))) (\<lambda>v.
     andthen (parse_end ts3) (\<lambda>_.
       if box_type v \<noteq> box_type target
       then Some (Inl (''assigns '' @ type_name (box_type v) @ '' to '' @ type_name (box_type target) @ '' '' @
              render target))
       else Some (Inr (Box_Binary (box_type target) assignment_operator target v)))))))"

definition after_left :: "(string \<Rightarrow> string option) \<Rightarrow> nat \<Rightarrow> box_expr \<Rightarrow> string list \<Rightarrow> (string + box_expr) option" where
  "after_left syms n left ts =
     (case ts of
        [] \<Rightarrow> Some (Inl (''expected a comparison or assignment, found '' @ py_repr ''end of text''))
      | operator # ts1 \<Rightarrow>
          if operator \<notin> comparison_operators
          then Some (Inl (''expected a comparison or assignment, found '' @ py_repr operator))
          else andthen (parse_at syms n Read_Sum ts1) (\<lambda>(right, ts2).
               andthen (parse_end ts2) (\<lambda>_.
               andthen (Some (unify operator left right)) (\<lambda>(l, r).
                 Some (Inr (Box_Binary T_BOOL operator l r))))))"

definition parse_comparison :: "(string \<Rightarrow> string option) \<Rightarrow> string list \<Rightarrow> (string + box_expr) option" where
  "parse_comparison syms ts =
     andthen (parse_at syms (parser_fuel ts) Read_Sum ts) (\<lambda>(left, ts1). after_left syms (parser_fuel ts) left ts1)"

definition parse_tokens :: "(string \<Rightarrow> string option) \<Rightarrow> string list \<Rightarrow> (string + box_expr) option" where
  "parse_tokens syms ts =
     (if 1 < length ts \<and> ts ! 1 = assignment_operator then parse_assignment syms ts else parse_comparison syms ts)"

definition parse_expression :: "(string \<Rightarrow> string option) \<Rightarrow> string \<Rightarrow> (string + box_expr) option" where
  "parse_expression syms text = andthen (Some (tokenize text)) (parse_tokens syms)"

section \<open>The instruction of a box\<close>

definition collapse :: "string \<Rightarrow> string" where
  "collapse text = join '' '' (split_ws text)"

definition box_instruction ::
  "ladder_operation \<Rightarrow> string \<Rightarrow> string \<Rightarrow> string list \<Rightarrow> (int \<times> int) option \<Rightarrow> box_expr option \<Rightarrow> ladder_instruction" where
  "box_instruction operation mnemonic x annotations position expression =
     \<lparr>li_operation = operation, li_mnemonic = mnemonic, li_operand = Some x, li_annotations = annotations,
      li_position = position, li_expression = expression\<rparr>"

definition expression_instruction ::
  "(string \<Rightarrow> string option) \<Rightarrow> string \<Rightarrow> string \<Rightarrow> (int \<times> int) option \<Rightarrow> ladder_instruction option" where
  "expression_instruction syms text mnemonic position =
     (let source = ''source_expression='' @ collapse text
      in case parse_expression syms text of
           None \<Rightarrow> None
         | Some (Inl e) \<Rightarrow>
             Some (box_instruction UNSUPPORTED mnemonic (collapse text) [source, ''reason='' @ e] position None)
         | Some (Inr (Box_Binary t operator (Box_Variable tv x a) r)) \<Rightarrow>
             if operator = assignment_operator
             then Some (box_instruction ASSIGNMENT mnemonic x
                    (source # (case a of None \<Rightarrow> [] | Some address \<Rightarrow> [''address='' @ address])) position
                    (Some (Box_Binary t operator (Box_Variable tv x a) r)))
             else Some (box_instruction COMPARISON mnemonic (render (Box_Binary t operator (Box_Variable tv x a) r))
                    [source] position (Some (Box_Binary t operator (Box_Variable tv x a) r)))
         | Some (Inr e) \<Rightarrow> Some (box_instruction COMPARISON mnemonic (render e) [source] position (Some e)))"

end
