(* ===== verification/Grid_Nodes.thy ===== *)
theory Grid_Nodes imports Ladder_Model begin

text \<open>
  The joined nodes of a ladder grid: \<open>_Nodes\<close> of \<open>parsers/machine_expert_basic/ladder.py\<close>, a
  union-find with path halving over a dictionary of parents. A \<open>KeyError\<close> is \<open>None\<close>, as
  is a search that does not end; neither happens to a dictionary the operations built.
\<close>

datatype node = Rail | Sink | Node int int

type_synonym parents = "node \<Rightarrow> node option"

text \<open>Every node of column 0 is the rail.\<close>

fun settle :: "node \<Rightarrow> node" where
  "settle (Node row column) = (if column = 0 then Rail else Node row column)"
| "settle n = n"

partial_function (option) find_loop :: "parents \<Rightarrow> node \<Rightarrow> (parents \<times> node) option" where
  "find_loop parent n =
     (case parent n of
        None \<Rightarrow> None
      | Some p \<Rightarrow>
          if p = n then Some (parent, n)
          else (case parent p of None \<Rightarrow> None | Some g \<Rightarrow> find_loop (parent(n \<mapsto> g)) g))"

declare find_loop.simps [code]

definition find_node :: "node \<Rightarrow> parents \<Rightarrow> (parents \<times> node) option" where
  "find_node n parent =
     (let m = settle n
      in find_loop (case parent m of None \<Rightarrow> parent(m \<mapsto> m) | Some p \<Rightarrow> parent) m)"

definition join_nodes :: "node \<Rightarrow> node \<Rightarrow> parents \<Rightarrow> parents option" where
  "join_nodes first second parent =
     (case find_node first parent of None \<Rightarrow> None
      | Some (parent1, a) \<Rightarrow>
          (case find_node second parent1 of None \<Rightarrow> None
           | Some (parent2, b) \<Rightarrow>
               Some (if a = b then parent2 else if b = Rail then parent2(a \<mapsto> b) else parent2(b \<mapsto> a))))"

fun join_all :: "(node \<times> node) list \<Rightarrow> parents \<Rightarrow> parents option" where
  "join_all [] parent = Some parent"
| "join_all ((m, n) # links) parent =
     (case join_nodes m n parent of None \<Rightarrow> None | Some parent' \<Rightarrow> join_all links parent')"

section \<open>A forest\<close>

text \<open>Every parent is a node, and parents lead to a root: they get smaller.\<close>

definition ranked :: "parents \<Rightarrow> (node \<Rightarrow> nat) \<Rightarrow> bool" where
  "ranked parent rank = (\<forall>n p. parent n = Some p \<longrightarrow> parent p \<noteq> None \<and> (p \<noteq> n \<longrightarrow> rank p < rank n))"

definition forest :: "parents \<Rightarrow> bool" where
  "forest parent = ((\<exists>rank. ranked parent rank) \<and> parent Rail \<in> {None, Some Rail} \<and> parent Sink = None)"

text \<open>The root of a node; a node without an entry stands for itself.\<close>

inductive rooted :: "parents \<Rightarrow> node \<Rightarrow> node \<Rightarrow> bool" for parent where
  root: "parent n = Some n \<Longrightarrow> rooted parent n n"
| fresh: "parent n = None \<Longrightarrow> rooted parent n n"
| parent: "parent n = Some p \<Longrightarrow> p \<noteq> n \<Longrightarrow> rooted parent p r \<Longrightarrow> rooted parent n r"

lemma rooted_unique: "rooted parent n r \<Longrightarrow> rooted parent n s \<Longrightarrow> r = s"
proof (induction arbitrary: s rule: rooted.induct)
  case (root n)
  from root(2,1) show ?case by (cases rule: rooted.cases) auto
next
  case (fresh n)
  from fresh(2,1) show ?case by (cases rule: rooted.cases) auto
next
  case (parent n p r)
  from parent.prems parent.hyps have "rooted parent p s" by (cases rule: rooted.cases) auto
  then show ?case by (rule parent.IH)
qed

lemma rooted_exists: "ranked parent rank \<Longrightarrow> \<exists>r. rooted parent n r"
proof (induction "rank n" arbitrary: n rule: less_induct)
  case less
  show ?case
  proof (cases "parent n")
    case (Some p)
    show ?thesis
    proof (cases "p = n")
      case False
      with Some less.prems have "rank p < rank n" by (auto simp: ranked_def)
      from less(1) [OF this less.prems] obtain r where "rooted parent p r" ..
      with Some False show ?thesis by (auto intro: rooted.parent)
    qed (use Some in \<open>auto intro: rooted.root\<close>)
  qed (auto intro: rooted.fresh)
qed

definition rep :: "parents \<Rightarrow> node \<Rightarrow> node" where
  "rep parent n = (THE r. rooted parent (settle n) r)"

lemma rep_rooted: "forest parent \<Longrightarrow> rooted parent (settle n) (rep parent n)"
  unfolding rep_def forest_def using rooted_exists rooted_unique by (metis the_equality)

lemma rep_eqI: "forest parent \<Longrightarrow> rooted parent (settle n) r \<Longrightarrow> rep parent n = r"
  using rep_rooted rooted_unique by blast

text \<open>Path halving keeps the roots.\<close>

lemma rooted_halved:
  assumes "ranked parent rank" "parent n = Some p" "p \<noteq> n" "parent p = Some g"
  shows "ranked (parent(n \<mapsto> g)) rank" "rooted (parent(n \<mapsto> g)) m r \<longleftrightarrow> rooted parent m r"
proof -
  have rank: "rank p < rank n" "g \<noteq> p \<Longrightarrow> rank g < rank p" and g: "parent g \<noteq> None" "g \<noteq> n"
    using assms unfolding ranked_def by (metis, metis, metis, metis less_asym' less_irrefl)
  show halved: "ranked (parent(n \<mapsto> g)) rank"
    using assms rank g unfolding ranked_def by (auto, metis less_trans)
  have "rooted parent m r \<Longrightarrow> rooted (parent(n \<mapsto> g)) m r" for m r
  proof (induction rule: rooted.induct)
    case (parent k q r)
    show ?case
    proof (cases "k = n")
      case True
      with parent.hyps assms have q: "q = p" by simp
      have "rooted (parent(n \<mapsto> g)) g r"
      proof (cases "g = p")
        case False
        from parent.IH show ?thesis unfolding q
          by (cases rule: rooted.cases) (use assms False rank in auto)
      qed (use parent.IH q in blast)
      moreover have "(parent(n \<mapsto> g)) k = Some g" "g \<noteq> k" using True g by simp_all
      ultimately show ?thesis using rooted.parent by blast
    next
      case False
      with parent show ?thesis by (auto intro: rooted.parent)
    qed
  next
    case (root k)
    then have "(parent(n \<mapsto> g)) k = Some k" using assms by auto
    then show ?case by (rule rooted.root)
  next
    case (fresh k)
    then have "(parent(n \<mapsto> g)) k = None" using assms by auto
    then show ?case by (rule rooted.fresh)
  qed
  then show "rooted (parent(n \<mapsto> g)) m r \<longleftrightarrow> rooted parent m r"
    using rooted_exists [OF assms(1)] rooted_unique by metis
qed

lemma find_loop_rooted:
  assumes "ranked parent rank" "parent n \<noteq> None" "rooted parent n r"
  shows "\<exists>parent'. find_loop parent n = Some (parent', r) \<and> ranked parent' rank \<and>
    (\<forall>m s. rooted parent' m s \<longleftrightarrow> rooted parent m s) \<and> (\<forall>k. parent' k = None \<longleftrightarrow> parent k = None) \<and>
    (\<forall>k. parent k = Some k \<longrightarrow> parent' k = Some k) \<and> parent' r = Some r"
  using assms
proof (induction "rank n" arbitrary: parent n rule: less_induct)
  case less
  then obtain p where p: "parent n = Some p" by auto
  show ?case
  proof (cases "p = n")
    case True
    with p less.prems(3) have "r = n" using rooted_unique rooted.root by metis
    with p True less.prems show ?thesis by (subst find_loop.simps) auto
  next
    case False
    then obtain g where g: "parent p = Some g" using less.prems p by (auto simp: ranked_def)
    note halved = rooted_halved [OF less.prems(1) p False g]
    have "rank g < rank n" "(parent(n \<mapsto> g)) g \<noteq> None"
      using less.prems(1) p g False unfolding ranked_def by (metis less_trans, simp)
    moreover have "rooted (parent(n \<mapsto> g)) g r"
    proof -
      have "rooted parent p r" using less.prems(3) p False by (cases rule: rooted.cases) auto
      then have "rooted parent g r" using g by (cases rule: rooted.cases) (auto intro: rooted.root)
      then show ?thesis by (simp add: halved(2))
    qed
    ultimately obtain parent' where found: "find_loop (parent(n \<mapsto> g)) g = Some (parent', r)" "ranked parent' rank"
      "\<forall>m s. rooted parent' m s \<longleftrightarrow> rooted (parent(n \<mapsto> g)) m s"
      "\<forall>k. parent' k = None \<longleftrightarrow> (parent(n \<mapsto> g)) k = None"
      "\<forall>k. (parent(n \<mapsto> g)) k = Some k \<longrightarrow> parent' k = Some k" "parent' r = Some r"
      using less(1) [of g "parent(n \<mapsto> g)"] halved(1) by blast
    have "find_loop parent n = Some (parent', r)" using p g False found(1) by (subst find_loop.simps) simp
    moreover have "\<forall>k. parent' k = None \<longleftrightarrow> parent k = None" using found(4) p by simp
    moreover have "\<forall>k. parent k = Some k \<longrightarrow> parent' k = Some k" 
    proof (intro allI impI)
      fix k assume k: "parent k = Some k"
      with p False have "k \<noteq> n" by auto
      with found(5) k show "parent' k = Some k" by simp
    qed
    ultimately show ?thesis using found(2,3,6) halved(2) by blast
  qed
qed

section \<open>The operations\<close>

lemma ranked_fresh:
  assumes "ranked parent rank" "parent n = None"
  shows "ranked (parent(n \<mapsto> n)) rank" "rooted (parent(n \<mapsto> n)) m r \<longleftrightarrow> rooted parent m r"
proof -
  show fresh: "ranked (parent(n \<mapsto> n)) rank" using assms by (auto simp: ranked_def)
  have "rooted parent m r \<Longrightarrow> rooted (parent(n \<mapsto> n)) m r" for m r
  proof (induction rule: rooted.induct)
    case (fresh k)
    then show ?case by (cases "k = n") (auto intro: rooted.root rooted.fresh)
  next
    case (parent k p r)
    then have "(parent(n \<mapsto> n)) k = Some p" using assms(2) by auto
    with parent show ?case using rooted.parent by blast
  qed (use assms in \<open>auto intro: rooted.root\<close>)
  then show "rooted (parent(n \<mapsto> n)) m r \<longleftrightarrow> rooted parent m r"
    using rooted_exists [OF assms(1)] rooted_unique by metis
qed

lemma forest_rail: "forest parent \<Longrightarrow> rooted parent Rail Rail"
  by (auto simp: forest_def intro: rooted.root rooted.fresh)

text \<open>A search returns the representative and changes no other.\<close>

lemma find_node_ok:
  assumes "forest parent" "n \<noteq> Sink"
  obtains parent' where "find_node n parent = Some (parent', rep parent n)" "forest parent'"
    "rep parent' = rep parent" "parent' (rep parent n) = Some (rep parent n)"
    "\<And>k. parent k = Some k \<Longrightarrow> parent' k = Some k"
proof -
  from assms obtain rank where rank: "ranked parent rank" by (auto simp: forest_def)
  let ?m = "settle n" and ?p = "case parent (settle n) of None \<Rightarrow> parent(settle n \<mapsto> settle n) | Some q \<Rightarrow> parent"
  have start: "ranked ?p rank" "\<And>m r. rooted ?p m r \<longleftrightarrow> rooted parent m r" "?p ?m \<noteq> None"
    "\<And>k. parent k = Some k \<Longrightarrow> ?p k = Some k" "?p Rail \<in> {None, Some Rail}"
    using rank assms ranked_fresh [OF rank, of ?m] by (auto simp: forest_def split: option.splits)
  from find_loop_rooted [OF start(1,3), of "rep parent n"] rep_rooted [OF assms(1), of n] start(2)
  obtain parent' where found: "find_loop ?p ?m = Some (parent', rep parent n)" "ranked parent' rank"
    "\<forall>m s. rooted parent' m s \<longleftrightarrow> rooted ?p m s" "\<forall>k. ?p k = Some k \<longrightarrow> parent' k = Some k"
    "\<forall>k. parent' k = None \<longleftrightarrow> ?p k = None" "parent' (rep parent n) = Some (rep parent n)"
    by blast
  have "parent' Rail \<in> {None, Some Rail}" using found(4,5) start(5) by blast
  moreover have "parent' Sink = None"
    using found(5) assms by (cases n) (auto simp: forest_def split: option.splits if_splits)
  ultimately have "forest parent'" using found(2) by (auto simp: forest_def)
  moreover have "rep parent' = rep parent" using found(3) start(2) by (simp add: rep_def fun_eq_iff)
  ultimately show thesis using that found start by (simp add: find_node_def)
qed

text \<open>Linking one root below another joins two trees.\<close>

lemma linked_roots:
  assumes "ranked parent rank" "parent a = Some a" "parent b = Some b" "a \<noteq> b"
    "rooted parent m r"
  shows "\<exists>rank'. ranked (parent(b \<mapsto> a)) rank'"
    "rooted (parent(b \<mapsto> a)) m (if rooted parent m b then a else r)"
proof -
  let ?q = "parent(b \<mapsto> a)"
  have roots: "rooted parent a r \<longleftrightarrow> r = a" "rooted parent b r \<longleftrightarrow> r = b" for r
    using rooted_unique rooted.root assms(2,3) by metis+
  have tree: "rooted parent n b \<longleftrightarrow> rooted parent p b" if "parent n = Some p" "p \<noteq> n" for n p
    using that rooted.parent rooted_unique rooted_exists [OF assms(1)] by metis
  have "ranked ?q (\<lambda>n. if rooted parent n b then rank n + rank a + 1 else rank n)"
    unfolding ranked_def
  proof (intro allI impI conjI)
    fix n p assume p: "?q n = Some p"
    show "?q p \<noteq> None" using p assms by (auto simp: ranked_def split: if_splits)
    show "p \<noteq> n \<Longrightarrow> (if rooted parent p b then rank p + rank a + 1 else rank p) <
        (if rooted parent n b then rank n + rank a + 1 else rank n)"
      using p assms(1,4) tree [of n p] roots by (auto simp: ranked_def split: if_splits)
  qed
  then show "\<exists>rank'. ranked ?q rank'" by blast
  have a: "rooted ?q a a" using assms by (intro rooted.root) simp
  then have b: "rooted ?q b a" using assms rooted.parent [of ?q b a a] by simp
  show "rooted ?q m (if rooted parent m b then a else r)"
    using assms(5)
  proof (induction rule: rooted.induct)
    case (root k)
    then have "rooted parent k k" by (rule rooted.root)
    then have "rooted parent k b \<longleftrightarrow> k = b" using rooted_unique by metis
    moreover have "rooted ?q k k" if "k \<noteq> b" using root that by (intro rooted.root) simp
    ultimately show ?case using b by metis
  next
    case (fresh k)
    then have "rooted parent k k" by (rule rooted.fresh)
    then have "rooted parent k b \<longleftrightarrow> k = b" using rooted_unique by metis
    moreover have "rooted ?q k k" if "k \<noteq> b" using fresh that by (intro rooted.fresh) simp
    ultimately show ?case using b by metis
  next
    case (parent k p r)
    then have "?q k = Some p" using assms by auto
    from rooted.parent [OF this parent.hyps(2) parent.IH] show ?case using tree [OF parent.hyps(1,2)] by metis
  qed
qed

text \<open>A join puts two classes together and changes no other; the rail stays a representative.\<close>

lemma join_nodes_ok:
  assumes "forest parent" "m \<noteq> Sink" "n \<noteq> Sink"
  obtains parent' where "join_nodes m n parent = Some parent'" "forest parent'"
    "\<And>k l. rep parent' k = rep parent' l \<longleftrightarrow> rep parent k = rep parent l \<or>
       {rep parent k, rep parent l} = {rep parent m, rep parent n}"
proof -
  from find_node_ok [OF assms(1,2)] obtain p1 where p1: "find_node m parent = Some (p1, rep parent m)" "forest p1"
    "rep p1 = rep parent" "p1 (rep parent m) = Some (rep parent m)" by metis
  from find_node_ok [OF p1(2) assms(3)] obtain p2 where p2: "find_node n p1 = Some (p2, rep parent n)" "forest p2"
    "rep p2 = rep parent" "p2 (rep parent n) = Some (rep parent n)" "p2 (rep parent m) = Some (rep parent m)"
    using p1 by metis
  from p2(2) obtain rank where rank: "ranked p2 rank" "p2 Rail \<in> {None, Some Rail}" "p2 Sink = None" by (auto simp: forest_def)
  show thesis
  proof (cases "rep parent m = rep parent n")
    case True
    with p1 p2 show thesis by (intro that [of p2]) (auto simp: join_nodes_def)
  next
    case False
    define a b where "a = (if rep parent n = Rail then rep parent n else rep parent m)"
      and "b = (if rep parent n = Rail then rep parent m else rep parent n)"
    have ab: "p2 a = Some a" "p2 b = Some b" "a \<noteq> b" "b \<noteq> Rail" "{a, b} = {rep parent m, rep parent n}"
      using p2 False by (auto simp: a_def b_def)
    have join: "join_nodes m n parent = Some (p2(b \<mapsto> a))"
      using p1 p2 False by (simp add: join_nodes_def a_def b_def)
    have "rooted p2 a a" using ab(1) by (rule rooted.root)
    then have "forest (p2(b \<mapsto> a))"
      using linked_roots(1) [OF rank(1) ab(1-3)] rank(2,3) ab(2,4) by (auto simp: forest_def)
    moreover have "rep (p2(b \<mapsto> a)) k = (if rep parent k = b then a else rep parent k)" for k
    proof (rule rep_eqI [OF \<open>forest (p2(b \<mapsto> a))\<close>])
      have "rooted p2 (settle k) (rep parent k)" using rep_rooted [OF p2(2), of k] p2(3) by simp
      moreover have "rooted p2 (settle k) b \<longleftrightarrow> rep parent k = b" using calculation rooted_unique by metis
      ultimately show "rooted (p2(b \<mapsto> a)) (settle k) (if rep parent k = b then a else rep parent k)"
        using linked_roots(2) [OF rank(1) ab(1-3)] by metis
    qed
    ultimately have "rep (p2(b \<mapsto> a)) k = rep (p2(b \<mapsto> a)) l \<longleftrightarrow> rep parent k = rep parent l \<or>
        {rep parent k, rep parent l} = {rep parent m, rep parent n}" for k l
      unfolding ab(5) [symmetric] using ab(3) by (auto simp: doubleton_eq_iff)
    with join \<open>forest (p2(b \<mapsto> a))\<close> show thesis by (rule that)
  qed
qed

text \<open>The rail and the sink represent themselves, and the sink nothing else.\<close>

lemma rep_rail: "forest parent \<Longrightarrow> rep parent Rail = Rail"
  using rep_eqI forest_rail by fastforce

lemma rep_settle: "rep parent (settle n) = rep parent n"
  by (cases n) (simp_all add: rep_def)

lemma rooted_not_sink: "rooted parent n r \<Longrightarrow> ranked parent rank \<Longrightarrow> parent Sink = None \<Longrightarrow> n \<noteq> Sink \<Longrightarrow> r \<noteq> Sink"
proof (induction rule: rooted.induct)
  case (parent n p r)
  then have "parent p \<noteq> None" unfolding ranked_def by blast
  with parent.prems have "p \<noteq> Sink" by auto
  with parent show ?case by blast
qed auto

lemma rep_sink: "forest parent \<Longrightarrow> rep parent n = Sink \<longleftrightarrow> n = Sink"
proof -
  assume forest: "forest parent"
  then have "rep parent Sink = Sink" by (intro rep_eqI) (auto simp: forest_def intro: rooted.fresh)
  moreover have "n \<noteq> Sink \<Longrightarrow> rep parent n \<noteq> Sink"
    using rep_rooted [OF forest, of n] rooted_not_sink forest by (cases n) (auto simp: forest_def split: if_splits)
  ultimately show ?thesis by blast
qed

lemma empty_forest: "forest Map.empty" "rep Map.empty n = settle n"
proof -
  show f: "forest Map.empty" by (simp add: forest_def ranked_def)
  show "rep Map.empty n = settle n" by (rule rep_eqI [OF f]) (simp add: rooted.fresh)
qed

section \<open>The classes of the links\<close>

text \<open>What the joins mean: the nodes the links connect, all of column 0 being the rail.\<close>

inductive linked :: "(node \<times> node) set \<Rightarrow> node \<Rightarrow> node \<Rightarrow> bool" for links where
  link: "(m, n) \<in> links \<Longrightarrow> linked links m n"
| rail: "linked links (Node row 0) Rail"
| refl: "linked links n n"
| sym: "linked links m n \<Longrightarrow> linked links n m"
| trans: "linked links k m \<Longrightarrow> linked links m n \<Longrightarrow> linked links k n"

lemma linked_mono: "linked S m n \<Longrightarrow> S \<subseteq> T \<Longrightarrow> linked T m n"
  by (induction rule: linked.induct) (auto intro: linked.link linked.rail linked.refl linked.sym linked.trans)

lemma linked_settle: "linked S m (settle m)"
  by (cases m) (auto intro: linked.rail linked.refl)

lemma linked_empty: "linked {} m n \<longleftrightarrow> settle m = settle n"
proof
  show "linked {} m n \<Longrightarrow> settle m = settle n" by (induction rule: linked.induct) auto
  show "settle m = settle n \<Longrightarrow> linked {} m n"
    using linked_settle linked.sym linked.trans by metis
qed

lemma join_nodes_linked:
  assumes "forest parent" "a \<noteq> Sink" "b \<noteq> Sink" "\<And>m n. rep parent m = rep parent n \<longleftrightarrow> linked S m n"
  obtains parent' where "join_nodes a b parent = Some parent'" "forest parent'"
    "\<And>m n. rep parent' m = rep parent' n \<longleftrightarrow> linked (insert (a, b) S) m n"
proof -
  from join_nodes_ok [OF assms(1-3)] obtain parent' where parent': "join_nodes a b parent = Some parent'" "forest parent'"
    and classes: "\<And>k l. rep parent' k = rep parent' l \<longleftrightarrow> rep parent k = rep parent l \<or>
       {rep parent k, rep parent l} = {rep parent a, rep parent b}" by blast
  have "rep parent' m = rep parent' n \<longleftrightarrow> linked (insert (a, b) S) m n" for m n
  proof
    assume "rep parent' m = rep parent' n"
    then consider "linked S m n" | "linked S m a" "linked S b n" | "linked S m b" "linked S a n"
      unfolding classes using assms(4) by (metis doubleton_eq_iff)
    moreover have "linked (insert (a, b) S) a b" "linked (insert (a, b) S) b a" by (auto intro: linked.link linked.sym)
    ultimately show "linked (insert (a, b) S) m n"
      by cases (blast intro: linked_mono linked.trans)+
  next
    assume "linked (insert (a, b) S) m n"
    then show "rep parent' m = rep parent' n"
    proof (induction rule: linked.induct)
      case (link m n)
      then show ?case unfolding classes using assms(4) linked.link by auto
    next
      case (rail row)
      have "rep parent' (Node row 0) = rep parent' (settle (Node row 0))" by (rule rep_settle [symmetric])
      then show ?case by simp
    qed simp_all
  qed
  with parent' show thesis by (rule that)
qed

lemma join_all_linked:
  assumes "forest parent" "\<And>m n. rep parent m = rep parent n \<longleftrightarrow> linked S m n"
    "\<forall>l\<in>set links. fst l \<noteq> Sink \<and> snd l \<noteq> Sink"
  shows "\<exists>parent'. join_all links parent = Some parent' \<and> forest parent' \<and>
    (\<forall>m n. rep parent' m = rep parent' n \<longleftrightarrow> linked (S \<union> set links) m n)"
  using assms
proof (induction links arbitrary: parent S)
  case (Cons l links)
  obtain a b where l: "l = (a, b)" by (cases l)
  from Cons.prems l have "a \<noteq> Sink" "b \<noteq> Sink" by auto
  from join_nodes_linked [OF Cons.prems(1) this Cons.prems(2)] obtain parent1 where
    parent1: "join_nodes a b parent = Some parent1" "forest parent1"
    "\<And>m n. rep parent1 m = rep parent1 n \<longleftrightarrow> linked (insert (a, b) S) m n" by blast
  have "\<forall>l\<in>set links. fst l \<noteq> Sink \<and> snd l \<noteq> Sink" using Cons.prems(3) by simp
  from Cons.IH [OF parent1(2,3) this] parent1(1) show ?case by (simp add: l)
qed simp

end
