(* ===== verification/Basic_Ladder.thy ===== *)
theory Basic_Ladder
  imports Basic_Expression Grid_Nodes "HOL-Library.List_Lexorder" "HOL-Library.Char_ord" "HOL-Library.Product_Lexorder"
begin

text \<open>
  The network of a ladder grid: \<open>parsers/machine_expert_basic/ladder.py\<close>, with the grid rules
  \<open>LADDER_SPEC\<close>. A cell is the dictionary of its fields. A \<open>NetworkUnresolved\<close> is the
  constructor of \<open>network_error\<close> for its code, and so is a cell whose row or column is
  missing or no number (a \<open>KeyError\<close> or \<open>ValueError\<close>). A step returns \<open>None\<close> when it does
  not return. The set of joined nodes is passed on explicitly, since every search changes it.
\<close>

section \<open>Cells\<close>

type_synonym cell = "string \<Rightarrow> string option"

datatype network_error = Bad_Cell | Unknown_Elements "string list" | No_Output | Not_Series_Parallel

definition cell_text :: "cell \<Rightarrow> string \<Rightarrow> string" where
  "cell_text c field = (case c field of None \<Rightarrow> [] | Some s \<Rightarrow> s)"

definition kind_of :: "cell \<Rightarrow> string" where
  "kind_of c = cell_text c (sp_element_type LADDER_SPEC)"

definition connections :: "cell \<Rightarrow> string list" where
  "connections c = map py_strip (split_on CHR '','' (cell_text c (sp_connection LADDER_SPEC)))"

definition reads_left :: "cell \<Rightarrow> bool" where
  "reads_left c = (''Left'' \<in> set (connections c))"

text \<open>\<open>x or None\<close>, and \<open>f"{x}"\<close>.\<close>

definition or_none :: "string option \<Rightarrow> string option" where
  "or_none x = (case x of None \<Rightarrow> None | Some s \<Rightarrow> if s = [] then None else Some s)"

definition shown :: "string option \<Rightarrow> string" where
  "shown x = (case x of None \<Rightarrow> ''None'' | Some s \<Rightarrow> s)"

definition operand_of :: "cell \<Rightarrow> string option \<Rightarrow> string option" where
  "operand_of c field = (case or_none field of None \<Rightarrow> None | Some f \<Rightarrow> or_none (c f))"

text \<open>\<open>_MEMBER_READ\<close>, as the object and its member.\<close>

definition member_read :: "string \<Rightarrow> (string \<times> string) option" where
  "member_read a =
     (case a of
        [] \<Rightarrow> None
      | c # s \<Rightarrow>
          let letters = takeWhile (\<lambda>d. py_isupper d \<or> d = CHR ''_'') s;
              s1 = dropWhile (\<lambda>d. py_isupper d \<or> d = CHR ''_'') s;
              digits = takeWhile py_isdigit s1; s2 = dropWhile py_isdigit s1
          in if c = CHR ''%'' \<and> letters \<noteq> [] \<and> digits \<noteq> [] \<and> startswith ''.'' s2 \<and> is_name (tl s2)
             then Some (c # letters @ digits, tl s2) else None)"

definition declared_name :: "string option \<Rightarrow> (string \<Rightarrow> string option) \<Rightarrow> string option \<times> string list" where
  "declared_name address symbols =
     (case or_none address of
        None \<Rightarrow> (address, [])
      | Some a \<Rightarrow>
          let symbol = (case symbols a of
                Some s \<Rightarrow> Some s
              | None \<Rightarrow> (case member_read a of
                  None \<Rightarrow> None
                | Some (object, member) \<Rightarrow> map_option (\<lambda>s. s @ ''.'' @ member) (symbols object)))
          in case or_none symbol of
               Some s \<Rightarrow> (Some s, [''address='' @ a])
             | None \<Rightarrow> (Some a, []))"

text \<open>A cell with its row and column.\<close>

type_synonym placed_cell = "cell \<times> int \<times> int"

definition position_of :: "cell \<Rightarrow> (int \<times> int) option" where
  "position_of c =
     (case (c (sp_row LADDER_SPEC), c (sp_column LADDER_SPEC)) of
        (Some r, Some k) \<Rightarrow>
          (case (py_int r, py_int k) of (Some row, Some column) \<Rightarrow> Some (row, column) | _ \<Rightarrow> None)
      | _ \<Rightarrow> None)"

fun place_cells :: "cell list \<Rightarrow> placed_cell list option" where
  "place_cells [] = Some []"
| "place_cells (c # cs) =
     (case position_of c of
        None \<Rightarrow> None
      | Some (row, column) \<Rightarrow> map_option (\<lambda>ps. (c, row, column) # ps) (place_cells cs))"

definition right_of :: "placed_cell \<Rightarrow> int" where
  "right_of p = snd (snd p) + spec_width LADDER_SPEC (kind_of (fst p))"

section \<open>Joined nodes\<close>

definition vertical_links :: "placed_cell \<Rightarrow> (node \<times> node) list" where
  "vertical_links p =
     (let row = fst (snd p); right = right_of p
      in (if ''Down'' \<in> set (connections (fst p)) then [(Node row right, Node (row + 1) right)] else []) @
         (if ''Up'' \<in> set (connections (fst p)) then [(Node row right, Node (row - 1) right)] else []))"

section \<open>Edges\<close>

record edge =
  ed_source :: node
  ed_target :: node
  ed_series :: ladder_series
  ed_order :: "int \<times> int"

definition edge :: "node \<Rightarrow> node \<Rightarrow> ladder_series \<Rightarrow> int \<times> int \<Rightarrow> edge" where
  "edge s t e k = \<lparr>ed_source = s, ed_target = t, ed_series = e, ed_order = k\<rparr>"

definition cell_instruction ::
  "(string \<Rightarrow> string option) \<Rightarrow> placed_cell \<Rightarrow> ladder_operation \<Rightarrow> string option \<Rightarrow> ladder_instruction" where
  "cell_instruction syms p operation operand =
     (let (name, address) = declared_name operand syms
      in \<lparr>li_operation = operation, li_mnemonic = kind_of (fst p), li_operand = name, li_annotations = address,
          li_position = Some (snd p), li_expression = None\<rparr>)"

definition cell_element ::
  "(string \<Rightarrow> string option) \<Rightarrow> placed_cell \<Rightarrow> ladder_operation \<times> string option \<Rightarrow> ladder_instruction option" where
  "cell_element syms p rule =
     (let k = kind_of (fst p)
      in case map_of (sp_expression_fields LADDER_SPEC) k of
           Some field \<Rightarrow> expression_instruction syms (cell_text (fst p) field) k (Some (snd p))
         | None \<Rightarrow> Some (cell_instruction syms p (fst rule) (operand_of (fst p) (snd rule))))"

text \<open>
  An instruction for a pin of a block: an output is placed on the row of its pin, an input on the
  row of the block.
\<close>

definition pin_instruction ::
  "(string \<Rightarrow> string option) \<Rightarrow> ladder_operation \<Rightarrow> placed_cell \<Rightarrow> string \<Rightarrow> int \<Rightarrow> ladder_instruction" where
  "pin_instruction syms operation p pin row =
     (let (name, address) = declared_name (or_none (fst p (sp_block_name LADDER_SPEC))) syms
      in \<lparr>li_operation = operation, li_mnemonic = kind_of (fst p), li_operand = Some (shown name @ ''.'' @ pin),
          li_annotations = address, li_position = Some (row, snd (snd p)), li_expression = None\<rparr>)"

definition wired_from :: "placed_cell list \<Rightarrow> int \<Rightarrow> int \<Rightarrow> bool" where
  "wired_from ps row column =
     (case dict_of snd ps (row, column) of None \<Rightarrow> False | Some p \<Rightarrow> reads_left (fst p))"

type_synonym 'a grid_step = "parents \<Rightarrow> (network_error + 'a \<times> parents) option"

definition find_step :: "node \<Rightarrow> node grid_step" where
  "find_step n parent = map_option (\<lambda>(parent', m). Inr (m, parent')) (find_node n parent)"

text \<open>The edges of the wired output pins of a block.\<close>

fun pin_edges ::
  "(string \<Rightarrow> string option) \<Rightarrow> placed_cell list \<Rightarrow> placed_cell \<Rightarrow> (string \<times> int) list \<Rightarrow> edge list grid_step" where
  "pin_edges syms ps p [] parent = Some (Inr ([], parent))"
| "pin_edges syms ps p ((pin, offset) # pins) parent =
     (let row = fst (snd p) + offset
      in if wired_from ps row (right_of p)
         then andthen (find_step (Node row (right_of p)) parent) (\<lambda>(target, parent1).
              andthen (pin_edges syms ps p pins parent1) (\<lambda>(es, parent2).
                Some (Inr (edge Rail target [Leaf (pin_instruction syms BLOCK_OUTPUT_REFERENCE p pin row)]
                             (row, snd (snd p)) # es, parent2))))
         else pin_edges syms ps p pins parent)"

text \<open>The edge of an element; an output whose right side is wired passes power on.\<close>

definition element_edge ::
  "(string \<Rightarrow> string option) \<Rightarrow> placed_cell \<Rightarrow> ladder_operation \<times> string option \<Rightarrow> node \<Rightarrow> node \<Rightarrow> edge list option" where
  "element_edge syms p rule source target =
     map_option (\<lambda>i. [edge source target [Leaf i] (snd p)]) (cell_element syms p rule)"

definition with_parents :: "edge list option \<Rightarrow> parents \<Rightarrow> (network_error + edge list \<times> parents) option" where
  "with_parents es parent = map_option (\<lambda>x. Inr (x, parent)) es"

definition cell_edges ::
  "(string \<Rightarrow> string option) \<Rightarrow> placed_cell list \<Rightarrow> placed_cell \<Rightarrow> edge list grid_step" where
  "cell_edges syms ps p parent =
     (let k = kind_of (fst p); row = fst (snd p); right = right_of p; left = reads_left (fst p)
      in andthen (find_step (Node row (snd (snd p))) parent) (\<lambda>(source, parent1).
         if k \<in> set (sp_wires LADDER_SPEC) \<and> left
         then andthen (find_step (Node row right) parent1) (\<lambda>(target, parent2).
                Some (Inr (if target \<noteq> source then [edge source target [] (snd p)] else [], parent2)))
         else case map_of (sp_conditions LADDER_SPEC) k of
           Some rule \<Rightarrow>
             if left then andthen (find_step (Node row right) parent1)
               (\<lambda>(target, parent2). with_parents (element_edge syms p rule source target) parent2)
             else Some (Inr ([], parent1))
         | None \<Rightarrow> (case map_of (sp_outputs LADDER_SPEC) k of
           Some rule \<Rightarrow>
             if left then
               (if wired_from ps row right
                then andthen (find_step (Node row right) parent1)
                       (\<lambda>(target, parent2). with_parents (element_edge syms p rule source target) parent2)
                else with_parents (element_edge syms p rule source Sink) parent1)
             else Some (Inr ([], parent1))
         | None \<Rightarrow> (case map_of (sp_blocks LADDER_SPEC) k of
           Some pins \<Rightarrow> pin_edges syms ps p (bp_outputs pins) parent1
         | None \<Rightarrow> Some (Inr ([], parent1))))))"

fun edges_loop ::
  "(string \<Rightarrow> string option) \<Rightarrow> placed_cell list \<Rightarrow> placed_cell list \<Rightarrow> edge list grid_step" where
  "edges_loop syms ps [] parent = Some (Inr ([], parent))"
| "edges_loop syms ps (p # rest) parent =
     andthen (cell_edges syms ps p parent) (\<lambda>(es, parent1).
     andthen (edges_loop syms ps rest parent1) (\<lambda>(fs, parent2). Some (Inr (es @ fs, parent2))))"

text \<open>Input pins, wired when something drives their node.\<close>

fun input_pins ::
  "(string \<Rightarrow> string option) \<Rightarrow> node set \<Rightarrow> placed_cell \<Rightarrow> (string \<times> int) list \<Rightarrow> edge list grid_step" where
  "input_pins syms driven p [] parent = Some (Inr ([], parent))"
| "input_pins syms driven p ((pin, offset) # pins) parent =
     (let row = fst (snd p) + offset
      in andthen (find_step (Node row (snd (snd p))) parent) (\<lambda>(source, parent1).
         andthen (input_pins syms driven p pins parent1) (\<lambda>(es, parent2).
           Some (Inr ((if source \<in> driven
                       then [edge source Sink [Leaf (pin_instruction syms FUNCTION_BLOCK_INPUT p pin (fst (snd p)))]
                               (row, snd (snd p))] else []) @ es, parent2)))))"

fun inputs_loop :: "(string \<Rightarrow> string option) \<Rightarrow> node set \<Rightarrow> placed_cell list \<Rightarrow> edge list grid_step" where
  "inputs_loop syms driven [] parent = Some (Inr ([], parent))"
| "inputs_loop syms driven (p # rest) parent =
     andthen (case map_of (sp_blocks LADDER_SPEC) (kind_of (fst p)) of
                None \<Rightarrow> Some (Inr ([], parent))
              | Some pins \<Rightarrow> input_pins syms driven p (bp_inputs pins) parent) (\<lambda>(es, parent1).
     andthen (inputs_loop syms driven rest parent1) (\<lambda>(fs, parent2). Some (Inr (es @ fs, parent2))))"

definition grid_edges :: "(string \<Rightarrow> string option) \<Rightarrow> placed_cell list \<Rightarrow> edge list grid_step" where
  "grid_edges syms ps parent =
     andthen (edges_loop syms ps ps parent) (\<lambda>(es, parent1).
     andthen (inputs_loop syms (insert Rail (ed_target ` set es)) ps parent1) (\<lambda>(fs, parent2).
       Some (Inr (es @ fs, parent2))))"

section \<open>Pruning\<close>

text \<open>One pass over the edges, and passes until nothing changes.\<close>

definition spread :: "edge \<Rightarrow> node set \<times> node set \<Rightarrow> node set \<times> node set" where
  "spread e fb =
     (let (forward, backward) = fb
      in (if ed_source e \<in> forward then insert (ed_target e) forward else forward,
          if ed_target e \<in> backward then insert (ed_source e) backward else backward))"

definition pass :: "edge list \<Rightarrow> node set \<times> node set \<Rightarrow> node set \<times> node set" where
  "pass es fb = fold spread es fb"

lemma spread_grows: "fst fb \<subseteq> fst (spread e fb)" "snd fb \<subseteq> snd (spread e fb)"
  by (auto simp: spread_def case_prod_beta)

lemma pass_grows: "fst fb \<subseteq> fst (pass es fb) \<and> snd fb \<subseteq> snd (pass es fb)"
proof (induction es arbitrary: fb)
  case (Cons e es)
  have "pass (e # es) fb = pass es (spread e fb)" by (simp add: pass_def)
  with Cons.IH [of "spread e fb"] spread_grows [of fb e] show ?case by auto
qed (simp add: pass_def)

lemma pass_bound:
  "fst (pass es fb) \<subseteq> fst fb \<union> ed_target ` set es \<and> snd (pass es fb) \<subseteq> snd fb \<union> ed_source ` set es"
proof (induction es arbitrary: fb)
  case (Cons e es)
  have "pass (e # es) fb = pass es (spread e fb)" by (simp add: pass_def)
  moreover have "fst (spread e fb) \<subseteq> insert (ed_target e) (fst fb)" "snd (spread e fb) \<subseteq> insert (ed_source e) (snd fb)"
    by (auto simp: spread_def case_prod_beta)
  ultimately show ?case using Cons.IH [of "spread e fb"] by auto
qed (simp add: pass_def)

lemma left_shrinks:
  assumes "f \<subseteq> f'" "f' \<subseteq> f \<union> set xs"
  shows "card (set xs - f') \<le> card (set xs - f)" "f' \<noteq> f \<Longrightarrow> card (set xs - f') < card (set xs - f)"
proof -
  have "set xs - f' \<subseteq> set xs - f" using assms(1) by blast
  then show "card (set xs - f') \<le> card (set xs - f)" by (simp add: card_mono)
  assume "f' \<noteq> f"
  then have "set xs - f' \<subset> set xs - f" using assms by blast
  then show "card (set xs - f') < card (set xs - f)" by (simp add: psubset_card_mono)
qed

function passes :: "edge list \<Rightarrow> node set \<times> node set \<Rightarrow> node set \<times> node set" where
  "passes es fb = (if pass es fb = fb then fb else passes es (pass es fb))"
  by pat_completeness auto
termination
proof (relation "measure (\<lambda>(es, fb). card (set (map ed_target es) - fst fb) + card (set (map ed_source es) - snd fb))", simp)
  fix es :: "edge list" and fb :: "node set \<times> node set"
  let ?f = "fst (pass es fb)" and ?b = "snd (pass es fb)"
  assume "pass es fb \<noteq> fb"
  then have changed: "?f \<noteq> fst fb \<or> ?b \<noteq> snd fb" by (metis prod.collapse)
  have f: "fst fb \<subseteq> ?f" "?f \<subseteq> fst fb \<union> set (map ed_target es)"
    and b: "snd fb \<subseteq> ?b" "?b \<subseteq> snd fb \<union> set (map ed_source es)"
    using pass_grows [of fb es] pass_bound [of es fb] by auto
  have "card (set (map ed_target es) - ?f) + card (set (map ed_source es) - ?b) <
      card (set (map ed_target es) - fst fb) + card (set (map ed_source es) - snd fb)"
    using left_shrinks [OF f] left_shrinks [OF b] changed by linarith
  then show "((es, pass es fb), (es, fb)) \<in>
      measure (\<lambda>(es, fb). card (set (map ed_target es) - fst fb) + card (set (map ed_source es) - snd fb))"
    by simp
qed

declare passes.simps [simp del]

fun leaf_of :: "ladder_element \<Rightarrow> ladder_instruction list" where
  "leaf_of (Leaf i) = [i]"
| "leaf_of (Parallel bs) = []"

text \<open>The kept edges, and the element types of the others.\<close>

definition prune :: "edge list \<Rightarrow> edge list \<times> string list" where
  "prune es =
     (let (forward, backward) = passes es ({Rail}, {Sink});
          keep = (\<lambda>e. ed_source e \<in> forward \<and> ed_target e \<in> backward)
      in (filter keep es,
          [li_mnemonic i. e \<leftarrow> es, \<not> keep e, x \<leftarrow> ed_series e, i \<leftarrow> leaf_of x]))"

section \<open>Series-parallel reduction\<close>

text \<open>The position of the leftmost instruction, through parallels.\<close>

fun first_position :: "ladder_series \<Rightarrow> (int \<times> int) option"
  and branch_positions :: "ladder_series list \<Rightarrow> (int \<times> int) list" where
  "first_position [] = None"
| "first_position (Leaf i # es) =
     (case li_position i of None \<Rightarrow> first_position es | Some p \<Rightarrow> Some p)"
| "first_position (Parallel bs # es) =
     (case branch_positions bs of [] \<Rightarrow> first_position es | p # ps \<Rightarrow> Some (foldl min p ps))"
| "branch_positions [] = []"
| "branch_positions (b # bs) =
     (case first_position b of None \<Rightarrow> branch_positions bs | Some p \<Rightarrow> p # branch_positions bs)"

definition keyed :: "int \<times> int \<Rightarrow> ladder_series \<Rightarrow> (int \<times> int) \<times> ladder_series" where
  "keyed order b = (case first_position b of None \<Rightarrow> order | Some p \<Rightarrow> p, b)"

definition keyed_branches :: "edge \<Rightarrow> ((int \<times> int) \<times> ladder_series) list" where
  "keyed_branches e =
     (case ed_series e of
        [Parallel bs] \<Rightarrow> map (keyed (ed_order e)) bs
      | b \<Rightarrow> [keyed (ed_order e) b])"

definition parallel :: "edge list \<Rightarrow> ladder_series" where
  "parallel es = [Parallel (map snd (sort_key fst (concat (map keyed_branches es))))]"

definition ends :: "edge \<Rightarrow> node \<times> node" where
  "ends e = (ed_source e, ed_target e)"

definition edge_groups :: "edge list \<Rightarrow> edge list list" where
  "edge_groups es = map (\<lambda>k. filter (\<lambda>e. ends e = k) es) (first_keys ends es)"

fun minimum :: "(int \<times> int) list \<Rightarrow> int \<times> int" where
  "minimum [] = (0, 0)"
| "minimum (p # ps) = foldl min p ps"

definition merge_group :: "edge list \<Rightarrow> edge" where
  "merge_group g =
     (case g of
        [e] \<Rightarrow> e
      | _ \<Rightarrow> edge (ed_source (hd g)) (ed_target (hd g)) (parallel g) (minimum (map ed_order g)))"

definition merge_parallel :: "edge list \<Rightarrow> edge list \<times> bool" where
  "merge_parallel es =
     (let groups = edge_groups es
      in if list_ex (\<lambda>g. 1 < length g) groups then (map merge_group groups, True) else (es, False))"

definition incoming :: "edge list \<Rightarrow> node \<Rightarrow> edge list" where
  "incoming es v = filter (\<lambda>e. ed_target e = v) es"

definition outgoing :: "edge list \<Rightarrow> node \<Rightarrow> edge list" where
  "outgoing es v = filter (\<lambda>e. ed_source e = v) es"

text \<open>
  The first vertex between one edge and another; the code removes the two edges by identity,
  which are the only ones at the vertex.
\<close>

definition passed_through :: "edge list \<Rightarrow> node \<Rightarrow> bool" where
  "passed_through es v =
     (v \<notin> {Rail, Sink} \<and> length (incoming es v) = 1 \<and> length (outgoing es v) = 1)"

definition bypass :: "edge list \<Rightarrow> node \<Rightarrow> edge list" where
  "bypass es v =
     (let entry = hd (incoming es v); leave = hd (outgoing es v)
      in filter (\<lambda>e. ed_target e \<noteq> v \<and> ed_source e \<noteq> v) es @
         [edge (ed_source entry) (ed_target leave) (ed_series entry @ ed_series leave) (ed_order entry)])"

definition merge_series :: "edge list \<Rightarrow> edge list \<times> bool" where
  "merge_series es =
     (case find (passed_through es) (first_keys ed_target es) of
        None \<Rightarrow> (es, False)
      | Some v \<Rightarrow> (bypass es v, True))"

definition reduce_step :: "edge list \<Rightarrow> edge list \<times> bool" where
  "reduce_step es =
     (let (es1, merged) = merge_parallel es; (es2, bypassed) = merge_series es1
      in (es2, merged \<or> bypassed))"

partial_function (option) reduce_loop :: "edge list \<Rightarrow> edge list option" where
  "reduce_loop es =
     (case reduce_step es of (es', changed) \<Rightarrow> if changed then reduce_loop es' else Some es')"

declare reduce_loop.simps [code]

definition reduce_edges :: "edge list \<Rightarrow> (network_error + ladder_series) option" where
  "reduce_edges es =
     map_option (\<lambda>fs. case fs of
         [e] \<Rightarrow> if ed_source e = Rail \<and> ed_target e = Sink then Inr (ed_series e) else Inl Not_Series_Parallel
       | _ \<Rightarrow> Inl Not_Series_Parallel)
       (reduce_loop es)"

section \<open>The network\<close>

definition kept_cells :: "cell list \<Rightarrow> cell list" where
  "kept_cells cells =
     filter (\<lambda>c. c (sp_element_type LADDER_SPEC) \<notin> Some ` set (sp_ignored LADDER_SPEC)) cells"

definition unknown_kinds :: "cell list \<Rightarrow> string list" where
  "unknown_kinds cells = sort (remdups (filter (\<lambda>k. \<not> spec_known LADDER_SPEC k) (map kind_of cells)))"

definition network_of ::
  "(string \<Rightarrow> string option) \<Rightarrow> placed_cell list \<Rightarrow> (network_error + ladder_series \<times> string list) option" where
  "network_of syms ps =
     (case join_all (concat (map vertical_links ps)) Map.empty of
        None \<Rightarrow> None
      | Some parent \<Rightarrow>
          andthen (grid_edges syms ps parent) (\<lambda>(es, parent').
            let (kept, disconnected) = prune es
            in if \<not> list_ex (\<lambda>e. ed_target e = Sink) kept then Some (Inl No_Output)
               else andthen (reduce_edges kept) (\<lambda>series. Some (Inr (series, disconnected)))))"

definition build_network ::
  "(string \<Rightarrow> string option) \<Rightarrow> cell list \<Rightarrow> (network_error + ladder_series \<times> string list) option" where
  "build_network syms cells =
     (let kept = kept_cells cells
      in if unknown_kinds kept \<noteq> [] then Some (Inl (Unknown_Elements (unknown_kinds kept)))
         else case place_cells kept of None \<Rightarrow> Some (Inl Bad_Cell) | Some ps \<Rightarrow> network_of syms ps)"

end
