(* ===== verification/Ladder_Paths.thy ===== *)
theory Ladder_Paths imports Ladder_Model begin

text \<open>
  What a network means: the paths through it, each the list of its instructions from left to
  right. Power reaches the end of a series just when every instruction of one of its paths
  conducts. A graph of labelled steps has walks, and a vertex that is not an end may be taken
  out of it by joining every step into it with every step out of it.
\<close>

section \<open>Paths through a network\<close>

fun element_paths :: "ladder_element \<Rightarrow> ladder_instruction list list"
  and paths :: "ladder_series \<Rightarrow> ladder_instruction list list" where
  "element_paths (Leaf i) = [[i]]"
| "element_paths (Parallel bs) = concat (map paths bs)"
| "paths [] = [[]]"
| "paths (e # es) = [p @ q. p \<leftarrow> element_paths e, q \<leftarrow> paths es]"

lemma mem_paths_Cons:
  "p \<in> set (paths (e # es)) \<longleftrightarrow> (\<exists>a b. p = a @ b \<and> a \<in> set (element_paths e) \<and> b \<in> set (paths es))"
  by auto

lemma mem_paths_append:
  "p \<in> set (paths (s @ t)) \<longleftrightarrow> (\<exists>a b. p = a @ b \<and> a \<in> set (paths s) \<and> b \<in> set (paths t))"
proof (induction s arbitrary: p)
  case (Cons e es)
  show ?case (is "?l \<longleftrightarrow> ?r")
  proof
    assume ?l
    then obtain a b c where "p = a @ b @ c" "a \<in> set (element_paths e)" "b \<in> set (paths es)" "c \<in> set (paths t)"
      unfolding append_Cons mem_paths_Cons Cons.IH by blast
    then show ?r unfolding mem_paths_Cons by (metis append.assoc)
  next
    assume ?r
    then obtain a b c where "p = (a @ b) @ c" "a \<in> set (element_paths e)" "b \<in> set (paths es)" "c \<in> set (paths t)"
      unfolding mem_paths_Cons by blast
    then show ?l unfolding append_Cons mem_paths_Cons Cons.IH by (metis append.assoc)
  qed
qed simp

lemma paths_append: "set (paths (s @ t)) = {p @ q |p q. p \<in> set (paths s) \<and> q \<in> set (paths t)}"
  using mem_paths_append by blast

lemma paths_single: "set (paths [e]) = set (element_paths e)"
  by auto

text \<open>Power, when \<open>on\<close> says which instructions conduct.\<close>

fun element_conducts :: "(ladder_instruction \<Rightarrow> bool) \<Rightarrow> ladder_element \<Rightarrow> bool"
  and conducts :: "(ladder_instruction \<Rightarrow> bool) \<Rightarrow> ladder_series \<Rightarrow> bool" where
  "element_conducts on (Leaf i) = on i"
| "element_conducts on (Parallel bs) = list_ex (conducts on) bs"
| "conducts on [] = True"
| "conducts on (e # es) = (element_conducts on e \<and> conducts on es)"

lemma conducts_paths:
  "element_conducts on e \<longleftrightarrow> (\<exists>p\<in>set (element_paths e). list_all on p)"
  "conducts on s \<longleftrightarrow> (\<exists>p\<in>set (paths s). list_all on p)"
proof (induction on e and on s rule: element_conducts_conducts.induct)
  case (2 on bs)
  then show ?case by (auto simp: list_ex_iff)
next
  case (4 on e es)
  then show ?case by auto
qed auto

section \<open>Walks\<close>

type_synonym 'v step = "'v \<times> ladder_instruction list \<times> 'v"

inductive walk :: "'v step set \<Rightarrow> 'v \<Rightarrow> ladder_instruction list \<Rightarrow> 'v \<Rightarrow> bool" for T where
  stay: "walk T u [] u"
| step: "(u, p, v) \<in> T \<Longrightarrow> walk T v q w \<Longrightarrow> walk T u (p @ q) w"

inductive_cases walkE: "walk T u p w"

lemma walk_one: "(u, p, v) \<in> T \<Longrightarrow> walk T u p v"
  using walk.step [OF _ walk.stay] by fastforce

lemma walk_append: "walk T u p v \<Longrightarrow> walk T v q w \<Longrightarrow> walk T u (p @ q) w"
  by (induction rule: walk.induct) (auto intro: walk.step)

lemma walk_mono: "walk S u p v \<Longrightarrow> S \<subseteq> T \<Longrightarrow> walk T u p v"
  by (induction rule: walk.induct) (auto intro: walk.intros)

text \<open>Taking a vertex out.\<close>

definition eliminated :: "'v \<Rightarrow> 'v step set \<Rightarrow> 'v step set" where
  "eliminated v T =
     {(u, p, w). (u, p, w) \<in> T \<and> u \<noteq> v \<and> w \<noteq> v} \<union>
     {(u, p @ q, w) |u p q w. (u, p, v) \<in> T \<and> (v, q, w) \<in> T}"

lemma walk_eliminated:
  assumes "walk T u p w" and no_loop: "\<And>x q y. (x, q, y) \<in> T \<Longrightarrow> \<not> (x = v \<and> y = v)" and "w \<noteq> v"
  shows "(u \<noteq> v \<longrightarrow> walk (eliminated v T) u p w) \<and>
    (u = v \<longrightarrow> (\<exists>q r x. (v, q, x) \<in> T \<and> x \<noteq> v \<and> p = q @ r \<and> walk (eliminated v T) x r w))"
  using assms(1,3)
proof (induction rule: walk.induct)
  case (stay u)
  then show ?case by (auto intro: walk.stay)
next
  case (step u p x q w)
  show ?case
  proof (cases "u = v")
    case True
    then have "x \<noteq> v" using step.hyps no_loop by blast
    with step True show ?thesis by blast
  next
    case False
    show ?thesis
    proof (cases "x = v")
      case True
      with step obtain r s y where r: "(v, r, y) \<in> T" "y \<noteq> v" "q = r @ s" "walk (eliminated v T) y s w" by blast
      then have "(u, p @ r, y) \<in> eliminated v T" using step.hyps True by (auto simp: eliminated_def)
      from walk.step [OF this r(4)] False r show ?thesis by simp
    next
      case False
      then have "(u, p, x) \<in> eliminated v T" using step.hyps \<open>u \<noteq> v\<close> by (simp add: eliminated_def)
      with step False \<open>u \<noteq> v\<close> show ?thesis by (auto intro: walk.step)
    qed
  qed
qed

lemma eliminated_walk: "walk (eliminated v T) u p w \<Longrightarrow> walk T u p w"
proof (induction rule: walk.induct)
  case (step u p x q w)
  then show ?case by (auto simp: eliminated_def intro: walk.step)
    (metis append.assoc walk.step)+
qed (rule walk.stay)

lemma walk_eliminated_iff:
  assumes "\<And>x q y. (x, q, y) \<in> T \<Longrightarrow> \<not> (x = v \<and> y = v)" "u \<noteq> v" "w \<noteq> v"
  shows "walk (eliminated v T) u p w \<longleftrightarrow> walk T u p w"
  using walk_eliminated [of T u p w v] eliminated_walk [of v T u p w] assms by blast

end
