(* ===== verification/Basic_Expression_Facts.thy ===== *)
theory Basic_Expression_Facts imports Basic_Expression begin

text \<open>
  What the expression boxes promise: the parser returns for every text, and what it accepts is
  typed throughout, with every literal in the range of its type and every shift count in the
  width of its operand.
\<close>

section \<open>Steps\<close>

text \<open>A step returns, and a postcondition holds of its value.\<close>

definition returns :: "(string + 'a) option \<Rightarrow> ('a \<Rightarrow> bool) \<Rightarrow> bool" where
  "returns m Q = (case m of None \<Rightarrow> False | Some (Inl e) \<Rightarrow> True | Some (Inr x) \<Rightarrow> Q x)"

lemma returns_simps [simp]:
  "returns (Some (Inl e)) Q" "returns (Some (Inr x)) Q = Q x" "\<not> returns None Q"
  by (simp_all add: returns_def)

lemma returns_andthen: "returns m R \<Longrightarrow> (\<And>x. R x \<Longrightarrow> returns (f x) Q) \<Longrightarrow> returns (andthen m f) Q"
  by (cases m; cases "the m") (simp_all add: returns_def)

lemma returns_mono: "returns m R \<Longrightarrow> (\<And>x. R x \<Longrightarrow> Q x) \<Longrightarrow> returns m Q"
  by (auto simp: returns_def split: option.splits sum.splits)

lemma returns_sum: "(\<And>x. m = Inr x \<Longrightarrow> Q x) \<Longrightarrow> returns (Some m) Q"
  by (cases m) auto

section \<open>The parser returns\<close>

lemma expect_length: "expect t ts = Inr rest \<Longrightarrow> length rest < length ts"
  by (auto simp: expect_def split: list.splits if_splits)

lemma operand_length: "read_operand syms ts = Inr (e, rest) \<Longrightarrow> length rest < length ts"
  by (auto simp: read_operand_def Let_def split: list.splits if_splits option.splits)

lemma call_length: "read_call syms ts = Inr (e, rest) \<Longrightarrow> length rest < length ts"
  by (auto simp: read_call_def Let_def map_sum_def split: list.splits if_splits sum.splits
      dest!: expect_length operand_length)

definition needs :: "reader \<Rightarrow> string list \<Rightarrow> nat" where
  "needs m ts = 4 * length ts + (case m of Read_Sum \<Rightarrow> 3 | Read_Term \<Rightarrow> 2 | _ \<Rightarrow> 1)"

definition consumed :: "reader \<Rightarrow> string list \<Rightarrow> string list \<Rightarrow> bool" where
  "consumed m ts rest =
     (case m of Read_Sum_Loop e \<Rightarrow> length rest \<le> length ts | Read_Term_Loop e \<Rightarrow> length rest \<le> length ts
      | _ \<Rightarrow> length rest < length ts)"

text \<open>\<open>self\<close> returns for every call whose need is at most \<open>n\<close>.\<close>

definition good :: "(reader \<Rightarrow> string list \<Rightarrow> parsed) \<Rightarrow> nat \<Rightarrow> bool" where
  "good self n = (\<forall>m ts. needs m ts \<le> n \<longrightarrow> returns (self m ts) (\<lambda>p. consumed m ts (snd p)))"

lemma goodD: "good self n \<Longrightarrow> needs m ts \<le> n \<Longrightarrow> returns (self m ts) (\<lambda>p. consumed m ts (snd p))"
  by (auto simp: good_def)

lemmas consumption = consumed_def needs_def

lemma read_sum_returns:
  assumes "good self n" "needs Read_Sum ts \<le> Suc n"
  shows "returns (read_sum self ts) (\<lambda>p. consumed Read_Sum ts (snd p))"
  unfolding read_sum_def
proof (rule returns_andthen)
  show "returns (self Read_Term ts) (\<lambda>p. consumed Read_Term ts (snd p))"
    by (rule goodD [OF assms(1)]) (use assms(2) in \<open>simp add: needs_def\<close>)
  fix p :: "box_expr \<times> string list" assume p: "consumed Read_Term ts (snd p)"
  have "returns (self (Read_Sum_Loop (fst p)) (snd p)) (\<lambda>q. consumed (Read_Sum_Loop (fst p)) (snd p) (snd q))"
    by (rule goodD [OF assms(1)]) (use assms(2) p in \<open>simp add: consumption\<close>)
  then show "returns (case p of (node, rest) \<Rightarrow> self (Read_Sum_Loop node) rest) (\<lambda>q. consumed Read_Sum ts (snd q))"
    using p by (auto simp: consumed_def case_prod_beta elim: returns_mono)
qed

lemma read_term_returns:
  assumes "good self n" "needs Read_Term ts \<le> Suc n"
  shows "returns (read_term self ts) (\<lambda>p. consumed Read_Term ts (snd p))"
  unfolding read_term_def
proof (rule returns_andthen)
  show "returns (self Read_Factor ts) (\<lambda>p. consumed Read_Factor ts (snd p))"
    by (rule goodD [OF assms(1)]) (use assms(2) in \<open>simp add: needs_def\<close>)
  fix p :: "box_expr \<times> string list" assume p: "consumed Read_Factor ts (snd p)"
  have "returns (self (Read_Term_Loop (fst p)) (snd p)) (\<lambda>q. consumed (Read_Term_Loop (fst p)) (snd p) (snd q))"
    by (rule goodD [OF assms(1)]) (use assms(2) p in \<open>simp add: consumption\<close>)
  then show "returns (case p of (node, rest) \<Rightarrow> self (Read_Term_Loop node) rest) (\<lambda>q. consumed Read_Term ts (snd q))"
    using p by (auto simp: consumed_def case_prod_beta elim: returns_mono)
qed

lemma read_loop_returns:
  assumes "good self n" "4 * length ts + 1 \<le> Suc n"
    and side: "side \<in> {Read_Term, Read_Factor}" and again: "again = Read_Sum_Loop \<or> again = Read_Term_Loop"
  shows "returns (read_loop ops side again self node ts) (\<lambda>p. length (snd p) \<le> length ts)"
proof (cases ts)
  case (Cons t rest)
  have "returns (self side rest) (\<lambda>p. consumed side rest (snd p))"
    by (rule goodD [OF assms(1)]) (use assms Cons in \<open>auto simp: needs_def\<close>)
  then have "returns (andthen (self side rest) (\<lambda>(right, rest').
      andthen (Some (combine t node right)) (\<lambda>node'. self (again node') rest')))
    (\<lambda>p. length (snd p) \<le> length ts)"
  proof (rule returns_andthen)
    fix p :: "box_expr \<times> string list" assume p: "consumed side rest (snd p)"
    have "returns (self (again e) (snd p)) (\<lambda>q. length (snd q) \<le> length ts)" for e
    proof -
      have "returns (self (again e) (snd p)) (\<lambda>q. consumed (again e) (snd p) (snd q))"
        by (rule goodD [OF assms(1)]) (use assms Cons p in \<open>auto simp: consumption\<close>)
      then show ?thesis using side again p Cons by (auto simp: consumed_def elim!: returns_mono)
    qed
    then show "returns (case p of (right, rest') \<Rightarrow> andthen (Some (combine t node right))
        (\<lambda>node'. self (again node') rest')) (\<lambda>q. length (snd q) \<le> length ts)"
      by (cases "combine t node (fst p)") (simp_all add: case_prod_beta)
  qed
  then show ?thesis by (simp add: read_loop_def Cons)
qed (simp add: read_loop_def)

lemma read_factor_returns:
  assumes "good self n" "needs Read_Factor ts \<le> Suc n"
  shows "returns (read_factor syms self ts) (\<lambda>p. consumed Read_Factor ts (snd p))"
proof (cases ts)
  case Nil
  then show ?thesis by (simp add: read_factor_def read_operand_def)
next
  case (Cons t rest)
  have "returns (self Read_Sum rest) (\<lambda>p. consumed Read_Sum rest (snd p))"
    by (rule goodD [OF assms(1)]) (use assms(2) Cons in \<open>simp add: needs_def\<close>)
  then have "returns (andthen (self Read_Sum rest) (\<lambda>(node, rest'). Some (map_sum id (\<lambda>r. (node, r)) (expect '')'' rest'))))
      (\<lambda>p. consumed Read_Factor ts (snd p))"
  proof (rule returns_andthen)
    fix p :: "box_expr \<times> string list" assume p: "consumed Read_Sum rest (snd p)"
    show "returns (case p of (node, rest') \<Rightarrow> Some (map_sum id (\<lambda>r. (node, r)) (expect '')'' rest')))
        (\<lambda>p. consumed Read_Factor ts (snd p))"
      using p Cons by (cases "expect '')'' (snd p)") (auto simp: consumed_def case_prod_beta dest: expect_length)
  qed
  moreover have "returns (Some (read_call syms ts)) (\<lambda>p. consumed Read_Factor ts (snd p))"
    "returns (Some (read_operand syms ts)) (\<lambda>p. consumed Read_Factor ts (snd p))"
    using call_length [of syms ts] operand_length [of syms ts]
    by (auto intro!: returns_sum simp: consumed_def)
  ultimately show ?thesis
    by (auto simp: read_factor_def Cons consumed_def split: list.split)
qed

lemma parse_at_good: "good (parse_at syms n) n"
proof (induction n)
  case 0
  then show ?case by (auto simp: good_def needs_def split: reader.splits)
next
  case (Suc n)
  show ?case
    unfolding good_def
  proof (intro allI impI)
    fix m ts assume need: "needs m ts \<le> Suc n"
    show "returns (parse_at syms (Suc n) m ts) (\<lambda>p. consumed m ts (snd p))"
      using read_sum_returns [OF Suc.IH] read_term_returns [OF Suc.IH] read_factor_returns [OF Suc.IH]
        read_loop_returns [OF Suc.IH] need
      by (cases m) (auto simp: case_prod_beta needs_def consumed_def)
  qed
qed

section \<open>What is accepted is typed\<close>

definition value_types :: "box_type set" where
  "value_types = {T_INT, T_DINT, T_REAL}"

definition unsigned_text :: "string \<Rightarrow> string" where
  "unsigned_text x = (if startswith ''-'' x then tl x else x)"

definition number_text :: "string \<Rightarrow> bool" where
  "number_text x = is_number (unsigned_text x)"

fun is_variable :: "box_expr \<Rightarrow> bool" where
  "is_variable (Box_Variable t x a) = True"
| "is_variable e = False"

fun is_count :: "box_type \<Rightarrow> box_expr \<Rightarrow> bool" where
  "is_count t (Box_Literal T_INT n) =
     (case shift_width t of None \<Rightarrow> False
      | Some w \<Rightarrow> str_isdigit n \<and> 1 \<le> digits_value n \<and> int (digits_value n) \<le> w)"
| "is_count t e = False"

fun typed :: "box_expr \<Rightarrow> bool" where
  "typed (Box_Literal t x) =
     (t \<in> value_types \<and> number_text x \<and> (CHR ''.'' \<in> set x \<longleftrightarrow> t = T_REAL) \<and> (t = T_REAL \<or> in_range t x))"
| "typed (Box_Variable t x a) = (t \<in> value_types \<and> x \<noteq> [])"
| "typed (Box_Binary t operator l r) =
     (operator \<in> arithmetic_operators \<and> t \<in> value_types \<and> box_type l = t \<and> box_type r = t \<and> typed l \<and> typed r)"
| "typed (Box_Call t f l r) =
     (f \<in> shift_functions \<and> t \<in> value_types \<and> is_variable l \<and> box_type l = t \<and> typed l \<and> is_count t r)"

text \<open>An integer literal waits for a context; everything else is typed already.\<close>

fun open_typed :: "box_expr \<Rightarrow> bool" where
  "open_typed (Box_Literal T_ANY_INT x) = (number_text x \<and> CHR ''.'' \<notin> set x)"
| "open_typed e = typed e"

fun root_typed :: "box_expr \<Rightarrow> bool" where
  "root_typed (Box_Binary t operator l r) =
     (typed l \<and> typed r \<and> box_type l = box_type r \<and>
      (if operator = assignment_operator then is_variable l \<and> t = box_type l
       else operator \<in> comparison_operators \<and> t = T_BOOL))"
| "root_typed e = False"

lemma typed_type: "typed e \<Longrightarrow> box_type e \<in> value_types"
  by (cases e) auto

lemma value_types_simps [simp]:
  "T_INT \<in> value_types" "T_DINT \<in> value_types" "T_REAL \<in> value_types" "T_ANY_INT \<notin> value_types" "T_BOOL \<notin> value_types"
  by (simp_all add: value_types_def)

lemma typed_not_any: "typed e \<Longrightarrow> box_type e \<noteq> T_ANY_INT"
  by (auto dest: typed_type)

lemma open_typed_iff: "open_typed e \<longleftrightarrow> typed e \<or> (\<exists>x. e = Box_Literal T_ANY_INT x \<and> number_text x \<and> CHR ''.'' \<notin> set x)"
  by (cases e rule: open_typed.cases) (auto simp: value_types_def)

lemma open_any: "open_typed e \<Longrightarrow> box_type e = T_ANY_INT \<longleftrightarrow> \<not> typed e"
  using typed_not_any by (auto simp: open_typed_iff)

lemma whole_digits:
  assumes "is_number x" "CHR ''.'' \<notin> set x"
  shows "str_isdigit x"
proof -
  have "CHR ''.'' \<notin> set (dropWhile py_isdigit x)" using assms(2) by (auto dest: set_dropWhileD)
  then have "snd (number_token x) = dropWhile py_isdigit x"
    by (auto simp: number_token_def Let_def split: list.splits)
  with assms(1) show ?thesis by (auto simp: is_number_def str_isdigit_def list_all_iff dropWhile_eq_Nil_conv)
qed

lemma decimal_number:
  assumes "str_isdigit x"
  shows "is_number (x @ ''.0'')"
proof -
  have digits: "\<forall>c\<in>set x. py_isdigit c" and "x \<noteq> []" using assms by (auto simp: str_isdigit_def list_all_iff)
  have dot: "\<not> py_isdigit CHR ''.''" "py_isdigit CHR ''0''" by code_simp+
  have "takeWhile py_isdigit (x @ ''.0'') = x" "dropWhile py_isdigit (x @ ''.0'') = ''.0''"
    using digits dot by (simp_all add: takeWhile_append2 dropWhile_append2)
  with digits dot \<open>x \<noteq> []\<close> show ?thesis by (simp add: is_number_def number_token_def)
qed

lemma number_text_decimal:
  assumes "number_text x" "CHR ''.'' \<notin> set x"
  shows "number_text (x @ ''.0'')"
proof -
  have "x \<noteq> []" using assms(1) by (auto simp: number_text_def unsigned_text_def is_number_def)
  moreover have "startswith ''-'' (x @ ''.0'') = startswith ''-'' x" using \<open>x \<noteq> []\<close> by (cases x) auto
  ultimately have "unsigned_text (x @ ''.0'') = unsigned_text x @ ''.0''" by (simp add: unsigned_text_def)
  moreover have "CHR ''.'' \<notin> set (unsigned_text x)"
    using assms(2) by (cases x) (auto simp: unsigned_text_def)
  ultimately show ?thesis using assms by (simp add: number_text_def whole_digits decimal_number)
qed

lemma adopt_typed_id: "typed e \<Longrightarrow> adopt e t = Inr e"
  by (cases "(e, t)" rule: adopt.cases) auto

lemma adopt_typed:
  assumes "open_typed e" "adopt e t = Inr e'" "t \<in> value_types"
  shows "typed e' \<and> (typed e \<longrightarrow> e' = e) \<and> (\<not> typed e \<longrightarrow> box_type e' = t)"
proof (cases "typed e")
  case False
  then obtain x where "e = Box_Literal T_ANY_INT x" "number_text x" "CHR ''.'' \<notin> set x"
    using assms(1) open_typed_iff by auto
  with assms(2,3) show ?thesis by (auto simp: number_text_decimal value_types_def split: if_splits)
qed (use assms adopt_typed_id in auto)

lemma unify_typed:
  assumes "open_typed left" "open_typed right" "unify operator left right = Inr (l, r)"
  shows "typed l \<and> typed r \<and> box_type l = box_type r"
proof -
  have types: "box_type left = T_ANY_INT \<or> box_type left \<in> value_types" "box_type right = T_ANY_INT \<or> box_type right \<in> value_types"
    using assms typed_type by (auto simp: open_typed_iff)
  have "typed l \<and> typed r"
    using assms types adopt_typed [OF assms(1), of T_INT l] adopt_typed [OF assms(2), of T_INT r]
      adopt_typed [OF assms(1), of "box_type right" l] adopt_typed [OF assms(2), of "box_type left" r]
      open_any [OF assms(1)] open_any [OF assms(2)]
    by (auto simp: unify_def pair_up_def split: if_splits sum.splits)
  moreover have "box_type l = box_type r"
    using assms(3) by (auto simp: unify_def pair_up_def split: if_splits sum.splits)
  ultimately show ?thesis by blast
qed

lemma combine_typed:
  assumes "open_typed left" "open_typed right" "combine operator left right = Inr e"
    "operator \<in> arithmetic_operators"
  shows "typed e"
proof -
  obtain l r where "unify operator left right = Inr (l, r)" "e = Box_Binary (box_type l) operator l r"
    using assms(3) by (cases "unify operator left right") (auto simp: combine_def)
  with unify_typed [OF assms(1,2), of operator l r] assms(4) typed_type show ?thesis by auto
qed

lemma operand_types: "map_of (sp_operand_types LADDER_SPEC) p = Some t \<Longrightarrow> t \<in> value_types"
proof -
  have "snd ` set (sp_operand_types LADDER_SPEC) \<subseteq> value_types" by (simp add: LADDER_SPEC_def)
  then show "map_of (sp_operand_types LADDER_SPEC) p = Some t \<Longrightarrow> t \<in> value_types"
    by (force dest!: map_of_SomeD)
qed

lemma operand_typed: "read_operand syms ts = Inr (e, rest) \<Longrightarrow> typed e \<and> is_variable e"
  by (auto simp: read_operand_def Let_def symbol_for_def py_upper_def dest: operand_types
      split: list.splits if_splits option.splits)

lemma shift_call_typed: "shift_call f v n = Inr e \<Longrightarrow> typed v \<Longrightarrow> is_variable v \<Longrightarrow> f \<in> shift_functions \<Longrightarrow> typed e"
  using typed_type by (auto simp: shift_call_def split: option.splits if_splits)

lemma call_typed: "read_call syms ts = Inr (e, rest) \<Longrightarrow> typed e"
  by (auto simp: read_call_def Let_def map_sum_def split: list.splits if_splits sum.splits
      dest!: operand_typed intro: shift_call_typed)

lemma literal_open: "number_text x \<Longrightarrow> open_typed (read_literal x)"
  by (auto simp: read_literal_def)

text \<open>Every reader yields a typed node, or an integer literal, from typed nodes.\<close>

fun carried :: "reader \<Rightarrow> bool" where
  "carried (Read_Sum_Loop node) = open_typed node"
| "carried (Read_Term_Loop node) = open_typed node"
| "carried m = True"

definition sound :: "(reader \<Rightarrow> string list \<Rightarrow> parsed) \<Rightarrow> bool" where
  "sound self = (\<forall>m ts e rest. carried m \<longrightarrow> self m ts = Some (Inr (e, rest)) \<longrightarrow> open_typed e)"

lemma soundD: "sound self \<Longrightarrow> self m ts = Some (Inr (e, rest)) \<Longrightarrow> carried m \<Longrightarrow> open_typed e"
  unfolding sound_def by blast

lemma read_loop_sound:
  assumes "sound self" "read_loop ops side again self node ts = Some (Inr (e, rest))" "open_typed node"
    "ops \<subseteq> arithmetic_operators" "carried side" "\<And>n. carried (again n) = open_typed n"
  shows "open_typed e"
proof (cases ts)
  case (Cons t more')
  show ?thesis
  proof (cases "t \<in> ops")
    case True
    then obtain right rest' node' where "self side more' = Some (Inr (right, rest'))"
      "combine t node right = Inr node'" "self (again node') rest' = Some (Inr (e, rest))"
      using assms(2) by (auto simp: read_loop_def Cons elim!: andthen_InrE)
    moreover from this have "open_typed right" using assms soundD by blast
    ultimately show ?thesis
      using assms soundD combine_typed [of node right t node'] True open_typed_iff by blast
  qed (use assms Cons in \<open>auto simp: read_loop_def\<close>)
qed (use assms in \<open>auto simp: read_loop_def\<close>)

lemma unsigned_number: "is_number x \<Longrightarrow> unsigned_text x = x"
proof -
  have "\<not> py_isdigit CHR ''-''" by code_simp
  then show "is_number x \<Longrightarrow> unsigned_text x = x" by (cases x) (auto simp: is_number_def unsigned_text_def)
qed

lemma read_factor_sound:
  assumes "sound self" "read_factor syms self ts = Some (Inr (e, rest))"
  shows "open_typed e"
proof (cases ts)
  case (Cons t more')
  have "open_typed (read_literal x)" if "is_number x" for x
    using that by (intro literal_open) (simp add: number_text_def unsigned_number)
  moreover have "open_typed (read_literal (''-'' @ x))" if "is_number x" for x
    using that by (intro literal_open) (simp add: number_text_def unsigned_text_def)
  moreover have "self Read_Sum more' = Some (Inr (e', b)) \<Longrightarrow> open_typed e'" for e' b
    using soundD [OF assms(1)] by fastforce
  moreover have "read_call syms ts = Inr (e, rest) \<Longrightarrow> open_typed e" "read_operand syms ts = Inr (e, rest) \<Longrightarrow> open_typed e"
    using call_typed operand_typed open_typed_iff by blast+
  ultimately show ?thesis
    using assms(2)
    by (auto simp: read_factor_def Cons map_sum_def split: if_splits list.splits sum.splits elim!: andthen_InrE)
next
  case Nil
  with assms show ?thesis using operand_typed open_typed_iff by (fastforce simp: read_factor_def)
qed

lemma parse_at_sound: "sound (parse_at syms n)"
proof (induction n)
  case 0
  show ?case by (simp add: sound_def)
next
  case (Suc n)
  show ?case
    unfolding sound_def
  proof (intro allI impI)
    fix m ts e rest assume m: "carried m" and read: "parse_at syms (Suc n) m ts = Some (Inr (e, rest))"
    show "open_typed e"
    proof (cases m)
      case Read_Sum
      then show ?thesis using read soundD [OF Suc.IH] carried.simps
        by (auto simp: read_sum_def elim!: andthen_InrE split: prod.splits)
    next
      case Read_Term
      then show ?thesis using read soundD [OF Suc.IH] carried.simps
        by (auto simp: read_term_def elim!: andthen_InrE split: prod.splits)
    next
      case (Read_Sum_Loop node)
      then show ?thesis using read m
        by (auto intro!: read_loop_sound [OF Suc.IH, of "{''+'', ''-''}" Read_Term Read_Sum_Loop node ts e rest]
            simp: arithmetic_operators_def)
    next
      case (Read_Term_Loop node)
      then show ?thesis using read m
        by (auto intro!: read_loop_sound [OF Suc.IH, of "{''*'', ''/''}" Read_Factor Read_Term_Loop node ts e rest]
            simp: arithmetic_operators_def)
    next
      case Read_Factor
      then show ?thesis using read read_factor_sound [OF Suc.IH, of syms ts e rest] by simp
    qed
  qed
qed

lemma parse_assignment_typed: "parse_assignment syms ts = Some (Inr e) \<Longrightarrow> root_typed e"
proof -
  assume "parse_assignment syms ts = Some (Inr e)"
  then obtain target ts1 ts2 node ts3 v where target: "read_operand syms ts = Inr (target, ts1)"
    and node: "parse_at syms (parser_fuel ts) Read_Sum ts2 = Some (Inr (node, ts3))"
    and v: "adopt node (box_type target) = Inr v" "box_type v = box_type target"
    and e: "e = Box_Binary (box_type target) assignment_operator target v"
    by (auto simp: parse_assignment_def elim!: andthen_InrE split: if_splits)
  have "typed target" "is_variable target" using operand_typed [OF target] by auto
  moreover have "typed v"
    using adopt_typed [OF soundD [OF parse_at_sound node] v(1)] typed_type [OF \<open>typed target\<close>] by simp
  ultimately show ?thesis using v e by simp
qed

lemma parse_comparison_typed: "parse_comparison syms ts = Some (Inr e) \<Longrightarrow> root_typed e"
proof -
  assume "parse_comparison syms ts = Some (Inr e)"
  then obtain left right operator ts1 ts2 ts3 l r where
    left: "parse_at syms (parser_fuel ts) Read_Sum ts = Some (Inr (left, ts1))"
    and right: "parse_at syms (parser_fuel ts) Read_Sum ts2 = Some (Inr (right, ts3))"
    and operator: "operator \<in> comparison_operators" and sides: "unify operator left right = Inr (l, r)"
    and e: "e = Box_Binary T_BOOL operator l r"
    by (auto simp: parse_comparison_def after_left_def elim!: andthen_InrE split: list.splits if_splits)
  have "operator \<noteq> assignment_operator" using operator by (auto simp: comparison_operators_def assignment_operator_def)
  then show ?thesis
    using unify_typed [OF soundD [OF parse_at_sound left] soundD [OF parse_at_sound right] sides] operator e by simp
qed

lemma sum_returns:
  assumes "length ts' \<le> length ts"
  shows "parse_at syms (parser_fuel ts) Read_Sum ts' \<noteq> None"
    and "parse_at syms (parser_fuel ts) Read_Sum ts' = Some (Inr (e, rest)) \<Longrightarrow> length rest < length ts'"
  using goodD [OF parse_at_good, of Read_Sum ts' "parser_fuel ts" syms] assms
  by (auto simp: needs_def parser_fuel_def consumed_def returns_def split: option.splits sum.splits)

lemma parse_end_returns [simp]: "parse_end ts \<noteq> None"
  by (simp add: parse_end_def split: list.split)

lemma parse_assignment_returns: "parse_assignment syms ts \<noteq> None"
proof
  assume "parse_assignment syms ts = None"
  then obtain target ts1 ts2 where "read_operand syms ts = Inr (target, ts1)" "expect assignment_operator ts1 = Inr ts2"
    "parse_at syms (parser_fuel ts) Read_Sum ts2 = None"
    by (auto simp: parse_assignment_def andthen_None_iff split: if_splits)
  then show False using sum_returns(1) [of ts2 ts syms] by (auto dest!: operand_length expect_length)
qed

lemma parse_comparison_returns: "parse_comparison syms ts \<noteq> None"
proof
  assume "parse_comparison syms ts = None"
  then obtain left ts1 where left: "parse_at syms (parser_fuel ts) Read_Sum ts = Some (Inr (left, ts1))"
    and rest: "after_left syms (parser_fuel ts) left ts1 = None"
    using sum_returns(1) [of ts ts syms] by (auto simp: parse_comparison_def andthen_None_iff)
  from rest obtain operator ts2 where "ts1 = operator # ts2" "parse_at syms (parser_fuel ts) Read_Sum ts2 = None"
    by (cases ts1) (auto simp: after_left_def andthen_None_iff split: if_splits)
  then show False using sum_returns(2) [OF _ left] sum_returns(1) [of ts2 ts syms] by simp
qed

lemma parse_expression_returns: "parse_expression syms text \<noteq> None"
  using parse_assignment_returns parse_comparison_returns
  by (cases "tokenize text") (auto simp: parse_expression_def parse_tokens_def)

lemma parse_expression_typed: "parse_expression syms text = Some (Inr e) \<Longrightarrow> root_typed e"
  using parse_assignment_typed parse_comparison_typed
  by (auto simp: parse_expression_def parse_tokens_def elim!: andthen_InrE split: if_splits)

lemma expression_instruction_returns: "\<exists>i. expression_instruction syms text mnemonic position = Some i"
  using parse_expression_returns [of syms]
  by (auto simp: expression_instruction_def Let_def split: option.split sum.split box_expr.split)

text \<open>
  C25. An expression box is read for every text and every table of symbols: the parser
  returns, with a message or with an expression, and an expression it accepts is typed
  throughout. An assignment gives a variable a value of the variable's type; a comparison is a
  BOOL over two sides of one type; arithmetic keeps to INT, DINT or REAL, its operands and its
  result being of the same type; an integer literal is in the range of the type its context
  gave it; a shift is applied to a word or double word with a count from 1 to its width.
\<close>

theorem boxes_typed:
  "\<exists>outcome. parse_expression syms text = Some outcome \<and>
     (case outcome of Inl message \<Rightarrow> True | Inr e \<Rightarrow> root_typed e)"
proof -
  from parse_expression_returns obtain outcome where "parse_expression syms text = Some outcome" by blast
  with parse_expression_typed show ?thesis by (auto split: sum.split)
qed

end
