(* ===== verification/Basic_Ladder_Facts.thy ===== *)
theory Basic_Ladder_Facts imports Basic_Ladder Ladder_Paths Basic_Expression_Facts begin

text \<open>
  What the network of a ladder grid is: its paths are the wired paths of the grid, nothing more
  and nothing less. The argument goes stage by stage: the joined nodes are the classes of the
  vertical links (\<open>Grid_Nodes\<close>), the edges are the segments the cells draw, pruning keeps
  the edges on a way from the rail to an output, and each reduction keeps the walks.
\<close>

section \<open>Reduction\<close>

definition steps :: "edge list \<Rightarrow> node step set" where
  "steps es = {(ed_source e, p, ed_target e) |e p. e \<in> set es \<and> p \<in> set (paths (ed_series e))}"

definition skeleton :: "edge list \<Rightarrow> node step set" where
  "skeleton es = (\<lambda>e. (ed_source e, [], ed_target e)) ` set es"

lemma mem_steps:
  "(u, p, v) \<in> steps es \<longleftrightarrow> (\<exists>e. e \<in> set es \<and> ed_source e = u \<and> ed_target e = v \<and> p \<in> set (paths (ed_series e)))"
  by (auto simp: steps_def)

lemma mem_skeleton:
  "(u, p, v) \<in> skeleton es \<longleftrightarrow> p = [] \<and> (\<exists>e. e \<in> set es \<and> ed_source e = u \<and> ed_target e = v)"
  by (auto simp: skeleton_def)

text \<open>Every edge can be reached from the rail.\<close>

definition connected :: "edge list \<Rightarrow> bool" where
  "connected es = (\<forall>e\<in>set es. walk (skeleton es) Rail [] (ed_source e))"

lemma skeleton_walk_label: "walk (skeleton es) u p v \<Longrightarrow> p = []"
  by (induction rule: walk.induct) (auto simp: skeleton_def)

lemma edge_simps [simp]:
  "ed_source (edge s t e k) = s" "ed_target (edge s t e k) = t" "ed_series (edge s t e k) = e" "ed_order (edge s t e k) = k"
  by (simp_all add: edge_def)

subsection \<open>Parallel edges\<close>

lemma snd_keyed [simp]: "snd (keyed k b) = b"
  by (simp add: keyed_def)

definition branches_of :: "edge \<Rightarrow> ladder_series list" where
  "branches_of e = (case ed_series e of [Parallel bs] \<Rightarrow> bs | b \<Rightarrow> [b])"

lemma branches_paths: "(\<Union>b\<in>set (branches_of e). set (paths b)) = set (paths (ed_series e))"
  by (auto simp: branches_of_def split: list.splits ladder_element.splits)

lemma parallel_paths: "set (paths (parallel es)) = (\<Union>e\<in>set es. set (paths (ed_series e)))"
proof -
  have "map snd (keyed_branches e) = branches_of e" for e
    by (auto simp: keyed_branches_def branches_of_def comp_def split: list.splits ladder_element.splits)
  then have keyed: "snd ` set (keyed_branches e) = set (branches_of e)" for e by (metis set_map)
  have "set (paths (parallel es)) = (\<Union>e\<in>set es. \<Union>x\<in>set (keyed_branches e). set (paths (snd x)))"
    unfolding parallel_def paths_single by simp
  also have "\<dots> = (\<Union>e\<in>set es. \<Union>b\<in>set (branches_of e). set (paths b))"
    by (simp flip: keyed)
  also have "\<dots> = (\<Union>e\<in>set es. set (paths (ed_series e)))" by (simp add: branches_paths)
  finally show ?thesis .
qed

lemma group_nonempty: "g \<in> set (edge_groups es) \<Longrightarrow> g \<noteq> []"
  by (auto simp: edge_groups_def filter_empty_conv)

lemma group_ends: "g \<in> set (edge_groups es) \<Longrightarrow> e \<in> set g \<Longrightarrow> e \<in> set es \<and> ends e = ends (hd g)"
  by (auto simp: edge_groups_def) (metis (mono_tags) filter.simps(1) list.set_sel(1) mem_Collect_eq set_filter)

lemma group_exists: "e \<in> set es \<Longrightarrow> \<exists>g\<in>set (edge_groups es). e \<in> set g"
  by (force simp: edge_groups_def)

lemma merge_group_ok:
  assumes "g \<in> set (edge_groups es)"
  shows "ends (merge_group g) = ends (hd g)"
    "set (paths (ed_series (merge_group g))) = (\<Union>e\<in>set g. set (paths (ed_series e)))"
  using group_nonempty [OF assms] parallel_paths [of g]
  by (auto simp: merge_group_def ends_def split: list.splits)

lemma merged_steps: "steps (map merge_group (edge_groups es)) = steps es"
proof
  show "steps (map merge_group (edge_groups es)) \<subseteq> steps es"
  proof
    fix x assume "x \<in> steps (map merge_group (edge_groups es))"
    then obtain g p where g: "g \<in> set (edge_groups es)" "p \<in> set (paths (ed_series (merge_group g)))"
      "x = (ed_source (merge_group g), p, ed_target (merge_group g))" by (auto simp: steps_def)
    with merge_group_ok [OF g(1)] obtain e where e: "e \<in> set g" "p \<in> set (paths (ed_series e))" by auto
    have "x = (ed_source e, p, ed_target e)" "e \<in> set es"
      using g(3) merge_group_ok(1) [OF g(1)] group_ends [OF g(1) e(1)] by (simp_all add: ends_def)
    with e(2) show "x \<in> steps es" unfolding steps_def by blast
  qed
  show "steps es \<subseteq> steps (map merge_group (edge_groups es))"
  proof
    fix x assume "x \<in> steps es"
    then obtain e p where e: "e \<in> set es" "p \<in> set (paths (ed_series e))" "x = (ed_source e, p, ed_target e)"
      by (auto simp: steps_def)
    with group_exists obtain g where g: "g \<in> set (edge_groups es)" "e \<in> set g" by blast
    have "ed_source e = ed_source (merge_group g)" "ed_target e = ed_target (merge_group g)"
      using merge_group_ok(1) [OF g(1)] group_ends [OF g] by (simp_all add: ends_def)
    moreover have "p \<in> set (paths (ed_series (merge_group g)))" using merge_group_ok(2) [OF g(1)] g(2) e(2) by blast
    ultimately have "x = (ed_source (merge_group g), p, ed_target (merge_group g))" using e(3) by simp
    then show "x \<in> steps (map merge_group (edge_groups es))"
      unfolding steps_def using g(1) \<open>p \<in> set (paths (ed_series (merge_group g)))\<close> by auto
  qed
qed

lemma merged_skeleton: "skeleton (map merge_group (edge_groups es)) = skeleton es"
proof -
  have "skeleton fs = (\<lambda>(u, v). (u, [], v)) ` ends ` set fs" for fs
    by (auto simp: skeleton_def ends_def image_image)
  moreover have "ends ` set (map merge_group (edge_groups es)) = ends ` set es"
  proof
    show "ends ` set (map merge_group (edge_groups es)) \<subseteq> ends ` set es"
    proof
      fix k assume "k \<in> ends ` set (map merge_group (edge_groups es))"
      then obtain g where g: "g \<in> set (edge_groups es)" "k = ends (merge_group g)" by auto
      with merge_group_ok(1) [OF g(1)] group_ends [OF g(1), of "hd g"] group_nonempty [OF g(1)]
      show "k \<in> ends ` set es" by simp
    qed
    show "ends ` set es \<subseteq> ends ` set (map merge_group (edge_groups es))"
    proof
      fix k assume "k \<in> ends ` set es"
      then obtain e g where g: "g \<in> set (edge_groups es)" "e \<in> set g" "k = ends e" using group_exists by blast
      have "k = ends (merge_group g)" using merge_group_ok(1) [OF g(1)] group_ends [OF g(1,2)] g(3) by simp
      with g(1) show "k \<in> ends ` set (map merge_group (edge_groups es))" by simp
    qed
  qed
  ultimately show ?thesis by simp
qed

lemma merged_length:
  assumes "list_ex (\<lambda>g. 1 < length g) (edge_groups es)"
  shows "length (edge_groups es) < length es"
proof (rule ccontr)
  assume "\<not> length (edge_groups es) < length es"
  then have "card (set (map ends es)) = length (map ends es)"
    using card_length [of "map ends es"] by (simp add: edge_groups_def length_first_keys)
  then have "distinct (map ends es)" by (rule card_distinct)
  then have "length (filter (\<lambda>e. ends e = k) es) \<le> 1" for k
  proof (induction es)
    case (Cons e es)
    then have "filter (\<lambda>f. ends f = ends e) es = []" by (auto simp: filter_empty_conv) (metis imageI)
    with Cons show ?case by auto
  qed simp
  with assms show False by (auto simp: edge_groups_def list_ex_iff not_less [symmetric])
qed

subsection \<open>Edges in series\<close>

lemma walk_enters:
  "walk T u p v \<Longrightarrow> u \<noteq> v \<Longrightarrow> \<exists>x q. (x, q, v) \<in> T \<and> x \<noteq> v"
  by (induction rule: walk.induct) blast+

lemma passed_no_loop:
  assumes "connected es" "passed_through es v" "e \<in> set es"
  shows "\<not> (ed_source e = v \<and> ed_target e = v)"
proof
  assume loop: "ed_source e = v \<and> ed_target e = v"
  with assms have "walk (skeleton es) Rail [] v" "Rail \<noteq> v" by (auto simp: connected_def passed_through_def)
  from walk_enters [OF this] obtain f where f: "f \<in> set es" "ed_target f = v" "ed_source f \<noteq> v"
    by (auto simp: skeleton_def)
  have "length (incoming es v) = 1" using assms(2) by (simp add: passed_through_def)
  then obtain g where "incoming es v = [g]" by (auto simp: length_Suc_conv)
  moreover have "e \<in> set (incoming es v)" "f \<in> set (incoming es v)" using loop f assms(3) by (auto simp: incoming_def)
  ultimately show False using loop f by auto
qed

lemma passed_ends:
  assumes "passed_through es v"
  shows "\<exists>a b. incoming es v = [a] \<and> outgoing es v = [b] \<and>
    {e \<in> set es. ed_target e = v} = {a} \<and> {e \<in> set es. ed_source e = v} = {b}"
proof -
  from assms obtain a b where ab: "incoming es v = [a]" "outgoing es v = [b]"
    by (auto simp: passed_through_def length_Suc_conv)
  have "set (incoming es v) = {e \<in> set es. ed_target e = v}" "set (outgoing es v) = {e \<in> set es. ed_source e = v}"
    by (auto simp: incoming_def outgoing_def)
  with ab show ?thesis by (intro exI [of _ a] exI [of _ b]) simp
qed

lemma bypass_steps:
  assumes "connected es" "passed_through es v"
  shows "steps (bypass es v) = eliminated v (steps es)" "skeleton (bypass es v) = eliminated v (skeleton es)"
proof -
  from passed_ends [OF assms(2)] obtain a b where ab: "incoming es v = [a]" "outgoing es v = [b]"
    and sets: "{e \<in> set es. ed_target e = v} = {a}" "{e \<in> set es. ed_source e = v} = {b}" by blast
  have a: "e \<in> set es \<and> ed_target e = v \<longleftrightarrow> e = a" and b: "e \<in> set es \<and> ed_source e = v \<longleftrightarrow> e = b" for e
    using sets by blast+
  have bypass: "set (bypass es v) = {e \<in> set es. ed_target e \<noteq> v \<and> ed_source e \<noteq> v} \<union>
      {edge (ed_source a) (ed_target b) (ed_series a @ ed_series b) (ed_order a)}"
    by (auto simp: bypass_def ab(1,2))
  have into: "(u, p, v) \<in> steps es \<longleftrightarrow> u = ed_source a \<and> p \<in> set (paths (ed_series a))" for u p
    unfolding mem_steps using a by metis
  have out: "(v, p, w) \<in> steps es \<longleftrightarrow> w = ed_target b \<and> p \<in> set (paths (ed_series b))" for w p
    unfolding mem_steps using b by metis
  show "steps (bypass es v) = eliminated v (steps es)"
  proof (intro set_eqI)
    fix x :: "node step"
    obtain u p w where x: "x = (u, p, w)" by (cases x)
    have "(u, p, w) \<in> eliminated v (steps es) \<longleftrightarrow> (u, p, w) \<in> steps es \<and> u \<noteq> v \<and> w \<noteq> v \<or>
        u = ed_source a \<and> w = ed_target b \<and> p \<in> set (paths (ed_series a @ ed_series b))"
      unfolding eliminated_def mem_paths_append using into out by blast
    moreover have "(u, p, w) \<in> steps (bypass es v) \<longleftrightarrow> (u, p, w) \<in> steps es \<and> u \<noteq> v \<and> w \<noteq> v \<or>
        u = ed_source a \<and> w = ed_target b \<and> p \<in> set (paths (ed_series a @ ed_series b))"
      unfolding mem_steps bypass by auto
    ultimately show "x \<in> steps (bypass es v) \<longleftrightarrow> x \<in> eliminated v (steps es)" by (simp add: x)
  qed
  have "(u, p, v) \<in> skeleton es \<longleftrightarrow> u = ed_source a \<and> p = []" "(v, p, u) \<in> skeleton es \<longleftrightarrow> u = ed_target b \<and> p = []" for u p
    unfolding mem_skeleton using a b by metis+
  then show "skeleton (bypass es v) = eliminated v (skeleton es)"
    unfolding eliminated_def by (auto simp: skeleton_def bypass)
qed

lemma bypass_length:
  assumes "connected es" "passed_through es v"
  shows "length (bypass es v) < length es"
proof -
  from passed_ends [OF assms(2)] obtain a b where ab: "incoming es v = [a]" "outgoing es v = [b]"
    and sets: "{e \<in> set es. ed_target e = v} = {a}" by blast
  have "length (filter (\<lambda>e. ed_target e = v \<or> ed_source e = v) es) \<ge> 2"
  proof -
    have "length (filter (\<lambda>e. ed_target e = v \<or> ed_source e = v) es) =
        length (filter (\<lambda>e. ed_target e = v) es) + length (filter (\<lambda>e. ed_source e = v) es)"
      using passed_no_loop [OF assms]
      by (induction es) auto
    then show ?thesis using ab by (simp add: incoming_def outgoing_def)
  qed
  moreover have "length (filter (\<lambda>e. ed_target e \<noteq> v \<and> ed_source e \<noteq> v) es) +
      length (filter (\<lambda>e. ed_target e = v \<or> ed_source e = v) es) = length es"
    using sum_length_filter_compl [of "\<lambda>e. ed_target e \<noteq> v \<and> ed_source e \<noteq> v" es] by (simp add: de_Morgan_conj)
  ultimately show ?thesis by (simp add: bypass_def Let_def)
qed

lemma bypass_connected:
  assumes "connected es" "passed_through es v"
  shows "connected (bypass es v)"
  unfolding connected_def
proof
  fix e assume e: "e \<in> set (bypass es v)"
  have no_loop: "\<not> (x = v \<and> y = v)" if "(x, q, y) \<in> skeleton es" for x q y
    using that passed_no_loop [OF assms] by (auto simp: mem_skeleton)
  have v: "Rail \<noteq> v" "v \<noteq> Sink" using assms(2) by (auto simp: passed_through_def)
  have "(ed_source e, [], ed_target e) \<in> eliminated v (skeleton es)"
    using e unfolding bypass_steps(2) [OF assms, symmetric] by (auto simp: mem_skeleton)
  then obtain p where "(ed_source e, [], p) \<in> skeleton es" "ed_source e \<noteq> v"
    using no_loop by (auto simp: eliminated_def)
  then have "walk (skeleton es) Rail [] (ed_source e)" using assms(1) by (auto simp: mem_skeleton connected_def)
  with v \<open>ed_source e \<noteq> v\<close> show "walk (skeleton (bypass es v)) Rail [] (ed_source e)"
    unfolding bypass_steps(2) [OF assms] using walk_eliminated_iff [of "skeleton es" v] no_loop by metis
qed

subsection \<open>The loop\<close>

lemma reduce_step_ok:
  assumes "connected es" "reduce_step es = (es', changed)"
  shows "connected es' \<and> (changed \<longrightarrow> length es' < length es) \<and> (\<not> changed \<longrightarrow> es' = es) \<and>
    (\<forall>p. walk (steps es') Rail p Sink \<longleftrightarrow> walk (steps es) Rail p Sink)"
proof -
  obtain es1 merged where m: "merge_parallel es = (es1, merged)" by force
  have es1: "steps es1 = steps es" "skeleton es1 = skeleton es" "length es1 \<le> length es"
    "merged \<longrightarrow> length es1 < length es" "\<not> merged \<longrightarrow> es1 = es"
    using m merged_steps [of es] merged_skeleton [of es] merged_length [of es]
    by (auto simp: merge_parallel_def Let_def split: if_splits)
  have "ed_source ` set es1 = ed_source ` set es"
  proof -
    have "ed_source ` set fs = {u. \<exists>v. (u, [], v) \<in> skeleton fs}" for fs by (auto simp: mem_skeleton)
    then show ?thesis by (simp add: es1)
  qed
  then have connected1: "connected es1" using assms(1) unfolding connected_def es1(2) by (metis imageE imageI)
  show ?thesis
  proof (cases "find (passed_through es1) (first_keys ed_target es1)")
    case None
    with assms(2) m connected1 es1 show ?thesis by (auto simp: reduce_step_def merge_series_def)
  next
    case (Some v)
    then have v: "passed_through es1 v" by (auto simp: find_Some_iff)
    then have "Rail \<noteq> v" "Sink \<noteq> v" by (auto simp: passed_through_def)
    moreover have "\<not> (x = v \<and> y = v)" if "(x, q, y) \<in> steps es1" for x q y
      using that passed_no_loop [OF connected1 v] by (auto simp: mem_steps)
    ultimately have "walk (steps (bypass es1 v)) Rail p Sink \<longleftrightarrow> walk (steps es) Rail p Sink" for p
      unfolding bypass_steps(1) [OF connected1 v] using walk_eliminated_iff [of "steps es1" v] es1(1) by metis
    with Some assms(2) m es1 bypass_length [OF connected1 v] bypass_connected [OF connected1 v] show ?thesis
      by (auto simp: reduce_step_def merge_series_def)
  qed
qed

text \<open>The loop ends on connected edges, with the same walks.\<close>

lemma reduce_loop_ok:
  "connected es \<Longrightarrow> \<exists>es'. reduce_loop es = Some es' \<and> (\<forall>p. walk (steps es') Rail p Sink \<longleftrightarrow> walk (steps es) Rail p Sink)"
proof (induction "length es" arbitrary: es rule: less_induct)
  case less
  obtain es' changed where step: "reduce_step es = (es', changed)" by force
  note ok = reduce_step_ok [OF less.prems step]
  show ?case
  proof (cases changed)
    case True
    with ok less(1) [of es'] obtain fs where "reduce_loop es' = Some fs"
      "\<forall>p. walk (steps fs) Rail p Sink \<longleftrightarrow> walk (steps es') Rail p Sink" by blast
    with ok step True show ?thesis by (subst reduce_loop.simps) simp
  next
    case False
    with ok step show ?thesis by (subst reduce_loop.simps) simp
  qed
qed

lemma single_walk:
  assumes "ed_source e = Rail" "ed_target e = Sink"
  shows "walk (steps [e]) Rail p Sink \<longleftrightarrow> p \<in> set (paths (ed_series e))"
proof
  assume "walk (steps [e]) Rail p Sink"
  then show "p \<in> set (paths (ed_series e))"
  proof (cases rule: walk.cases)
    case (step p v q)
    from step(3) assms step(2) have "q = []" by (cases rule: walk.cases) (auto simp: mem_steps)
    with step show ?thesis by (auto simp: mem_steps)
  qed
next
  assume "p \<in> set (paths (ed_series e))"
  then show "walk (steps [e]) Rail p Sink" using assms by (intro walk_one) (auto simp: mem_steps)
qed

lemma reduce_edges_ok:
  assumes "connected es"
  shows "\<exists>r. reduce_edges es = Some r \<and> (\<forall>s. r = Inr s \<longrightarrow> (\<forall>p. p \<in> set (paths s) \<longleftrightarrow> walk (steps es) Rail p Sink)) \<and>
    (\<forall>e. r = Inl e \<longrightarrow> e = Not_Series_Parallel)"
proof -
  from reduce_loop_ok [OF assms] obtain fs where fs: "reduce_loop es = Some fs"
    "\<forall>p. walk (steps fs) Rail p Sink \<longleftrightarrow> walk (steps es) Rail p Sink" by blast
  then show ?thesis
    using single_walk by (auto simp: reduce_edges_def split: list.splits if_splits)
qed

section \<open>Pruning\<close>

definition reaches :: "edge list \<Rightarrow> node \<Rightarrow> node \<Rightarrow> bool" where
  "reaches es u v = walk (skeleton es) u [] v"

lemma reaches_refl [simp]: "reaches es u u"
  by (simp add: reaches_def walk.stay)

lemma reaches_trans: "reaches es u v \<Longrightarrow> reaches es v w \<Longrightarrow> reaches es u w"
  using walk_append [of "skeleton es" u "[]" v "[]" w] by (simp add: reaches_def)

lemma reaches_edge: "e \<in> set es \<Longrightarrow> reaches es (ed_source e) (ed_target e)"
  unfolding reaches_def by (rule walk_one) (auto simp: mem_skeleton)

text \<open>What a pass adds is reached from what was there.\<close>

definition after_set :: "edge list \<Rightarrow> node set \<Rightarrow> node set" where
  "after_set es us = {v. \<exists>u\<in>us. reaches es u v}"

definition before_set :: "edge list \<Rightarrow> node set \<Rightarrow> node set" where
  "before_set es vs = {u. \<exists>v\<in>vs. reaches es u v}"

lemma closure_sets:
  "us \<subseteq> after_set es us" "us \<subseteq> vs \<Longrightarrow> after_set es us \<subseteq> after_set es vs"
  "vs \<subseteq> after_set es us \<Longrightarrow> after_set es vs \<subseteq> after_set es us"
  "us \<subseteq> before_set es us" "us \<subseteq> vs \<Longrightarrow> before_set es us \<subseteq> before_set es vs"
  "vs \<subseteq> before_set es us \<Longrightarrow> before_set es vs \<subseteq> before_set es us"
  unfolding after_set_def before_set_def using reaches_refl reaches_trans by blast+

lemma spread_sound:
  assumes "e \<in> set fs"
  shows "fst (spread e fb) \<subseteq> after_set fs (fst fb)" "snd (spread e fb) \<subseteq> before_set fs (snd fb)"
proof -
  have "insert (ed_target e) (fst fb) \<subseteq> after_set fs (fst fb)" if "ed_source e \<in> fst fb"
    using closure_sets(1) [of "fst fb" fs] reaches_edge [OF assms] that by (auto simp: after_set_def)
  then show "fst (spread e fb) \<subseteq> after_set fs (fst fb)"
    using closure_sets(1) [of "fst fb" fs] by (simp add: spread_def case_prod_beta)
  have "insert (ed_source e) (snd fb) \<subseteq> before_set fs (snd fb)" if "ed_target e \<in> snd fb"
    using closure_sets(4) [of "snd fb" fs] reaches_edge [OF assms] that by (auto simp: before_set_def)
  then show "snd (spread e fb) \<subseteq> before_set fs (snd fb)"
    using closure_sets(4) [of "snd fb" fs] by (simp add: spread_def case_prod_beta)
qed

lemma pass_sound:
  "set es \<subseteq> set fs \<Longrightarrow> fst (pass es fb) \<subseteq> after_set fs (fst fb) \<and> snd (pass es fb) \<subseteq> before_set fs (snd fb)"
proof (induction es arbitrary: fb)
  case (Cons e es)
  have step: "pass (e # es) fb = pass es (spread e fb)" by (simp add: pass_def)
  have "fst (pass es (spread e fb)) \<subseteq> after_set fs (fst (spread e fb))"
    "snd (pass es (spread e fb)) \<subseteq> before_set fs (snd (spread e fb))"
    using Cons by auto
  then show ?case unfolding step
    using closure_sets(3) closure_sets(6) spread_sound [of e fs fb] Cons.prems by (meson list.set_intros(1) order_trans subsetD)
qed (simp add: pass_def closure_sets)

lemma pass_fixed: "pass es fb = fb \<Longrightarrow> e \<in> set es \<Longrightarrow> spread e fb = fb"
proof (induction es)
  case (Cons f es)
  have step: "pass (f # es) fb = pass es (spread f fb)" by (simp add: pass_def)
  have "spread f fb = fb"
    using Cons.prems(1) pass_grows [of "spread f fb" es] spread_grows [of fb f] unfolding step
    by (intro prod_eqI) auto
  with Cons step show ?case by auto
qed simp

lemma fixed_closed:
  assumes "\<And>e. e \<in> set es \<Longrightarrow> spread e fb = fb" "walk (skeleton es) u p v"
  shows "(u \<in> fst fb \<longrightarrow> v \<in> fst fb) \<and> (v \<in> snd fb \<longrightarrow> u \<in> snd fb)"
  using assms(2)
proof (induction rule: walk.induct)
  case (step u p v q w)
  then obtain e where e: "e \<in> set es" "ed_source e = u" "ed_target e = v" by (auto simp: mem_skeleton)
  from assms(1) [OF e(1)] e have "(u \<in> fst fb \<longrightarrow> v \<in> fst fb) \<and> (v \<in> snd fb \<longrightarrow> u \<in> snd fb)"
    by (cases fb) (auto simp: spread_def insert_absorb split: if_splits)
  with step show ?case by blast
qed simp

lemma passes_ok:
  "fst (passes es fb) = after_set es (fst fb) \<and> snd (passes es fb) = before_set es (snd fb)"
proof (induction es fb rule: passes.induct)
  case (1 es fb)
  show ?case
  proof (cases "pass es fb = fb")
    case True
    then have "passes es fb = fb" by (subst passes.simps) simp
    with fixed_closed [of es fb] pass_fixed [OF True] show ?thesis
      unfolding after_set_def before_set_def reaches_def by (auto intro: walk.stay)
  next
    case False
    then have "passes es fb = passes es (pass es fb)" by (subst passes.simps) simp
    with 1 [OF False] have "fst (passes es fb) = after_set es (fst (pass es fb))"
      "snd (passes es fb) = before_set es (snd (pass es fb))" by simp_all
    moreover have "after_set es (fst (pass es fb)) = after_set es (fst fb)"
      using pass_grows [of fb es] pass_sound [of es es fb] by (intro equalityI closure_sets) auto
    moreover have "before_set es (snd (pass es fb)) = before_set es (snd fb)"
      using pass_grows [of fb es] pass_sound [of es es fb] by (intro equalityI closure_sets) auto
    ultimately show ?thesis by simp
  qed
qed

definition useful :: "edge list \<Rightarrow> edge \<Rightarrow> bool" where
  "useful es e = (reaches es Rail (ed_source e) \<and> reaches es (ed_target e) Sink)"

lemma fst_prune: "fst (prune es) = filter (useful es) es"
  using passes_ok [of es "({Rail}, {Sink})"]
  by (simp add: prune_def useful_def [abs_def] case_prod_beta Let_def after_set_def before_set_def)

lemma walk_reaches: "walk (steps es) u p v \<Longrightarrow> reaches es u v"
proof (induction rule: walk.induct)
  case (step u p v q w)
  then show ?case using reaches_edge reaches_trans by (fastforce simp: mem_steps)
qed simp

lemma pruned_walk:
  assumes "walk (steps es) u p w" "reaches es Rail u" "reaches es w Sink"
  shows "walk (steps (filter (useful es) es)) u p w"
  using assms
proof (induction rule: walk.induct)
  case (step u p v q w)
  then obtain e where e: "e \<in> set es" "ed_source e = u" "ed_target e = v" "p \<in> set (paths (ed_series e))"
    by (auto simp: mem_steps)
  have "reaches es v Sink" using step.hyps(2) step.prems(2) walk_reaches reaches_trans by blast
  then have "useful es e" using step.prems e by (simp add: useful_def)
  with e have "(u, p, v) \<in> steps (filter (useful es) es)" by (auto simp: mem_steps)
  moreover have "reaches es Rail v" using step.prems reaches_edge [OF e(1)] e reaches_trans by blast
  ultimately show ?case using step.IH step.prems by (blast intro: walk.step)
qed (rule walk.stay)

lemma pruned_reaches:
  assumes "walk (skeleton es) u p w" "reaches es Rail u" "reaches es w Sink"
  shows "walk (skeleton (filter (useful es) es)) u p w"
  using assms
proof (induction rule: walk.induct)
  case (step u p v q w)
  then obtain e where e: "e \<in> set es" "ed_source e = u" "ed_target e = v" "p = []" by (auto simp: mem_skeleton)
  have "reaches es v w" using step.hyps(2) skeleton_walk_label by (auto simp: reaches_def)
  then have "reaches es v Sink" using step.prems(2) reaches_trans by blast
  then have "useful es e" using step.prems e by (simp add: useful_def)
  with e have "(u, p, v) \<in> skeleton (filter (useful es) es)" by (auto simp: mem_skeleton)
  moreover have "reaches es Rail v" using step.prems reaches_edge [OF e(1)] e reaches_trans by blast
  ultimately show ?case using step.IH step.prems by (blast intro: walk.step)
qed (rule walk.stay)

lemma prune_connected: "connected (fst (prune es))"
  unfolding connected_def fst_prune
proof
  fix e assume e: "e \<in> set (filter (useful es) es)"
  then have "reaches es (ed_source e) Sink" using reaches_edge [of e es] reaches_trans by (auto simp: useful_def)
  with e show "walk (skeleton (filter (useful es) es)) Rail [] (ed_source e)"
    by (intro pruned_reaches) (auto simp: useful_def reaches_def)
qed

lemma prune_walks: "walk (steps (fst (prune es))) Rail p Sink \<longleftrightarrow> walk (steps es) Rail p Sink"
proof
  assume "walk (steps (fst (prune es))) Rail p Sink"
  then show "walk (steps es) Rail p Sink"
    by (rule walk_mono) (auto simp: fst_prune steps_def)
qed (auto simp: fst_prune intro: pruned_walk)

lemma prune_output:
  "list_ex (\<lambda>e. ed_target e = Sink) (fst (prune es)) \<longleftrightarrow> reaches es Rail Sink"
proof
  assume "list_ex (\<lambda>e. ed_target e = Sink) (fst (prune es))"
  then show "reaches es Rail Sink"
    using reaches_edge reaches_trans by (fastforce simp: fst_prune list_ex_iff useful_def)
next
  assume "reaches es Rail Sink"
  from walk_enters [OF this [unfolded reaches_def]] have "\<exists>e\<in>set es. ed_target e = Sink" by (auto simp: mem_skeleton)
  have "walk (skeleton (fst (prune es))) Rail [] Sink"
    using \<open>reaches es Rail Sink\<close> pruned_reaches [of es Rail "[]" Sink] by (simp add: fst_prune reaches_def walk.stay)
  from walk_enters [OF this] show "list_ex (\<lambda>e. ed_target e = Sink) (fst (prune es))"
    by (auto simp: mem_skeleton list_ex_iff)
qed

end
