(* ===== verification/Basic_Ladder_Network.thy ===== *)
theory Basic_Ladder_Network imports Basic_Ladder_Facts begin

text \<open>
  The network of a rung against its drawing. The reference is the grid itself: the segments its
  cells draw between nodes, the vertical links that join nodes, and the paths of power that go
  along both from the rail to an output.
\<close>

section \<open>The drawing\<close>

text \<open>The segments of one cell, with the instructions on them.\<close>

definition drawn_pins ::
  "(string \<Rightarrow> string option) \<Rightarrow> placed_cell list \<Rightarrow> placed_cell \<Rightarrow> (string \<times> int) list \<Rightarrow> node step set" where
  "drawn_pins syms ps p pins =
     {(Rail, [pin_instruction syms BLOCK_OUTPUT_REFERENCE p pin (fst (snd p) + offset)],
       Node (fst (snd p) + offset) (right_of p)) |pin offset.
         (pin, offset) \<in> set pins \<and> wired_from ps (fst (snd p) + offset) (right_of p)}"

definition drawn_inputs :: "(string \<Rightarrow> string option) \<Rightarrow> placed_cell \<Rightarrow> (string \<times> int) list \<Rightarrow> node step set" where
  "drawn_inputs syms p pins =
     {(Node (fst (snd p) + offset) (snd (snd p)), [pin_instruction syms FUNCTION_BLOCK_INPUT p pin (fst (snd p))], Sink)
       |pin offset. (pin, offset) \<in> set pins}"

definition drawn_element ::
  "(string \<Rightarrow> string option) \<Rightarrow> placed_cell \<Rightarrow> ladder_operation \<times> string option \<Rightarrow> node \<Rightarrow> node step set" where
  "drawn_element syms p rule target =
     {(Node (fst (snd p)) (snd (snd p)), [i], target) |i. cell_element syms p rule = Some i}"

definition drawn_outputs :: "(string \<Rightarrow> string option) \<Rightarrow> placed_cell list \<Rightarrow> placed_cell \<Rightarrow> node step set" where
  "drawn_outputs syms ps p =
     (let k = kind_of (fst p); row = fst (snd p); right = Node row (right_of p)
      in if k \<in> set (sp_wires LADDER_SPEC) \<and> reads_left (fst p) then {(Node row (snd (snd p)), [], right)}
         else case map_of (sp_conditions LADDER_SPEC) k of
           Some rule \<Rightarrow> if reads_left (fst p) then drawn_element syms p rule right else {}
         | None \<Rightarrow> (case map_of (sp_outputs LADDER_SPEC) k of
           Some rule \<Rightarrow>
             if reads_left (fst p)
             then drawn_element syms p rule (if wired_from ps row (right_of p) then right else Sink) else {}
         | None \<Rightarrow> (case map_of (sp_blocks LADDER_SPEC) k of
           Some pins \<Rightarrow> drawn_pins syms ps p (bp_outputs pins) | None \<Rightarrow> {})))"

definition drawn_sinks :: "(string \<Rightarrow> string option) \<Rightarrow> placed_cell \<Rightarrow> node step set" where
  "drawn_sinks syms p =
     (case map_of (sp_blocks LADDER_SPEC) (kind_of (fst p)) of
        None \<Rightarrow> {} | Some pins \<Rightarrow> drawn_inputs syms p (bp_inputs pins))"

definition drawn :: "(string \<Rightarrow> string option) \<Rightarrow> placed_cell list \<Rightarrow> node step set" where
  "drawn syms ps = (\<Union>p\<in>set ps. drawn_outputs syms ps p \<union> drawn_sinks syms p)"

definition links_of :: "placed_cell list \<Rightarrow> (node \<times> node) set" where
  "links_of ps = (\<Union>p\<in>set ps. set (vertical_links p))"

text \<open>A path of power: along segments, and from a node to any node joined to it.\<close>

inductive power :: "(node \<times> node) set \<Rightarrow> node step set \<Rightarrow> node \<Rightarrow> ladder_instruction list \<Rightarrow> node \<Rightarrow> bool"
  for links D where
  joined: "linked links m n \<Longrightarrow> power links D m [] n"
| segment: "(m, p, n) \<in> D \<Longrightarrow> power links D m p n"
| onward: "power links D k p m \<Longrightarrow> power links D m q n \<Longrightarrow> power links D k (p @ q) n"

definition wired_path :: "(string \<Rightarrow> string option) \<Rightarrow> placed_cell list \<Rightarrow> ladder_instruction list \<Rightarrow> bool" where
  "wired_path syms ps p = power (links_of ps) (drawn syms ps) Rail p Sink"

section \<open>Walks over the classes of nodes\<close>

definition moved :: "(node \<Rightarrow> node) \<Rightarrow> node step set \<Rightarrow> node step set" where
  "moved v D = (\<lambda>(m, p, n). (v m, p, v n)) ` D"

lemma moved_simps [simp]:
  "moved v {} = {}" "moved v (D \<union> E) = moved v D \<union> moved v E" "moved v (insert (m, p, n) D) = insert (v m, p, v n) (moved v D)"
  by (simp_all add: moved_def image_Un)

lemma power_walk:
  assumes "\<And>m n. v m = v n \<longleftrightarrow> linked links m n"
  shows "power links D m p n \<longleftrightarrow> walk (moved v D) (v m) p (v n)"
proof
  show "power links D m p n \<Longrightarrow> walk (moved v D) (v m) p (v n)"
  proof (induction rule: power.induct)
    case (joined m n)
    then show ?case using assms walk.stay by metis
  next
    case (segment m p n)
    then show ?case by (intro walk_one) (auto simp: moved_def intro: rev_image_eqI)
  qed (rule walk_append)
  have "walk (moved v D) u p w \<Longrightarrow> u = v m \<Longrightarrow> w = v n \<Longrightarrow> power links D m p n" for u w
  proof (induction arbitrary: m rule: walk.induct)
    case (stay u)
    then show ?case using assms power.joined by metis
  next
    case (step u p x q w)
    then obtain a b where ab: "u = v a" "x = v b" "(a, p, b) \<in> D" by (auto simp: moved_def)
    then have "power links D m [] a" using step.prems assms power.joined by metis
    moreover have "power links D a p b" using ab(3) by (rule power.segment)
    moreover have "power links D b q n" using step ab by blast
    ultimately show ?case using power.onward by (metis append_Nil)
  qed
  then show "walk (moved v D) (v m) p (v n) \<Longrightarrow> power links D m p n" by blast
qed

section \<open>The edges are the drawing\<close>

definition settled :: "(node \<Rightarrow> node) \<Rightarrow> parents \<Rightarrow> bool" where
  "settled v parent = (forest parent \<and> rep parent = v)"

text \<open>The edges of segments; a wire between joined ends is left out.\<close>

definition draws :: "(node \<Rightarrow> node) \<Rightarrow> edge list \<Rightarrow> node step set \<Rightarrow> bool" where
  "draws v es D =
     (steps es \<subseteq> moved v D \<and> moved v D \<subseteq> steps es \<union> {(u, [], u) |u. True} \<and>
      (\<forall>e\<in>set es. ed_series e = [] \<or> (\<exists>i. ed_series e = [Leaf i])))"

text \<open>A step of the reader that returns edges for \<open>D\<close> and keeps the classes.\<close>

definition reached :: "(node \<Rightarrow> node) \<Rightarrow> (network_error + edge list \<times> parents) option \<Rightarrow> node step set \<Rightarrow> bool" where
  "reached v r D = (\<exists>es parent'. r = Some (Inr (es, parent')) \<and> settled v parent' \<and> draws v es D)"

definition runs :: "(node \<Rightarrow> node) \<Rightarrow> edge list grid_step \<Rightarrow> node step set \<Rightarrow> bool" where
  "runs v m D = (\<forall>parent. settled v parent \<longrightarrow> reached v (m parent) D)"

lemma steps_simps [simp]:
  "steps [] = {}" "steps (es @ fs) = steps es \<union> steps fs"
  "steps [edge s t [Leaf i] k] = {(s, [i], t)}" "steps [edge s t [] k] = {(s, [], t)}"
  by (auto simp: steps_def edge_def)

lemma draws_append: "draws v es D \<Longrightarrow> draws v fs E \<Longrightarrow> draws v (es @ fs) (D \<union> E)"
  by (auto simp: draws_def)

lemma draws_empty [simp]: "draws v [] {}"
  by (simp add: draws_def)

lemma draws_one: "draws v [edge (v m) (v n) [Leaf i] k] {(m, [i], n)}"
  unfolding draws_def by simp

lemma find_step_ok:
  assumes "settled v parent" "n \<noteq> Sink"
  obtains parent' where "find_step n parent = Some (Inr (v n, parent'))" "settled v parent'"
  using find_node_ok [of parent n] assms by (auto simp: settled_def find_step_def)

lemma settled_ends: "settled v parent \<Longrightarrow> v Rail = Rail \<and> (v n = Sink \<longleftrightarrow> n = Sink)"
  by (auto simp: settled_def rep_rail rep_sink)


lemma draws_wire: "draws v (if v n \<noteq> v m then [edge (v m) (v n) [] k] else []) {(m, [], n)}"
  by (simp add: draws_def)

text \<open>The steps of the reader that make edges.\<close>

lemma reached_some [simp]: "reached v (Some (Inr (es, parent))) D \<longleftrightarrow> settled v parent \<and> draws v es D"
  by (simp add: reached_def)

lemma reachedE:
  assumes "reached v r D"
  obtains es parent' where "r = Some (Inr (es, parent'))" "settled v parent'" "draws v es D"
  using assms unfolding reached_def by blast

lemma reached_found:
  assumes "settled v parent" "n \<noteq> Sink" "\<And>parent. settled v parent \<Longrightarrow> reached v (f (v n, parent)) D"
  shows "reached v (andthen (find_step n parent) f) D"
proof -
  from find_step_ok [OF assms(1,2)] obtain parent' where "find_step n parent = Some (Inr (v n, parent'))"
    "settled v parent'" by blast
  with assms(3) show ?thesis by simp
qed

lemma reached_append:
  assumes "reached v r D" "\<And>parent. settled v parent \<Longrightarrow> reached v (m parent) E"
  shows "reached v (andthen r (\<lambda>(es, parent1). andthen (m parent1) (\<lambda>(fs, parent2). Some (Inr (es @ fs, parent2))))) (D \<union> E)"
proof -
  from assms(1) obtain es p1 where p1: "r = Some (Inr (es, p1))" "settled v p1" "draws v es D" by (rule reachedE)
  from assms(2) [OF p1(2)] obtain fs p2 where "m p1 = Some (Inr (fs, p2))" "settled v p2" "draws v fs E"
    by (rule reachedE)
  with p1 draws_append show ?thesis by simp
qed

lemma runs_pins: "runs v (pin_edges syms ps p pins) (drawn_pins syms ps p pins)"
proof (induction pins)
  case Nil
  then show ?case by (simp add: runs_def drawn_pins_def)
next
  case (Cons x pins)
  obtain pin offset where x: "x = (pin, offset)" by (cases x)
  let ?row = "fst (snd p) + offset"
  let ?i = "pin_instruction syms BLOCK_OUTPUT_REFERENCE p pin ?row" and ?n = "Node ?row (right_of p)"
  have all: "drawn_pins syms ps p ((pin, offset) # pins) =
      (if wired_from ps ?row (right_of p) then {(Rail, [?i], ?n)} \<union> drawn_pins syms ps p pins
       else drawn_pins syms ps p pins)"
    by (auto simp: drawn_pins_def)
  have "reached v (pin_edges syms ps p (x # pins) parent) (drawn_pins syms ps p (x # pins))"
    if settled: "settled v parent" for parent
  proof (cases "wired_from ps ?row (right_of p)")
    case False
    with Cons settled show ?thesis by (simp add: all runs_def x)
  next
    case True
    have "reached v (andthen (find_step ?n parent) (\<lambda>(target, parent1).
        andthen (pin_edges syms ps p pins parent1) (\<lambda>(es, parent2).
          Some (Inr (edge Rail target [Leaf ?i] (?row, snd (snd p)) # es, parent2)))))
        ({(Rail, [?i], ?n)} \<union> drawn_pins syms ps p pins)"
    proof (rule reached_found [OF settled])
      fix p1 assume p1: "settled v p1"
      have rest: "reached v (pin_edges syms ps p pins p1) (drawn_pins syms ps p pins)"
        using Cons p1 by (simp add: runs_def)
      have "v Rail = Rail" using settled_ends [OF settled] by blast
      then have "draws v [edge Rail (v ?n) [Leaf ?i] (?row, snd (snd p))] {(Rail, [?i], ?n)}"
        using draws_one [of v Rail ?n ?i] by simp
      with draws_append [OF this] rest show "reached v ((\<lambda>(target, parent1).
        andthen (pin_edges syms ps p pins parent1) (\<lambda>(es, parent2).
          Some (Inr (edge Rail target [Leaf ?i] (?row, snd (snd p)) # es, parent2)))) (v ?n, p1))
        ({(Rail, [?i], ?n)} \<union> drawn_pins syms ps p pins)"
        by (auto elim!: reachedE)
    qed simp
    with True show ?thesis by (simp add: all x Let_def)
  qed
  then show ?case by (simp add: runs_def)
qed

lemma reached_element:
  assumes "settled v parent"
  shows "reached v (with_parents (element_edge syms p rule (v (Node (fst (snd p)) (snd (snd p)))) (v n)) parent)
    (drawn_element syms p rule n)"
proof -
  obtain i where i: "cell_element syms p rule = Some i"
    using expression_instruction_returns by (fastforce simp: cell_element_def Let_def split: option.splits)
  then have "drawn_element syms p rule n = {(Node (fst (snd p)) (snd (snd p)), [i], n)}" by (simp add: drawn_element_def)
  with i assms show ?thesis using draws_one by (simp add: with_parents_def element_edge_def)
qed

lemma cell_runs: "runs v (cell_edges syms ps p) (drawn_outputs syms ps p)"
proof -
  let ?row = "fst (snd p)" and ?k = "kind_of (fst p)"
  let ?here = "Node ?row (snd (snd p))" and ?right = "Node ?row (right_of p)"
  have element: "reached v (andthen (find_step ?right parent)
      (\<lambda>(target, parent2). with_parents (element_edge syms p rule (v ?here) target) parent2)) (drawn_element syms p rule ?right)"
    if "settled v parent" for parent rule
    by (rule reached_found [OF that]) (simp_all add: reached_element)
  have wire: "reached v (andthen (find_step ?right parent)
      (\<lambda>(target, parent2). Some (Inr (if target \<noteq> v ?here then [edge (v ?here) target [] (snd p)] else [], parent2))))
      {(?here, [], ?right)}" if "settled v parent" for parent
    by (rule reached_found [OF that]) (use draws_wire [of v ?right ?here "snd p"] in auto)
  have sink: "reached v (with_parents (element_edge syms p rule (v ?here) Sink) parent) (drawn_element syms p rule Sink)"
    if "settled v parent" for parent rule
    using reached_element [OF that, of syms p rule Sink] settled_ends [OF that, of Sink] by metis
  have "reached v (cell_edges syms ps p parent) (drawn_outputs syms ps p)" if "settled v parent" for parent
    unfolding cell_edges_def Let_def
    apply (rule reached_found [OF that], simp)
    subgoal premises settled for parent
      using element [OF settled] wire [OF settled] sink [OF settled] runs_pins settled
      unfolding drawn_outputs_def Let_def prod.case runs_def
      by (auto split: option.split)
    done
  then show ?thesis by (simp add: runs_def)
qed

lemma edges_run: "runs v (edges_loop syms ps qs) (\<Union>p\<in>set qs. drawn_outputs syms ps p)"
proof (induction qs)
  case (Cons p qs)
  have "runs v (cell_edges syms ps p) (drawn_outputs syms ps p)" by (rule cell_runs)
  with Cons show ?case by (auto simp: runs_def intro!: reached_append)
qed (simp add: runs_def)

text \<open>An input pin nothing drives draws no edge.\<close>

definition driven_inputs :: "(string \<Rightarrow> string option) \<Rightarrow> (node \<Rightarrow> node) \<Rightarrow> node set \<Rightarrow> placed_cell \<Rightarrow> node step set" where
  "driven_inputs syms v driven p = {x \<in> drawn_sinks syms p. v (fst x) \<in> driven}"

lemma inputs_cell:
  assumes "settled v parent"
  shows "reached v (input_pins syms driven p pins parent) {x \<in> drawn_inputs syms p pins. v (fst x) \<in> driven}"
  using assms
proof (induction pins arbitrary: parent)
  case Nil
  then show ?case by (simp add: drawn_inputs_def)
next
  case (Cons x pins)
  obtain pin offset where x: "x = (pin, offset)" by (cases x)
  let ?n = "Node (fst (snd p) + offset) (snd (snd p))"
  let ?i = "pin_instruction syms FUNCTION_BLOCK_INPUT p pin (fst (snd p))"
  let ?one = "if v ?n \<in> driven then {(?n, [?i], Sink)} else {}"
  have all: "{y \<in> drawn_inputs syms p ((pin, offset) # pins). v (fst y) \<in> driven} =
      ?one \<union> {y \<in> drawn_inputs syms p pins. v (fst y) \<in> driven}"
    by (auto simp: drawn_inputs_def)
  have "v Sink = Sink" using settled_ends [OF Cons.prems] by blast
  then have one: "draws v (if v ?n \<in> driven then [edge (v ?n) Sink [Leaf ?i] k] else []) ?one" for k
    using draws_one [of v ?n Sink ?i] by simp
  show ?case unfolding x all input_pins.simps Let_def
    apply (rule reached_found [OF Cons.prems], simp)
    subgoal premises settled for parent
      using Cons.IH [OF settled] draws_append [OF one] by (auto elim!: reachedE simp del: append_Cons split del: if_split)
    done
qed

lemma inputs_run: "runs v (inputs_loop syms driven qs) (\<Union>p\<in>set qs. driven_inputs syms v driven p)"
proof (induction qs)
  case (Cons p qs)
  have "reached v (case map_of (sp_blocks LADDER_SPEC) (kind_of (fst p)) of
                None \<Rightarrow> Some (Inr ([], parent))
              | Some pins \<Rightarrow> input_pins syms driven p (bp_inputs pins) parent) (driven_inputs syms v driven p)"
    if "settled v parent" for parent
    using inputs_cell [OF that] that by (simp add: driven_inputs_def drawn_sinks_def split: option.split)
  with Cons show ?case by (auto simp: runs_def intro!: reached_append)
qed (simp add: runs_def)

section \<open>The walks of the edges are the paths of power\<close>

text \<open>Nothing drawn leaves the sink; what is not drawn by an edge lies off every path.\<close>

lemma drawn_not_sink:
  assumes "(u, p, w) \<in> drawn syms ps"
  shows "u \<noteq> Sink"
proof -
  have "drawn_element syms c rule n \<subseteq> {x. fst x \<noteq> Sink}" "drawn_pins syms ps c pins \<subseteq> {x. fst x \<noteq> Sink}"
    "drawn_inputs syms c pins \<subseteq> {x. fst x \<noteq> Sink}" for c rule n pins
    by (auto simp: drawn_pins_def drawn_inputs_def drawn_element_def)
  then have "drawn_outputs syms ps c \<subseteq> {x. fst x \<noteq> Sink}" "drawn_sinks syms c \<subseteq> {x. fst x \<noteq> Sink}" for c
    by (simp_all add: drawn_outputs_def drawn_sinks_def Let_def split: option.split)
  with assms show ?thesis unfolding drawn_def by fastforce
qed

lemma driven_inputs_sink: "(u, p, w) \<in> driven_inputs syms v driven c \<Longrightarrow> w = Sink \<and> v u \<in> driven"
  by (auto simp: driven_inputs_def drawn_sinks_def drawn_inputs_def split: option.splits)

lemma undriven_sink: "(u, p, w) \<in> drawn_sinks syms c \<Longrightarrow> w = Sink"
  by (auto simp: drawn_sinks_def drawn_inputs_def split: option.splits)

lemma walk_driven:
  assumes kept: "\<And>u p w. (u, p, w) \<in> F \<Longrightarrow> (u, p, w) \<in> K \<or> (p = [] \<and> u = w) \<or> u \<notin> driven"
    and onto: "\<And>u p w. (u, p, w) \<in> K \<Longrightarrow> w \<in> insert Sink driven"
    and sink: "\<And>p w. (Sink, p, w) \<notin> F" and "walk F u p w" "u \<in> insert Sink driven"
  shows "walk K u p w"
  using assms(4,5)
proof (induction rule: walk.induct)
  case (step u p x q w)
  then have "u \<in> driven" using sink by blast
  with kept [OF step.hyps(1)] consider "(u, p, x) \<in> K" | "p = []" "u = x" by blast
  then show ?case
  proof cases
    case 1
    with onto step.IH show ?thesis by (blast intro: walk.step)
  next
    case 2
    with step show ?thesis by simp
  qed
qed (rule walk.stay)

lemma grid_edges_ok:
  assumes "settled v parent"
  obtains es parent' where "grid_edges syms ps parent = Some (Inr (es, parent'))" "settled v parent'"
    "\<And>p. walk (steps es) Rail p Sink \<longleftrightarrow> walk (moved v (drawn syms ps)) Rail p Sink"
    "\<forall>e\<in>set es. ed_series e = [] \<or> (\<exists>i. ed_series e = [Leaf i])"
proof -
  let ?D = "\<Union>p\<in>set ps. drawn_outputs syms ps p"
  have "reached v (edges_loop syms ps ps parent) ?D" using edges_run assms unfolding runs_def by blast
  then obtain es p1 where es: "edges_loop syms ps ps parent = Some (Inr (es, p1))" "settled v p1" "draws v es ?D"
    by (rule reachedE)
  define driven where "driven = insert Rail (ed_target ` set es)"
  let ?E = "\<Union>p\<in>set ps. driven_inputs syms v driven p"
  have "reached v (inputs_loop syms driven ps p1) ?E" using inputs_run es(2) unfolding runs_def by blast
  then obtain fs p2 where fs: "inputs_loop syms driven ps p1 = Some (Inr (fs, p2))" "settled v p2" "draws v fs ?E"
    by (rule reachedE)
  have both: "draws v (es @ fs) (?D \<union> ?E)" using es(3) fs(3) by (rule draws_append)
  let ?K = "steps (es @ fs)" and ?F = "moved v (drawn syms ps)"
  note ends = settled_ends [OF assms]
  have sub: "?D \<union> ?E \<subseteq> drawn syms ps" by (auto simp: drawn_def driven_inputs_def)
  have KF: "?K \<subseteq> ?F"
  proof -
    have "?K \<subseteq> moved v (?D \<union> ?E)" using both unfolding draws_def by blast
    also have "\<dots> \<subseteq> ?F" unfolding moved_def using sub by (rule image_mono)
    finally show ?thesis .
  qed
  have kept: "(u, p, w) \<in> ?K \<or> (p = [] \<and> u = w) \<or> u \<notin> driven" if F: "(u, p, w) \<in> ?F" for u p w
  proof -
    from F obtain a b where a: "(a, p, b) \<in> drawn syms ps" "u = v a" "w = v b" by (auto simp: moved_def)
    then have "(a, p, b) \<in> ?D \<union> ?E \<or> u \<notin> driven" by (auto simp: drawn_def driven_inputs_def)
    moreover have "(u, p, w) \<in> ?K \<or> (p = [] \<and> u = w)" if "(a, p, b) \<in> ?D \<union> ?E"
    proof -
      from that a have "(u, p, w) \<in> moved v (?D \<union> ?E)" unfolding moved_def by (force intro: rev_image_eqI)
      with both show ?thesis unfolding draws_def by blast
    qed
    ultimately show ?thesis by blast
  qed
  have onto: "w \<in> insert Sink driven" if K: "(u, p, w) \<in> ?K" for u p w
  proof -
    from K consider "(u, p, w) \<in> steps es" | "(u, p, w) \<in> steps fs" by auto
    then show ?thesis
    proof cases
      case 1
      then show ?thesis by (auto simp: mem_steps driven_def)
    next
      case 2
      with fs(3) have "(u, p, w) \<in> moved v ?E" unfolding draws_def by blast
      then obtain a b where "(a, p, b) \<in> ?E" "w = v b" by (auto simp: moved_def)
      then have "b = Sink" using driven_inputs_sink by blast
      with \<open>w = v b\<close> ends show ?thesis by simp
    qed
  qed
  have sink: "(Sink, p, w) \<notin> ?F" for p w
    using drawn_not_sink settled_ends [OF assms] unfolding moved_def by fastforce
  have "walk ?K Rail p Sink \<longleftrightarrow> walk ?F Rail p Sink" for p
    using walk_driven [OF kept onto sink, where p = p and u = Rail and w = Sink] walk_mono [OF _ KF]
    by (auto simp: driven_def)
  moreover have "grid_edges syms ps parent = Some (Inr (es @ fs, p2))"
    using es(1) fs(1) by (simp add: grid_edges_def driven_def)
  ultimately show thesis using that fs(2) both unfolding draws_def by blast
qed

lemma walk_of_reaches:
  assumes "walk (skeleton es) u q w" "\<forall>e\<in>set es. ed_series e = [] \<or> (\<exists>i. ed_series e = [Leaf i])"
  shows "\<exists>p. walk (steps es) u p w"
  using assms(1)
proof (induction rule: walk.induct)
  case (step u q v r w)
  then obtain e where e: "e \<in> set es" "ed_source e = u" "ed_target e = v" by (auto simp: mem_skeleton)
  with assms(2) obtain p where "p \<in> set (paths (ed_series e))" by fastforce
  with e have "(u, p, v) \<in> steps es" by (auto simp: mem_steps)
  with step.IH show ?case by (blast intro: walk.step)
qed (blast intro: walk.stay)

section \<open>The network\<close>

lemma links_not_sink: "\<forall>l\<in>set (concat (map vertical_links ps)). fst l \<noteq> Sink \<and> snd l \<noteq> Sink"
  by (auto simp: vertical_links_def Let_def split: if_splits)

lemma join_links:
  obtains parent v where "join_all (concat (map vertical_links ps)) Map.empty = Some parent" "settled v parent"
    "\<And>m n. v m = v n \<longleftrightarrow> linked (links_of ps) m n"
proof -
  have "\<And>m n. rep Map.empty m = rep Map.empty n \<longleftrightarrow> linked {} m n" by (simp add: empty_forest linked_empty)
  from join_all_linked [OF empty_forest(1) this links_not_sink [of ps]] obtain parent where
    "join_all (concat (map vertical_links ps)) Map.empty = Some parent" "forest parent"
    "\<forall>m n. rep parent m = rep parent n \<longleftrightarrow> linked (links_of ps) m n"
    by (auto simp: links_of_def)
  then show thesis by (intro that [of parent "rep parent"]) (simp_all add: settled_def)
qed

lemma network_of_ok:
  "(\<forall>p. \<not> wired_path syms ps p) \<and> network_of syms ps = Some (Inl No_Output) \<or>
   (\<exists>p. wired_path syms ps p) \<and>
     (network_of syms ps = Some (Inl Not_Series_Parallel) \<or>
      (\<exists>s d. network_of syms ps = Some (Inr (s, d)) \<and> (\<forall>p. p \<in> set (paths s) \<longleftrightarrow> wired_path syms ps p)))"
proof -
  obtain parent v where v: "join_all (concat (map vertical_links ps)) Map.empty = Some parent" "settled v parent"
    "\<And>m n. v m = v n \<longleftrightarrow> linked (links_of ps) m n" by (rule join_links) blast
  from grid_edges_ok [OF v(2)] obtain es parent' where es: "grid_edges syms ps parent = Some (Inr (es, parent'))"
    "\<And>p. walk (steps es) Rail p Sink \<longleftrightarrow> walk (moved v (drawn syms ps)) Rail p Sink"
    "\<forall>e\<in>set es. ed_series e = [] \<or> (\<exists>i. ed_series e = [Leaf i])" by metis
  have wired: "wired_path syms ps p \<longleftrightarrow> walk (steps es) Rail p Sink" for p
    using power_walk [OF v(3), of "drawn syms ps" Rail p Sink] settled_ends [OF v(2), of Sink] es(2)
    by (simp add: wired_path_def)
  have reach: "reaches es Rail Sink \<longleftrightarrow> (\<exists>p. wired_path syms ps p)"
    unfolding wired using walk_of_reaches [OF _ es(3)] walk_reaches by (auto simp: reaches_def)
  obtain kept d where kept: "prune es = (kept, d)" by force
  have some: "list_ex (\<lambda>e. ed_target e = Sink) kept \<longleftrightarrow> (\<exists>p. wired_path syms ps p)"
    using prune_output [of es] kept reach by simp
  obtain r where r: "reduce_edges kept = Some r" "\<forall>s. r = Inr s \<longrightarrow> (\<forall>p. p \<in> set (paths s) \<longleftrightarrow> walk (steps kept) Rail p Sink)"
    "\<forall>e. r = Inl e \<longrightarrow> e = Not_Series_Parallel"
    using reduce_edges_ok [OF prune_connected [of es]] kept by auto
  have "walk (steps kept) Rail p Sink \<longleftrightarrow> wired_path syms ps p" for p
    using prune_walks [of es p] kept wired by simp
  with r have "(\<exists>p. wired_path syms ps p) \<Longrightarrow> ?thesis"
    using v(1) es(1) kept some by (cases r) (simp_all add: network_of_def)
  moreover have "\<not> (\<exists>p. wired_path syms ps p) \<Longrightarrow> ?thesis"
    using v(1) es(1) kept some by (simp add: network_of_def)
  ultimately show ?thesis by blast
qed

text \<open>C23. What \<open>build_network\<close> returns for a rung, in every case. It always returns. An element
  type the rules do not know is an error that lists the types; a cell whose row or column is
  missing or no number raises; a rung in which no path of power goes from the rail to an output is
  the error for no output; every other rung either fails to reduce, or gives a network whose
  paths, instruction by instruction, are exactly the paths of power through the drawn grid.\<close>

theorem build_network_outcome:
  "(unknown_kinds (kept_cells cells) \<noteq> [] \<and>
      build_network syms cells = Some (Inl (Unknown_Elements (unknown_kinds (kept_cells cells))))) \<or>
   (unknown_kinds (kept_cells cells) = [] \<and> place_cells (kept_cells cells) = None \<and>
      build_network syms cells = Some (Inl Bad_Cell)) \<or>
   (\<exists>ps. unknown_kinds (kept_cells cells) = [] \<and> place_cells (kept_cells cells) = Some ps \<and>
      ((\<forall>p. \<not> wired_path syms ps p) \<and> build_network syms cells = Some (Inl No_Output) \<or>
       (\<exists>p. wired_path syms ps p) \<and>
         (build_network syms cells = Some (Inl Not_Series_Parallel) \<or>
          (\<exists>s d. build_network syms cells = Some (Inr (s, d)) \<and>
             (\<forall>p. p \<in> set (paths s) \<longleftrightarrow> wired_path syms ps p)))))"
  using network_of_ok [of syms]
  by (cases "place_cells (kept_cells cells)") (auto simp: build_network_def Let_def)

text \<open>A rung's network carries power when some path of power through the drawn grid has every
  instruction on it conducting, whatever the state of the instructions: the network that
  \<open>build_network\<close> returns and the drawing it was read from are energised together.\<close>

theorem network_conducts:
  assumes "build_network syms cells = Some (Inr (s, d))"
  shows "\<exists>ps. place_cells (kept_cells cells) = Some ps \<and>
    (\<forall>on. conducts on s \<longleftrightarrow> (\<exists>p. wired_path syms ps p \<and> list_all on p))"
proof -
  obtain ps where ps: "unknown_kinds (kept_cells cells) = []" "place_cells (kept_cells cells) = Some ps"
    "network_of syms ps = Some (Inr (s, d))"
    using assms by (auto simp: build_network_def Let_def split: if_splits option.splits)
  with network_of_ok [of syms ps] have "\<forall>p. p \<in> set (paths s) \<longleftrightarrow> wired_path syms ps p" by auto
  then show ?thesis using ps(2) by (auto simp: conducts_paths(2))
qed

text \<open>A rung of two rows: a contact, joined from below to a second one, drives a coil.\<close>

definition example_cell :: "string \<Rightarrow> string \<Rightarrow> string \<Rightarrow> string \<Rightarrow> string \<Rightarrow> cell" where
  "example_cell kind row column address wired =
     map_of [(''ElementType'', kind), (''Row'', row), (''Column'', column), (''Descriptor'', address),
             (''ChosenConnection'', wired)]"

definition example_rung :: "cell list" where
  "example_rung =
     [example_cell ''NormalContact'' ''0'' ''0'' ''%I0.0'' ''Left, Right'',
      example_cell ''Coil'' ''0'' ''1'' ''%Q0.0'' ''Left'',
      example_cell ''NegatedContact'' ''1'' ''0'' ''%I0.1'' ''Left,Up'']"

definition network_size :: "(network_error + ladder_series \<times> string list) option \<Rightarrow> nat option" where
  "network_size r = (case r of Some (Inr (s, d)) \<Rightarrow> Some (length (paths s)) | _ \<Rightarrow> None)"

lemma example_builds: "network_size (build_network Map.empty example_rung) = Some 2"
  by code_simp

theorem network_conducts_witness:
  "\<exists>s d ps. build_network Map.empty example_rung = Some (Inr (s, d)) \<and>
     place_cells (kept_cells example_rung) = Some ps \<and>
     (\<forall>on. conducts on s \<longleftrightarrow> (\<exists>p. wired_path Map.empty ps p \<and> list_all on p))"
proof -
  obtain s d where "build_network Map.empty example_rung = Some (Inr (s, d))"
    using example_builds by (auto simp: network_size_def split: option.splits sum.splits)
  with network_conducts [OF this] show ?thesis by blast
qed

end
