(* ===== verification/Basic_Instruction_List.thy ===== *)
theory Basic_Instruction_List imports Basic_Ladder "HOL-Library.Multiset" begin

text \<open>
  Networks of rungs written in Instruction List:
  \<open>parsers/machine_expert_basic/instruction_list.py\<close>. The code tells series elements apart by
  identity, so an element is kept here with the number of its allocation. One line is read as an
  action, from the line and the block it stands in, and the action then changes the state of the
  replay. Every \<open>NetworkUnresolved\<close> is a constructor of \<open>il_error\<close>; \<open>None\<close> stands for a step
  that does not return.
\<close>

section \<open>Elements\<close>

type_synonym il_object = "nat \<times> ladder_element"

datatype il_error =
    Unknown_Block string
  | Comparison_Modifier string
  | Not_An_Address string
  | Unsupported_Line string
  | Unbalanced
  | Without_MPS
  | Ends_Inside
  | Without_Output

section \<open>Operands\<close>

definition CONDITION_FORMS :: "(string \<times> ladder_operation \<times> string) list" where
  "CONDITION_FORMS =
     [([], NORMALLY_OPEN_CONTACT, ''NormalContact''), (''N'', NORMALLY_CLOSED_CONTACT, ''NegatedContact''),
      (''R'', POSITIVE_TRANSITION_CONTACT, ''RisingEdge''), (''F'', NEGATIVE_TRANSITION_CONTACT, ''FallingEdge'')]"

definition OUTPUT_FORMS :: "(string \<times> ladder_operation \<times> string) list" where
  "OUTPUT_FORMS =
     [(''ST'', COIL, ''Coil''), (''STN'', NEGATED_COIL, ''NegativeCoil''),
      (''S'', SET_COIL, ''SetCoil''), (''R'', RESET_COIL, ''ResetCoil'')]"

definition named_address :: "(string \<Rightarrow> string option) \<Rightarrow> string \<Rightarrow> string \<times> string list" where
  "named_address syms address =
     (let (name, annotations) = declared_name (Some address) syms
      in (case or_none name of None \<Rightarrow> address | Some n \<Rightarrow> n, annotations))"

definition plain_instruction ::
  "ladder_operation \<Rightarrow> string \<Rightarrow> string option \<Rightarrow> string list \<Rightarrow> ladder_instruction" where
  "plain_instruction operation mnemonic operand annotations =
     \<lparr>li_operation = operation, li_mnemonic = mnemonic, li_operand = operand, li_annotations = annotations,
      li_position = None, li_expression = None\<rparr>"

definition il_instruction ::
  "(string \<Rightarrow> string option) \<Rightarrow> ladder_operation \<Rightarrow> string \<Rightarrow> string option \<Rightarrow> ladder_instruction" where
  "il_instruction syms operation mnemonic operand =
     (case operand of
        Some a \<Rightarrow>
          if startswith ''%'' a
          then (case named_address syms a of (name, address) \<Rightarrow> plain_instruction operation mnemonic (Some name) address)
          else plain_instruction operation mnemonic operand []
      | None \<Rightarrow> plain_instruction operation mnemonic operand [])"

text \<open>The prefixes, longest first.\<close>

definition block_type :: "string \<Rightarrow> il_error + string" where
  "block_type address =
     (case find (\<lambda>x. startswith (fst x) address)
             (rev (sort_key (\<lambda>x. length (fst x)) (rev (sp_block_prefixes LADDER_SPEC)))) of
        None \<Rightarrow> Inl (Unknown_Block address) | Some x \<Rightarrow> Inr (snd x))"

definition block_instruction ::
  "(string \<Rightarrow> string option) \<Rightarrow> ladder_operation \<Rightarrow> string \<Rightarrow> string \<Rightarrow> il_error + ladder_instruction" where
  "block_instruction syms operation block pin =
     (case block_type block of
        Inl e \<Rightarrow> Inl e
      | Inr t \<Rightarrow>
          (case named_address syms block of
             (name, address) \<Rightarrow> Inr (plain_instruction operation t (Some (name @ ''.'' @ pin)) address)))"

text \<open>The text inside an IL \<open>[ ... ]\<close> box.\<close>

definition remove_prefix :: "string \<Rightarrow> string \<Rightarrow> string" where
  "remove_prefix p s = (if startswith p s then drop (length p) s else s)"

definition remove_suffix :: "string \<Rightarrow> string \<Rightarrow> string" where
  "remove_suffix p s = rev (remove_prefix (rev p) (rev s))"

definition bracketed :: "string \<Rightarrow> string" where
  "bracketed s = py_strip (remove_suffix '']'' (remove_prefix ''['' (py_strip s)))"

text \<open>The block a line stands in, and whether its \<open>OUT_BLK\<close> has been read.\<close>

type_synonym il_block = "string option \<times> bool"

definition operand_element ::
  "(string \<Rightarrow> string option) \<Rightarrow> il_block \<Rightarrow> string \<Rightarrow> string \<Rightarrow> (il_error + ladder_instruction list) option" where
  "operand_element syms b form operand =
     (if operand = ''1'' \<and> form = [] then Some (Inr [])
      else if startswith ''['' operand
      then (if form \<noteq> [] then Some (Inl (Comparison_Modifier form))
            else map_option (\<lambda>i. Inr [i]) (expression_instruction syms (bracketed operand) ''Comparison'' None))
      else case b of
        (Some block, True) \<Rightarrow>
          if \<not> startswith ''%'' operand
          then Some (map_sum id (\<lambda>i. [i]) (block_instruction syms BLOCK_OUTPUT_REFERENCE block operand))
          else (case map_of CONDITION_FORMS form of
                  None \<Rightarrow> None | Some (op, mnemonic) \<Rightarrow> Some (Inr [il_instruction syms op mnemonic (Some operand)]))
      | _ \<Rightarrow>
          if \<not> startswith ''%'' operand then Some (Inl (Not_An_Address operand))
          else (case map_of CONDITION_FORMS form of
                  None \<Rightarrow> None | Some (op, mnemonic) \<Rightarrow> Some (Inr [il_instruction syms op mnemonic (Some operand)])))"

section \<open>Lines\<close>

text \<open>\<open>_LOGIC\<close>: the base, the form and the parenthesis of a logic operation.\<close>

definition logic_form :: "string \<Rightarrow> string \<times> string" where
  "logic_form s =
     (case s of c # s' \<Rightarrow> if c \<in> {CHR ''N'', CHR ''R'', CHR ''F''} then ([c], s') else ([], s) | [] \<Rightarrow> ([], []))"

definition logic_match :: "string \<Rightarrow> (string \<times> string \<times> bool) option" where
  "logic_match op =
     (case find (\<lambda>base. startswith base op) [''LD'', ''AND'', ''OR''] of
        None \<Rightarrow> None
      | Some base \<Rightarrow>
          (case logic_form (drop (length base) op) of (form, rest) \<Rightarrow>
             if rest = [] then Some (base, form, False)
             else if rest \<in> {''('', ''(N''} then Some (base, form, True) else None))"

text \<open>What a line does to the replay.\<close>

datatype il_action =
    Il_Skip
  | Il_Output ladder_instruction
  | Il_Close
  | Il_Save
  | Il_Restore bool
  | Il_Extend ladder_instruction
  | Il_Open string "ladder_instruction list"
  | Il_Load "ladder_instruction list"
  | Il_And "ladder_instruction list"
  | Il_Or "ladder_instruction list"

text \<open>\<open>line.split(None, 1)\<close> of a stripped line, its argument stripped.\<close>

definition split_line :: "string \<Rightarrow> string \<times> string" where
  "split_line line =
     (takeWhile (\<lambda>c. \<not> py_isspace c) line, py_strip (dropWhile (\<lambda>c. \<not> py_isspace c) line))"

definition logic_action ::
  "(string \<Rightarrow> string option) \<Rightarrow> il_block \<Rightarrow> string \<Rightarrow> string \<Rightarrow> string \<Rightarrow> (il_error + il_action) option" where
  "logic_action syms b line op0 arg0 =
     (let (op, arg) = if startswith ''AND(N'' op0 then (''AND('', ''N '' @ arg0) else (op0, arg0)
      in case logic_match op of
           None \<Rightarrow> Some (Inl (Unsupported_Line line))
         | Some (base, form0, paren) \<Rightarrow>
             (let (form, operand) = if startswith ''N '' arg then (''N'', py_strip (drop 2 arg)) else (form0, arg)
              in andthen (operand_element syms b form operand) (\<lambda>elements.
                   if paren
                   then (if base = ''LD'' then Some (Inl (Unsupported_Line line)) else Some (Inr (Il_Open base elements)))
                   else if base = ''LD'' then Some (Inr (Il_Load elements))
                   else if base = ''AND'' then Some (Inr (Il_And elements))
                   else Some (Inr (Il_Or elements)))))"

definition no_block :: "il_block \<Rightarrow> il_action \<Rightarrow> (il_error + il_block \<times> il_action) option" where
  "no_block b a = Some (Inr (b, a))"

definition read_line ::
  "(string \<Rightarrow> string option) \<Rightarrow> il_block \<Rightarrow> string \<Rightarrow> (il_error + il_block \<times> il_action) option" where
  "read_line syms b raw =
     (let line = py_strip raw; (op, arg) = split_line line; (block, after_out) = b
      in if line = [] then no_block b Il_Skip
         else if startswith ''['' line \<or> startswith ''OPER'' line
         then (case expression_instruction syms
                 (bracketed (if startswith ''OPER'' line then drop 4 line else line)) ''Operation'' None of
                 None \<Rightarrow> None | Some i \<Rightarrow> no_block b (Il_Output i))
         else if line = '')'' then no_block b Il_Close
         else if op = ''BLK''
         then Some (map_sum id (\<lambda>t. ((Some arg, False), Il_Skip)) (block_type arg))
         else if op = ''OUT_BLK'' \<and> block \<noteq> None then no_block (block, True) Il_Skip
         else if op = ''END_BLK'' \<and> block \<noteq> None then no_block (None, after_out) Il_Skip
         else case (if \<not> after_out \<and> arg = [] \<and> op \<notin> {''MPS'', ''MRD'', ''MPP'', ''N''} then block else None) of
           Some name \<Rightarrow> Some (map_sum id (\<lambda>i. (b, Il_Output i)) (block_instruction syms FUNCTION_BLOCK_INPUT name op))
         | None \<Rightarrow>
             if op = ''MPS'' then no_block b Il_Save
             else if op \<in> {''MRD'', ''MPP''} then no_block b (Il_Restore (op = ''MPP''))
             else if op = ''N'' \<and> arg = [] then no_block b (Il_Extend (il_instruction syms UNSUPPORTED ''Not'' None))
             else if op = ''XOR'' \<and> startswith ''%'' arg
             then no_block b (Il_Extend (il_instruction syms UNSUPPORTED ''Xor'' (Some arg)))
             else case (if startswith ''%'' arg then map_of OUTPUT_FORMS op else None) of
               Some (operation, mnemonic) \<Rightarrow> no_block b (Il_Output (il_instruction syms operation mnemonic (Some arg)))
             | None \<Rightarrow> andthen (logic_action syms b line op arg) (no_block b))"

section \<open>The replay\<close>

record il_state =
  il_acc :: "il_object list"
  il_parens :: "(il_object list \<times> string) list"
  il_branches :: "il_object list list"
  il_outputs :: "il_object list list"
  il_next :: nat

text \<open>A new object for every element made; the operand of a condition is at most one.\<close>

fun new_objects :: "nat \<Rightarrow> ladder_element list \<Rightarrow> il_object list" where
  "new_objects n [] = []"
| "new_objects n (e # es) = (n, e) # new_objects (Suc n) es"

definition or_element :: "il_object list \<Rightarrow> ladder_element list \<Rightarrow> ladder_element" where
  "or_element first second = Parallel [map snd first, second]"

fun il_execute :: "il_action \<Rightarrow> il_state \<Rightarrow> il_error + il_state" where
  "il_execute Il_Skip st = Inr st"
| "il_execute (Il_Output i) st =
     Inr (st\<lparr>il_outputs := il_outputs st @ [il_acc st @ [(il_next st, Leaf i)]], il_next := Suc (il_next st)\<rparr>)"
| "il_execute Il_Close st =
     (case il_parens st of
        [] \<Rightarrow> Inl Unbalanced
      | (previous, kind) # parens \<Rightarrow>
          Inr (if kind = ''AND'' then st\<lparr>il_parens := parens, il_acc := previous @ il_acc st\<rparr>
               else st\<lparr>il_parens := parens, il_acc := [(il_next st, or_element previous (map snd (il_acc st)))],
                       il_next := Suc (il_next st)\<rparr>))"
| "il_execute Il_Save st = Inr (st\<lparr>il_branches := il_acc st # il_branches st\<rparr>)"
| "il_execute (Il_Restore pop) st =
     (case il_branches st of
        [] \<Rightarrow> Inl Without_MPS
      | acc # rest \<Rightarrow> Inr (st\<lparr>il_acc := acc, il_branches := if pop then rest else acc # rest\<rparr>))"
| "il_execute (Il_Extend i) st =
     Inr (st\<lparr>il_acc := il_acc st @ [(il_next st, Leaf i)], il_next := Suc (il_next st)\<rparr>)"
| "il_execute (Il_Open base is) st =
     Inr (st\<lparr>il_parens := (il_acc st, base) # il_parens st, il_acc := new_objects (il_next st) (map Leaf is),
             il_next := il_next st + length is\<rparr>)"
| "il_execute (Il_Load is) st =
     Inr (st\<lparr>il_acc := new_objects (il_next st) (map Leaf is), il_next := il_next st + length is\<rparr>)"
| "il_execute (Il_And is) st =
     Inr (st\<lparr>il_acc := il_acc st @ new_objects (il_next st) (map Leaf is), il_next := il_next st + length is\<rparr>)"
| "il_execute (Il_Or is) st =
     Inr (st\<lparr>il_acc := [(il_next st, or_element (il_acc st) (map Leaf is))], il_next := Suc (il_next st)\<rparr>)"

text \<open>The loop over the lines, for any way to execute an action.\<close>

fun il_loop ::
  "(il_action \<Rightarrow> 's \<Rightarrow> il_error + 's) \<Rightarrow> (string \<Rightarrow> string option) \<Rightarrow> string list \<Rightarrow> il_block \<Rightarrow> 's \<Rightarrow>
     (il_error + il_block \<times> 's) option" where
  "il_loop execute syms [] b st = Some (Inr (b, st))"
| "il_loop execute syms (line # rest) b st =
     andthen (read_line syms b line) (\<lambda>(b', action).
       andthen (Some (execute action st)) (il_loop execute syms rest b'))"

section \<open>Factoring\<close>

text \<open>The leading elements that all paths share, and what is left of the paths.\<close>

definition shares :: "il_object list list \<Rightarrow> bool" where
  "shares paths =
     (list_all (\<lambda>p. p \<noteq> []) paths \<and> 1 < length paths \<and> list_all (\<lambda>p. fst (hd p) = fst (hd (hd paths))) paths)"

function shared_prefix :: "il_object list list \<Rightarrow> ladder_element list \<times> il_object list list" where
  "shared_prefix paths =
     (if shares paths
      then (case shared_prefix (map tl paths) of (es, rest) \<Rightarrow> (snd (hd (hd paths)) # es, rest))
      else ([], paths))"
  by pat_completeness auto
termination
proof (relation "measure (\<lambda>paths. length (hd paths))", simp)
  fix paths assume "shares paths"
  then show "(map tl paths, paths) \<in> measure (\<lambda>paths. length (hd paths))"
    by (cases paths) (auto simp: shares_def)
qed

declare shared_prefix.simps [simp del]

fun join_group :: "il_object list \<Rightarrow> il_object list list list \<Rightarrow> il_object list list list" where
  "join_group p [] = [[p]]"
| "join_group p (g # gs) =
     (if hd g \<noteq> [] \<and> p \<noteq> [] \<and> fst (hd (hd g)) = fst (hd p) then (g @ [p]) # gs else g # join_group p gs)"

definition path_groups :: "il_object list list \<Rightarrow> il_object list list list" where
  "path_groups paths = foldl (\<lambda>gs p. join_group p gs) [] paths"

text \<open>A group is smaller than the paths when they do not all share their first element.\<close>

lemma join_group_mset: "mset (concat (join_group p gs)) = mset (concat gs) + {#p#}"
  by (induction gs) auto

definition grouped :: "il_object list list \<Rightarrow> bool" where
  "grouped g = (g \<noteq> [] \<and> (length g = 1 \<or> (\<forall>p\<in>set g. p \<noteq> [] \<and> fst (hd p) = fst (hd (hd g)))))"

lemma join_group_grouped: "\<forall>g\<in>set gs. grouped g \<Longrightarrow> \<forall>g\<in>set (join_group p gs). grouped g"
proof (induction gs)
  case (Cons g gs)
  have "grouped (g @ [p])" if "hd g \<noteq> []" "p \<noteq> []" "fst (hd (hd g)) = fst (hd p)" "grouped g"
    using that by (cases g) (auto simp: grouped_def)
  with Cons show ?case by auto
qed (simp add: grouped_def)

lemma path_groups_ok:
  "mset (concat (path_groups paths)) = mset paths \<and> (\<forall>g\<in>set (path_groups paths). grouped g)"
proof -
  have "mset (concat (foldl (\<lambda>gs p. join_group p gs) gs ps)) = mset (concat gs) + mset ps \<and>
      (\<forall>g\<in>set (foldl (\<lambda>gs p. join_group p gs) gs ps). grouped g)" if "\<forall>g\<in>set gs. grouped g" for gs ps
    using that
  proof (induction ps arbitrary: gs)
    case (Cons p ps)
    from Cons.IH [OF join_group_grouped [OF Cons.prems, of p]] show ?case by (simp add: join_group_mset)
  qed simp
  from this [of "[]" paths] show ?thesis by (simp add: path_groups_def)
qed

lemma group_smaller:
  assumes "g \<in> set (path_groups paths)" "\<not> shares paths" "length paths \<noteq> 1"
  shows "length g < length paths"
proof -
  from assms(1) obtain as bs where "path_groups paths = as @ g # bs" by (auto simp: in_set_conv_decomp)
  then have m: "mset paths = mset g + mset (concat as @ concat bs)"
    using path_groups_ok [of paths] by (simp add: ac_simps)
  then have len: "length paths = length g + length (concat as @ concat bs)" by (metis size_mset size_union)
  show ?thesis
  proof (rule ccontr)
    assume "\<not> length g < length paths"
    with len have "mset (concat as @ concat bs) = {#}" by simp
    with m have same: "mset paths = mset g" by (metis add_0_right)
    have g: "grouped g" using assms(1) path_groups_ok by blast
    with len \<open>\<not> length g < length paths\<close> assms(3) have "\<forall>p\<in>set g. p \<noteq> [] \<and> fst (hd p) = fst (hd (hd g))" "1 < length paths"
      by (auto simp: grouped_def neq_Nil_conv)
    then have "\<forall>p\<in>set paths. p \<noteq> [] \<and> fst (hd p) = fst (hd (hd g))" using same by (metis mset_eq_setD)
    moreover from \<open>1 < length paths\<close> have "hd paths \<in> set paths" by (cases paths) auto
    ultimately have "shares paths" using \<open>1 < length paths\<close> by (auto simp: shares_def list_all_iff)
    with assms(2) show False by simp
  qed
qed

lemma shared_prefix_rest:
  "length (snd (shared_prefix paths)) = length paths \<and> \<not> shares (snd (shared_prefix paths))"
proof (induction paths rule: shared_prefix.induct)
  case (1 paths)
  then show ?case by (subst (1 2) shared_prefix.simps) (simp add: case_prod_beta)
qed

function factor :: "il_object list list \<Rightarrow> ladder_element list" where
  "factor paths =
     (case shared_prefix paths of (es, rest) \<Rightarrow>
        if length rest = 1 then es @ map snd (hd rest)
        else es @ [Parallel (map factor (path_groups rest))])"
  by pat_completeness auto
termination
proof (relation "measure length", simp)
  fix paths es z
  fix x rest :: "il_object list list"
  assume *: "(es, rest) = shared_prefix paths" "length rest \<noteq> 1" "z \<in> set (path_groups rest)"
  from shared_prefix_rest [of paths] *(1) have "length rest = length paths" "\<not> shares rest" by (metis snd_conv)+
  with group_smaller [OF *(3)] *(2) show "(z, paths) \<in> measure length" by simp
qed

declare factor.simps [simp del]

section \<open>The network\<close>

definition initial_il :: il_state where
  "initial_il = \<lparr>il_acc = [], il_parens = [], il_branches = [], il_outputs = [], il_next = 0\<rparr>"

definition build_network_from_instruction_list ::
  "(string \<Rightarrow> string option) \<Rightarrow> string list \<Rightarrow> (il_error + ladder_series) option" where
  "build_network_from_instruction_list syms lines =
     andthen (il_loop il_execute syms lines (None, False) initial_il) (\<lambda>(b, st).
       Some (if il_parens st \<noteq> [] \<or> il_branches st \<noteq> [] \<or> fst b \<noteq> None then Inl Ends_Inside
             else if il_outputs st = [] then Inl Without_Output
             else Inr (factor (il_outputs st))))"

end
