(* ===== verification/Basic_Instruction_List_Facts.thy ===== *)
theory Basic_Instruction_List_Facts imports Basic_Instruction_List Ladder_Paths Basic_Expression_Facts begin

text \<open>
  The network of an Instruction List against the list itself. The reference replays the lines the
  way a controller does, with a boolean accumulator; the code's replay holds ladder elements
  instead, and factors the paths of its outputs into one network. Both energise the same outputs.
\<close>

section \<open>The boolean replay\<close>

record bool_state =
  bs_acc :: bool
  bs_parens :: "(bool \<times> string) list"
  bs_branches :: "bool list"
  bs_outputs :: "(ladder_instruction \<times> bool) list"

fun bool_execute :: "(ladder_instruction \<Rightarrow> bool) \<Rightarrow> il_action \<Rightarrow> bool_state \<Rightarrow> il_error + bool_state" where
  "bool_execute on Il_Skip st = Inr st"
| "bool_execute on (Il_Output i) st = Inr (st\<lparr>bs_outputs := bs_outputs st @ [(i, bs_acc st)]\<rparr>)"
| "bool_execute on Il_Close st =
     (case bs_parens st of
        [] \<Rightarrow> Inl Unbalanced
      | (previous, kind) # parens \<Rightarrow>
          Inr (st\<lparr>bs_parens := parens,
                  bs_acc := if kind = ''AND'' then previous \<and> bs_acc st else previous \<or> bs_acc st\<rparr>))"
| "bool_execute on Il_Save st = Inr (st\<lparr>bs_branches := bs_acc st # bs_branches st\<rparr>)"
| "bool_execute on (Il_Restore pop) st =
     (case bs_branches st of
        [] \<Rightarrow> Inl Without_MPS
      | acc # rest \<Rightarrow> Inr (st\<lparr>bs_acc := acc, bs_branches := if pop then rest else acc # rest\<rparr>))"
| "bool_execute on (Il_Extend i) st = Inr (st\<lparr>bs_acc := bs_acc st \<and> on i\<rparr>)"
| "bool_execute on (Il_Open base is) st =
     Inr (st\<lparr>bs_parens := (bs_acc st, base) # bs_parens st, bs_acc := list_all on is\<rparr>)"
| "bool_execute on (Il_Load is) st = Inr (st\<lparr>bs_acc := list_all on is\<rparr>)"
| "bool_execute on (Il_And is) st = Inr (st\<lparr>bs_acc := bs_acc st \<and> list_all on is\<rparr>)"
| "bool_execute on (Il_Or is) st = Inr (st\<lparr>bs_acc := bs_acc st \<or> list_all on is\<rparr>)"

text \<open>The outputs of a list, each with whether it is energised.\<close>

definition replay ::
  "(ladder_instruction \<Rightarrow> bool) \<Rightarrow> (string \<Rightarrow> string option) \<Rightarrow> string list \<Rightarrow>
     (il_error + (ladder_instruction \<times> bool) list) option" where
  "replay on syms lines =
     andthen (il_loop (bool_execute on) syms lines (None, False)
                \<lparr>bs_acc = True, bs_parens = [], bs_branches = [], bs_outputs = []\<rparr>) (\<lambda>(b, st).
       Some (if bs_parens st \<noteq> [] \<or> bs_branches st \<noteq> [] \<or> fst b \<noteq> None then Inl Ends_Inside
             else if bs_outputs st = [] then Inl Without_Output
             else Inr (bs_outputs st)))"

text \<open>The outputs a network energises: the last instruction of a path that conducts up to it.\<close>

definition energised :: "(ladder_instruction \<Rightarrow> bool) \<Rightarrow> ladder_series \<Rightarrow> ladder_instruction set" where
  "energised on s = {t. \<exists>p. p @ [t] \<in> set (paths s) \<and> list_all on p}"

section \<open>The replay refines the boolean one\<close>

lemma conducts_append [simp]: "conducts on (s @ t) \<longleftrightarrow> conducts on s \<and> conducts on t"
  by (induction s) auto

lemma snd_new_objects [simp]: "map snd (new_objects n es) = es"
  by (induction es arbitrary: n) auto

lemma conducts_leaves [simp]: "conducts on (map Leaf is) = list_all on is"
  by (induction "is") auto

definition holds :: "(ladder_instruction \<Rightarrow> bool) \<Rightarrow> il_object list \<Rightarrow> bool" where
  "holds on os = conducts on (map snd os)"

lemma holds_simps [simp]:
  "holds on [] = True" "holds on (as @ bs) \<longleftrightarrow> holds on as \<and> holds on bs"
  "holds on ((n, e) # os) \<longleftrightarrow> element_conducts on e \<and> holds on os"
  "holds on (new_objects n (map Leaf is)) = list_all on is"
  by (simp_all add: holds_def)

lemma or_element_conducts [simp]:
  "element_conducts on (or_element os es) \<longleftrightarrow> holds on os \<or> conducts on es"
  by (simp add: or_element_def holds_def)

definition output_of :: "(ladder_instruction \<Rightarrow> bool) \<Rightarrow> il_object list \<Rightarrow> ladder_instruction \<times> bool" where
  "output_of on os = (hd (leaf_of (snd (last os))), holds on (butlast os))"

definition bool_of :: "(ladder_instruction \<Rightarrow> bool) \<Rightarrow> il_state \<Rightarrow> bool_state" where
  "bool_of on st =
     \<lparr>bs_acc = holds on (il_acc st), bs_parens = map (\<lambda>(c, k). (holds on c, k)) (il_parens st),
      bs_branches = map (holds on) (il_branches st), bs_outputs = map (output_of on) (il_outputs st)\<rparr>"

lemma execute_refines: "bool_execute on a (bool_of on st) = map_sum id (bool_of on) (il_execute a st)"
  by (cases a) (auto simp: bool_of_def output_of_def holds_def [symmetric] split: list.split)

lemma loop_refines:
  "il_loop (bool_execute on) syms lines b (bool_of on st) =
     map_option (map_sum id (map_prod id (bool_of on))) (il_loop il_execute syms lines b st)"
proof (induction lines arbitrary: b st)
  case (Cons line lines)
  show ?case
  proof (cases "read_line syms b line")
    case (Some r)
    show ?thesis
    proof (cases r)
      case (Inr x)
      obtain b' a where "x = (b', a)" by (cases x)
      with Some Inr Cons show ?thesis by (cases "il_execute a st") (simp_all add: execute_refines)
    qed (use Some in simp)
  qed simp
qed simp

section \<open>Identity\<close>

text \<open>Every object of the state was allocated, and a number stands for one element.\<close>

definition objects :: "il_state \<Rightarrow> il_object set" where
  "objects st =
     set (il_acc st) \<union> (\<Union>x\<in>set (il_parens st). set (fst x)) \<union> (\<Union>os\<in>set (il_branches st). set os) \<union>
     (\<Union>os\<in>set (il_outputs st). set os)"

definition identified :: "il_object set \<Rightarrow> bool" where
  "identified os = inj_on fst os"

definition ends_in_leaf :: "il_object list \<Rightarrow> bool" where
  "ends_in_leaf os = (\<exists>c n i. os = c @ [(n, Leaf i)])"

definition il_ok :: "il_state \<Rightarrow> bool" where
  "il_ok st =
     ((\<forall>x\<in>objects st. fst x < il_next st) \<and> identified (objects st) \<and> (\<forall>os\<in>set (il_outputs st). ends_in_leaf os))"

lemma new_objects_fst: "x \<in> set (new_objects n es) \<Longrightarrow> n \<le> fst x \<and> fst x < n + length es"
  by (induction es arbitrary: n) fastforce+

lemma new_objects_inj: "inj_on fst (set (new_objects n es))"
proof (induction es arbitrary: n)
  case (Cons e es)
  then show ?case using new_objects_fst [of _ "Suc n" es] by (fastforce simp: inj_on_def)
qed simp

lemma identified_subset: "identified os \<Longrightarrow> ps \<subseteq> os \<Longrightarrow> identified ps"
  by (auto simp: identified_def intro: inj_on_subset)

lemma il_ok_step:
  assumes "il_ok st" "objects st' \<subseteq> objects st \<union> set (new_objects (il_next st) es)"
    "il_next st + length es \<le> il_next st'" "\<forall>os\<in>set (il_outputs st'). ends_in_leaf os"
  shows "il_ok st'"
proof -
  let ?new = "set (new_objects (il_next st) es)"
  have old: "\<forall>x\<in>objects st. fst x < il_next st" "inj_on fst (objects st)"
    using assms(1) by (simp_all add: il_ok_def identified_def)
  have bound: "\<forall>x\<in>objects st'. fst x < il_next st'"
    using assms(2,3) old(1) new_objects_fst by fastforce
  have apart: "fst ` objects st \<inter> fst ` ?new = {}" using old(1) new_objects_fst by fastforce
  have "inj_on fst (objects st \<union> ?new)"
    unfolding inj_on_Un using old(2) new_objects_inj apart by blast
  then have "identified (objects st')" unfolding identified_def using assms(2) by (rule inj_on_subset)
  with bound assms(4) show ?thesis by (simp add: il_ok_def)
qed

lemma one_object: "{(n, e)} = set (new_objects n [e])"
  by simp

lemma execute_ok:
  assumes "il_ok st" "il_execute a st = Inr st'"
  shows "il_ok st'"
proof -
  have outs: "\<forall>os\<in>set (il_outputs st). ends_in_leaf os" using assms(1) by (simp add: il_ok_def)
  define es where "es = (case a of
      Il_Output i \<Rightarrow> [Leaf i] | Il_Extend i \<Rightarrow> [Leaf i] | Il_Open base is \<Rightarrow> map Leaf is | Il_Load is \<Rightarrow> map Leaf is
    | Il_And is \<Rightarrow> map Leaf is | Il_Or is \<Rightarrow> [or_element (il_acc st) (map Leaf is)]
    | Il_Close \<Rightarrow> (case il_parens st of
        (c, k) # ps \<Rightarrow> if k = ''AND'' then [] else [or_element c (map snd (il_acc st))] | [] \<Rightarrow> []) | _ \<Rightarrow> [])"
  have "objects st' \<subseteq> objects st \<union> set (new_objects (il_next st) es) \<and> il_next st + length es \<le> il_next st' \<and>
      (\<forall>os\<in>set (il_outputs st'). ends_in_leaf os)"
    using assms(2) outs unfolding es_def
    by (cases a) (auto simp: objects_def ends_in_leaf_def split: list.splits if_splits)
  with il_ok_step [OF assms(1)] show ?thesis by blast
qed

lemma loop_ok: "il_ok st \<Longrightarrow> il_loop il_execute syms lines b st = Some (Inr (b', st')) \<Longrightarrow> il_ok st'"
proof (induction lines arbitrary: b st)
  case (Cons line lines)
  from Cons.prems(2) obtain b1 a st1 where "read_line syms b line = Some (Inr (b1, a))" "il_execute a st = Inr st1"
    "il_loop il_execute syms lines b1 st1 = Some (Inr (b', st'))"
    by (auto elim!: andthen_InrE simp: case_prod_beta split: prod.splits)
  with Cons.IH [of st1 b1] execute_ok [OF Cons.prems(1)] show ?case by blast
qed simp

section \<open>Factoring keeps the paths\<close>

definition all_paths :: "il_object list list \<Rightarrow> ladder_instruction list set" where
  "all_paths ps = (\<Union>p\<in>set ps. set (paths (map snd p)))"

lemma shared_prefix_paths:
  assumes "identified (\<Union>p\<in>set ps. set p)" "shared_prefix ps = (es, rest)"
  shows "all_paths ps = {p @ q |p q. p \<in> set (paths es) \<and> q \<in> all_paths rest} \<and>
    (\<Union>p\<in>set rest. set p) \<subseteq> (\<Union>p\<in>set ps. set p)"
  using assms
proof (induction ps arbitrary: es rest rule: shared_prefix.induct)
  case (1 ps)
  show ?case
  proof (cases "shares ps")
    case False
    with 1 show ?thesis by (subst (asm) shared_prefix.simps) auto
  next
    case True
    obtain fs where fs: "shared_prefix (map tl ps) = (fs, rest)" "es = snd (hd (hd ps)) # fs"
      using 1(3) True by (subst (asm) shared_prefix.simps) (auto split: prod.splits)
    have sub: "(\<Union>p\<in>set (map tl ps). set p) \<subseteq> (\<Union>p\<in>set ps. set p)" by auto (metis list.sel(2) list.set_sel(2))
    have ih: "all_paths (map tl ps) = {p @ q |p q. p \<in> set (paths fs) \<and> q \<in> all_paths rest}"
      "(\<Union>p\<in>set rest. set p) \<subseteq> (\<Union>p\<in>set (map tl ps). set p)"
      using 1(1) [OF True identified_subset [OF 1(2) sub] fs(1)] by blast+
    have first: "p \<noteq> [] \<and> hd p = hd (hd ps)" if p: "p \<in> set ps" for p
    proof -
      have "p \<noteq> []" "fst (hd p) = fst (hd (hd ps))" "hd ps \<noteq> []" "hd ps \<in> set ps"
        using True p by (cases ps; auto simp: shares_def list_all_iff)+
      then show ?thesis using 1(2) p unfolding identified_def inj_on_def by (metis UN_I list.set_sel(1))
    qed
    have "set (paths (map snd p)) = {a @ q |a q. a \<in> set (element_paths (snd (hd (hd ps)))) \<and> q \<in> set (paths (map snd (tl p)))}"
      if "p \<in> set ps" for p
      using first [OF that] by (cases p) auto
    then have "all_paths ps = {a @ q |a q. a \<in> set (element_paths (snd (hd (hd ps)))) \<and> q \<in> all_paths (map tl ps)}"
      unfolding all_paths_def by auto
    then have "x \<in> all_paths ps \<longleftrightarrow>
        (\<exists>a b q. x = a @ b @ q \<and> a \<in> set (element_paths (snd (hd (hd ps)))) \<and> b \<in> set (paths fs) \<and> q \<in> all_paths rest)" for x
      unfolding ih(1) by blast
    moreover have "x \<in> {p @ q |p q. p \<in> set (paths es) \<and> q \<in> all_paths rest} \<longleftrightarrow>
        (\<exists>a b q. x = (a @ b) @ q \<and> a \<in> set (element_paths (snd (hd (hd ps)))) \<and> b \<in> set (paths fs) \<and> q \<in> all_paths rest)" for x
      unfolding fs(2) mem_paths_Cons mem_Collect_eq by blast
    ultimately have "all_paths ps = {p @ q |p q. p \<in> set (paths es) \<and> q \<in> all_paths rest}" by auto
    with ih(2) sub show ?thesis by blast
  qed
qed

lemma group_subset: "g \<in> set (path_groups ps) \<Longrightarrow> set g \<subseteq> set ps"
proof
  fix p assume "g \<in> set (path_groups ps)" "p \<in> set g"
  then have "p \<in> set (concat (path_groups ps))" by auto
  then show "p \<in> set ps" using path_groups_ok [of ps] by (metis mset_eq_setD)
qed

lemma groups_cover: "(\<Union>g\<in>set (path_groups ps). set g) = set ps"
proof -
  have "set (concat (path_groups ps)) = set ps" using path_groups_ok [of ps] by (metis mset_eq_setD)
  then show ?thesis by simp
qed

lemma factor_paths:
  "identified (\<Union>p\<in>set ps. set p) \<Longrightarrow> set (paths (factor ps)) = all_paths ps"
proof (induction ps rule: factor.induct)
  case (1 ps)
  obtain es rest where rest: "shared_prefix ps = (es, rest)" by force
  note shared = shared_prefix_paths [OF 1(2) rest]
  show ?case
  proof (cases "length rest = 1")
    case True
    then obtain p where "rest = [p]" by (auto simp: length_Suc_conv)
    with rest shared show ?thesis by (subst factor.simps) (auto simp: all_paths_def paths_append)
  next
    case False
    have "set (paths (factor g)) = all_paths g" if g: "g \<in> set (path_groups rest)" for g
    proof (rule 1(1) [OF rest [symmetric] False g])
      show "identified (\<Union>p\<in>set g. set p)"
        by (rule identified_subset [OF 1(2)]) (use group_subset [OF g] shared in blast)
    qed
    then have "(\<Union>g\<in>set (path_groups rest). set (paths (factor g))) = all_paths rest"
      by (simp add: all_paths_def flip: groups_cover [of rest])
    then have "set (paths [Parallel (map factor (path_groups rest))]) = all_paths rest" by (simp add: paths_single)
    with rest shared False show ?thesis by (subst factor.simps) (simp add: paths_append)
  qed
qed

section \<open>The network\<close>

lemma initial_il_ok: "il_ok initial_il" "bool_of on initial_il = \<lparr>bs_acc = True, bs_parens = [], bs_branches = [], bs_outputs = []\<rparr>"
  by (simp_all add: il_ok_def initial_il_def objects_def identified_def bool_of_def)

lemma energised_outputs:
  assumes "set (paths s) = all_paths outs" "\<forall>os\<in>set outs. ends_in_leaf os"
  shows "energised on s = {t. (t, True) \<in> set (map (output_of on) outs)}"
proof -
  have "(\<exists>p. p @ [t] \<in> set (paths (map snd os)) \<and> list_all on p) \<longleftrightarrow> output_of on os = (t, True)"
    if "ends_in_leaf os" for os t
  proof -
    from that obtain c n i where os: "os = c @ [(n, Leaf i)]" by (auto simp: ends_in_leaf_def)
    have "p @ [t] \<in> set (paths (map snd os)) \<longleftrightarrow> p \<in> set (paths (map snd c)) \<and> t = i" for p
      by (auto simp: os paths_append)
    then show ?thesis using conducts_paths(2) [of on "map snd c"] by (auto simp: os output_of_def holds_def)
  qed
  then have each: "(\<exists>p. p @ [t] \<in> set (paths (map snd os)) \<and> list_all on p) \<longleftrightarrow> output_of on os = (t, True)"
    if "os \<in> set outs" for os t
    using assms(2) that by blast
  have "t \<in> energised on s \<longleftrightarrow> (\<exists>os\<in>set outs. \<exists>p. p @ [t] \<in> set (paths (map snd os)) \<and> list_all on p)" for t
    unfolding energised_def assms(1) all_paths_def by blast
  then show ?thesis using each by (auto simp: image_iff) metis+
qed

lemma andthen_returns:
  "m \<noteq> None \<Longrightarrow> (\<And>x. m = Some (Inr x) \<Longrightarrow> f x \<noteq> None) \<Longrightarrow> andthen m f \<noteq> None"
  by (auto simp: andthen_None_iff)

lemma logic_form_known: "map_of CONDITION_FORMS (fst (logic_form s)) \<noteq> None"
  by (simp add: logic_form_def CONDITION_FORMS_def split: list.split)

lemma logic_match_form:
  assumes "logic_match op = Some (base, form, paren)"
  shows "map_of CONDITION_FORMS form \<noteq> None"
proof -
  from assms obtain s where "form = fst (logic_form s)"
    by (auto simp: logic_match_def simp del: find.simps split: option.splits prod.splits if_splits) (metis fst_conv)+
  with logic_form_known show ?thesis by simp
qed

lemma operand_element_returns: "map_of CONDITION_FORMS form \<noteq> None \<Longrightarrow> operand_element syms b form operand \<noteq> None"
  using expression_instruction_returns [of syms "bracketed operand" "''Comparison''" None]
  by (auto simp: operand_element_def split: option.split prod.split bool.split)

lemma expression_instruction_returned: "expression_instruction syms s mnemonic position \<noteq> None"
  using expression_instruction_returns [of syms s mnemonic position] by auto

lemma logic_line_returns: "andthen (logic_action syms b l op arg) (no_block b) \<noteq> None"
proof -
  have form: "map_of CONDITION_FORMS ''N'' \<noteq> None" by (simp add: CONDITION_FORMS_def)
  have read: "map_of CONDITION_FORMS form \<noteq> None \<Longrightarrow> andthen (operand_element syms b form operand) (\<lambda>elements.
       if paren then (if base = ''LD'' then Some (Inl (Unsupported_Line l)) else Some (Inr (Il_Open base elements)))
       else if base = ''LD'' then Some (Inr (Il_Load elements))
       else if base = ''AND'' then Some (Inr (Il_And elements)) else Some (Inr (Il_Or elements))) \<noteq> None"
    for form operand paren base l
    by (rule andthen_returns [OF operand_element_returns]) auto
  have logic: "logic_action syms b l op arg \<noteq> None" for l op arg
    unfolding logic_action_def Let_def
    by (simp only: split: prod.split option.split if_split) (use read form logic_match_form in blast)
  show ?thesis by (rule andthen_returns [OF logic]) (simp add: no_block_def)
qed

lemma read_line_returns: "read_line syms b line \<noteq> None"
  unfolding read_line_def Let_def
  by (simp add: no_block_def [of _ Il_Skip] no_block_def [of _ Il_Close] no_block_def [of _ Il_Save]
      no_block_def [of _ "Il_Restore _"] no_block_def [of _ "Il_Extend _"] no_block_def [of _ "Il_Output _"]
      logic_line_returns expression_instruction_returned del: not_None_eq split: prod.split option.split)

lemma loop_returns: "il_loop execute syms lines b st \<noteq> None"
proof (induction lines arbitrary: b st)
  case (Cons line lines)
  show ?case unfolding il_loop.simps
  proof (rule andthen_returns [OF read_line_returns])
    fix x assume "read_line syms b line = Some (Inr x)"
    show "(case x of (b', action) \<Rightarrow> andthen (Some (execute action st)) (il_loop execute syms lines b')) \<noteq> None"
      unfolding prod.case_eq_if by (rule andthen_returns) (simp_all add: Cons del: not_None_eq)
  qed
qed simp

text \<open>C24. A rung written in Instruction List is read as a network that means the same. The reference
  replays the lines with a boolean accumulator, a stack for parentheses and one for branches, in
  any state of the instructions. The code's reading always returns; it fails with an error just
  when the boolean replay does, with the same one; otherwise the outputs its network energises are
  exactly the outputs the replay energises, although the network holds every shared condition
  once and in an order of its own.\<close>

theorem instruction_list_energises:
  "case build_network_from_instruction_list syms lines of
     None \<Rightarrow> False
   | Some (Inl e) \<Rightarrow> replay on syms lines = Some (Inl e)
   | Some (Inr s) \<Rightarrow> \<exists>outs. replay on syms lines = Some (Inr outs) \<and> outs \<noteq> [] \<and>
       energised on s = {t. (t, True) \<in> set outs}"
proof -
  note refines = loop_refines [of on syms lines "(None, False)" initial_il, unfolded initial_il_ok]
  obtain r where r: "il_loop il_execute syms lines (None, False) initial_il = Some r"
    using loop_returns by fast
  show ?thesis
  proof (cases r)
    case (Inl e)
    with r refines show ?thesis by (simp add: build_network_from_instruction_list_def replay_def)
  next
    case (Inr x)
    obtain b st where x: "x = (b, st)" by (cases x)
    have "il_ok st" using loop_ok [OF initial_il_ok(1)] r Inr x by blast
    then have outs: "identified (\<Union>p\<in>set (il_outputs st). set p)" "\<forall>os\<in>set (il_outputs st). ends_in_leaf os"
      by (auto simp: il_ok_def objects_def intro: identified_subset)
    from r refines Inr x energised_outputs [OF factor_paths [OF outs(1)] outs(2), of on] show ?thesis
      by (simp add: build_network_from_instruction_list_def replay_def bool_of_def)
  qed
qed

text \<open>
  Where the lines and their actions part: \<open>AND(N\<close> opens a parenthesis with a negated operand,
  but \<open>OR(N\<close>, which \<open>_LOGIC\<close> matches too, is read as \<open>OR(\<close> and the negation is lost.
\<close>

lemma or_negation_lost:
  "logic_action syms b line ''OR(N'' arg = logic_action syms b line ''OR('' arg"
  by (simp add: logic_action_def logic_match_def logic_form_def)

lemma and_negation_kept:
  "logic_action syms b line ''AND(N'' arg = logic_action syms b line ''AND('' (''N '' @ arg)"
  by (simp add: logic_action_def)

end
