(* ===== verification/Discovery_Acceptance.thy ===== *)
theory Discovery_Acceptance
  imports Py_Text "HOL-Library.List_Lexorder" "HOL-Library.Char_ord" "HOL-Library.Product_Lexorder" "HOL-Library.Multiset"
begin

text \<open>
  The operator's acceptance of discovery candidates: \<open>discovery/acceptance.py\<close>. Every
  \<open>AcceptancePolicyError\<close> is a constructor of \<open>acceptance_error\<close>. Of the three results the code
  takes its candidates from, the model keeps the fields this code reads. A \<open>datetime\<close> is an instant
  with its zone, none for a naive one; aware ones are compared by their instants.
\<close>

section \<open>Records\<close>

record stamp =
  instant :: int
  zone :: "string option"

definition naive :: "stamp \<Rightarrow> bool" where
  "naive t = (zone t = None)"

record evidence_reference =
  er_protocol :: string
  er_target :: string
  er_identifier :: string
  er_description :: string

datatype disposition = ACCEPT | REJECT | DEFER

datatype comparison_status = EXACT | PARTIAL | CONFLICT | INSUFFICIENT

record candidate_review =
  rv_candidate :: string
  rv_disposition :: disposition
  rv_by :: string
  rv_at :: stamp
  rv_rationale :: string
  rv_identity :: "string option"
  rv_override :: bool

record accepted_identity =
  ai_key :: string
  ai_candidates :: "string list"
  ai_targets :: "string list"
  ai_reviews :: "candidate_review list"
  ai_evidence :: "evidence_reference list"
  ai_overridden :: bool

record acceptance_result =
  ar_accepted :: "accepted_identity list"
  ar_rejected :: "string list"
  ar_deferred :: "string list"
  ar_unreviewed :: "string list"

datatype acceptance_error =
    Duplicate_Candidates
  | Unknown_Candidate string
  | Duplicate_Review string
  | Review_Naive
  | Reviewer_Blank
  | Reviewer_Untrimmed
  | Rationale_Blank
  | Rationale_Untrimmed
  | Identity_Missing
  | Identity_Untrimmed
  | Override_Required string
  | Identity_Not_Allowed
  | Override_Not_Allowed

section \<open>Candidates\<close>

text \<open>The candidates of the three results, with the fields read here.\<close>

record candidate =
  cd_key :: string
  cd_target :: string
  cd_evidence :: "evidence_reference list"

record configured_candidate = candidate +
  cc_status :: comparison_status

record candidate_descriptor =
  ds_key :: string
  ds_target :: string
  ds_evidence :: "evidence_reference list"
  ds_requires_override :: bool

definition describe :: "candidate \<Rightarrow> candidate_descriptor" where
  "describe c =
     \<lparr>ds_key = cd_key c, ds_target = cd_target c, ds_evidence = cd_evidence c, ds_requires_override = False\<rparr>"

definition describe_configured :: "configured_candidate \<Rightarrow> candidate_descriptor" where
  "describe_configured c =
     \<lparr>ds_key = cd_key c, ds_target = cd_target c, ds_evidence = cd_evidence c,
      ds_requires_override = (cc_status c \<in> {CONFLICT, INSUFFICIENT})\<rparr>"

text \<open>The catalog, a dictionary by key, is kept as the list of its values.\<close>

definition candidate_catalog ::
  "candidate list \<Rightarrow> candidate list \<Rightarrow> configured_candidate list \<Rightarrow> acceptance_error + candidate_descriptor list" where
  "candidate_catalog physical identities configured =
     (let descriptors = map describe physical @ map describe identities @ map describe_configured configured
      in if distinct (map ds_key descriptors) then Inr descriptors else Inl Duplicate_Candidates)"

section \<open>Reviews\<close>

definition validate_review :: "candidate_review \<Rightarrow> candidate_descriptor \<Rightarrow> acceptance_error option" where
  "validate_review r d =
     (if naive (rv_at r) then Some Review_Naive
      else if py_strip (rv_by r) = [] then Some Reviewer_Blank
      else if rv_by r \<noteq> py_strip (rv_by r) then Some Reviewer_Untrimmed
      else if py_strip (rv_rationale r) = [] then Some Rationale_Blank
      else if rv_rationale r \<noteq> py_strip (rv_rationale r) then Some Rationale_Untrimmed
      else if rv_disposition r = ACCEPT
      then (case rv_identity r of
              None \<Rightarrow> Some Identity_Missing
            | Some k \<Rightarrow>
                if k = [] then Some Identity_Missing
                else if k \<noteq> py_strip k then Some Identity_Untrimmed
                else if ds_requires_override d \<and> \<not> rv_override r then Some (Override_Required (rv_candidate r))
                else None)
      else if rv_identity r \<noteq> None then Some Identity_Not_Allowed
      else if rv_override r then Some Override_Not_Allowed
      else None)"

text \<open>The first loop: \<open>seen\<close> holds the candidates reviewed so far.\<close>

fun check_reviews ::
  "candidate_descriptor list \<Rightarrow> string set \<Rightarrow> candidate_review list \<Rightarrow> acceptance_error option" where
  "check_reviews catalog seen [] = None"
| "check_reviews catalog seen (r # rs) =
     (case dict_of ds_key catalog (rv_candidate r) of
        None \<Rightarrow> Some (Unknown_Candidate (rv_candidate r))
      | Some d \<Rightarrow>
          if rv_candidate r \<in> seen then Some (Duplicate_Review (rv_candidate r))
          else (case validate_review r d of
                  Some e \<Rightarrow> Some e
                | None \<Rightarrow> check_reviews catalog (insert (rv_candidate r) seen) rs))"

section \<open>Records of accepted identities\<close>

definition evidence_key :: "evidence_reference \<Rightarrow> string \<times> string \<times> string \<times> string" where
  "evidence_key e = (er_protocol e, er_target e, er_identifier e, er_description e)"

text \<open>The values of a dictionary by \<open>evidence_key\<close>, in the order of its keys.\<close>

definition ordered_evidence :: "evidence_reference list \<Rightarrow> evidence_reference list" where
  "ordered_evidence es = map (\<lambda>k. the (dict_of evidence_key es k)) (sort (remdups (map evidence_key es)))"

definition sorted_set :: "'a::linorder list \<Rightarrow> 'a list" where
  "sorted_set xs = sort (remdups xs)"

definition accepted_record :: "candidate_descriptor list \<Rightarrow> string \<Rightarrow> candidate_review list \<Rightarrow> accepted_identity" where
  "accepted_record catalog key reviews =
     (let ordered = sort_key rv_candidate reviews;
          descriptors = map (\<lambda>r. the (dict_of ds_key catalog (rv_candidate r))) ordered
      in \<lparr>ai_key = key, ai_candidates = map rv_candidate ordered, ai_targets = sorted_set (map ds_target descriptors),
          ai_reviews = ordered, ai_evidence = ordered_evidence (concat (map ds_evidence descriptors)),
          ai_overridden = list_ex rv_override ordered\<rparr>)"

text \<open>The durable keys in the order they are first accepted, with their reviews.\<close>

definition identity_of :: "candidate_review \<Rightarrow> string" where
  "identity_of r = the (rv_identity r)"

definition accepted_reviews :: "candidate_review list \<Rightarrow> (string \<times> candidate_review list) list" where
  "accepted_reviews reviews =
     (let accepted = filter (\<lambda>r. rv_disposition r = ACCEPT) reviews
      in map (\<lambda>k. (k, filter (\<lambda>r. identity_of r = k) accepted)) (first_keys identity_of accepted))"

definition apply_candidate_reviews ::
  "candidate list \<Rightarrow> candidate list \<Rightarrow> configured_candidate list \<Rightarrow> candidate_review list \<Rightarrow>
     acceptance_error + acceptance_result" where
  "apply_candidate_reviews physical identities configured reviews =
     (case candidate_catalog physical identities configured of
        Inl e \<Rightarrow> Inl e
      | Inr catalog \<Rightarrow>
          (case check_reviews catalog {} reviews of
             Some e \<Rightarrow> Inl e
           | None \<Rightarrow>
               Inr \<lparr>ar_accepted = sort_key ai_key (map (\<lambda>(k, rs). accepted_record catalog k rs) (accepted_reviews reviews)),
                    ar_rejected = sort (map rv_candidate (filter (\<lambda>r. rv_disposition r = REJECT) reviews)),
                    ar_deferred = sort (map rv_candidate (filter (\<lambda>r. rv_disposition r = DEFER) reviews)),
                    ar_unreviewed = sort (filter (\<lambda>k. k \<notin> rv_candidate ` set reviews) (map ds_key catalog))\<rparr>))"

section \<open>What an acceptance is\<close>

text \<open>A review is in order when its candidate is in the catalog and the policy has no objection.\<close>

definition review_ok :: "candidate_descriptor list \<Rightarrow> candidate_review \<Rightarrow> bool" where
  "review_ok catalog r =
     (case dict_of ds_key catalog (rv_candidate r) of None \<Rightarrow> False | Some d \<Rightarrow> validate_review r d = None)"

lemma check_reviews_None:
  "check_reviews catalog seen rs = None \<longleftrightarrow>
     (\<forall>r\<in>set rs. review_ok catalog r) \<and> distinct (map rv_candidate rs) \<and> seen \<inter> rv_candidate ` set rs = {}"
proof (induction rs arbitrary: seen)
  case (Cons r rs)
  then show ?case by (auto simp: review_ok_def split: option.split)
qed simp

lemma accepted_reviews_flat:
  "mset (concat (map snd (accepted_reviews rs))) = mset (filter (\<lambda>r. rv_disposition r = ACCEPT) rs)"
proof -
  have "mset (concat (map (\<lambda>k. filter (\<lambda>x. f x = k) xs) ks)) = filter_mset (\<lambda>x. f x \<in> set ks) (mset xs)"
    if "distinct ks" for f :: "'a \<Rightarrow> 'b" and xs ks
    using that
  proof (induction ks)
    case (Cons k ks)
    have "filter_mset (\<lambda>x. f x = k) (mset xs) + filter_mset (\<lambda>x. f x \<in> set ks) (mset xs) =
        filter_mset (\<lambda>x. f x = k \<or> f x \<in> set ks) (mset xs)"
      using Cons.prems by (induction xs) auto
    with Cons show ?case by simp
  qed simp
  note groups = this
  let ?a = "filter (\<lambda>r. rv_disposition r = ACCEPT) rs"
  have "mset (concat (map (\<lambda>k. filter (\<lambda>x. identity_of x = k) ?a) (first_keys identity_of ?a))) =
      filter_mset (\<lambda>x. identity_of x \<in> set (first_keys identity_of ?a)) (mset ?a)"
    by (rule groups) simp
  also have "\<dots> = mset ?a" unfolding filter_mset_eq_conv by simp
  finally show ?thesis by (simp only: accepted_reviews_def Let_def map_map comp_def snd_conv)
qed

lemma accepted_reviews_keys:
  "distinct (map fst (accepted_reviews rs))"
  "(k, qs) \<in> set (accepted_reviews rs) \<Longrightarrow> qs \<noteq> [] \<and> set qs \<subseteq> set rs \<and> (\<forall>r\<in>set qs. rv_disposition r = ACCEPT \<and> identity_of r = k)"
  by (auto simp: accepted_reviews_def Let_def comp_def filter_empty_conv)

lemma accepted_record_fields [simp]:
  "ai_key (accepted_record catalog k rs) = k"
  "ai_candidates (accepted_record catalog k rs) = map rv_candidate (sort_key rv_candidate rs)"
  "ai_reviews (accepted_record catalog k rs) = sort_key rv_candidate rs"
  by (simp_all add: accepted_record_def Let_def)

text \<open>An identity stands on the reviews that accepted its candidates for it.\<close>

definition accepted_for :: "candidate_review list \<Rightarrow> accepted_identity \<Rightarrow> bool" where
  "accepted_for reviews a =
     (ai_reviews a \<noteq> [] \<and> ai_candidates a = map rv_candidate (ai_reviews a) \<and>
      (\<forall>r\<in>set (ai_reviews a). r \<in> set reviews \<and> rv_disposition r = ACCEPT \<and> rv_identity r = Some (ai_key a) \<and>
         \<not> naive (rv_at r)))"

definition candidate_keys :: "candidate list \<Rightarrow> candidate list \<Rightarrow> configured_candidate list \<Rightarrow> string list" where
  "candidate_keys physical identities configured =
     map cd_key physical @ map cd_key identities @ map cd_key configured"

definition reviews_in_order ::
  "candidate list \<Rightarrow> candidate list \<Rightarrow> configured_candidate list \<Rightarrow> candidate_review list \<Rightarrow> bool" where
  "reviews_in_order physical identities configured reviews =
     (distinct (candidate_keys physical identities configured) \<and> distinct (map rv_candidate reviews) \<and>
      list_all (review_ok (map describe physical @ map describe identities @ map describe_configured configured)) reviews)"

lemma catalog_keys:
  "map ds_key (map describe physical @ map describe identities @ map describe_configured configured) =
     candidate_keys physical identities configured"
  by (simp add: candidate_keys_def describe_def describe_configured_def)

lemma review_ok_accept:
  "review_ok catalog r \<Longrightarrow> rv_disposition r = ACCEPT \<Longrightarrow> rv_identity r = Some (identity_of r) \<and> \<not> naive (rv_at r)"
  by (auto simp: review_ok_def validate_review_def identity_of_def split: option.splits if_splits)

lemma review_ok_known: "review_ok catalog r \<Longrightarrow> rv_candidate r \<in> set (map ds_key catalog)"
  using dict_of_None [of ds_key catalog "rv_candidate r"] by (auto simp: review_ok_def split: option.splits)

lemma disposition_split:
  "mset (map rv_candidate (filter (\<lambda>r. rv_disposition r = ACCEPT) rs)) + mset (map rv_candidate (filter (\<lambda>r. rv_disposition r = REJECT) rs)) +
     mset (map rv_candidate (filter (\<lambda>r. rv_disposition r = DEFER) rs)) = mset (map rv_candidate rs)"
proof (induction rs)
  case (Cons r rs)
  then show ?case by (cases "rv_disposition r") (auto simp: ac_simps)
qed simp

lemma mset_concat_sorted: "mset (concat (map f (sort_key key xs))) = mset (concat (map f xs))"
  by (simp add: mset_concat flip: sum_mset_sum_list)

lemma flat_candidates:
  "mset (concat (map ai_candidates (map (\<lambda>(k, rs). accepted_record catalog k rs) groups))) =
     mset (map rv_candidate (concat (map snd groups)))"
  by (induction groups) auto

lemma distinct_split:
  assumes "distinct xs" "distinct ys" "set ys \<subseteq> set xs"
  shows "mset ys + mset (filter (\<lambda>x. x \<notin> set ys) xs) = mset xs"
proof -
  have "mset ys = mset (filter (\<lambda>x. x \<in> set ys) xs)"
    by (rule set_eq_iff_mset_eq_distinct [THEN iffD1]) (use assms in auto)
  then show ?thesis by (simp add: mset_filter)
qed

lemma distinct_map_sorted [simp]: "distinct (map f (sort_key key xs)) = distinct (map f xs)"
  by (metis mset_eq_imp_distinct_iff mset_map mset_sort)

lemma record_keys: "map ai_key (map (\<lambda>(k, rs). accepted_record catalog k rs) groups) = map fst groups"
  by (induction groups) auto

lemma reviewed_or_not:
  assumes "distinct (map ds_key c)" "distinct (map rv_candidate rs)" "\<forall>r\<in>set rs. review_ok c r"
  shows "mset (map rv_candidate rs) + mset (filter (\<lambda>k. k \<notin> rv_candidate ` set rs) (map ds_key c)) = mset (map ds_key c)"
  using distinct_split [OF assms(1,2)] review_ok_known assms(3) by auto

lemma record_accepted_for:
  assumes "\<forall>r\<in>set reviews. review_ok catalog r" "(k, rs) \<in> set (accepted_reviews reviews)"
  shows "accepted_for reviews (accepted_record catalog k rs)"
proof -
  have "rs \<noteq> []" "set rs \<subseteq> set reviews" "\<forall>r\<in>set rs. rv_disposition r = ACCEPT \<and> identity_of r = k"
    using accepted_reviews_keys(2) [OF assms(2)] by blast+
  moreover from this have "rv_identity r = Some k \<and> \<not> naive (rv_at r)" if "r \<in> set rs" for r
    using review_ok_accept [of catalog r] assms(1) that by auto
  moreover have "sort_key rv_candidate rs \<noteq> []" using \<open>rs \<noteq> []\<close> by (metis length_0_conv length_sort)
  ultimately show ?thesis by (auto simp: accepted_for_def)
qed

lemma acceptance_result:
  "case apply_candidate_reviews physical identities configured reviews of
     Inl e \<Rightarrow> \<not> reviews_in_order physical identities configured reviews
   | Inr res \<Rightarrow> reviews_in_order physical identities configured reviews \<and>
       mset (concat (map ai_candidates (ar_accepted res))) + mset (ar_rejected res) + mset (ar_deferred res) +
         mset (ar_unreviewed res) = mset (candidate_keys physical identities configured) \<and>
       distinct (map ai_key (ar_accepted res)) \<and> list_all (accepted_for reviews) (ar_accepted res)"
proof -
  let ?c = "map describe physical @ map describe identities @ map describe_configured configured"
  show ?thesis
  proof (cases "reviews_in_order physical identities configured reviews")
    case False
    then show ?thesis
      using catalog_keys [of physical identities configured] check_reviews_None [of ?c "{}" reviews]
      by (auto simp: apply_candidate_reviews_def candidate_catalog_def Let_def reviews_in_order_def list_all_iff
          split: sum.split option.split)
  next
    case True
    then have ok: "distinct (map ds_key ?c)" "distinct (map rv_candidate reviews)" "\<forall>r\<in>set reviews. review_ok ?c r"
      unfolding reviews_in_order_def catalog_keys list_all_iff by blast+
    let ?res = "\<lparr>ar_accepted = sort_key ai_key (map (\<lambda>(k, rs). accepted_record ?c k rs) (accepted_reviews reviews)),
        ar_rejected = sort (map rv_candidate (filter (\<lambda>r. rv_disposition r = REJECT) reviews)),
        ar_deferred = sort (map rv_candidate (filter (\<lambda>r. rv_disposition r = DEFER) reviews)),
        ar_unreviewed = sort (filter (\<lambda>k. k \<notin> rv_candidate ` set reviews) (map ds_key ?c))\<rparr>"
    have res: "apply_candidate_reviews physical identities configured reviews = Inr ?res"
      using ok check_reviews_None [of ?c "{}" reviews]
      by (simp add: apply_candidate_reviews_def candidate_catalog_def Let_def del: map_append)
    have "mset (concat (map ai_candidates (ar_accepted ?res))) =
        mset (map rv_candidate (concat (map snd (accepted_reviews reviews))))"
      by (simp only: mset_concat_sorted flat_candidates acceptance_result.simps)
    also have "\<dots> = mset (map rv_candidate (filter (\<lambda>r. rv_disposition r = ACCEPT) reviews))"
      using accepted_reviews_flat [of reviews] by (metis mset_map)
    finally have "mset (concat (map ai_candidates (ar_accepted ?res))) + mset (ar_rejected ?res) + mset (ar_deferred ?res) +
        mset (ar_unreviewed ?res) = mset (map rv_candidate reviews) + mset (filter (\<lambda>k. k \<notin> rv_candidate ` set reviews) (map ds_key ?c))"
      using disposition_split [of reviews] by (simp only: acceptance_result.simps mset_sort)
    also have "\<dots> = mset (map ds_key ?c)"
      by (rule reviewed_or_not [OF ok])
    finally have "mset (concat (map ai_candidates (ar_accepted ?res))) + mset (ar_rejected ?res) + mset (ar_deferred ?res) +
        mset (ar_unreviewed ?res) = mset (candidate_keys physical identities configured)"
      unfolding catalog_keys .
    moreover have "distinct (map ai_key (ar_accepted ?res))"
      using accepted_reviews_keys(1) [of reviews] by (simp only: acceptance_result.simps distinct_map_sorted record_keys)
    moreover have "list_all (accepted_for reviews) (ar_accepted ?res)"
      using record_accepted_for [OF ok(3)] by (auto simp: list_all_iff)
    ultimately show ?thesis using True unfolding res by simp
  qed
qed

lemma acceptance_result_ok:
  assumes "apply_candidate_reviews physical identities configured reviews = Inr res"
  shows "distinct (map ai_key (ar_accepted res))" "list_all (accepted_for reviews) (ar_accepted res)"
  using acceptance_result [of physical identities configured reviews] assms by simp_all

text \<open>C30. Accepting candidates succeeds exactly when the candidate keys are unique, no candidate is
  reviewed twice, and every review names a known candidate and obeys the policy. Then every candidate
  is in exactly one place of the result, once: in the record of one accepted identity, or among
  the rejected, the deferred or the unreviewed keys. The accepted identities have different keys,
  and each rests on one or more reviews that accepted their candidates for it, with a zoned time.\<close>

theorem acceptance_partition:
  "case apply_candidate_reviews physical identities configured reviews of
     Inl e \<Rightarrow> \<not> reviews_in_order physical identities configured reviews
   | Inr res \<Rightarrow> reviews_in_order physical identities configured reviews \<and>
       mset (concat (map ai_candidates (ar_accepted res))) + mset (ar_rejected res) + mset (ar_deferred res) +
         mset (ar_unreviewed res) = mset (candidate_keys physical identities configured) \<and>
       distinct (map ai_key (ar_accepted res)) \<and> list_all (accepted_for reviews) (ar_accepted res)"
  by (rule acceptance_result)

end
