(* ===== verification/Identity_Lifecycle.thy ===== *)
theory Identity_Lifecycle imports Discovery_Acceptance begin

text \<open>
  The lifecycle ledger of accepted identities: \<open>discovery/identity_lifecycle.py\<close>. Every
  \<open>IdentityLifecycleError\<close> is a constructor of \<open>lifecycle_error\<close>; \<open>No_Time\<close> is the
  \<open>ValueError\<close> of a maximum over nothing. The observation times in a ledger are zoned, as are all
  the code puts there; comparing a naive one, which only a hand-made ledger holds, is not modelled.
\<close>

section \<open>Records\<close>

datatype transition = SUPERSEDE | MERGE | SPLIT

datatype event_type = CREATED | OBSERVED | SUPERSEDED | MERGED | SPLITTED

fun event_value :: "event_type \<Rightarrow> string" where
  "event_value CREATED = ''created''"
| "event_value OBSERVED = ''observed''"
| "event_value SUPERSEDED = ''superseded''"
| "event_value MERGED = ''merged''"
| "event_value SPLITTED = ''split''"

record directive =
  dr_transition :: transition
  dr_sources :: "string list"
  dr_targets :: "string list"
  dr_by :: string
  dr_at :: stamp
  dr_rationale :: string

record generation =
  gn_key :: string
  gn_number :: nat
  gn_at :: stamp
  gn_candidates :: "string list"
  gn_targets :: "string list"
  gn_reviews :: "candidate_review list"
  gn_evidence :: "evidence_reference list"
  gn_overridden :: bool

record lifecycle_event =
  ev_type :: event_type
  ev_at :: stamp
  ev_sources :: "string list"
  ev_targets :: "string list"
  ev_actor :: string
  ev_rationale :: string

record lifecycle =
  lc_generations :: "generation list"
  lc_events :: "lifecycle_event list"
  lc_inactive :: "string list"

definition initial_lifecycle :: lifecycle where
  "initial_lifecycle = \<lparr>lc_generations = [], lc_events = [], lc_inactive = []\<rparr>"

definition active_keys :: "lifecycle \<Rightarrow> string list" where
  "active_keys st = sorted_set (filter (\<lambda>k. k \<notin> set (lc_inactive st)) (map gn_key (lc_generations st)))"

datatype lifecycle_error =
    No_Review string
  | Review_Not_Zoned
  | Identities_Not_Unique
  | Inactive_Observed string
  | Directive_Not_Zoned
  | Text_Blank string
  | Text_Untrimmed string
  | Sources_Not_Unique
  | Targets_Not_Unique
  | Overlap
  | Too_Few_Sources
  | Too_Few_Targets
  | Supersede_Shape
  | Merge_Shape
  | Split_Shape
  | Sources_Not_Active "string list"
  | Transitioned_Twice "string list"
  | Targets_Not_Accepted "string list"
  | Predates_Source
  | Predates_Target
  | No_Time

section \<open>Validation\<close>

text \<open>\<open>max\<close> of the times: the first of the latest.\<close>

definition latest :: "stamp list \<Rightarrow> lifecycle_error + stamp" where
  "latest ts =
     (case ts of
        [] \<Rightarrow> Inl No_Time
      | t # rest \<Rightarrow> Inr (foldl (\<lambda>m s. if instant m < instant s then s else m) t rest))"

definition review_time :: "accepted_identity \<Rightarrow> lifecycle_error + stamp" where
  "review_time a =
     (let times = map rv_at (ai_reviews a)
      in if times = [] then Inl (No_Review (ai_key a))
         else if list_ex naive times then Inl Review_Not_Zoned
         else latest times)"

definition generation_of :: "accepted_identity \<Rightarrow> nat \<Rightarrow> stamp \<Rightarrow> generation" where
  "generation_of a n t =
     \<lparr>gn_key = ai_key a, gn_number = n, gn_at = t, gn_candidates = ai_candidates a, gn_targets = ai_targets a,
      gn_reviews = ai_reviews a, gn_evidence = ai_evidence a, gn_overridden = ai_overridden a\<rparr>"

definition validate_text :: "string \<Rightarrow> string \<Rightarrow> lifecycle_error option" where
  "validate_text s field =
     (if py_strip s = [] then Some (Text_Blank field)
      else if s \<noteq> py_strip s then Some (Text_Untrimmed field) else None)"

fun expected :: "transition \<Rightarrow> nat \<times> nat" where
  "expected SUPERSEDE = (1, 1)"
| "expected MERGE = (2, 1)"
| "expected SPLIT = (1, 2)"

definition validate_directive :: "directive \<Rightarrow> lifecycle_error option" where
  "validate_directive d =
     (let by_error = validate_text (dr_by d) ''directed_by''; why_error = validate_text (dr_rationale d) ''rationale''
      in if naive (dr_at d) then Some Directive_Not_Zoned
         else if by_error \<noteq> None then by_error
         else if why_error \<noteq> None then why_error
         else if \<not> distinct (dr_sources d) then Some Sources_Not_Unique
         else if \<not> distinct (dr_targets d) then Some Targets_Not_Unique
         else if set (dr_sources d) \<inter> set (dr_targets d) \<noteq> {} then Some Overlap
         else if length (dr_sources d) < fst (expected (dr_transition d)) then Some Too_Few_Sources
         else if length (dr_targets d) < snd (expected (dr_transition d)) then Some Too_Few_Targets
         else if dr_transition d = SUPERSEDE \<and> (length (dr_sources d) \<noteq> 1 \<or> length (dr_targets d) \<noteq> 1)
         then Some Supersede_Shape
         else if dr_transition d = MERGE \<and> length (dr_targets d) \<noteq> 1 then Some Merge_Shape
         else if dr_transition d = SPLIT \<and> length (dr_sources d) \<noteq> 1 then Some Split_Shape
         else None)"

section \<open>Observations\<close>

text \<open>\<open>known_generations\<close>: the highest number of every identity observed so far.\<close>

definition known_generations :: "generation list \<Rightarrow> string \<Rightarrow> nat option" where
  "known_generations gs =
     foldl (\<lambda>known g. known(gn_key g \<mapsto> max (case known (gn_key g) of None \<Rightarrow> 0 | Some n \<Rightarrow> n) (gn_number g)))
       Map.empty gs"

definition observation_event :: "accepted_identity \<Rightarrow> nat \<Rightarrow> stamp \<Rightarrow> lifecycle_event" where
  "observation_event a n t =
     \<lparr>ev_type = (if n = 1 then CREATED else OBSERVED), ev_at = t, ev_sources = [], ev_targets = [ai_key a],
      ev_actor = join '', '' (sorted_set (map rv_by (ai_reviews a))),
      ev_rationale = (if n = 1 then ''Durable staging identity created from accepted candidates.''
                      else ''Durable staging identity observed in a later acceptance.'')\<rparr>"

fun observe ::
  "string set \<Rightarrow> accepted_identity list \<Rightarrow> (string \<Rightarrow> nat option) \<Rightarrow> generation list \<times> lifecycle_event list \<Rightarrow>
     lifecycle_error + generation list \<times> lifecycle_event list" where
  "observe inactive [] known (gs, es) = Inr (gs, es)"
| "observe inactive (a # rest) known (gs, es) =
     (if ai_key a \<in> inactive then Inl (Inactive_Observed (ai_key a))
      else let n = (case known (ai_key a) of None \<Rightarrow> 0 | Some m \<Rightarrow> m) + 1
           in case review_time a of
                Inl e \<Rightarrow> Inl e
              | Inr t \<Rightarrow> observe inactive rest (known(ai_key a \<mapsto> n))
                  (gs @ [generation_of a n t], es @ [observation_event a n t]))"

section \<open>Transitions\<close>

record transition_state =
  ts_events :: "lifecycle_event list"
  ts_inactive :: "string set"
  ts_active :: "string set"
  ts_transitioned :: "string set"

fun transition_event_type :: "transition \<Rightarrow> event_type" where
  "transition_event_type SUPERSEDE = SUPERSEDED"
| "transition_event_type MERGE = MERGED"
| "transition_event_type SPLIT = SPLITTED"

definition transition_event :: "directive \<Rightarrow> lifecycle_event" where
  "transition_event d =
     \<lparr>ev_type = transition_event_type (dr_transition d), ev_at = dr_at d, ev_sources = sort (dr_sources d),
      ev_targets = sort (dr_targets d), ev_actor = dr_by d, ev_rationale = dr_rationale d\<rparr>"

text \<open>The review times of the targets, in the order the maximum reads them.\<close>

fun target_times :: "accepted_identity list \<Rightarrow> string list \<Rightarrow> lifecycle_error + stamp list" where
  "target_times accepted [] = Inr []"
| "target_times accepted (k # ks) =
     (case review_time (the (dict_of ai_key accepted k)) of
        Inl e \<Rightarrow> Inl e
      | Inr t \<Rightarrow> map_sum id (\<lambda>ts. t # ts) (target_times accepted ks))"

definition source_times :: "generation list \<Rightarrow> string list \<Rightarrow> stamp list" where
  "source_times gs keys = map gn_at (filter (\<lambda>g. gn_key g \<in> set keys) gs)"

definition missing :: "string list \<Rightarrow> string set \<Rightarrow> string list" where
  "missing keys present = sorted_set (filter (\<lambda>k. k \<notin> present) keys)"

definition check_times ::
  "accepted_identity list \<Rightarrow> generation list \<Rightarrow> directive \<Rightarrow> lifecycle_error option" where
  "check_times accepted gs d =
     (case latest (source_times gs (dr_sources d)) of
        Inl e \<Rightarrow> Some e
      | Inr source_time \<Rightarrow>
          (case target_times accepted (dr_targets d) of
             Inl e \<Rightarrow> Some e
           | Inr ts \<Rightarrow>
               (case latest ts of
                  Inl e \<Rightarrow> Some e
                | Inr target_time \<Rightarrow>
                    if instant (dr_at d) < instant source_time then Some Predates_Source
                    else if instant (dr_at d) < instant target_time then Some Predates_Target
                    else None)))"

definition check_directive ::
  "accepted_identity list \<Rightarrow> generation list \<Rightarrow> transition_state \<Rightarrow> directive \<Rightarrow> lifecycle_error option" where
  "check_directive accepted gs st d =
     (case validate_directive d of
        Some e \<Rightarrow> Some e
      | None \<Rightarrow>
          if missing (dr_sources d) (ts_active st) \<noteq> []
          then Some (Sources_Not_Active (missing (dr_sources d) (ts_active st)))
          else if set (dr_sources d) \<inter> ts_transitioned st \<noteq> {}
          then Some (Transitioned_Twice (sorted_set (filter (\<lambda>k. k \<in> ts_transitioned st) (dr_sources d))))
          else if missing (dr_targets d) (ai_key ` set accepted) \<noteq> []
          then Some (Targets_Not_Accepted (missing (dr_targets d) (ai_key ` set accepted)))
          else check_times accepted gs d)"

definition apply_directive :: "directive \<Rightarrow> transition_state \<Rightarrow> transition_state" where
  "apply_directive d st =
     \<lparr>ts_events = ts_events st @ [transition_event d], ts_inactive = ts_inactive st \<union> set (dr_sources d),
      ts_active = ts_active st - set (dr_sources d) \<union> set (dr_targets d),
      ts_transitioned = ts_transitioned st \<union> set (dr_sources d)\<rparr>"

fun apply_directives ::
  "accepted_identity list \<Rightarrow> generation list \<Rightarrow> directive list \<Rightarrow> transition_state \<Rightarrow> lifecycle_error + transition_state" where
  "apply_directives accepted gs [] st = Inr st"
| "apply_directives accepted gs (d # ds) st =
     (case check_directive accepted gs st d of
        Some e \<Rightarrow> Inl e
      | None \<Rightarrow> apply_directives accepted gs ds (apply_directive d st))"

section \<open>The ledger\<close>

definition generation_key :: "generation \<Rightarrow> string \<times> nat" where
  "generation_key g = (gn_key g, gn_number g)"

definition event_key :: "lifecycle_event \<Rightarrow> int \<times> string \<times> string list \<times> string list" where
  "event_key e = (instant (ev_at e), event_value (ev_type e), ev_sources e, ev_targets e)"

definition advance_identity_lifecycle ::
  "lifecycle \<Rightarrow> accepted_identity list \<Rightarrow> directive list \<Rightarrow> lifecycle_error + lifecycle" where
  "advance_identity_lifecycle st accepted directives =
     (if \<not> distinct (map ai_key accepted) then Inl Identities_Not_Unique
      else case observe (set (lc_inactive st)) (sort_key ai_key accepted) (known_generations (lc_generations st))
                  (lc_generations st, lc_events st) of
             Inl e \<Rightarrow> Inl e
           | Inr (gs, es) \<Rightarrow>
               (case apply_directives accepted gs directives
                       \<lparr>ts_events = es, ts_inactive = set (lc_inactive st),
                        ts_active = gn_key ` set gs - set (lc_inactive st), ts_transitioned = {}\<rparr> of
                  Inl e \<Rightarrow> Inl e
                | Inr ts \<Rightarrow>
                    Inr \<lparr>lc_generations = sort_key generation_key gs, lc_events = sort_key event_key (ts_events ts),
                         lc_inactive = sorted_list_of_set (ts_inactive ts)\<rparr>))"

text \<open>The ledgers there can be: any sequence of acceptances and directives that succeed.\<close>

inductive reachable_ledger :: "lifecycle \<Rightarrow> bool" where
  empty_ledger: "reachable_ledger initial_lifecycle"
| advanced: "reachable_ledger st \<Longrightarrow> advance_identity_lifecycle st accepted directives = Inr st' \<Longrightarrow> reachable_ledger st'"

end
