(* ===== verification/Identity_Lifecycle_Facts.thy ===== *)
theory Identity_Lifecycle_Facts imports Identity_Lifecycle begin

text \<open>
  The ledger's promises: generations are numbered without gaps, every identity is created
  once and retired at most once, nothing is removed or renumbered, and a retired identity stays as
  it is. The steps of the code are shown to keep them on the unsorted lists; sorting changes none.
\<close>

section \<open>Histories\<close>

definition history :: "string \<Rightarrow> generation list \<Rightarrow> generation list" where
  "history k gs = filter (\<lambda>g. gn_key g = k) gs"

lemma history_simps [simp]:
  "history k [] = []" "history k (gs @ hs) = history k gs @ history k hs"
  "history k (g # gs) = (if gn_key g = k then g # history k gs else history k gs)"
  by (simp_all add: history_def)

lemma history_empty_iff: "history k gs = [] \<longleftrightarrow> k \<notin> gn_key ` set gs"
  by (auto simp: history_def filter_empty_conv)

definition numbered :: "generation list \<Rightarrow> bool" where
  "numbered gs = (\<forall>k. map gn_number (history k gs) = [1..<Suc (length (history k gs))])"

lemma numbered_snoc:
  "numbered (gs @ [g]) \<longleftrightarrow> numbered gs \<and> gn_number g = Suc (length (history (gn_key g) gs))"
proof
  assume *: "numbered (gs @ [g])"
  then have g: "map gn_number (history (gn_key g) gs) @ [gn_number g] = [1..<Suc (Suc (length (history (gn_key g) gs)))]"
    unfolding numbered_def by (auto dest: spec [of _ "gn_key g"])
  then have number: "gn_number g = Suc (length (history (gn_key g) gs))" and
    rest: "map gn_number (history (gn_key g) gs) = [1..<Suc (length (history (gn_key g) gs))]"
    by simp_all
  have "map gn_number (history k gs) = [1..<Suc (length (history k gs))]" for k
    using * rest unfolding numbered_def by (cases "k = gn_key g") (auto dest: spec [of _ k])
  with number show "numbered gs \<and> gn_number g = Suc (length (history (gn_key g) gs))" by (simp add: numbered_def)
qed (simp add: numbered_def)

definition numbers :: "generation list \<Rightarrow> string \<Rightarrow> nat option" where
  "numbers gs k = (if history k gs = [] then None else Some (length (history k gs)))"

lemma known_snoc:
  "known_generations (gs @ [g]) = (known_generations gs)(gn_key g \<mapsto>
     max (case known_generations gs (gn_key g) of None \<Rightarrow> 0 | Some n \<Rightarrow> n) (gn_number g))"
  by (simp add: known_generations_def)

lemma number_before [simp]:
  "(case numbers gs k of None \<Rightarrow> 0 | Some n \<Rightarrow> n) = length (history k gs)"
  by (simp add: numbers_def)

lemma numbers_snoc: "numbers (gs @ [g]) = (numbers gs)(gn_key g \<mapsto> Suc (length (history (gn_key g) gs)))"
  by (auto simp: numbers_def fun_eq_iff)

lemma known_numbers: "numbered gs \<Longrightarrow> known_generations gs = numbers gs"
proof (induction gs rule: rev_induct)
  case (snoc g gs)
  then show ?case by (simp add: numbered_snoc known_snoc numbers_snoc)
qed (simp add: known_generations_def numbers_def fun_eq_iff)

section \<open>Events\<close>

definition events_of :: "event_type \<Rightarrow> string \<Rightarrow> lifecycle_event list \<Rightarrow> nat" where
  "events_of t k es = length (filter (\<lambda>e. ev_type e = t \<and> ev_targets e = [k]) es)"

definition retirements :: "string \<Rightarrow> lifecycle_event list \<Rightarrow> nat" where
  "retirements k es = length (filter (\<lambda>e. k \<in> set (ev_sources e)) es)"

lemma events_simps [simp]:
  "events_of t k (es @ fs) = events_of t k es + events_of t k fs" "events_of t k [] = 0"
  "retirements k (es @ fs) = retirements k es + retirements k fs" "retirements k [] = 0"
  "events_of t k [e] = (if ev_type e = t \<and> ev_targets e = [k] then 1 else 0)"
  "retirements k [e] = (if k \<in> set (ev_sources e) then 1 else 0)"
  by (simp_all add: events_of_def retirements_def)

text \<open>An identity observed \<open>n\<close> times has one creation and \<open>n - 1\<close> later observations on record.\<close>

definition recorded :: "generation list \<Rightarrow> lifecycle_event list \<Rightarrow> bool" where
  "recorded gs es =
     (\<forall>k. events_of CREATED k es = (if history k gs = [] then 0 else 1) \<and>
          events_of OBSERVED k es = length (history k gs) - 1)"

text \<open>A retired identity is the source of one transition, any other of none.\<close>

definition retired :: "lifecycle_event list \<Rightarrow> string set \<Rightarrow> bool" where
  "retired es inactive = (\<forall>k. retirements k es = (if k \<in> inactive then 1 else 0))"

definition zoned :: "generation list \<Rightarrow> lifecycle_event list \<Rightarrow> bool" where
  "zoned gs es = ((\<forall>g\<in>set gs. \<not> naive (gn_at g)) \<and> (\<forall>e\<in>set es. \<not> naive (ev_at e)))"

section \<open>Observations\<close>

lemma latest_in: "latest ts = Inr t \<Longrightarrow> t \<in> set ts"
proof -
  have "foldl (\<lambda>m s. if instant m < instant s then s else m) t rest \<in> set (t # rest)" for t :: stamp and rest
    by (induction rest arbitrary: t) auto
  then show "latest ts = Inr t \<Longrightarrow> t \<in> set ts" by (auto simp: latest_def split: list.splits)
qed

lemma latest_bound:
  assumes "latest ts = Inr t" "s \<in> set ts"
  shows "instant s \<le> instant t"
proof -
  have "instant u \<le> instant (foldl (\<lambda>m s. if instant m < instant s then s else m) v rest)"
    if "u \<in> set (v # rest)" for u v :: stamp and rest
    using that
  proof (induction rest arbitrary: u v)
    case (Cons w rest)
    let ?m = "if instant v < instant w then w else v"
    have "\<exists>x\<in>set (?m # rest). instant u \<le> instant x" using Cons.prems by auto
    then obtain x where "x \<in> set (?m # rest)" "instant u \<le> instant x" by blast
    with Cons.IH [of x ?m] show ?case by simp
  qed simp
  then show ?thesis using assms by (auto simp: latest_def split: list.splits)
qed

lemma latest_total: "ts \<noteq> [] \<Longrightarrow> \<exists>t. latest ts = Inr t"
  by (cases ts) (simp_all add: latest_def)

lemma review_time_zoned: "review_time a = Inr t \<Longrightarrow> \<not> naive t"
  using latest_in by (fastforce simp: review_time_def Let_def list_ex_iff split: if_splits)

text \<open>What the observations of a capture add.\<close>

lemma observe_ok:
  assumes "observe inactive as (numbers gs) (gs, es) = Inr (gs', es')" "numbered gs" "recorded gs es" "zoned gs es"
  shows "numbered gs' \<and> recorded gs' es' \<and> zoned gs' es' \<and>
    (\<exists>new events. gs' = gs @ new \<and> es' = es @ events \<and> map gn_key new = map ai_key as \<and>
       (\<forall>e\<in>set events. ev_sources e = [])) \<and> ai_key ` set as \<inter> inactive = {}"
  using assms
proof (induction "as" arbitrary: gs es)
  case (Cons a rest)
  let ?n = "Suc (length (history (ai_key a) gs))"
  from Cons.prems(1) obtain t where t: "review_time a = Inr t" "ai_key a \<notin> inactive"
    "observe inactive rest ((numbers gs)(ai_key a \<mapsto> ?n)) (gs @ [generation_of a ?n t], es @ [observation_event a ?n t]) = Inr (gs', es')"
    by (auto simp: Let_def simp del: fun_upd_apply split: if_splits sum.splits)
  let ?g = "generation_of a ?n t" and ?e = "observation_event a ?n t"
  have g: "gn_key ?g = ai_key a" "gn_number ?g = ?n" "gn_at ?g = t" by (simp_all add: generation_of_def)
  have e: "ev_sources ?e = []" "ev_targets ?e = [ai_key a]" "ev_at ?e = t"
    "ev_type ?e = (if history (ai_key a) gs = [] then CREATED else OBSERVED)"
    by (simp_all add: observation_event_def)
  have "numbers (gs @ [?g]) = (numbers gs)(ai_key a \<mapsto> ?n)" by (simp add: numbers_snoc g)
  with t(3) have rest: "observe inactive rest (numbers (gs @ [?g])) (gs @ [?g], es @ [?e]) = Inr (gs', es')" by simp
  have n: "numbered (gs @ [?g])" using Cons.prems(2) by (simp add: numbered_snoc g)
  have r: "recorded (gs @ [?g]) (es @ [?e])"
    using Cons.prems(3) unfolding recorded_def by (auto simp: g e Suc_diff_Suc Suc_le_eq)
  have z: "zoned (gs @ [?g]) (es @ [?e])"
    using Cons.prems(4) review_time_zoned [OF t(1)] by (auto simp: zoned_def g e)
  from Cons.IH [OF rest n r z] obtain new events where ih: "numbered gs'" "recorded gs' es'" "zoned gs' es'" "gs' = (gs @ [?g]) @ new"
    "es' = (es @ [?e]) @ events" "map gn_key new = map ai_key rest" "\<forall>e\<in>set events. ev_sources e = []"
    "ai_key ` set rest \<inter> inactive = {}"
    by (elim conjE exE) (rule that, assumption+)
  have "gs' = gs @ (?g # new) \<and> es' = es @ (?e # events) \<and> map gn_key (?g # new) = map ai_key (a # rest) \<and>
      (\<forall>e\<in>set (?e # events). ev_sources e = [])"
    using ih(4-7) by (simp add: g e)
  moreover have "ai_key ` set (a # rest) \<inter> inactive = {}" using ih(8) t(2) by simp
  ultimately show ?case using ih(1-3) by (intro conjI exI) (assumption | elim conjE)+
qed simp

section \<open>Transitions\<close>

lemma sorted_set_simps [simp]: "sorted_set xs = [] \<longleftrightarrow> xs = []" "set (sorted_set xs) = set xs" "distinct (sorted_set xs)" "sorted (sorted_set xs)"
  by (simp_all add: sorted_set_def) (metis remdups_eq_nil_iff set_empty set_sort)

lemma missing_empty: "missing ks present = [] \<longleftrightarrow> set ks \<subseteq> present"
  by (auto simp: missing_def filter_empty_conv)

text \<open>What holds between two directives of a capture.\<close>

definition transition_ok :: "string set \<Rightarrow> string set \<Rightarrow> transition_state \<Rightarrow> bool" where
  "transition_ok keys inactive0 st =
     (ts_inactive st = inactive0 \<union> ts_transitioned st \<and> ts_active st \<inter> inactive0 = {} \<and>
      ts_active st \<subseteq> keys \<and> ts_inactive st \<subseteq> keys \<and> retired (ts_events st) (ts_inactive st))"

lemma check_directive_ok:
  assumes "check_directive accepted gs st d = None"
  shows "set (dr_sources d) \<subseteq> ts_active st" "set (dr_sources d) \<inter> ts_transitioned st = {}"
    "set (dr_targets d) \<subseteq> ai_key ` set accepted" "\<not> naive (dr_at d)" "distinct (dr_sources d)"
  using assms by (auto simp: check_directive_def validate_directive_def Let_def missing_empty split: option.splits if_splits)

lemma transition_kinds: "ev_type (transition_event d) \<notin> {CREATED, OBSERVED}" "ev_at (transition_event d) = dr_at d"
  "set (ev_sources (transition_event d)) = set (dr_sources d)"
  by (cases "dr_transition d"; simp add: transition_event_def)+

lemma apply_directives_ok:
  assumes "apply_directives accepted gs ds st = Inr st'" "transition_ok keys inactive0 st"
    "ai_key ` set accepted \<subseteq> keys" "ai_key ` set accepted \<inter> inactive0 = {}" "recorded hs (ts_events st)" "zoned hs (ts_events st)"
  shows "transition_ok keys inactive0 st' \<and> recorded hs (ts_events st') \<and> zoned hs (ts_events st') \<and>
    mset (ts_events st) \<subseteq># mset (ts_events st') \<and> ts_inactive st \<subseteq> ts_inactive st'"
  using assms
proof (induction ds arbitrary: st)
  case (Cons d ds)
  then have none: "check_directive accepted gs st d = None" and rest: "apply_directives accepted gs ds (apply_directive d st) = Inr st'"
    by (auto split: option.splits)
  note ok = check_directive_ok [OF none]
  let ?st = "apply_directive d st"
  have disjoint: "set (dr_sources d) \<inter> ts_inactive st = {}" using ok Cons.prems(2) by (auto simp: transition_ok_def)
  have "retired (ts_events ?st) (ts_inactive ?st)"
    using Cons.prems(2) disjoint transition_kinds(3) [of d]
    by (auto simp: transition_ok_def retired_def apply_directive_def)
  then have t: "transition_ok keys inactive0 ?st"
    using Cons.prems(2-4) ok by (auto simp: transition_ok_def apply_directive_def)
  have r: "recorded hs (ts_events ?st)"
    using Cons.prems(5) transition_kinds(1) [of d] by (auto simp: recorded_def apply_directive_def)
  have z: "zoned hs (ts_events ?st)" using Cons.prems(6) ok(4) by (auto simp: zoned_def apply_directive_def transition_kinds)
  note ih = Cons.IH [OF rest t Cons.prems(3,4) r z]
  have "mset (ts_events st) \<subseteq># mset (ts_events ?st)" "ts_inactive st \<subseteq> ts_inactive ?st" by (simp_all add: apply_directive_def)
  with ih show ?case by (meson subset_mset.order_trans subset_trans)
qed simp

section \<open>The ledger\<close>

definition ledger_ok :: "lifecycle \<Rightarrow> bool" where
  "ledger_ok st =
     (sorted (map generation_key (lc_generations st)) \<and> sorted (map event_key (lc_events st)) \<and>
      sorted (lc_inactive st) \<and> distinct (lc_inactive st) \<and> set (lc_inactive st) \<subseteq> gn_key ` set (lc_generations st) \<and>
      numbered (lc_generations st) \<and> recorded (lc_generations st) (lc_events st) \<and>
      retired (lc_events st) (set (lc_inactive st)) \<and> zoned (lc_generations st) (lc_events st))"

lemma history_sorted:
  assumes "numbered gs"
  shows "history k (sort_key generation_key gs) = history k gs"
proof -
  have "map generation_key (history k gs) = map (\<lambda>n. (k, n)) (map gn_number (history k gs))"
    by (auto simp: history_def generation_key_def)
  also have "\<dots> = map (\<lambda>n. (k, n)) [1..<Suc (length (history k gs))]" using assms by (simp add: numbered_def)
  also have "sorted \<dots>" by (simp add: sorted_map less_eq_prod_simp del: upt_Suc)
  finally have "sort_key generation_key (history k gs) = history k gs" by (rule sort_key_id_if_sorted)
  then show ?thesis by (simp add: history_def filter_sort)
qed

lemma sorted_events [simp]:
  "events_of t k (sort_key event_key es) = events_of t k es" "retirements k (sort_key event_key es) = retirements k es"
proof -
  have "length (filter P (sort_key event_key es)) = length (filter P es)" for P
    by (metis mset_filter mset_sort size_mset)
  then show "events_of t k (sort_key event_key es) = events_of t k es" "retirements k (sort_key event_key es) = retirements k es"
    by (simp_all add: events_of_def retirements_def)
qed

lemma sorted_promises:
  assumes "numbered gs"
  shows "numbered (sort_key generation_key gs)"
    "recorded (sort_key generation_key gs) (sort_key event_key es) \<longleftrightarrow> recorded gs es"
    "retired (sort_key event_key es) inactive \<longleftrightarrow> retired es inactive"
    "zoned (sort_key generation_key gs) (sort_key event_key es) \<longleftrightarrow> zoned gs es"
  using assms by (simp_all add: numbered_def recorded_def retired_def zoned_def history_sorted)

text \<open>One successful step of the ledger, taken apart.\<close>

lemma advance_InrE:
  assumes "advance_identity_lifecycle st accepted directives = Inr st'" "ledger_ok st"
  obtains new events ts where
    "lc_generations st' = sort_key generation_key (lc_generations st @ new)"
    "lc_events st' = sort_key event_key (ts_events ts)" "lc_inactive st' = sorted_list_of_set (ts_inactive ts)"
    "map gn_key new = map ai_key (sort_key ai_key accepted)" "numbered (lc_generations st @ new)"
    "recorded (lc_generations st @ new) (ts_events ts)" "zoned (lc_generations st @ new) (ts_events ts)"
    "transition_ok (gn_key ` set (lc_generations st @ new)) (set (lc_inactive st)) ts"
    "mset (lc_events st) \<subseteq># mset (ts_events ts)" "ai_key ` set accepted \<inter> set (lc_inactive st) = {}"
    "distinct (map ai_key accepted)"
proof -
  have ok: "numbered (lc_generations st)" "recorded (lc_generations st) (lc_events st)" "zoned (lc_generations st) (lc_events st)"
    "retired (lc_events st) (set (lc_inactive st))" "set (lc_inactive st) \<subseteq> gn_key ` set (lc_generations st)"
    using assms(2) by (simp_all add: ledger_ok_def)
  from assms(1) obtain gs es ts where step:
    "observe (set (lc_inactive st)) (sort_key ai_key accepted) (known_generations (lc_generations st))
       (lc_generations st, lc_events st) = Inr (gs, es)"
    "apply_directives accepted gs directives \<lparr>ts_events = es, ts_inactive = set (lc_inactive st),
       ts_active = gn_key ` set gs - set (lc_inactive st), ts_transitioned = {}\<rparr> = Inr ts"
    "st' = \<lparr>lc_generations = sort_key generation_key gs, lc_events = sort_key event_key (ts_events ts),
       lc_inactive = sorted_list_of_set (ts_inactive ts)\<rparr>" and unique: "distinct (map ai_key accepted)"
    by (auto simp: advance_identity_lifecycle_def split: if_splits sum.splits)
  from observe_ok [OF step(1) [unfolded known_numbers [OF ok(1)]] ok(1-3)] obtain new events where
    new: "gs = lc_generations st @ new" "es = lc_events st @ events" "map gn_key new = map ai_key (sort_key ai_key accepted)"
      "\<forall>e\<in>set events. ev_sources e = []" and
    held: "numbered gs" "recorded gs es" "zoned gs es" "ai_key ` set accepted \<inter> set (lc_inactive st) = {}" by auto
  have "retirements k es = retirements k (lc_events st)" for k
    using new(2,4) by (auto simp: retirements_def filter_empty_conv)
  then have start: "transition_ok (gn_key ` set gs) (set (lc_inactive st)) \<lparr>ts_events = es, ts_inactive = set (lc_inactive st),
       ts_active = gn_key ` set gs - set (lc_inactive st), ts_transitioned = {}\<rparr>"
    using ok(4,5) new(1) by (auto simp: transition_ok_def retired_def)
  have "gn_key ` set new = ai_key ` set accepted" using new(3) by (metis set_map set_sort)
  then have "ai_key ` set accepted \<subseteq> gn_key ` set gs" using new(1) by auto
  from apply_directives_ok [OF step(2) start this held(4), of gs] held new(2)
  have "transition_ok (gn_key ` set gs) (set (lc_inactive st)) ts" "recorded gs (ts_events ts)" "zoned gs (ts_events ts)"
    "mset es \<subseteq># mset (ts_events ts)" by simp_all
  moreover have "mset (lc_events st) \<subseteq># mset (ts_events ts)"
    by (rule subset_mset.order_trans [OF _ calculation(4)]) (simp add: new(2))
  ultimately show thesis using that [of new ts] step(3) new(1,3) held(1,4) unique by simp
qed

lemma advance_ok:
  assumes "advance_identity_lifecycle st accepted directives = Inr st'" "ledger_ok st"
  shows "ledger_ok st'"
proof -
  from advance_InrE [OF assms] obtain new ts where new:
    "lc_generations st' = sort_key generation_key (lc_generations st @ new)"
    "lc_events st' = sort_key event_key (ts_events ts)" "lc_inactive st' = sorted_list_of_set (ts_inactive ts)"
    "numbered (lc_generations st @ new)"
    "recorded (lc_generations st @ new) (ts_events ts)" "zoned (lc_generations st @ new) (ts_events ts)"
    "transition_ok (gn_key ` set (lc_generations st @ new)) (set (lc_inactive st)) ts"
    by metis
  have "ts_inactive ts \<subseteq> gn_key ` set (lc_generations st @ new)" "retired (ts_events ts) (ts_inactive ts)"
    using new(7) unfolding transition_ok_def by blast+
  moreover from this have "finite (ts_inactive ts)" by (meson finite_imageI finite_set finite_subset)
  ultimately show ?thesis
    using sorted_promises [OF new(4)] new(4-6) unfolding ledger_ok_def new(1-3) by simp
qed

lemma initial_ok: "ledger_ok initial_lifecycle"
  by (simp add: ledger_ok_def initial_lifecycle_def numbered_def recorded_def retired_def zoned_def)

lemma reachable_ok: "reachable_ledger st \<Longrightarrow> ledger_ok st"
  by (induction rule: reachable_ledger.induct) (auto intro: initial_ok advance_ok)

text \<open>C31. Every ledger that acceptances and directives can produce keeps its books: generations,
  events and inactive keys are sorted; the generations of each identity are numbered 1, 2, 3 and so
  on without a gap; an identity observed \<open>n\<close> times has one creation event and \<open>n - 1\<close> later
  observations on record; the inactive identities are exactly those that one transition event,
  and only one, names among its sources, and all were observed; and every time is zoned.\<close>

theorem ledger_invariant:
  assumes "reachable_ledger st"
  shows "ledger_ok st"
  using assms by (rule reachable_ok)

text \<open>C32. The ledger is append-only. A successful step from a reachable ledger keeps every generation
  and event that was there and every inactive key; it gives each accepted identity exactly one new
  generation and no other identity any; and no accepted identity had been retired, so the history of
  a retired identity never changes again.\<close>

theorem ledger_append_only:
  assumes "reachable_ledger st" "advance_identity_lifecycle st accepted directives = Inr st'"
  shows "mset (lc_generations st) \<subseteq># mset (lc_generations st') \<and> mset (lc_events st) \<subseteq># mset (lc_events st') \<and>
    set (lc_inactive st) \<subseteq> set (lc_inactive st') \<and> ai_key ` set accepted \<inter> set (lc_inactive st) = {} \<and>
    (\<forall>k. length (history k (lc_generations st')) =
       length (history k (lc_generations st)) + (if k \<in> ai_key ` set accepted then 1 else 0)) \<and>
    (\<forall>k\<in>set (lc_inactive st). history k (lc_generations st') = history k (lc_generations st))"
proof -
  from advance_InrE [OF assms(2) reachable_ok [OF assms(1)]] obtain new ts where new:
    "lc_generations st' = sort_key generation_key (lc_generations st @ new)"
    "lc_events st' = sort_key event_key (ts_events ts)" "lc_inactive st' = sorted_list_of_set (ts_inactive ts)"
    "map gn_key new = map ai_key (sort_key ai_key accepted)" "numbered (lc_generations st @ new)"
    "transition_ok (gn_key ` set (lc_generations st @ new)) (set (lc_inactive st)) ts"
    "mset (lc_events st) \<subseteq># mset (ts_events ts)" "ai_key ` set accepted \<inter> set (lc_inactive st) = {}"
    "distinct (map ai_key accepted)" by metis
  have kept: "mset (lc_generations st) \<subseteq># mset (lc_generations st')" "mset (lc_events st) \<subseteq># mset (lc_events st')"
    using new(1,2,7) by simp_all
  have inactive: "ts_inactive ts = set (lc_inactive st) \<union> ts_transitioned ts" "ts_inactive ts \<subseteq> gn_key ` set (lc_generations st @ new)"
    using new(6) unfolding transition_ok_def by blast+
  then have "finite (ts_inactive ts)" by (meson finite_imageI finite_set finite_subset)
  then have inactive_kept: "set (lc_inactive st) \<subseteq> set (lc_inactive st')" using new(3) inactive by simp
  have "set (map gn_key new) = set (map ai_key (sort_key ai_key accepted))" unfolding new(4) ..
  then have keys: "gn_key ` set new = ai_key ` set accepted" by simp
  have distinct: "distinct (map gn_key new)" unfolding new(4) distinct_map_sorted by (rule new(9))
  have "length (history k gs) = (if k \<in> gn_key ` set gs then 1 else 0)" if "distinct (map gn_key gs)" for k gs
    using that
  proof (induction gs)
    case (Cons g gs)
    then show ?case using history_empty_iff [of "gn_key g" gs] by auto
  qed simp
  from this [OF distinct] have one: "length (history k new) = (if k \<in> ai_key ` set accepted then 1 else 0)" for k unfolding keys .
  have none: "history k new = []" if "k \<in> set (lc_inactive st)" for k
    using that new(8) by (auto simp: history_empty_iff keys)
  have "\<forall>k. length (history k (lc_generations st')) =
      length (history k (lc_generations st)) + (if k \<in> ai_key ` set accepted then 1 else 0)"
    unfolding new(1) history_sorted [OF new(5)] using one by simp
  moreover have "\<forall>k\<in>set (lc_inactive st). history k (lc_generations st') = history k (lc_generations st)"
    unfolding new(1) history_sorted [OF new(5)] using none by simp
  ultimately show ?thesis using kept inactive_kept new(8) by blast
qed

section \<open>After an acceptance\<close>

text \<open>The errors that speak of a directive.\<close>

fun directive_error :: "lifecycle_error \<Rightarrow> bool" where
  "directive_error (No_Review k) = False"
| "directive_error Review_Not_Zoned = False"
| "directive_error Identities_Not_Unique = False"
| "directive_error (Inactive_Observed k) = False"
| "directive_error No_Time = False"
| "directive_error e = True"

definition timed :: "accepted_identity \<Rightarrow> bool" where
  "timed a = (ai_reviews a \<noteq> [] \<and> (\<forall>r\<in>set (ai_reviews a). \<not> naive (rv_at r)))"

lemma review_time_total: "timed a \<Longrightarrow> \<exists>t. review_time a = Inr t"
  using latest_total [of "map rv_at (ai_reviews a)"] by (auto simp: timed_def review_time_def Let_def list_ex_iff)

lemma observe_total:
  assumes "\<forall>a\<in>set as. timed a"
  shows "(\<exists>x. observe inactive as known (gs, es) = Inr x) \<and> ai_key ` set as \<inter> inactive = {} \<or>
    (\<exists>k\<in>ai_key ` set as \<inter> inactive. observe inactive as known (gs, es) = Inl (Inactive_Observed k))"
  using assms
proof (induction "as" arbitrary: known gs es)
  case (Cons a rest)
  from Cons.prems review_time_total obtain t where t: "review_time a = Inr t" by auto
  show ?case
  proof (cases "ai_key a \<in> inactive")
    case False
    let ?n = "(case known (ai_key a) of None \<Rightarrow> 0 | Some m \<Rightarrow> m) + 1"
    have step: "observe inactive (a # rest) known (gs, es) = observe inactive rest (known(ai_key a \<mapsto> ?n))
        (gs @ [generation_of a ?n t], es @ [observation_event a ?n t])"
      using False t by (simp add: Let_def)
    have keys: "ai_key ` set (a # rest) \<inter> inactive = ai_key ` set rest \<inter> inactive" using False by simp
    have "\<forall>a\<in>set rest. timed a" using Cons.prems by simp
    from Cons.IH [OF this] show ?thesis unfolding step keys by blast
  qed auto
qed simp

lemma target_times_total:
  assumes "\<forall>a\<in>set accepted. timed a" "set ks \<subseteq> ai_key ` set accepted"
  shows "\<exists>ts. target_times accepted ks = Inr ts \<and> length ts = length ks"
  using assms(2)
proof (induction ks)
  case (Cons k ks)
  then have "k \<in> ai_key ` set accepted" by simp
  then obtain a where a: "dict_of ai_key accepted k = Some a" by (metis dict_of_None option.exhaust)
  from dict_of_Some [OF a] have "a \<in> set accepted" ..
  then obtain t where t: "review_time a = Inr t" using assms(1) review_time_total by blast
  from Cons obtain ts where "target_times accepted ks = Inr ts \<and> length ts = length ks" by auto
  then show ?case by (simp add: a t)
qed simp

lemma check_directive_error:
  assumes "\<forall>a\<in>set accepted. timed a" "ts_active st \<subseteq> gn_key ` set gs" "check_directive accepted gs st d = Some e"
  shows "directive_error e"
proof (cases "validate_directive d = None \<and> set (dr_sources d) \<subseteq> ts_active st \<and> set (dr_sources d) \<inter> ts_transitioned st = {} \<and>
    set (dr_targets d) \<subseteq> ai_key ` set accepted")
  case True
  then have "dr_sources d \<noteq> []" "dr_targets d \<noteq> []"
    by (cases "dr_transition d"; auto simp: validate_directive_def Let_def split: if_splits)+
  moreover from this True assms(2) have "source_times gs (dr_sources d) \<noteq> []"
    by (fastforce simp: source_times_def filter_empty_conv neq_Nil_conv)
  ultimately obtain s t ts where "latest (source_times gs (dr_sources d)) = Inr s" "target_times accepted (dr_targets d) = Inr ts"
    "latest ts = Inr t"
    using target_times_total [OF assms(1), of "dr_targets d"] latest_total True by (metis length_0_conv)
  with assms(3) True show ?thesis by (auto simp: check_directive_def check_times_def missing_empty split: if_splits)
next
  case False
  with assms(3) show ?thesis
    by (auto simp: check_directive_def missing_empty validate_directive_def validate_text_def Let_def split: option.splits if_splits)
qed

lemma apply_directives_error:
  assumes "\<forall>a\<in>set accepted. timed a" "ts_active st \<subseteq> gn_key ` set gs" "ai_key ` set accepted \<subseteq> gn_key ` set gs"
    "apply_directives accepted gs ds st = Inl e"
  shows "directive_error e \<and> ds \<noteq> []"
  using assms(2,4)
proof (induction ds arbitrary: st)
  case (Cons d ds)
  show ?case
  proof (cases "check_directive accepted gs st d")
    case None
    then have "ts_active (apply_directive d st) \<subseteq> gn_key ` set gs"
      using check_directive_ok(3) [OF None] Cons.prems(1) assms(3) by (auto simp: apply_directive_def)
    with Cons None show ?thesis by auto
  qed (use Cons.prems check_directive_error [OF assms(1)] in auto)
qed simp

text \<open>C33. What an acceptance hands to the ledger always fits it. When the reviews of a capture were
  accepted, advancing a reachable ledger by the result succeeds unless an accepted identity had
  been retired, which is the error naming it, or a directive is refused; it never fails over the
  reviews, their times or the uniqueness of the identities, and no maximum is taken over nothing.\<close>

theorem acceptance_advances:
  assumes "apply_candidate_reviews physical identities configured reviews = Inr res" "reachable_ledger st"
  shows "case advance_identity_lifecycle st (ar_accepted res) directives of
     Inr st' \<Rightarrow> ai_key ` set (ar_accepted res) \<inter> set (lc_inactive st) = {}
   | Inl e \<Rightarrow> (\<exists>k. e = Inactive_Observed k \<and> k \<in> ai_key ` set (ar_accepted res) \<inter> set (lc_inactive st)) \<or>
       (directive_error e \<and> directives \<noteq> [] \<and> ai_key ` set (ar_accepted res) \<inter> set (lc_inactive st) = {})"
proof -
  have unique: "distinct (map ai_key (ar_accepted res))" and "\<forall>a\<in>set (ar_accepted res). accepted_for reviews a"
    using acceptance_result_ok [OF assms(1)] by (simp_all add: list_all_iff)
  then have timed: "\<forall>a\<in>set (ar_accepted res). timed a" by (auto simp: timed_def accepted_for_def)
  then have timed': "\<forall>a\<in>set (sort_key ai_key (ar_accepted res)). timed a" by simp
  have ok: "numbered (lc_generations st)" "recorded (lc_generations st) (lc_events st)" "zoned (lc_generations st) (lc_events st)"
    using reachable_ok [OF assms(2)] by (simp_all add: ledger_ok_def)
  let ?seen = "observe (set (lc_inactive st)) (sort_key ai_key (ar_accepted res)) (known_generations (lc_generations st))
    (lc_generations st, lc_events st)"
  from observe_total [OF timed'] consider (bad) k where "k \<in> ai_key ` set (ar_accepted res) \<inter> set (lc_inactive st)"
      "?seen = Inl (Inactive_Observed k)"
    | (good) gs es where "?seen = Inr (gs, es)" "ai_key ` set (ar_accepted res) \<inter> set (lc_inactive st) = {}"
    by (metis set_sort surj_pair)
  then show ?thesis
  proof cases
    case bad
    then show ?thesis using unique by (simp add: advance_identity_lifecycle_def)
  next
    case good
    from observe_ok [OF good(1) [unfolded known_numbers [OF ok(1)]] ok] obtain new where
      "gs = lc_generations st @ new" "map gn_key new = map ai_key (sort_key ai_key (ar_accepted res))" by blast
    then have "gn_key ` set new = ai_key ` set (ar_accepted res)" "gs = lc_generations st @ new"
      by (metis set_map set_sort, simp)
    then have "ai_key ` set (ar_accepted res) \<subseteq> gn_key ` set gs" by auto
    let ?start = "\<lparr>ts_events = es, ts_inactive = set (lc_inactive st),
        ts_active = gn_key ` set gs - set (lc_inactive st), ts_transitioned = {}\<rparr>"
    have "directive_error e \<and> directives \<noteq> []" if "apply_directives (ar_accepted res) gs directives ?start = Inl e" for e
      by (rule apply_directives_error [OF timed _ \<open>ai_key ` set (ar_accepted res) \<subseteq> gn_key ` set gs\<close> that]) auto
    with good unique show ?thesis by (auto simp: advance_identity_lifecycle_def split: sum.split)
  qed
qed

section \<open>Examples\<close>

text \<open>Two identities accepted in one capture, and directives between them.\<close>

definition example_stamp :: "int \<Rightarrow> stamp" where
  "example_stamp t = \<lparr>instant = t, zone = Some ''UTC''\<rparr>"

definition example_review :: "string \<Rightarrow> string \<Rightarrow> candidate_review" where
  "example_review candidate key =
     \<lparr>rv_candidate = candidate, rv_disposition = ACCEPT, rv_by = ''operator'', rv_at = example_stamp 1,
      rv_rationale = ''seen on site'', rv_identity = Some key, rv_override = False\<rparr>"

definition example_candidates :: "candidate list" where
  "example_candidates =
     [\<lparr>cd_key = ''target:1'', cd_target = ''rack'', cd_evidence = []\<rparr>,
      \<lparr>cd_key = ''target:2'', cd_target = ''rack'', cd_evidence = []\<rparr>]"

definition example_reviews :: "candidate_review list" where
  "example_reviews = [example_review ''target:1'' ''A'', example_review ''target:2'' ''B'']"

definition example_directive :: "string \<Rightarrow> string \<Rightarrow> directive" where
  "example_directive source target =
     \<lparr>dr_transition = SUPERSEDE, dr_sources = [source], dr_targets = [target], dr_by = ''operator'',
      dr_at = example_stamp 2, dr_rationale = ''replaced''\<rparr>"

definition example_accepted :: "accepted_identity list" where
  "example_accepted =
     (case apply_candidate_reviews example_candidates [] [] example_reviews of Inr res \<Rightarrow> ar_accepted res | Inl e \<Rightarrow> [])"

definition advanced_ledger :: "lifecycle \<Rightarrow> directive list \<Rightarrow> lifecycle" where
  "advanced_ledger st ds =
     (case advance_identity_lifecycle st example_accepted ds of Inr st' \<Rightarrow> st' | Inl e \<Rightarrow> initial_lifecycle)"

fun succeeds :: "'e + 'a \<Rightarrow> bool" where
  "succeeds (Inl e) = False"
| "succeeds (Inr x) = True"

lemma succeeds_iff: "succeeds r \<longleftrightarrow> (\<exists>x. r = Inr x)"
  by (cases r) auto

lemma example_accepts: "succeeds (apply_candidate_reviews example_candidates [] [] example_reviews)"
  by code_simp

lemma example_advances: "succeeds (advance_identity_lifecycle initial_lifecycle example_accepted [example_directive ''A'' ''B''])"
  by code_simp

lemma example_active: "active_keys (advanced_ledger initial_lifecycle [example_directive ''A'' ''B'']) = [''B'']"
  by code_simp

lemma example_step:
  "advance_identity_lifecycle initial_lifecycle example_accepted [example_directive ''A'' ''B''] =
     Inr (advanced_ledger initial_lifecycle [example_directive ''A'' ''B''])"
  using example_advances by (auto simp: succeeds_iff advanced_ledger_def)

lemma example_reachable: "reachable_ledger (advanced_ledger initial_lifecycle [example_directive ''A'' ''B''])"
  using advanced [OF empty_ledger example_step] .

theorem ledger_invariant_witness:
  "reachable_ledger (advanced_ledger initial_lifecycle [example_directive ''A'' ''B'']) \<and>
   ledger_ok (advanced_ledger initial_lifecycle [example_directive ''A'' ''B''])"
  using example_reachable ledger_invariant [OF example_reachable] by blast

theorem ledger_append_only_witness:
  "advance_identity_lifecycle initial_lifecycle example_accepted [example_directive ''A'' ''B''] =
     Inr (advanced_ledger initial_lifecycle [example_directive ''A'' ''B'']) \<and>
   length (history ''A'' (lc_generations (advanced_ledger initial_lifecycle [example_directive ''A'' ''B'']))) =
     length (history ''A'' (lc_generations initial_lifecycle)) + (if ''A'' \<in> ai_key ` set example_accepted then 1 else 0)"
  using example_step ledger_append_only [OF empty_ledger example_step] by blast

theorem acceptance_advances_witness:
  "\<exists>res. apply_candidate_reviews example_candidates [] [] example_reviews = Inr res \<and>
     (case advance_identity_lifecycle (advanced_ledger initial_lifecycle [example_directive ''A'' ''B'']) (ar_accepted res) [] of
        Inr st' \<Rightarrow> False
      | Inl e \<Rightarrow> \<exists>k. e = Inactive_Observed k)"
proof -
  let ?st = "advanced_ledger initial_lifecycle [example_directive ''A'' ''B'']"
  obtain res where res: "apply_candidate_reviews example_candidates [] [] example_reviews = Inr res"
    using example_accepts by (auto simp: succeeds_iff)
  then have "ar_accepted res = example_accepted" by (simp add: example_accepted_def)
  moreover have "\<not> succeeds (advance_identity_lifecycle ?st example_accepted [])" by code_simp
  ultimately have "\<not> (\<exists>st'. advance_identity_lifecycle ?st (ar_accepted res) [] = Inr st')" by (simp add: succeeds_iff)
  with res acceptance_advances [OF res example_reachable, of "[]"] show ?thesis
    by (auto split: sum.splits)
qed

text \<open>
  A target is not asked to be active: of two identities of one capture, each can supersede the
  other, and both end up inactive, with no identity left that carries the equipment on.
\<close>

lemma superseded_by_each_other:
  "succeeds (advance_identity_lifecycle initial_lifecycle example_accepted
     [example_directive ''A'' ''B'', example_directive ''B'' ''A''])"
  "active_keys (advanced_ledger initial_lifecycle [example_directive ''A'' ''B'', example_directive ''B'' ''A'']) = []"
  "lc_inactive (advanced_ledger initial_lifecycle [example_directive ''A'' ''B'', example_directive ''B'' ''A'']) = [''A'', ''B'']"
  by code_simp+

end
