(* ===== verification/Core_Promotion.thy ===== *)
theory Core_Promotion imports Identity_Lifecycle_Facts begin

text \<open>
  The promotion of active identities into core assets: \<open>discovery/core_promotion.py\<close>. Every
  \<open>CorePromotionError\<close> is a constructor of \<open>promotion_error\<close>; \<open>Promotion_No_Time\<close> is the
  \<open>ValueError\<close> of a maximum over nothing, which a reachable ledger never gives. Of an \<open>Asset\<close> and a
  \<open>Device\<close> the model keeps the fields a promotion sets.
\<close>

section \<open>Records\<close>

datatype device_type = DRIVE | INSTRUMENT | IO_DEVICE | CONTROLLER | COMMUNICATION_DEVICE | OTHER_DEVICE | UNKNOWN_DEVICE

datatype core_asset =
    Core_Asset (asset_id: string) string
  | Core_Device (asset_id: string) string device_type "string option" "string option" "string option"

datatype asset_kind = ASSET | DEVICE

record promotion_request =
  pq_identity :: string
  pq_asset_id :: string
  pq_name :: string
  pq_kind :: asset_kind
  pq_by :: string
  pq_at :: stamp
  pq_rationale :: string
  pq_device_type :: "device_type option"
  pq_manufacturer :: "string option"
  pq_model :: "string option"
  pq_catalog :: "string option"
  pq_acknowledge :: bool

record promotion_record =
  pr_asset :: core_asset
  pr_identity :: string
  pr_numbers :: "nat list"
  pr_targets :: "string list"
  pr_by :: string
  pr_at :: stamp
  pr_rationale :: string
  pr_evidence :: "evidence_reference list"
  pr_acknowledged :: bool

record promotion_result =
  ps_records :: "promotion_record list"
  ps_unpromoted :: "string list"

datatype promotion_error =
    Promotion_Blank string
  | Promotion_Untrimmed string
  | Promotion_Not_Zoned
  | Predates_Generation
  | Conflict_Not_Acknowledged
  | Device_Fields
  | Identity_Not_Active string
  | Duplicate_Promotion string
  | Duplicate_Asset string
  | Promotion_No_Time

section \<open>Requests\<close>

definition promotion_text :: "string \<Rightarrow> string \<Rightarrow> promotion_error option" where
  "promotion_text s field =
     (if py_strip s = [] then Some (Promotion_Blank field)
      else if s \<noteq> py_strip s then Some (Promotion_Untrimmed field) else None)"

text \<open>The first objection of a list of checks.\<close>

fun first_error :: "'e option list \<Rightarrow> 'e option" where
  "first_error [] = None"
| "first_error (None # checks) = first_error checks"
| "first_error (Some e # checks) = Some e"

lemma first_error_None [simp]: "first_error checks = None \<longleftrightarrow> list_all (\<lambda>c. c = None) checks"
  by (induction checks rule: first_error.induct) auto

definition validate_request :: "promotion_request \<Rightarrow> generation list \<Rightarrow> promotion_error option" where
  "validate_request q gs =
     (case first_error [promotion_text (pq_identity q) ''durable_identity_key'', promotion_text (pq_asset_id q) ''core_asset_id'',
             promotion_text (pq_name q) ''name'', promotion_text (pq_by q) ''promoted_by'',
             promotion_text (pq_rationale q) ''rationale''] of
        Some e \<Rightarrow> Some e
      | None \<Rightarrow>
          if naive (pq_at q) then Some Promotion_Not_Zoned
          else (case latest (map gn_at gs) of
                  Inl e \<Rightarrow> Some Promotion_No_Time
                | Inr t \<Rightarrow>
                    if instant (pq_at q) < instant t then Some Predates_Generation
                    else if list_ex gn_overridden gs \<and> \<not> pq_acknowledge q then Some Conflict_Not_Acknowledged
                    else if pq_kind q = ASSET \<and>
                            (pq_device_type q \<noteq> None \<or> pq_manufacturer q \<noteq> None \<or> pq_model q \<noteq> None \<or> pq_catalog q \<noteq> None)
                    then Some Device_Fields else None))"

definition build_asset :: "promotion_request \<Rightarrow> core_asset" where
  "build_asset q =
     (if pq_kind q = DEVICE
      then Core_Device (pq_asset_id q) (pq_name q)
             (case pq_device_type q of None \<Rightarrow> UNKNOWN_DEVICE | Some t \<Rightarrow> t) (pq_manufacturer q) (pq_model q) (pq_catalog q)
      else Core_Asset (pq_asset_id q) (pq_name q))"

section \<open>Promotion\<close>

text \<open>\<open>generations_by_identity\<close>, each list in the order of its numbers.\<close>

definition generations_by :: "lifecycle \<Rightarrow> string \<Rightarrow> generation list" where
  "generations_by st k = sort_key gn_number (filter (\<lambda>g. gn_key g = k) (lc_generations st))"

definition promotion_of :: "promotion_request \<Rightarrow> generation list \<Rightarrow> promotion_record" where
  "promotion_of q gs =
     \<lparr>pr_asset = build_asset q, pr_identity = pq_identity q, pr_numbers = map gn_number gs,
      pr_targets = sorted_set (concat (map gn_targets gs)), pr_by = pq_by q, pr_at = pq_at q,
      pr_rationale = pq_rationale q, pr_evidence = ordered_evidence (concat (map gn_evidence gs)),
      pr_acknowledged = pq_acknowledge q\<rparr>"

fun promote_all ::
  "lifecycle \<Rightarrow> promotion_request list \<Rightarrow> string set \<Rightarrow> string set \<Rightarrow> promotion_error + promotion_record list" where
  "promote_all st [] identities assets = Inr []"
| "promote_all st (q # qs) identities assets =
     (if pq_identity q \<notin> set (active_keys st) then Inl (Identity_Not_Active (pq_identity q))
      else if pq_identity q \<in> identities then Inl (Duplicate_Promotion (pq_identity q))
      else if pq_asset_id q \<in> assets then Inl (Duplicate_Asset (pq_asset_id q))
      else let gs = generations_by st (pq_identity q)
           in case validate_request q gs of
                Some e \<Rightarrow> Inl e
              | None \<Rightarrow>
                  (case promote_all st qs (insert (pq_identity q) identities) (insert (pq_asset_id q) assets) of
                     Inl e \<Rightarrow> Inl e
                   | Inr rs \<Rightarrow> Inr (promotion_of q gs # rs)))"

definition promote_lifecycle_identities ::
  "lifecycle \<Rightarrow> promotion_request list \<Rightarrow> promotion_error + promotion_result" where
  "promote_lifecycle_identities st qs =
     map_sum id (\<lambda>rs. \<lparr>ps_records = sort_key (\<lambda>r. asset_id (pr_asset r)) rs,
         ps_unpromoted = sort (filter (\<lambda>k. k \<notin> pq_identity ` set qs) (active_keys st))\<rparr>)
       (promote_all st qs {} {})"

definition durable_identity_for_asset :: "promotion_result \<Rightarrow> string \<Rightarrow> string option" where
  "durable_identity_for_asset res asset =
     map_option pr_identity (find (\<lambda>r. asset_id (pr_asset r) = asset) (ps_records res))"

section \<open>What a promotion accounts for\<close>

definition request_ok :: "lifecycle \<Rightarrow> promotion_request \<Rightarrow> bool" where
  "request_ok st q =
     (pq_identity q \<in> set (active_keys st) \<and> validate_request q (generations_by st (pq_identity q)) = None)"

lemma promote_all_ok:
  assumes "promote_all st qs identities assets = Inr rs"
  shows "rs = map (\<lambda>q. promotion_of q (generations_by st (pq_identity q))) qs \<and> (\<forall>q\<in>set qs. request_ok st q) \<and>
    distinct (map pq_identity qs) \<and> distinct (map pq_asset_id qs) \<and>
    pq_identity ` set qs \<inter> identities = {} \<and> pq_asset_id ` set qs \<inter> assets = {}"
  using assms
proof (induction qs arbitrary: identities assets rs)
  case (Cons q qs)
  from Cons.prems obtain rs' where q: "pq_identity q \<in> set (active_keys st)" "pq_identity q \<notin> identities" "pq_asset_id q \<notin> assets"
    "validate_request q (generations_by st (pq_identity q)) = None"
    and rs': "promote_all st qs (insert (pq_identity q) identities) (insert (pq_asset_id q) assets) = Inr rs'"
    "rs = promotion_of q (generations_by st (pq_identity q)) # rs'"
    by (auto simp: Let_def split: if_splits option.splits sum.splits)
  from Cons.IH [OF rs'(1)] q rs'(2) show ?case by (auto simp: request_ok_def)
qed simp

lemma promote_all_fails:
  assumes "promote_all st qs identities assets = Inl e" "\<forall>k\<in>set (active_keys st). generations_by st k \<noteq> []"
  shows "e \<noteq> Promotion_No_Time \<and> \<not> ((\<forall>q\<in>set qs. request_ok st q) \<and>
    distinct (map pq_identity qs) \<and> distinct (map pq_asset_id qs) \<and>
    pq_identity ` set qs \<inter> identities = {} \<and> pq_asset_id ` set qs \<inter> assets = {})"
  using assms(1)
proof (induction qs arbitrary: identities assets)
  case (Cons q qs)
  let ?gs = "generations_by st (pq_identity q)"
  have time: "validate_request q ?gs \<noteq> Some Promotion_No_Time" if active: "pq_identity q \<in> set (active_keys st)"
  proof -
    obtain t where t: "latest (map gn_at ?gs) = Inr t" using latest_total assms(2) active by blast
    have "c \<noteq> Some Promotion_No_Time" if "c = first_error (map (\<lambda>(s, f). promotion_text s f) xs)" for c xs
      using that by (induction xs arbitrary: c) (auto simp: promotion_text_def split: if_splits)
    from this [of _ "[(pq_identity q, ''durable_identity_key''), (pq_asset_id q, ''core_asset_id''), (pq_name q, ''name''),
        (pq_by q, ''promoted_by''), (pq_rationale q, ''rationale'')]"] t
    show ?thesis by (auto simp: validate_request_def split: option.split)
  qed
  show ?case
  proof (cases "pq_identity q \<in> set (active_keys st) \<and> pq_identity q \<notin> identities \<and> pq_asset_id q \<notin> assets \<and> validate_request q ?gs = None")
    case True
    then have "promote_all st qs (insert (pq_identity q) identities) (insert (pq_asset_id q) assets) = Inl e"
      using Cons.prems by (auto simp: Let_def split: sum.splits)
    from Cons.IH [OF this] True show ?thesis by (auto simp: request_ok_def)
  next
    case False
    with Cons.prems time show ?thesis by (auto simp: Let_def request_ok_def split: if_splits option.splits)
  qed
qed simp

lemma evidence_key_inj: "evidence_key d = evidence_key e \<Longrightarrow> d = e"
  by (simp add: evidence_key_def)

lemma set_ordered_evidence [simp]: "set (ordered_evidence es) = set es"
proof -
  have "the (dict_of evidence_key es (evidence_key e)) = e" if "e \<in> set es" for e
  proof -
    from dict_of_member [OF that, of evidence_key] obtain d where "dict_of evidence_key es (evidence_key e) = Some d" ..
    with dict_of_Some [OF this] evidence_key_inj show ?thesis by auto
  qed
  then show ?thesis by (force simp: ordered_evidence_def image_image)
qed

lemma generations_by_ok:
  assumes "ledger_ok st"
  shows "generations_by st k = history k (lc_generations st)"
    "map gn_number (generations_by st k) = [1..<Suc (length (history k (lc_generations st)))]"
proof -
  have n: "map gn_number (history k (lc_generations st)) = [1..<Suc (length (history k (lc_generations st)))]"
    using assms by (simp add: ledger_ok_def numbered_def)
  then have "sorted (map gn_number (history k (lc_generations st)))" by (simp del: upt_Suc)
  then show same: "generations_by st k = history k (lc_generations st)"
    by (simp add: generations_by_def history_def sort_key_id_if_sorted)
  show "map gn_number (generations_by st k) = [1..<Suc (length (history k (lc_generations st)))]" unfolding same by (rule n)
qed

lemma active_observed: "k \<in> set (active_keys st) \<Longrightarrow> history k (lc_generations st) \<noteq> []"
  by (auto simp: active_keys_def history_empty_iff)

text \<open>A record carries the whole history of its identity.\<close>

definition accounts_for :: "lifecycle \<Rightarrow> promotion_record \<Rightarrow> bool" where
  "accounts_for st r =
     (let h = history (pr_identity r) (lc_generations st)
      in h \<noteq> [] \<and> pr_numbers r = [1..<Suc (length h)] \<and> set (pr_targets r) = (\<Union>g\<in>set h. set (gn_targets g)) \<and>
         set (pr_evidence r) = (\<Union>g\<in>set h. set (gn_evidence g)) \<and>
         (\<forall>g\<in>set h. instant (gn_at g) \<le> instant (pr_at r)) \<and> (list_ex gn_overridden h \<longrightarrow> pr_acknowledged r))"

definition requests_in_order :: "lifecycle \<Rightarrow> promotion_request list \<Rightarrow> bool" where
  "requests_in_order st qs =
     (list_all (request_ok st) qs \<and> distinct (map pq_identity qs) \<and> distinct (map pq_asset_id qs))"

lemma promotion_accounts_for:
  assumes "ledger_ok st" "request_ok st q"
  shows "accounts_for st (promotion_of q (generations_by st (pq_identity q)))"
proof -
  let ?h = "history (pq_identity q) (lc_generations st)"
  note h = generations_by_ok [OF assms(1), of "pq_identity q"]
  have valid: "validate_request q ?h = None" and active: "?h \<noteq> []"
    using assms(2) active_observed by (auto simp: request_ok_def h)
  from valid obtain t where t: "latest (map gn_at ?h) = Inr t" "instant t \<le> instant (pq_at q)"
    "list_ex gn_overridden ?h \<longrightarrow> pq_acknowledge q"
    by (auto simp: validate_request_def split: option.splits sum.splits if_splits)
  have "instant (gn_at g) \<le> instant (pq_at q)" if "g \<in> set ?h" for g
    using latest_bound [OF t(1), of "gn_at g"] t(2) that by simp
  then show ?thesis using active h t(3) by (simp add: accounts_for_def promotion_of_def Let_def)
qed

lemma distinct_of_mset: "mset xs = mset ys \<Longrightarrow> distinct ys \<Longrightarrow> distinct xs"
  using mset_eq_imp_distinct_iff by blast

lemma find_unique:
  assumes "distinct (map f xs)" "x \<in> set xs"
  shows "find (\<lambda>y. f y = f x) xs = Some x"
  using assms by (induction xs) (auto simp: rev_image_eqI)

text \<open>C34. Promotion from a reachable ledger accounts for every active identity. It succeeds exactly
  when every request names an active identity and is in order, and no identity and no asset is
  named twice. Each active identity is then promoted once or listed as unpromoted; each record
  carries the numbers, targets and evidence of the identity's whole history, is not older than any of its
  observations and acknowledges an overridden conflict; and looking up the asset of a record leads
  back to its identity. No maximum is ever taken over nothing.\<close>

theorem promotion_accounts:
  assumes "reachable_ledger st"
  shows "case promote_lifecycle_identities st qs of
     Inl e \<Rightarrow> e \<noteq> Promotion_No_Time \<and> \<not> requests_in_order st qs
   | Inr res \<Rightarrow> requests_in_order st qs \<and>
       mset (map pr_identity (ps_records res)) + mset (ps_unpromoted res) = mset (active_keys st) \<and>
       list_all (accounts_for st) (ps_records res) \<and>
       list_all (\<lambda>r. durable_identity_for_asset res (asset_id (pr_asset r)) = Some (pr_identity r)) (ps_records res)"
proof (cases "promote_all st qs {} {}")
  case (Inl e)
  have "\<forall>k\<in>set (active_keys st). generations_by st k \<noteq> []"
    using active_observed generations_by_ok(1) [OF reachable_ok [OF assms]] by simp
  from promote_all_fails [OF Inl this] Inl show ?thesis
    by (auto simp: promote_lifecycle_identities_def requests_in_order_def list_all_iff)
next
  case (Inr rs)
  note ok = promote_all_ok [OF Inr]
  let ?res = "\<lparr>ps_records = sort_key (\<lambda>r. asset_id (pr_asset r)) rs,
         ps_unpromoted = sort (filter (\<lambda>k. k \<notin> pq_identity ` set qs) (active_keys st))\<rparr>"
  have fields: "map pr_identity rs = map pq_identity qs" "map (\<lambda>r. asset_id (pr_asset r)) rs = map pq_asset_id qs"
    using ok by (simp_all add: promotion_of_def build_asset_def comp_def)
  have "mset (map pq_identity qs) + mset (filter (\<lambda>k. k \<notin> set (map pq_identity qs)) (active_keys st)) = mset (active_keys st)"
    using ok by (intro distinct_split) (auto simp: active_keys_def request_ok_def)
  then have "mset (map pr_identity (ps_records ?res)) + mset (ps_unpromoted ?res) = mset (active_keys st)"
    using fields(1) by (metis list.set_map mset_map mset_sort promotion_result.select_convs)
  moreover have "list_all (accounts_for st) (ps_records ?res)"
    using ok promotion_accounts_for [OF reachable_ok [OF assms]] by (auto simp: list_all_iff)
  moreover have "distinct (map (\<lambda>r. asset_id (pr_asset r)) (ps_records ?res))"
  proof -
    have "mset (map (\<lambda>r. asset_id (pr_asset r)) (ps_records ?res)) = mset (map pq_asset_id qs)"
      using arg_cong [OF fields(2), of mset] by (simp only: mset_map promotion_result.select_convs mset_sort)
    moreover have "distinct (map pq_asset_id qs)" using ok by (elim conjE)
    ultimately show ?thesis by (rule distinct_of_mset)
  qed
  from find_unique [OF this] have
    "list_all (\<lambda>r. durable_identity_for_asset ?res (asset_id (pr_asset r)) = Some (pr_identity r)) (ps_records ?res)"
    by (auto simp: list_all_iff durable_identity_for_asset_def)
  ultimately show ?thesis
    using ok by (simp add: promote_lifecycle_identities_def Inr requests_in_order_def list_all_iff)
qed

definition example_promotion :: promotion_request where
  "example_promotion =
     \<lparr>pq_identity = ''B'', pq_asset_id = ''asset-1'', pq_name = ''Drive 1'', pq_kind = DEVICE, pq_by = ''operator'',
      pq_at = example_stamp 3, pq_rationale = ''commissioned'', pq_device_type = Some DRIVE, pq_manufacturer = None,
      pq_model = None, pq_catalog = None, pq_acknowledge = False\<rparr>"

theorem promotion_accounts_witness:
  "\<exists>res. promote_lifecycle_identities (advanced_ledger initial_lifecycle [example_directive ''A'' ''B'']) [example_promotion] = Inr res \<and>
     mset (map pr_identity (ps_records res)) + mset (ps_unpromoted res) = {#''B''#}"
proof -
  let ?st = "advanced_ledger initial_lifecycle [example_directive ''A'' ''B'']"
  have "succeeds (promote_lifecycle_identities ?st [example_promotion])" by code_simp
  then obtain res where "promote_lifecycle_identities ?st [example_promotion] = Inr res" by (auto simp: succeeds_iff)
  with promotion_accounts [OF example_reachable, of "[example_promotion]"] show ?thesis by (simp add: example_active)
qed

end
