(* ===== verification/Number_Text.thy ===== *)
theory Number_Text imports Py_Text begin

text \<open>
  Laws of \<open>str(n)\<close>, \<open>int(s)\<close>, \<open>str.join\<close> and \<open>str.split\<close>: a number is read back
  from its text, and pieces without the separator are read back from their join. The keys and
  cursors of the discovery code rest on them.
\<close>

section \<open>Numbers\<close>

lemma code_digit [simp]: "d < 10 \<Longrightarrow> code (digit_char d) = 48 + d"
  by (simp add: digit_char_def code_char_of)

lemma isdigit_digit_char [simp]: "d < 10 \<Longrightarrow> py_isdigit (digit_char d)"
  by (simp add: py_isdigit_def)

lemma nat_str_digits: "list_all py_isdigit (nat_str n)"
  by (induction n rule: nat_str.induct) (subst nat_str.simps, simp)

lemma nat_str_nonempty [simp]: "nat_str n \<noteq> []"
  by (subst nat_str.simps) simp

lemma digits_value_snoc: "digits_value (s @ [c]) = 10 * digits_value s + (code c - 48)"
  by (simp add: digits_value_def)

lemma digits_value_nat_str [simp]: "digits_value (nat_str n) = n"
proof (induction n rule: nat_str.induct)
  case (1 n)
  show ?case
  proof (cases "n < 10")
    case True
    then show ?thesis by (simp add: nat_str.simps [of n] digits_value_def)
  next
    case False
    with 1 show ?thesis by (simp add: nat_str.simps [of n] digits_value_snoc)
  qed
qed

lemma strip_underscores_digits: "list_all py_isdigit s \<Longrightarrow> b \<or> s \<noteq> [] \<Longrightarrow> strip_underscores b s = Some s"
  by (induction b s rule: strip_underscores.induct) auto

lemma digit_not_space: "py_isdigit c \<Longrightarrow> \<not> py_isspace c"
  by (auto simp: py_isdigit_def py_isspace_def)

lemma strip_solid:
  assumes "s = [] \<or> \<not> py_isspace (hd s) \<and> \<not> py_isspace (last s)"
  shows "py_strip s = s"
proof -
  have "dropWhile py_isspace s = s" "dropWhile py_isspace (rev s) = rev s"
    using assms by (auto simp: dropWhile_eq_self_iff hd_rev)
  then show ?thesis by (simp add: py_strip_def py_lstrip_def)
qed

lemma minus_not_digit: "\<not> py_isdigit CHR ''-''" "\<not> py_isdigit CHR ''+''" "\<not> py_isspace CHR ''-''"
  by (simp_all add: py_isdigit_def py_isspace_def code_def)

lemma digits_strip: "list_all py_isdigit s \<Longrightarrow> py_strip s = s"
  by (rule strip_solid) (auto simp: list_all_iff digit_not_space)

lemma py_int_nat_str: "py_int (nat_str n) = Some (int n)"
proof -
  obtain c cs where s: "nat_str n = c # cs" by (cases "nat_str n") simp_all
  then have "py_isdigit c" using nat_str_digits [of n] by simp
  then have "c \<noteq> CHR ''-''" "c \<noteq> CHR ''+''" using minus_not_digit by auto
  moreover have "strip_underscores False (nat_str n) = Some (nat_str n)"
    by (rule strip_underscores_digits) (simp_all add: nat_str_digits)
  moreover have "py_strip (nat_str n) = nat_str n" by (rule digits_strip [OF nat_str_digits])
  ultimately show ?thesis using s digits_value_nat_str [of n] by (simp add: py_int_def)
qed

lemma py_int_str: "py_int (int_str v) = Some v"
proof (cases "v < 0")
  case True
  let ?d = "nat_str (nat (- v))"
  have "py_strip (CHR ''-'' # ?d) = CHR ''-'' # ?d"
    using nat_str_digits [of "nat (- v)"] by (intro strip_solid) (simp add: minus_not_digit digit_not_space list_all_iff)
  moreover have "strip_underscores False ?d = Some ?d"
    by (rule strip_underscores_digits) (simp_all add: nat_str_digits)
  ultimately show ?thesis using True by (simp add: int_str_def py_int_def)
next
  case False
  then show ?thesis by (simp add: int_str_def py_int_nat_str)
qed

lemma int_str_inject: "int_str v = int_str w \<longleftrightarrow> v = w"
  by (metis py_int_str option.inject)

lemma nat_str_inject: "nat_str n = nat_str k \<longleftrightarrow> n = k"
  by (metis digits_value_nat_str)

lemma int_str_chars: "list_all (\<lambda>c. py_isdigit c \<or> c = CHR ''-'') (int_str v)"
  using nat_str_digits [of "nat v"] nat_str_digits [of "nat (- v)"] by (auto simp: int_str_def list_all_iff)

section \<open>Separators\<close>

lemma separator_unique:
  assumes "c \<notin> set a" "c \<notin> set a'" "a @ c # b = a' @ c # b'"
  shows "a = a' \<and> b = b'"
  using assms
proof (induction a arbitrary: a')
  case Nil
  then show ?case by (cases a') auto
next
  case (Cons x xs)
  then show ?case by (cases a') auto
qed

lemma split_on_solid: "c \<notin> set s \<Longrightarrow> split_on c s = [s]"
  by (induction s) auto

lemma split_on_piece: "c \<notin> set s \<Longrightarrow> split_on c (s @ c # t) = s # split_on c t"
  by (induction s) auto

lemma split_join: "ps \<noteq> [] \<Longrightarrow> list_all (\<lambda>p. c \<notin> set p) ps \<Longrightarrow> split_on c (join [c] ps) = ps"
proof (induction ps)
  case (Cons p ps)
  have p: "c \<notin> set p" using Cons.prems(2) by simp
  show ?case
  proof (cases "ps = []")
    case True
    with p show ?thesis by (simp add: split_on_solid)
  next
    case False
    then have "join [c] (p # ps) = p @ c # join [c] ps" by (cases ps) simp_all
    moreover have "list_all (\<lambda>p. c \<notin> set p) ps" using Cons.prems(2) by simp
    then have "split_on c (join [c] ps) = ps" by (rule Cons.IH [OF False])
    ultimately show ?thesis using split_on_piece [OF p, of "join [c] ps"] by (simp only:)
  qed
qed simp

lemma join_inject:
  assumes "ps \<noteq> []" "qs \<noteq> []" "list_all (\<lambda>p. c \<notin> set p) ps" "list_all (\<lambda>p. c \<notin> set p) qs" "join [c] ps = join [c] qs"
  shows "ps = qs"
  using split_join [OF assms(1,3)] split_join [OF assms(2,4)] assms(5) by metis

text \<open>\<open>s.split(c, maxsplit=n)\<close>.\<close>

fun split_max :: "nat \<Rightarrow> char \<Rightarrow> string \<Rightarrow> string list" where
  "split_max 0 c s = [s]"
| "split_max (Suc n) c s =
     (let p = takeWhile (\<lambda>x. x \<noteq> c) s
      in if length p = length s then [s] else p # split_max n c (drop (Suc (length p)) s))"

lemma split_max_piece [simp]: "c \<notin> set p \<Longrightarrow> split_max (Suc n) c (p @ c # s) = p # split_max n c s"
proof -
  assume "c \<notin> set p"
  then have "takeWhile (\<lambda>x. x \<noteq> c) (p @ c # s) = p" by (induction p) auto
  then show ?thesis by (simp add: Let_def)
qed

end
