(* ===== verification/Byte_Codec.thy ===== *)
theory Byte_Codec imports Prelude "HOL-Library.Word" begin

text \<open>
  Python's \<open>int.from_bytes\<close> and \<open>int.to_bytes\<close> on which the packed images of
  \<open>runtime/cyclic_io.py\<close> rest, with both byte orders and signedness. The locale
  \<open>byte_codec\<close> is the contract the image layouts use: encoding fails exactly outside the range
  of the width, and encoding and decoding are inverse. It is interpreted on both byte orders.
\<close>

type_synonym byte = "8 word"

datatype byte_order = BO_LITTLE | BO_BIG

section \<open>Integers as bytes\<close>

fun unsigned_value :: "byte list \<Rightarrow> int" where
  "unsigned_value [] = 0"
| "unsigned_value (b # bs) = uint b + 256 * unsigned_value bs"

fun unsigned_bytes :: "nat \<Rightarrow> int \<Rightarrow> byte list" where
  "unsigned_bytes 0 v = []"
| "unsigned_bytes (Suc n) v = word_of_int (v mod 256) # unsigned_bytes n (v div 256)"

definition ordered :: "byte_order \<Rightarrow> byte list \<Rightarrow> byte list" where
  "ordered bo bs = (case bo of BO_LITTLE \<Rightarrow> bs | BO_BIG \<Rightarrow> rev bs)"

definition from_bytes :: "byte_order \<Rightarrow> bool \<Rightarrow> byte list \<Rightarrow> int" where
  "from_bytes bo sg bs =
     (let v = unsigned_value (ordered bo bs)
      in if sg \<and> bs \<noteq> [] \<and> 256 ^ length bs \<le> 2 * v then v - 256 ^ length bs else v)"

text \<open>The range of \<open>n\<close> bytes; with no byte, only zero, signed or not.\<close>

definition fits :: "bool \<Rightarrow> nat \<Rightarrow> int \<Rightarrow> bool" where
  "fits sg n v =
     (if sg \<and> n \<noteq> 0 then - (256 ^ n) \<le> 2 * v \<and> 2 * v < 256 ^ n else 0 \<le> v \<and> v < 256 ^ n)"

text \<open>\<open>None\<close> is the \<open>OverflowError\<close>.\<close>

definition to_bytes :: "byte_order \<Rightarrow> bool \<Rightarrow> nat \<Rightarrow> int \<Rightarrow> byte list option" where
  "to_bytes bo sg n v =
     (if fits sg n v then Some (ordered bo (unsigned_bytes n (v mod 256 ^ n))) else None)"

lemma ordered_simps [simp]:
  "length (ordered bo bs) = length bs" "ordered bo (ordered bo bs) = bs" "ordered bo [] = []"
  by (cases bo; simp add: ordered_def)+

lemma length_unsigned_bytes [simp]: "length (unsigned_bytes n v) = n"
  by (induction n arbitrary: v) simp_all

lemma unsigned_value_bounds: "0 \<le> unsigned_value bs \<and> unsigned_value bs < 256 ^ length bs"
proof (induction bs)
  case (Cons b bs)
  have "0 \<le> uint b" "uint b < 256" using uint_lt2p [of b] by simp_all
  with Cons show ?case by simp
qed simp

lemma unsigned_value_bytes: "0 \<le> v \<Longrightarrow> v < 256 ^ n \<Longrightarrow> unsigned_value (unsigned_bytes n v) = v"
proof (induction n arbitrary: v)
  case (Suc n)
  have "256 * (v div 256) \<le> v" "0 \<le> v div 256" using Suc.prems by simp_all
  with Suc.prems have "unsigned_value (unsigned_bytes n (v div 256)) = v div 256"
    by (intro Suc.IH) simp_all
  moreover have "uint (word_of_int (v mod 256) :: byte) = v mod 256"
    by (simp add: unsigned_of_int take_bit_eq_mod)
  ultimately show ?case by simp
qed simp

lemma unsigned_bytes_value: "unsigned_bytes (length bs) (unsigned_value bs) = bs"
proof (induction bs)
  case (Cons b bs)
  have "0 \<le> uint b" "uint b < 256" using uint_lt2p [of b] by simp_all
  then have "(uint b + 256 * unsigned_value bs) mod 256 = uint b"
    "(uint b + 256 * unsigned_value bs) div 256 = unsigned_value bs" by simp_all
  with Cons show ?case by simp
qed simp

section \<open>The contract\<close>

text \<open>
  What the layouts rely on: \<open>enc\<close> writes \<open>n\<close> bytes or fails, \<open>dec\<close> reads any bytes.
\<close>

locale byte_codec =
  fixes enc :: "bool \<Rightarrow> nat \<Rightarrow> int \<Rightarrow> byte list option" and dec :: "bool \<Rightarrow> byte list \<Rightarrow> int"
  assumes enc_fails: "enc s n v = None \<longleftrightarrow> \<not> fits s n v"
    and enc_length: "enc s n v = Some bs \<Longrightarrow> length bs = n"
    and dec_enc: "enc s n v = Some bs \<Longrightarrow> dec s bs = v"
    and enc_dec: "enc s (length bs) (dec s bs) = Some bs"
begin

lemma dec_fits: "fits s (length bs) (dec s bs)"
  using enc_fails [of s "length bs" "dec s bs"] enc_dec [of s bs] by simp

lemma dec_inject: "length bs = length cs \<Longrightarrow> dec s bs = dec s cs \<longleftrightarrow> bs = cs"
  by (metis enc_dec option.inject)

lemma enc_total: "fits s n v \<Longrightarrow> \<exists>bs. enc s n v = Some bs \<and> length bs = n \<and> dec s bs = v"
  using enc_fails [of s n v] enc_length [of s n v] dec_enc [of s n v] by (cases "enc s n v") auto

end

lemma from_to_bytes:
  assumes "to_bytes bo s n v = Some bs"
  shows "from_bytes bo s bs = v"
proof -
  let ?w = "v mod 256 ^ n"
  have w: "unsigned_value (unsigned_bytes n ?w) = ?w" by (rule unsigned_value_bytes) simp_all
  have f: "fits s n v" and bs: "bs = ordered bo (unsigned_bytes n ?w)"
    using assms by (auto simp: to_bytes_def split: if_splits)
  have len: "length bs = n" by (simp add: bs)
  have "?w = (if v < 0 then v + 256 ^ n else v)"
  proof (cases "v < 0")
    case True
    with f have "0 \<le> v + 256 ^ n" "v + 256 ^ n < 256 ^ n" by (auto simp: fits_def split: if_splits)
    then have "(v + 256 ^ n) mod 256 ^ n = v + 256 ^ n" by (rule mod_pos_pos_trivial)
    with True show ?thesis by simp
  next
    case False
    with f have "v < 256 ^ n" by (auto simp: fits_def split: if_splits)
    with False show ?thesis by simp
  qed
  moreover have "bs = [] \<longleftrightarrow> n = 0" using len by auto
  ultimately show ?thesis
    using f w len unfolding from_bytes_def Let_def
    by (auto simp: bs fits_def split: if_splits)
qed

lemma to_from_bytes: "to_bytes bo s (length bs) (from_bytes bo s bs) = Some bs"
proof -
  let ?n = "length bs"
  let ?v = "unsigned_value (ordered bo bs)"
  have b: "0 \<le> ?v" "?v < 256 ^ ?n" using unsigned_value_bounds [of "ordered bo bs"] by simp_all
  have f: "fits s ?n (from_bytes bo s bs)"
    using b by (auto simp: fits_def from_bytes_def Let_def)
  have "from_bytes bo s bs mod 256 ^ ?n = ?v"
    using b by (simp add: from_bytes_def Let_def)
  then have "unsigned_bytes ?n (from_bytes bo s bs mod 256 ^ ?n) = ordered bo bs"
    using unsigned_bytes_value [of "ordered bo bs"] by simp
  with f show ?thesis by (simp add: to_bytes_def)
qed

lemma to_bytes_length: "to_bytes bo s n v = Some bs \<Longrightarrow> length bs = n"
  by (auto simp: to_bytes_def split: if_splits)

lemma to_bytes_fails: "to_bytes bo s n v = None \<longleftrightarrow> \<not> fits s n v"
  by (simp add: to_bytes_def)

interpretation python_bytes: byte_codec "to_bytes bo" "from_bytes bo" for bo
  by unfold_locales (fact to_bytes_fails to_bytes_length from_to_bytes to_from_bytes)+

lemmas codec_laws =
  python_bytes.enc_fails python_bytes.enc_length python_bytes.dec_enc python_bytes.enc_dec

end
