(* ===== verification/Cip_Routes.thy ===== *)
theory Cip_Routes imports Number_Text Byte_Codec Discovery_Acceptance begin

text \<open>
  Targets, routes and permits of live discovery: \<open>DiscoveryTarget\<close> of
  \<open>discovery/contracts.py\<close>, \<open>discovery/cip_routes.py\<close>, the permit and its validation in
  \<open>discovery/cip_pycomm3_routed.py\<close>, and \<open>discovery/cip_target_policy.py\<close>. The constructors of the
  dataclasses raise on the first violated check; here a function gives that error, or none.
\<close>

section \<open>Targets\<close>

record target =
  tg_address :: string
  tg_route :: "int list"
  tg_label :: "string option"

definition target_ok :: "target \<Rightarrow> bool" where
  "target_ok t = (tg_address t \<noteq> [] \<and> tg_address t = py_strip (tg_address t) \<and> list_all (\<lambda>n. 0 \<le> n) (tg_route t))"

definition target_key :: "target \<Rightarrow> string" where
  "target_key t = tg_address t @ ''|'' @ join ''/'' (map int_str (tg_route t))"

section \<open>Routes\<close>

datatype link = Link_Int int | Link_Text string | Link_Bytes "byte list"

record segment =
  sg_port :: int
  sg_link :: link

datatype route_error =
    Port_Range
  | Link_Negative
  | Link_Text_Empty
  | Link_Bytes_Empty
  | Gateway_Routed
  | Route_Empty
  | Depth_Not_Positive
  | Depth_Exceeded
  | Label_Untrimmed

definition segment_error :: "segment \<Rightarrow> route_error option" where
  "segment_error s =
     (if sg_port s \<le> 0 \<or> 0xFFFF < sg_port s then Some Port_Range
      else case sg_link s of
             Link_Int n \<Rightarrow> if n < 0 then Some Link_Negative else None
           | Link_Text t \<Rightarrow> if t = [] then Some Link_Text_Empty else None
           | Link_Bytes b \<Rightarrow> if b = [] then Some Link_Bytes_Empty else None)"

text \<open>\<open>bytes.hex()\<close>.\<close>

definition hex_byte :: "byte \<Rightarrow> string" where
  "hex_byte b = [hex_digit (unat b div 16), hex_digit (unat b mod 16)]"

definition hex_text :: "byte list \<Rightarrow> string" where
  "hex_text bs = concat (map hex_byte bs)"

definition link_key :: "link \<Rightarrow> string" where
  "link_key k =
     (case k of
        Link_Int n \<Rightarrow> ''integer:'' @ int_str n
      | Link_Bytes b \<Rightarrow> ''bytes:'' @ hex_text b
      | Link_Text t \<Rightarrow> ''text:'' @ t)"

definition segment_key :: "segment \<Rightarrow> string" where
  "segment_key s = ''port:'' @ int_str (sg_port s) @ ''|link:'' @ link_key (sg_link s)"

record route =
  rt_gateway :: target
  rt_segments :: "segment list"
  rt_depth :: int
  rt_label :: "string option"

definition route_error :: "route \<Rightarrow> route_error option" where
  "route_error r =
     (if tg_route (rt_gateway r) \<noteq> [] then Some Gateway_Routed
      else if rt_segments r = [] then Some Route_Empty
      else if rt_depth r \<le> 0 then Some Depth_Not_Positive
      else if rt_depth r < int (length (rt_segments r)) then Some Depth_Exceeded
      else case rt_label r of
             Some l \<Rightarrow> if l \<noteq> py_strip l then Some Label_Untrimmed else None
           | None \<Rightarrow> None)"

definition route_key :: "route \<Rightarrow> string" where
  "route_key r = target_key (rt_gateway r) @ ''|'' @ join ''/'' (map segment_key (rt_segments r))"

section \<open>Permits\<close>

record permit =
  pm_reference :: string
  pm_by :: string
  pm_at :: stamp
  pm_allowed :: "string list"

datatype permit_error =
    Reference_Empty
  | Confirmer_Empty
  | Confirmation_Naive
  | Allowed_Empty
  | Allowed_Repeated
  | Not_Confirmed
  | Reference_Mismatch
  | Route_Not_Confirmed "string list"

definition permit_error :: "permit \<Rightarrow> permit_error option" where
  "permit_error p =
     (if py_strip (pm_reference p) = [] then Some Reference_Empty
      else if py_strip (pm_by p) = [] then Some Confirmer_Empty
      else if naive (pm_at p) then Some Confirmation_Naive
      else if pm_allowed p = [] then Some Allowed_Empty
      else if \<not> distinct (pm_allowed p) then Some Allowed_Repeated
      else None)"

definition validate_routed_execution :: "permit option \<Rightarrow> string \<Rightarrow> string list \<Rightarrow> permit_error option" where
  "validate_routed_execution permit reference keys =
     (case permit of
        None \<Rightarrow> Some Not_Confirmed
      | Some p \<Rightarrow>
          if pm_reference p \<noteq> reference then Some Reference_Mismatch
          else let absent = sorted_set (filter (\<lambda>k. k \<notin> set (pm_allowed p)) keys)
               in if absent \<noteq> [] then Some (Route_Not_Confirmed absent) else None)"

section \<open>The local-only policy\<close>

text \<open>\<open>ipaddress.IPv4Address\<close> on text: four decimal octets without leading zeros.\<close>

definition octet :: "string \<Rightarrow> nat option" where
  "octet s =
     (if s = [] \<or> \<not> list_all py_isdigit s \<or> 3 < length s \<or> s \<noteq> ''0'' \<and> hd s = CHR ''0'' \<or> 255 < digits_value s
      then None else Some (digits_value s))"

definition ipv4 :: "string \<Rightarrow> nat list option" where
  "ipv4 s =
     (let octets = map octet (split_on CHR ''.'' s)
      in if length octets = 4 \<and> None \<notin> set octets then Some (map the octets) else None)"

datatype policy_error = IPv4_Literal_Required | Public_Target_Rejected

fun permitted_local :: "nat list \<Rightarrow> bool" where
  "permitted_local [a, b, c, d] =
     (a = 10 \<or> a = 172 \<and> 16 \<le> b \<and> b < 32 \<or> a = 192 \<and> b = 168 \<or> a = 127 \<or> a = 169 \<and> b = 254)"
| "permitted_local _ = False"

definition live_target_error :: "target \<Rightarrow> policy_error option" where
  "live_target_error t =
     (case ipv4 (tg_address t) of
        None \<Rightarrow> Some IPv4_Literal_Required
      | Some address \<Rightarrow> if permitted_local address then None else Some Public_Target_Rejected)"

section \<open>Keys and what they identify\<close>

text \<open>A key identifies the route when the parts written into it are free of its separators.\<close>

definition plain_link :: "link \<Rightarrow> bool" where
  "plain_link k = (case k of Link_Text t \<Rightarrow> CHR ''/'' \<notin> set t | _ \<Rightarrow> True)"

definition plain_route :: "route \<Rightarrow> bool" where
  "plain_route r = (CHR ''|'' \<notin> set (tg_address (rt_gateway r)) \<and> list_all (\<lambda>s. plain_link (sg_link s)) (rt_segments r))"

definition same_path :: "route \<Rightarrow> route \<Rightarrow> bool" where
  "same_path r q = (tg_address (rt_gateway r) = tg_address (rt_gateway q) \<and> rt_segments r = rt_segments q)"

lemma hex_digits: "n < 16 \<Longrightarrow> hex_digit n = ''0123456789abcdef'' ! n"
proof -
  have "list_all (\<lambda>n. hex_digit n = ''0123456789abcdef'' ! n) [0..<16]" by code_simp
  then show "n < 16 \<Longrightarrow> hex_digit n = ''0123456789abcdef'' ! n" by (simp only: list_all_iff set_upt) (drule bspec [of _ _ n], simp_all)
qed

lemma hex_digit_inject: "c < 16 \<Longrightarrow> d < 16 \<Longrightarrow> hex_digit c = hex_digit d \<longleftrightarrow> c = d"
proof -
  have "distinct ''0123456789abcdef''" by code_simp
  then show "c < 16 \<Longrightarrow> d < 16 \<Longrightarrow> hex_digit c = hex_digit d \<longleftrightarrow> c = d"
    by (simp add: hex_digits nth_eq_iff_index_eq del: distinct.simps nth_Cons_numeral)
qed

lemma nibbles: "unat b div 16 < 16" "unat b mod 16 < 16" for b :: byte
  using unsigned_less [of b, where 'a = nat] by simp_all

lemma hex_byte_inject: "hex_byte b = hex_byte c \<longleftrightarrow> b = c"
proof -
  have "hex_byte b = hex_byte c \<longleftrightarrow> unat b div 16 = unat c div 16 \<and> unat b mod 16 = unat c mod 16"
    by (simp add: hex_byte_def hex_digit_inject nibbles)
  also have "\<dots> \<longleftrightarrow> unat b = unat c" by (metis div_mult_mod_eq)
  also have "\<dots> \<longleftrightarrow> b = c" by (simp only: word_unat_eq_iff)
  finally show ?thesis .
qed

lemma hex_text_inject: "hex_text bs = hex_text cs \<longleftrightarrow> bs = cs"
proof (induction bs arbitrary: cs)
  case Nil
  show ?case by (cases cs) (simp_all add: hex_text_def hex_byte_def)
next
  case (Cons b bs)
  show ?case
  proof (cases cs)
    case (Cons c cs')
    have "hex_text (b # bs) = hex_text (c # cs') \<longleftrightarrow> hex_byte b = hex_byte c \<and> hex_text bs = hex_text cs'"
      by (simp add: hex_text_def hex_byte_def)
    with Cons.IH [of cs'] Cons show ?thesis by (simp add: hex_byte_inject)
  qed (simp add: hex_text_def hex_byte_def)
qed

lemma hex_text_chars: "(\<And>b. set (hex_byte b) \<subseteq> S) \<Longrightarrow> set (hex_text bs) \<subseteq> S"
  by (induction bs) (simp_all add: hex_text_def)

lemma hex_text_solid: "c \<notin> set ''0123456789abcdef'' \<Longrightarrow> c \<notin> set (hex_text bs)"
proof -
  have "hex_digit n \<in> set ''0123456789abcdef''" if "n < 16" for n
    using that by (simp only: hex_digits) (rule nth_mem, simp)
  then have "set (hex_byte x) \<subseteq> set ''0123456789abcdef''" for x
    unfolding hex_byte_def using nibbles [of x] by simp
  from hex_text_chars [OF this] show "c \<notin> set ''0123456789abcdef'' \<Longrightarrow> c \<notin> set (hex_text bs)" by (rule contra_subsetD)
qed

lemma int_str_solid: "\<not> py_isdigit c \<Longrightarrow> c \<noteq> CHR ''-'' \<Longrightarrow> c \<notin> set (int_str n)"
  using int_str_chars [of n] by (auto simp: list_all_iff)

lemma separators_not_digits: "\<not> py_isdigit CHR ''/''" "\<not> py_isdigit CHR ''|''" "\<not> py_isdigit CHR '':''"
  by (simp_all add: py_isdigit_def code_def)

lemma link_key_inject: "link_key k = link_key l \<longleftrightarrow> k = l"
  by (cases k; cases l) (simp_all add: link_key_def int_str_inject hex_text_inject)

lemma segment_key_inject: "segment_key s = segment_key t \<longleftrightarrow> s = t"
proof
  assume "segment_key s = segment_key t"
  then have "int_str (sg_port s) @ CHR ''|'' # ''link:'' @ link_key (sg_link s) =
      int_str (sg_port t) @ CHR ''|'' # ''link:'' @ link_key (sg_link t)"
    by (simp add: segment_key_def)
  then have "int_str (sg_port s) = int_str (sg_port t) \<and>
      ''link:'' @ link_key (sg_link s) = ''link:'' @ link_key (sg_link t)"
    by (intro separator_unique [of "CHR ''|''"]) (simp_all add: int_str_solid separators_not_digits)
  then show "s = t" by (simp add: int_str_inject link_key_inject)
qed simp

lemma segment_key_solid: "plain_link (sg_link s) \<Longrightarrow> CHR ''/'' \<notin> set (segment_key s)"
  by (cases "sg_link s")
    (simp_all add: segment_key_def link_key_def plain_link_def int_str_solid separators_not_digits hex_text_solid)

lemma route_key_identifies:
  assumes "route_error r = None" "route_error q = None" "plain_route r" "plain_route q"
  shows "route_key r = route_key q \<longleftrightarrow> same_path r q"
proof
  assume keys: "route_key r = route_key q"
  have routed: "tg_route (rt_gateway r) = []" "tg_route (rt_gateway q) = []" "rt_segments r \<noteq> []" "rt_segments q \<noteq> []"
    using assms(1,2) by (auto simp: route_error_def split: if_splits)
  then have "tg_address (rt_gateway r) @ CHR ''|'' # ''|'' @ join ''/'' (map segment_key (rt_segments r)) =
      tg_address (rt_gateway q) @ CHR ''|'' # ''|'' @ join ''/'' (map segment_key (rt_segments q))"
    using keys by (simp add: route_key_def target_key_def)
  then have *: "tg_address (rt_gateway r) = tg_address (rt_gateway q) \<and>
      ''|'' @ join ''/'' (map segment_key (rt_segments r)) = ''|'' @ join ''/'' (map segment_key (rt_segments q))"
    using assms(3,4) by (intro separator_unique [of "CHR ''|''"]) (simp_all add: plain_route_def)
  have "map segment_key (rt_segments r) = map segment_key (rt_segments q)"
    using * assms(3,4) routed
    by (intro join_inject [of _ _ "CHR ''/''"]) (simp_all add: plain_route_def list_all_iff segment_key_solid)
  then have "rt_segments r = rt_segments q" by (rule map_injective) (simp add: inj_def segment_key_inject)
  with * show "same_path r q" by (simp add: same_path_def)
next
  assume "same_path r q"
  moreover have "tg_route (rt_gateway r) = []" "tg_route (rt_gateway q) = []"
    using assms(1,2) by (auto simp: route_error_def split: if_splits)
  ultimately show "route_key r = route_key q" by (simp add: same_path_def route_key_def target_key_def)
qed

section \<open>What a permit covers\<close>

lemma validate_one: "validate_routed_execution (Some p) reference [k] = None \<longleftrightarrow> pm_reference p = reference \<and> k \<in> set (pm_allowed p)"
  by (simp add: validate_routed_execution_def sorted_set_def)

lemma routes_in_order: "list_all (\<lambda>q. route_error q = None \<and> plain_route q) (r # rs) \<Longrightarrow>
    route_key r \<in> route_key ` set rs \<longleftrightarrow> list_ex (same_path r) rs"
  by (induction rs) (simp_all add: route_key_identifies)

text \<open>C35. A permit for named routes covers exactly those routes. Where the addresses are free of the
  bar and the text links of the slash, a confirmed permit that lists the keys of some routes
  authorises a route exactly when its authorization reference is the permit's and the route leads through
  the same gateway and the same segments as one of them.\<close>

theorem permit_covers_routes:
  assumes "list_all (\<lambda>q. route_error q = None \<and> plain_route q) (r # rs)" "pm_allowed p = map route_key rs"
  shows "validate_routed_execution (Some p) reference [route_key r] = None \<longleftrightarrow>
    pm_reference p = reference \<and> list_ex (same_path r) rs"
  using routes_in_order [OF assms(1)] by (simp add: validate_one assms(2))

definition slot_route :: "link list \<Rightarrow> route" where
  "slot_route links =
     \<lparr>rt_gateway = \<lparr>tg_address = ''10.0.0.5'', tg_route = [], tg_label = None\<rparr>,
      rt_segments = map (\<lambda>k. \<lparr>sg_port = 1, sg_link = k\<rparr>) links, rt_depth = 4, rt_label = None\<rparr>"

definition slot_permit :: "route list \<Rightarrow> permit" where
  "slot_permit rs =
     \<lparr>pm_reference = ''auth-1'', pm_by = ''operator'', pm_at = \<lparr>instant = 0, zone = Some ''UTC''\<rparr>,
      pm_allowed = map route_key rs\<rparr>"

theorem permit_covers_routes_witness:
  "validate_routed_execution (Some (slot_permit [slot_route [Link_Int 0], slot_route [Link_Text ''bridge'', Link_Int 3]]))
     ''auth-1'' [route_key (slot_route [Link_Int 0])] = None"
proof -
  let ?r = "slot_route [Link_Int 0]"
  let ?rs = "[slot_route [Link_Int 0], slot_route [Link_Text ''bridge'', Link_Int 3]]"
  have ok: "list_all (\<lambda>q. route_error q = None \<and> plain_route q) (?r # ?rs)" by code_simp
  have "list_ex (same_path ?r) ?rs" by (simp add: same_path_def)
  then show ?thesis
    by (subst permit_covers_routes [OF ok]) (simp_all add: slot_permit_def)
qed

text \<open>Without that the keys are ambiguous: a text link can spell a further segment, and the permit for
  one route covers the other.\<close>

lemma permit_covers_other_route:
  "\<not> same_path (slot_route [Link_Text ''a/port:1|link:integer:3'']) (slot_route [Link_Text ''a'', Link_Int 3]) \<and>
   validate_routed_execution (Some (slot_permit [slot_route [Link_Text ''a'', Link_Int 3]])) ''auth-1''
     [route_key (slot_route [Link_Text ''a/port:1|link:integer:3''])] = None"
  by code_simp

end
