(* ===== verification/Utf8.thy ===== *)
theory Utf8 imports Byte_Codec begin

text \<open>
  Text beyond ASCII, as lists of code points: Python's strict \<open>bytes.decode("utf-8")\<close> and the
  methods of \<open>str\<close> the symbol codec uses on its result. The decoder accepts exactly the encodings of
  scalar values (lemma \<open>utf8_decode_iff\<close>): overlong forms, surrogates and truncated sequences are a
  \<open>UnicodeDecodeError\<close>, here \<open>None\<close>.
\<close>

type_synonym code_points = "nat list"

section \<open>Code points\<close>

definition scalar :: "nat \<Rightarrow> bool" where
  "scalar c = (c < 0x110000 \<and> \<not> (0xD800 \<le> c \<and> c < 0xE000))"

text \<open>The continuation byte with the last six bits of \<open>c\<close>.\<close>

definition tail_byte :: "nat \<Rightarrow> nat" where
  "tail_byte c = 0x80 + c mod 64"

definition encode_point :: "nat \<Rightarrow> nat list" where
  "encode_point c =
     (if c < 0x80 then [c]
      else if c < 0x800 then [0xC0 + c div 64, tail_byte c]
      else if c < 0x10000 then [0xE0 + c div 64 div 64, tail_byte (c div 64), tail_byte c]
      else [0xF0 + c div 64 div 64 div 64, tail_byte (c div 64 div 64), tail_byte (c div 64), tail_byte c])"

section \<open>Decoding\<close>

text \<open>A continuation byte appended to the bits read so far.\<close>

definition continue :: "nat \<Rightarrow> nat \<Rightarrow> nat option" where
  "continue bits b = (if 0x80 \<le> b \<and> b < 0xC0 then Some (64 * bits + (b - 0x80)) else None)"

fun continue_all :: "nat \<Rightarrow> nat list \<Rightarrow> nat option" where
  "continue_all bits [] = Some bits"
| "continue_all bits (b # bs) = Option.bind (continue bits b) (\<lambda>c. continue_all c bs)"

text \<open>The first bits of a sequence, how many bytes follow and the least value that needs as many.\<close>

definition lead :: "nat \<Rightarrow> (nat \<times> nat \<times> nat) option" where
  "lead b =
     (if b < 0x80 then Some (b, 0, 0)
      else if 0xC0 \<le> b \<and> b < 0xE0 then Some (b - 0xC0, 1, 0x80)
      else if 0xE0 \<le> b \<and> b < 0xF0 then Some (b - 0xE0, 2, 0x800)
      else if 0xF0 \<le> b \<and> b < 0xF8 then Some (b - 0xF0, 3, 0x10000)
      else None)"

fun utf8_next :: "nat list \<Rightarrow> (nat \<times> nat list) option" where
  "utf8_next [] = None"
| "utf8_next (b # bs) =
     (case lead b of
        None \<Rightarrow> None
      | Some (bits, n, least) \<Rightarrow>
          if length bs < n then None
          else case continue_all bits (take n bs) of
                 None \<Rightarrow> None
               | Some c \<Rightarrow> if least \<le> c \<and> scalar c then Some (c, drop n bs) else None)"

lemma utf8_next_shorter: "utf8_next bs = Some (c, rest) \<Longrightarrow> length rest < length bs"
  by (cases bs) (auto split: option.splits if_splits prod.splits)

function utf8_points :: "nat list \<Rightarrow> code_points option" where
  "utf8_points bs =
     (if bs = [] then Some []
      else case utf8_next bs of
             None \<Rightarrow> None
           | Some (c, rest) \<Rightarrow> map_option ((#) c) (utf8_points rest))"
  by pat_completeness auto
termination
  by (relation "measure length") (auto dest: utf8_next_shorter)

declare utf8_points.simps [simp del]

definition utf8_decode :: "byte list \<Rightarrow> code_points option" where
  "utf8_decode bs = utf8_points (map unat bs)"

definition utf8_encode :: "code_points \<Rightarrow> byte list" where
  "utf8_encode cs = map of_nat (concat (map encode_point cs))"

section \<open>The decoder accepts exactly the encodings\<close>

lemma tail_byte_bounds: "0x80 \<le> tail_byte c" "tail_byte c < 0xC0"
  by (simp_all add: tail_byte_def)

lemma continue_tail: "continue (c div 64) (tail_byte c) = Some c"
  using div_mult_mod_eq [of c 64] by (simp add: continue_def tail_byte_def mult.commute)

lemma continue_Some: "continue bits b = Some c \<longleftrightarrow> bits = c div 64 \<and> b = tail_byte c"
proof
  assume *: "continue bits b = Some c"
  then have b: "0x80 \<le> b" "b < 0xC0" and c: "c = 64 * bits + (b - 0x80)"
    by (auto simp: continue_def split: if_splits)
  then have "b - 0x80 < 64" by simp
  with c have "c div 64 = bits" "c mod 64 = b - 0x80" by simp_all
  with b show "bits = c div 64 \<and> b = tail_byte c" by (simp add: tail_byte_def)
next
  assume "bits = c div 64 \<and> b = tail_byte c"
  then show "continue bits b = Some c" by (simp add: continue_tail)
qed

lemma encode_point_bytes: "c < 0x110000 \<Longrightarrow> b \<in> set (encode_point c) \<Longrightarrow> b < 256"
  using tail_byte_bounds(2) [of c] tail_byte_bounds(2) [of "c div 64"] tail_byte_bounds(2) [of "c div 64 div 64"]
  by (auto simp: encode_point_def div_mult2_eq [symmetric] split: if_splits)

lemma utf8_next_encode:
  assumes "scalar c"
  shows "utf8_next (encode_point c @ rest) = Some (c, rest)"
proof -
  have bound: "c < 0x110000" using assms by (simp add: scalar_def)
  consider "c < 0x80" | "0x80 \<le> c" "c < 0x800" | "0x800 \<le> c" "c < 0x10000" | "0x10000 \<le> c" by linarith
  then show ?thesis
  proof cases
    case 1
    then show ?thesis using assms by (simp add: encode_point_def lead_def)
  next
    case 2
    then have "c div 64 < 32" by simp
    with 2 assms show ?thesis by (simp add: encode_point_def lead_def continue_tail)
  next
    case 3
    then have "c div 64 div 64 < 16" by simp
    with 3 assms show ?thesis by (simp add: encode_point_def lead_def continue_tail)
  next
    case 4
    then have "c div 64 div 64 div 64 < 8" using bound by simp
    with 4 assms show ?thesis by (simp add: encode_point_def lead_def continue_tail)
  qed
qed

lemma take_exact: "n \<le> length xs \<Longrightarrow> take n xs = ys \<longleftrightarrow> length ys = n \<and> xs = ys @ drop n xs"
  by (metis append_take_drop_id append_eq_conv_conj length_take min.absorb2)

lemma lead_Some:
  assumes "lead b = Some (bits, n, least)"
  shows "n = 0 \<and> b < 0x80 \<and> bits = b \<or>
    n = Suc 0 \<and> b = 0xC0 + bits \<and> bits < 32 \<and> least = 0x80 \<or>
    n = Suc (Suc 0) \<and> b = 0xE0 + bits \<and> bits < 16 \<and> least = 0x800 \<or>
    n = Suc (Suc (Suc 0)) \<and> b = 0xF0 + bits \<and> bits < 8 \<and> least = 0x10000"
proof -
  consider "b < 0x80" | "0xC0 \<le> b" "b < 0xE0" | "0xE0 \<le> b" "b < 0xF0" | "0xF0 \<le> b" "b < 0xF8"
    using assms by (force simp: lead_def split: if_splits)
  then show ?thesis
    using assms by cases (simp_all add: lead_def, auto)
qed

lemma utf8_next_Some:
  assumes "utf8_next bs = Some (c, rest)"
  shows "scalar c \<and> bs = encode_point c @ rest"
proof (cases bs)
  case (Cons b ys)
  from assms Cons obtain bits n least where l: "lead b = Some (bits, n, least)" and n: "n \<le> length ys" and
    c: "continue_all bits (take n ys) = Some c" "least \<le> c" "scalar c" and rest: "rest = drop n ys"
    by (auto split: option.splits if_splits prod.splits)
  have ys: "ys = take n ys @ rest" using rest by simp
  consider "n = 0 \<and> b < 0x80 \<and> bits = b"
    | "n = Suc 0 \<and> b = 0xC0 + bits \<and> bits < 32 \<and> least = 0x80"
    | "n = Suc (Suc 0) \<and> b = 0xE0 + bits \<and> bits < 16 \<and> least = 0x800"
    | "n = Suc (Suc (Suc 0)) \<and> b = 0xF0 + bits \<and> bits < 8 \<and> least = 0x10000"
    using lead_Some [OF l] by blast
  then have "b # take n ys = encode_point c"
  proof cases
    case 1
    then show ?thesis using c by (simp add: encode_point_def)
  next
    case 2
    then obtain x where t: "take n ys = [x]" using n by (cases ys) auto
    with c(1) have x: "bits = c div 64" "x = tail_byte c" by (auto simp: continue_Some bind_eq_Some_conv)
    with 2 have "c < 0x800" using div_mult_mod_eq [of c 64] mod_less_divisor [of 64 c] by linarith
    with 2 c(2) t x show ?thesis by (simp add: encode_point_def)
  next
    case 3
    then obtain x y where t: "take n ys = [x, y]" using n by (cases ys; cases "tl ys") auto
    with c(1) have x: "bits = c div 64 div 64" "x = tail_byte (c div 64)" "y = tail_byte c"
      by (auto simp: continue_Some bind_eq_Some_conv)
    with 3 have "c div 64 < 1024"
      using div_mult_mod_eq [of "c div 64" 64] mod_less_divisor [of 64 "c div 64"] by linarith
    then have "c < 0x10000" using div_mult_mod_eq [of c 64] mod_less_divisor [of 64 c] by linarith
    with 3 c(2) t x show ?thesis by (simp add: encode_point_def)
  next
    case 4
    then obtain x y z where t: "take n ys = [x, y, z]" using n by (cases ys; cases "tl ys"; cases "tl (tl ys)") auto
    with c(1) have x: "bits = c div 64 div 64 div 64" "x = tail_byte (c div 64 div 64)" "y = tail_byte (c div 64)"
      "z = tail_byte c"
      by (auto simp: continue_Some bind_eq_Some_conv)
    with 4 c(2) t x show ?thesis by (simp add: encode_point_def)
  qed
  then show ?thesis using c(3) ys Cons by (metis append_Cons)
qed (use assms in simp)

lemma utf8_points_iff: "utf8_points bs = Some cs \<longleftrightarrow> list_all scalar cs \<and> bs = concat (map encode_point cs)"
proof (induction bs arbitrary: cs rule: utf8_points.induct)
  case (1 bs)
  have nonempty: "encode_point c \<noteq> []" for c by (simp add: encode_point_def)
  show ?case
  proof (cases "bs = []")
    case True
    then show ?thesis using nonempty by (cases cs) (auto simp: utf8_points.simps [of "[]"])
  next
    case False
    show ?thesis
    proof (cases "utf8_next bs")
      case None
      then have "\<not> (list_all scalar cs \<and> bs = concat (map encode_point cs))"
        using False utf8_next_encode by (cases cs) auto
      with None False show ?thesis by (simp add: utf8_points.simps [of bs])
    next
      case (Some r)
      obtain c rest where r: "r = (c, rest)" by (cases r)
      note IH = "1.IH" [OF False Some r [symmetric]]
      from Some r have c: "scalar c" "bs = encode_point c @ rest" using utf8_next_Some by simp_all
      have "utf8_points bs = Some cs \<longleftrightarrow> (\<exists>ds. cs = c # ds \<and> utf8_points rest = Some ds)"
        using False Some r by (auto simp: utf8_points.simps [of bs])
      also have "\<dots> \<longleftrightarrow> (\<exists>ds. cs = c # ds \<and> list_all scalar ds \<and> rest = concat (map encode_point ds))"
        by (simp only: IH)
      also have "\<dots> \<longleftrightarrow> list_all scalar cs \<and> bs = concat (map encode_point cs)"
      proof
        assume *: "list_all scalar cs \<and> bs = concat (map encode_point cs)"
        with False obtain d ds where cs: "cs = d # ds" by (cases cs) auto
        with * have "utf8_next bs = Some (d, concat (map encode_point ds))" by (simp add: utf8_next_encode)
        with Some r cs * show "\<exists>ds. cs = c # ds \<and> list_all scalar ds \<and> rest = concat (map encode_point ds)" by simp
      qed (use c in auto)
      finally show ?thesis .
    qed
  qed
qed

lemma unat_of_nat_bytes: "(\<forall>b\<in>set bs. b < 256) \<Longrightarrow> map unat (map (of_nat :: nat \<Rightarrow> byte) bs) = bs"
  by (induction bs) (simp_all add: unat_of_nat)

lemma of_nat_unat_bytes: "map (of_nat :: nat \<Rightarrow> byte) (map unat bs) = bs"
  by (induction bs) simp_all

lemma utf8_decode_iff: "utf8_decode bs = Some cs \<longleftrightarrow> list_all scalar cs \<and> bs = utf8_encode cs"
proof -
  have bytes: "\<forall>b\<in>set (concat (map encode_point cs)). b < 256" if "list_all scalar cs"
    using that encode_point_bytes by (auto simp: list_all_iff scalar_def)
  have "map unat bs = concat (map encode_point cs) \<longleftrightarrow> bs = utf8_encode cs" if "list_all scalar cs"
  proof
    assume "map unat bs = concat (map encode_point cs)"
    then show "bs = utf8_encode cs"
      by (metis of_nat_unat_bytes utf8_encode_def)
  next
    assume "bs = utf8_encode cs"
    then show "map unat bs = concat (map encode_point cs)"
      unfolding utf8_encode_def using unat_of_nat_bytes [OF bytes [OF that]] by simp
  qed
  then show ?thesis by (auto simp: utf8_decode_def utf8_points_iff)
qed

section \<open>Methods of text\<close>

text \<open>\<open>str.isspace\<close> of one character.\<close>

definition unicode_space :: "nat \<Rightarrow> bool" where
  "unicode_space c =
     (9 \<le> c \<and> c \<le> 13 \<or> 28 \<le> c \<and> c \<le> 32 \<or> c \<in> {0x85, 0xA0, 0x1680, 0x2028, 0x2029, 0x202F, 0x205F, 0x3000} \<or>
      0x2000 \<le> c \<and> c \<le> 0x200A)"

definition strip_points :: "code_points \<Rightarrow> code_points" where
  "strip_points s = rev (dropWhile unicode_space (rev (dropWhile unicode_space s)))"

text \<open>A literal of the source as code points.\<close>

definition points :: "string \<Rightarrow> code_points" where
  "points s = map of_char s"

fun remove_points :: "code_points \<Rightarrow> code_points \<Rightarrow> code_points option" where
  "remove_points [] s = Some s"
| "remove_points (p # ps) [] = None"
| "remove_points (p # ps) (c # cs) = (if p = c then remove_points ps cs else None)"

lemma remove_points_Some: "remove_points p s = Some t \<longleftrightarrow> s = p @ t"
  by (induction p s rule: remove_points.induct) auto

end
