(* ===== verification/Software_Inventory.thy ===== *)
theory Software_Inventory imports Cip_Routes Utf8 begin

text \<open>
  The capture of structural controller software: the plans of
  \<open>discovery/software_inventory_plan.py\<close> and the executor of
  \<open>discovery/software_inventory_capture.py\<close>. The transport, a protocol class of the code, is a function
  \<open>read\<close> that takes its own state along; the timeout handed to it unchanged is part of it. Names
  come from devices, so they are code points; everything a project declares is \<open>string\<close>.
\<close>

section \<open>Plans\<close>

datatype capability = PROGRAMS | ROUTINES | TASKS | TAG_DEFINITIONS

fun capability_value :: "capability \<Rightarrow> string" where
  "capability_value PROGRAMS = ''programs''"
| "capability_value ROUTINES = ''routines''"
| "capability_value TASKS = ''tasks''"
| "capability_value TAG_DEFINITIONS = ''tag_definitions''"

record inventory_plan =
  pl_target :: target
  pl_engagement :: string
  pl_reference :: string
  pl_capabilities :: "capability list"
  pl_maximum :: int
  pl_route :: "route option"

record value_plan =
  vp_target :: target
  vp_engagement :: string
  vp_reference :: string
  vp_approval :: string
  vp_justification :: string
  vp_tag_paths :: "string list"
  vp_maximum :: int
  vp_route :: "route option"

datatype plan_error =
    Text_Invalid string
  | Maximum_Not_Positive
  | Gateway_Mismatch
  | No_Capability
  | Capabilities_Unsorted
  | No_Tag_Path
  | Tag_Path_Invalid
  | Tag_Paths_Repeated
  | Maximum_Below_Paths

text \<open>Empty, or with space around it.\<close>

definition untidy :: "string \<Rightarrow> bool" where
  "untidy s = (s = [] \<or> s \<noteq> py_strip s)"

definition common_error :: "target \<Rightarrow> route option \<Rightarrow> string \<Rightarrow> string \<Rightarrow> int \<Rightarrow> plan_error option" where
  "common_error t r engagement reference maximum =
     (if untidy engagement then Some (Text_Invalid ''engagement'')
      else if untidy reference then Some (Text_Invalid ''authorization_reference'')
      else if maximum \<le> 0 then Some Maximum_Not_Positive
      else case r of
             Some route \<Rightarrow> if target_key (rt_gateway route) \<noteq> target_key t then Some Gateway_Mismatch else None
           | None \<Rightarrow> None)"

definition plan_error :: "inventory_plan \<Rightarrow> plan_error option" where
  "plan_error p =
     (case common_error (pl_target p) (pl_route p) (pl_engagement p) (pl_reference p) (pl_maximum p) of
        Some e \<Rightarrow> Some e
      | None \<Rightarrow>
          if pl_capabilities p = [] then Some No_Capability
          else if sort_key capability_value (remdups (pl_capabilities p)) \<noteq> pl_capabilities p
          then Some Capabilities_Unsorted else None)"

definition value_plan_error :: "value_plan \<Rightarrow> plan_error option" where
  "value_plan_error p =
     (case common_error (vp_target p) (vp_route p) (vp_engagement p) (vp_reference p) (vp_maximum p) of
        Some e \<Rightarrow> Some e
      | None \<Rightarrow>
          if untidy (vp_approval p) then Some (Text_Invalid ''runtime_value_approval_reference'')
          else if untidy (vp_justification p) then Some (Text_Invalid ''justification'')
          else if vp_tag_paths p = [] then Some No_Tag_Path
          else if list_ex untidy (vp_tag_paths p) then Some Tag_Path_Invalid
          else if \<not> distinct (vp_tag_paths p) then Some Tag_Paths_Repeated
          else if vp_maximum p < int (length (vp_tag_paths p)) then Some Maximum_Below_Paths
          else None)"

section \<open>Items, pages and observations\<close>

text \<open>The values evidence is made of.\<close>

datatype evidence_value = EV_Null | EV_Int int | EV_Text string | EV_List "int list"

record inventory_item =
  it_capability :: capability
  it_name :: code_points
  it_parent :: "code_points option"
  it_instance :: "int option"
  it_data_type :: "string option"
  it_language :: "string option"
  it_raw :: "(string \<times> evidence_value) list"

datatype item_error = Name_Untrimmed | Instance_Negative

definition item_error :: "inventory_item \<Rightarrow> item_error option" where
  "item_error i =
     (if it_name i = [] \<or> it_name i \<noteq> strip_points (it_name i) then Some Name_Untrimmed
      else case it_instance i of
             Some n \<Rightarrow> if n < 0 then Some Instance_Negative else None
           | None \<Rightarrow> None)"

text \<open>The fields of \<open>CipObjectEvidence\<close> the symbol codec fills in; the others keep their defaults.\<close>

record object_evidence =
  oe_class :: int
  oe_instance :: int
  oe_service :: int
  oe_status :: int
  oe_response :: "string option"
  oe_raw_reply :: "string option"
  oe_decoded :: "(string \<times> evidence_value) list"

definition object_negative :: "object_evidence \<Rightarrow> bool" where
  "object_negative o' = (oe_class o' < 0 \<or> oe_instance o' < 0 \<or> oe_service o' < 0 \<or> oe_status o' < 0)"

record inventory_page =
  pg_items :: "inventory_item list"
  pg_next :: "string option"
  pg_evidence :: "object_evidence list"

definition page_error :: "inventory_page \<Rightarrow> bool" where
  "page_error p = (case pg_next p of None \<Rightarrow> False | Some c \<Rightarrow> untidy c)"

record observation =
  ob_target :: target
  ob_route :: route
  ob_engagement :: string
  ob_reference :: string
  ob_confirmed_by :: string
  ob_confirmed_at :: stamp
  ob_captured_at :: stamp
  ob_capabilities :: "capability list"
  ob_requests :: int
  ob_items :: "inventory_item list"
  ob_evidence :: "object_evidence list"

datatype observation_error = Observation_Text string | Captured_Naive | Confirmed_Naive | Observation_Gateway | No_Requests

definition observation_error :: "observation \<Rightarrow> observation_error option" where
  "observation_error b =
     (if untidy (ob_engagement b) then Some (Observation_Text ''engagement'')
      else if untidy (ob_reference b) then Some (Observation_Text ''authorization_reference'')
      else if untidy (ob_confirmed_by b) then Some (Observation_Text ''confirmed_by'')
      else if naive (ob_captured_at b) then Some Captured_Naive
      else if naive (ob_confirmed_at b) then Some Confirmed_Naive
      else if target_key (rt_gateway (ob_route b)) \<noteq> target_key (ob_target b) then Some Observation_Gateway
      else if ob_requests b \<le> 0 then Some No_Requests
      else None)"

section \<open>The executor\<close>

datatype 'e capture_error =
    Capture_Naive
  | Route_Required
  | Permit_Error permit_error
  | Capability_Unsupported "capability list"
  | Already_Executed
  | Permit_Required
  | Budget_Exceeded
  | Unrequested_Evidence
  | Cursor_Repeated
  | Transport_Error 'e
  | Observation_Rejected observation_error

text \<open>The attributes of the executor that change: the one-shot flag and the transport.\<close>

record 's executor =
  ex_executed :: bool
  ex_transport :: 's

definition preflight :: "capability list \<Rightarrow> inventory_plan \<Rightarrow> permit option \<Rightarrow> bool \<Rightarrow> 'e capture_error option" where
  "preflight supported plan permit executed =
     (case pl_route plan of
        None \<Rightarrow> Some Route_Required
      | Some route \<Rightarrow>
          (case validate_routed_execution permit (pl_reference plan) [route_key route] of
             Some e \<Rightarrow> Some (Permit_Error e)
           | None \<Rightarrow>
               let absent = sort_key capability_value (remdups (filter (\<lambda>c. c \<notin> set supported) (pl_capabilities plan)))
               in if absent \<noteq> [] then Some (Capability_Unsupported absent)
                  else if executed then Some Already_Executed else None))"

type_synonym ('s, 'e) reader = "inventory_plan \<Rightarrow> string option \<Rightarrow> 's \<Rightarrow> 's \<times> ('e + inventory_page)"

text \<open>The loop of \<open>capture\<close>, with its local variables as arguments.\<close>

function read_pages ::
  "('s, 'e) reader \<Rightarrow> inventory_plan \<Rightarrow> nat \<Rightarrow> 's \<Rightarrow> string option \<Rightarrow> string set \<Rightarrow> inventory_item list \<Rightarrow>
     object_evidence list \<Rightarrow> 's \<times> ('e capture_error + nat \<times> inventory_item list \<times> object_evidence list)" where
  "read_pages read plan used s cursor seen items evidence =
     (if pl_maximum plan \<le> int used then (s, Inl Budget_Exceeded)
      else case read plan cursor s of
             (s', Inl e) \<Rightarrow> (s', Inl (Transport_Error e))
           | (s', Inr page) \<Rightarrow>
               if list_ex (\<lambda>i. it_capability i \<notin> set (pl_capabilities plan)) (pg_items page)
               then (s', Inl Unrequested_Evidence)
               else case pg_next page of
                      None \<Rightarrow> (s', Inr (Suc used, items @ pg_items page, evidence @ pg_evidence page))
                    | Some c \<Rightarrow>
                        if c \<in> seen then (s', Inl Cursor_Repeated)
                        else read_pages read plan (Suc used) s' (Some c) (insert c seen)
                               (items @ pg_items page) (evidence @ pg_evidence page))"
  by pat_completeness auto
termination
  by (relation "measure (\<lambda>(read, plan, used, s, cursor, seen, items, evidence). nat (pl_maximum plan) - used)") auto

declare read_pages.simps [simp del]

definition item_key :: "inventory_item \<Rightarrow> string \<times> code_points \<times> code_points" where
  "item_key i =
     (capability_value (it_capability i), case it_parent i of None \<Rightarrow> [] | Some p \<Rightarrow> p, it_name i)"

definition observe_pages ::
  "inventory_plan \<Rightarrow> route \<Rightarrow> permit \<Rightarrow> stamp \<Rightarrow> nat \<Rightarrow> inventory_item list \<Rightarrow> object_evidence list \<Rightarrow> observation" where
  "observe_pages plan route permit captured_at used items evidence =
     \<lparr>ob_target = pl_target plan, ob_route = route, ob_engagement = pl_engagement plan, ob_reference = pl_reference plan,
      ob_confirmed_by = pm_by permit, ob_confirmed_at = pm_at permit, ob_captured_at = captured_at,
      ob_capabilities = pl_capabilities plan, ob_requests = int used, ob_items = sort_key item_key items,
      ob_evidence = evidence\<rparr>"

definition observe_checked ::
  "inventory_plan \<Rightarrow> route \<Rightarrow> permit \<Rightarrow> stamp \<Rightarrow> nat \<times> inventory_item list \<times> object_evidence list \<Rightarrow>
     'e capture_error + observation" where
  "observe_checked plan route permit captured_at = (\<lambda>(used, items, evidence).
     let b = observe_pages plan route permit captured_at used items evidence
     in case observation_error b of Some e \<Rightarrow> Inl (Observation_Rejected e) | None \<Rightarrow> Inr b)"

definition capture ::
  "('s, 'e) reader \<Rightarrow> capability list \<Rightarrow> inventory_plan \<Rightarrow> permit option \<Rightarrow> stamp \<Rightarrow> 's executor \<Rightarrow>
     's executor \<times> ('e capture_error + observation)" where
  "capture read supported plan permit captured_at ex =
     (if naive captured_at then (ex, Inl Capture_Naive)
      else case preflight supported plan permit (ex_executed ex) of
             Some e \<Rightarrow> (ex, Inl e)
           | None \<Rightarrow>
               (case (pl_route plan, permit) of
                  (Some route, Some p) \<Rightarrow>
                    (case read_pages read plan 0 (ex_transport ex) None {} [] [] of
                       (s', Inl e) \<Rightarrow> (\<lparr>ex_executed = True, ex_transport = s'\<rparr>, Inl e)
                     | (s', Inr r) \<Rightarrow>
                         (\<lparr>ex_executed = True, ex_transport = s'\<rparr>, observe_checked plan route p captured_at r))
                | _ \<Rightarrow> (ex, Inl Permit_Required)))"

end
