(* ===== verification/Symbol_Codec.thy ===== *)
theory Symbol_Codec imports Software_Inventory begin

text \<open>
  One page of the Logix Symbol Object: \<open>discovery/logix_symbol_codec.py\<close>. A
  \<open>DiscoveryProviderError\<close> is a constructor of \<open>symbol_error\<close>; \<open>Item_Rejected\<close> and
  \<open>Evidence_Negative\<close> are the \<open>ValueError\<close>s the constructors of an item and of the evidence raise.
  Integers on the wire are unsigned little-endian, read with the codec of \<open>Byte_Codec\<close>.
\<close>

section \<open>Requests\<close>

record page_request =
  pq_start :: int
  pq_attributes :: "int list"
  pq_data :: "byte list"

definition BASE_ATTRIBUTES :: "int list" where
  "BASE_ATTRIBUTES = [1, 2, 3, 5, 6, 8]"

definition EXTERNAL_ACCESS_ATTRIBUTE :: int where
  "EXTERNAL_ACCESS_ATTRIBUTE = 10"

text \<open>\<open>None\<close> is the \<open>ValueError\<close> of a negative instance.\<close>

definition build_logix_symbol_page_request :: "int \<Rightarrow> bool \<Rightarrow> page_request option" where
  "build_logix_symbol_page_request start ext =
     (if start < 0 then None
      else let attributes = BASE_ATTRIBUTES @ (if ext then [EXTERNAL_ACCESS_ATTRIBUTE] else [])
           in Some \<lparr>pq_start = start, pq_attributes = attributes,
                    pq_data = unsigned_bytes 2 (int (length attributes)) @ concat (map (unsigned_bytes 2) attributes)\<rparr>)"

section \<open>Records\<close>

record symbol_record =
  sr_instance :: int
  sr_name :: code_points
  sr_type :: int
  sr_address :: int
  sr_object :: int
  sr_control :: int
  sr_dimensions :: "int \<times> int \<times> int"
  sr_access :: "int option"
  sr_raw :: string

datatype malformed = Integer_Exceeds nat | Name_Exceeds | Not_Utf8 | Access_Missing

text \<open>A reader gives the offset it failed at and why, or its value and the next offset.\<close>

type_synonym 'a field = "(nat \<times> malformed) + ('a \<times> nat)"

definition and_then :: "'a field \<Rightarrow> ('a \<Rightarrow> nat \<Rightarrow> 'b field) \<Rightarrow> 'b field" where
  "and_then m f = (case m of Inl e \<Rightarrow> Inl e | Inr (v, offset) \<Rightarrow> f v offset)"

text \<open>\<open>_uint16\<close> and \<open>_uint32\<close>, by the number of bytes.\<close>

definition uint_at :: "nat \<Rightarrow> byte list \<Rightarrow> nat \<Rightarrow> int field" where
  "uint_at k payload offset =
     (if length payload < offset + k then Inl (offset, Integer_Exceeds k)
      else Inr (from_bytes BO_LITTLE False (Prelude.slice offset (offset + k) payload), offset + k))"

definition name_at :: "byte list \<Rightarrow> int \<Rightarrow> nat \<Rightarrow> code_points field" where
  "name_at payload name_length offset =
     (let end_name = offset + nat name_length
      in if length payload < end_name then Inl (offset, Name_Exceeds)
         else case utf8_decode (Prelude.slice offset end_name payload) of
                None \<Rightarrow> Inl (offset, Not_Utf8)
              | Some name \<Rightarrow> Inr (name, end_name))"

definition access_at :: "bool \<Rightarrow> byte list \<Rightarrow> nat \<Rightarrow> int option field" where
  "access_at ext payload offset =
     (if \<not> ext then Inr (None, offset)
      else if length payload \<le> offset then Inl (offset, Access_Missing)
      else Inr (Some (uint (payload ! offset)), offset + 1))"

definition decode_record :: "byte list \<Rightarrow> bool \<Rightarrow> nat \<Rightarrow> symbol_record field" where
  "decode_record payload ext start =
     and_then (uint_at 4 payload start) (\<lambda>instance_id offset.
     and_then (uint_at 2 payload offset) (\<lambda>name_length offset.
     and_then (name_at payload name_length offset) (\<lambda>name offset.
     and_then (uint_at 2 payload offset) (\<lambda>symbol_type offset.
     and_then (uint_at 4 payload offset) (\<lambda>symbol_address offset.
     and_then (uint_at 4 payload offset) (\<lambda>object_address offset.
     and_then (uint_at 4 payload offset) (\<lambda>software_control offset.
     and_then (uint_at 4 payload offset) (\<lambda>dim1 offset.
     and_then (uint_at 4 payload offset) (\<lambda>dim2 offset.
     and_then (uint_at 4 payload offset) (\<lambda>dim3 offset.
     and_then (access_at ext payload offset) (\<lambda>external_access offset.
       Inr (\<lparr>sr_instance = instance_id, sr_name = name, sr_type = symbol_type, sr_address = symbol_address,
              sr_object = object_address, sr_control = software_control, sr_dimensions = (dim1, dim2, dim3),
              sr_access = external_access, sr_raw = hex_text (Prelude.slice start offset payload)\<rparr>, offset))))))))))))"

lemma and_then_Inr: "and_then m f = Inr r \<longleftrightarrow> (\<exists>v offset. m = Inr (v, offset) \<and> f v offset = Inr r)"
  by (auto simp: and_then_def split: sum.split)

lemma field_ends:
  "uint_at k payload offset = Inr (v, next_offset) \<Longrightarrow> next_offset = offset + k \<and> next_offset \<le> length payload"
  "name_at payload n offset = Inr (name, next_offset) \<Longrightarrow> offset \<le> next_offset \<and> next_offset \<le> length payload"
  "access_at ext payload offset = Inr (a, next_offset) \<Longrightarrow> offset \<le> next_offset"
  by (auto simp: uint_at_def name_at_def access_at_def Let_def split: if_splits option.splits)

lemma decode_record_advances: "decode_record payload ext start = Inr (r, offset) \<Longrightarrow> start < offset \<and> start < length payload"
  by (auto simp: decode_record_def and_then_Inr dest!: field_ends)

text \<open>The loop of \<open>_decode_records\<close>.\<close>

function decode_from :: "byte list \<Rightarrow> bool \<Rightarrow> nat \<Rightarrow> symbol_record list \<Rightarrow> (nat \<times> malformed) + symbol_record list" where
  "decode_from payload ext offset records =
     (if length payload \<le> offset then Inr records
      else case decode_record payload ext offset of
             Inl e \<Rightarrow> Inl e
           | Inr (r, next_offset) \<Rightarrow> decode_from payload ext next_offset (records @ [r]))"
  by pat_completeness auto
termination
  by (relation "measure (\<lambda>(payload, ext, offset, records). length payload - offset)")
    (auto dest!: decode_record_advances)

declare decode_from.simps [simp del]

definition decode_records :: "byte list \<Rightarrow> bool \<Rightarrow> (nat \<times> malformed) + symbol_record list" where
  "decode_records payload ext = decode_from payload ext 0 []"

section \<open>Items\<close>

definition raw_attributes :: "symbol_record \<Rightarrow> (string \<times> evidence_value) list" where
  "raw_attributes r =
     (case sr_dimensions r of (dim1, dim2, dim3) \<Rightarrow>
        [(''symbol_type'', EV_Int (sr_type r)), (''symbol_address'', EV_Int (sr_address r)),
         (''symbol_object_address'', EV_Int (sr_object r)), (''software_control'', EV_Int (sr_control r)),
         (''dimensions'', EV_List [dim1, dim2, dim3]),
         (''external_access'', case sr_access r of None \<Rightarrow> EV_Null | Some a \<Rightarrow> EV_Int a),
         (''raw_record_hex'', EV_Text (sr_raw r))])"

definition symbol_item :: "capability \<Rightarrow> code_points \<Rightarrow> code_points option \<Rightarrow> symbol_record \<Rightarrow> item_error + inventory_item" where
  "symbol_item c name parent r =
     (let i = \<lparr>it_capability = c, it_name = name, it_parent = parent, it_instance = Some (sr_instance r),
               it_data_type = None, it_language = None, it_raw = raw_attributes r\<rparr>
      in case item_error i of Some e \<Rightarrow> Inl e | None \<Rightarrow> Inr i)"

definition lower_record :: "code_points option \<Rightarrow> symbol_record \<Rightarrow> item_error + inventory_item" where
  "lower_record scope r =
     (case remove_points (points ''Program:'') (sr_name r) of
        Some name \<Rightarrow> symbol_item PROGRAMS name None r
      | None \<Rightarrow>
          (case remove_points (points ''Routine:'') (sr_name r) of
             Some name \<Rightarrow> symbol_item ROUTINES name scope r
           | None \<Rightarrow>
               (case remove_points (points ''Task:'') (sr_name r) of
                  Some name \<Rightarrow> symbol_item TASKS name None r
                | None \<Rightarrow> symbol_item TAG_DEFINITIONS (sr_name r) scope r)))"

fun lower_records :: "code_points option \<Rightarrow> symbol_record list \<Rightarrow> item_error + inventory_item list" where
  "lower_records scope [] = Inr []"
| "lower_records scope (r # rs) =
     (case lower_record scope r of
        Inl e \<Rightarrow> Inl e
      | Inr i \<Rightarrow> map_sum id (\<lambda>is. i # is) (lower_records scope rs))"

section \<open>Pages\<close>

definition SUCCESS :: int where "SUCCESS = 0"

definition PARTIAL_TRANSFER :: int where "PARTIAL_TRANSFER = 6"

datatype symbol_error =
    Page_Failed int
  | Page_Malformed nat malformed
  | Partial_Without_Cursor
  | Item_Rejected item_error
  | Evidence_Negative

record decoded_page =
  dp_page :: inventory_page
  dp_records :: "symbol_record list"

definition page_evidence :: "byte list \<Rightarrow> int \<Rightarrow> byte list option \<Rightarrow> int \<Rightarrow> symbol_record list \<Rightarrow> object_evidence" where
  "page_evidence payload status raw_reply instance_id records =
     \<lparr>oe_class = 0x6B, oe_instance = instance_id, oe_service = 0x55, oe_status = status,
      oe_response = Some (hex_text payload), oe_raw_reply = map_option hex_text raw_reply,
      oe_decoded = [(''record_count'', EV_Int (int (length records)))]\<rparr>"

definition decode_logix_symbol_page ::
  "byte list \<Rightarrow> int \<Rightarrow> capability list \<Rightarrow> code_points option \<Rightarrow> bool \<Rightarrow> byte list option \<Rightarrow> int \<Rightarrow>
     symbol_error + decoded_page" where
  "decode_logix_symbol_page payload status allowed scope ext raw_reply instance_id =
     (if status \<notin> {SUCCESS, PARTIAL_TRANSFER} then Inl (Page_Failed status)
      else case decode_records payload ext of
             Inl (offset, why) \<Rightarrow> Inl (Page_Malformed offset why)
           | Inr records \<Rightarrow>
               if status = PARTIAL_TRANSFER \<and> records = [] then Inl Partial_Without_Cursor
               else case lower_records scope records of
                      Inl e \<Rightarrow> Inl (Item_Rejected e)
                    | Inr items \<Rightarrow>
                        if object_negative (page_evidence payload status raw_reply instance_id records) then Inl Evidence_Negative
                        else Inr \<lparr>dp_page =
                               \<lparr>pg_items = filter (\<lambda>i. it_capability i \<in> set allowed) items,
                                pg_next = (if status = PARTIAL_TRANSFER then Some (int_str (sr_instance (last records) + 1)) else None),
                                pg_evidence = [page_evidence payload status raw_reply instance_id records]\<rparr>,
                               dp_records = records\<rparr>)"

section \<open>The decoder accepts exactly the encoded records\<close>

text \<open>The layout of a record on the wire.\<close>

definition encode_record :: "symbol_record \<Rightarrow> byte list" where
  "encode_record r =
     (case sr_dimensions r of (dim1, dim2, dim3) \<Rightarrow>
        unsigned_bytes 4 (sr_instance r) @ unsigned_bytes 2 (int (length (utf8_encode (sr_name r)))) @ utf8_encode (sr_name r) @
        unsigned_bytes 2 (sr_type r) @ unsigned_bytes 4 (sr_address r) @ unsigned_bytes 4 (sr_object r) @
        unsigned_bytes 4 (sr_control r) @ unsigned_bytes 4 dim1 @ unsigned_bytes 4 dim2 @ unsigned_bytes 4 dim3 @
        (case sr_access r of None \<Rightarrow> [] | Some a \<Rightarrow> [word_of_int a]))"

definition in_bytes :: "nat \<Rightarrow> int \<Rightarrow> bool" where
  "in_bytes k v = (0 \<le> v \<and> v < 256 ^ k)"

definition record_ok :: "bool \<Rightarrow> symbol_record \<Rightarrow> bool" where
  "record_ok ext r =
     (case sr_dimensions r of (dim1, dim2, dim3) \<Rightarrow>
        in_bytes 4 (sr_instance r) \<and> list_all scalar (sr_name r) \<and> in_bytes 2 (int (length (utf8_encode (sr_name r)))) \<and>
        in_bytes 2 (sr_type r) \<and> list_all (in_bytes 4) [sr_address r, sr_object r, sr_control r, dim1, dim2, dim3] \<and>
        (case sr_access r of None \<Rightarrow> \<not> ext | Some a \<Rightarrow> ext \<and> in_bytes 1 a) \<and> sr_raw r = hex_text (encode_record r))"

text \<open>The bytes between two offsets.\<close>

definition reads :: "byte list \<Rightarrow> nat \<Rightarrow> byte list \<Rightarrow> nat \<Rightarrow> bool" where
  "reads payload offset bs next_offset =
     (next_offset = offset + length bs \<and> next_offset \<le> length payload \<and> Prelude.slice offset next_offset payload = bs)"

lemma reads_Nil: "reads payload offset [] next_offset \<longleftrightarrow> next_offset = offset \<and> offset \<le> length payload"
  by (auto simp: reads_def slice_simps)

lemma reads_append:
  "reads payload offset (xs @ ys) next_offset \<longleftrightarrow> (\<exists>m. reads payload offset xs m \<and> reads payload m ys next_offset)"
proof (cases "next_offset = offset + length xs + length ys \<and> next_offset \<le> length payload")
  case True
  let ?m = "offset + length xs"
  have "Prelude.slice offset next_offset payload = Prelude.slice offset ?m payload @ Prelude.slice ?m next_offset payload"
    using slice_append [of offset ?m next_offset payload] True by simp
  moreover have "length (Prelude.slice offset ?m payload) = length xs" using True by (simp add: slice_simps)
  ultimately have "Prelude.slice offset next_offset payload = xs @ ys \<longleftrightarrow>
      Prelude.slice offset ?m payload = xs \<and> Prelude.slice ?m next_offset payload = ys"
    by (simp add: append_eq_append_conv)
  with True show ?thesis by (auto simp: reads_def)
qed (auto simp: reads_def)

lemma reads_whole: "reads payload 0 bs (length payload) \<longleftrightarrow> payload = bs"
  by (auto simp: reads_def slice_simps)

lemma uint_at_iff: "uint_at k payload offset = Inr (v, next_offset) \<longleftrightarrow>
    in_bytes k v \<and> reads payload offset (unsigned_bytes k v) next_offset"
proof
  assume "uint_at k payload offset = Inr (v, next_offset)"
  then have fits: "offset + k \<le> length payload" "next_offset = offset + k" and
    v: "v = unsigned_value (Prelude.slice offset (offset + k) payload)"
    by (auto simp: uint_at_def from_bytes_def ordered_def split: if_splits)
  then have k: "length (Prelude.slice offset (offset + k) payload) = k" by (simp add: slice_simps)
  show "in_bytes k v \<and> reads payload offset (unsigned_bytes k v) next_offset"
    using unsigned_value_bounds [of "Prelude.slice offset (offset + k) payload"]
      unsigned_bytes_value [of "Prelude.slice offset (offset + k) payload"] fits k v
    by (simp add: in_bytes_def reads_def)
next
  assume "in_bytes k v \<and> reads payload offset (unsigned_bytes k v) next_offset"
  then show "uint_at k payload offset = Inr (v, next_offset)"
    by (auto simp: uint_at_def from_bytes_def ordered_def in_bytes_def reads_def unsigned_value_bytes)
qed

lemma name_at_iff:
  assumes "0 \<le> n" "offset \<le> length payload"
  shows "name_at payload n offset = Inr (name, next_offset) \<longleftrightarrow>
    list_all scalar name \<and> n = int (length (utf8_encode name)) \<and> reads payload offset (utf8_encode name) next_offset"
proof -
  have len: "length (Prelude.slice offset (offset + nat n) payload) = nat n" if "offset + nat n \<le> length payload"
    using that by (simp add: slice_simps)
  show ?thesis
  proof
    assume "name_at payload n offset = Inr (name, next_offset)"
    then have "offset + nat n \<le> length payload" "next_offset = offset + nat n" and
      "utf8_decode (Prelude.slice offset (offset + nat n) payload) = Some name"
      by (auto simp: name_at_def Let_def split: if_splits option.splits)
    with len assms(1) show "list_all scalar name \<and> n = int (length (utf8_encode name)) \<and>
        reads payload offset (utf8_encode name) next_offset"
      by (auto simp: utf8_decode_iff reads_def)
  next
    assume *: "list_all scalar name \<and> n = int (length (utf8_encode name)) \<and> reads payload offset (utf8_encode name) next_offset"
    then have ends: "next_offset = offset + nat n" "next_offset \<le> length payload" by (simp_all add: reads_def)
    moreover from * have "utf8_decode (Prelude.slice offset next_offset payload) = Some name"
      unfolding utf8_decode_iff reads_def by blast
    ultimately show "name_at payload n offset = Inr (name, next_offset)" by (simp add: name_at_def Let_def)
  qed
qed

lemma byte_int: "uint (b :: byte) = a \<longleftrightarrow> in_bytes (Suc 0) a \<and> word_of_int a = b"
proof
  assume "uint b = a"
  then show "in_bytes (Suc 0) a \<and> word_of_int a = b"
    using unsigned_less [of b, where 'a = int] by (auto simp: in_bytes_def)
next
  assume "in_bytes (Suc 0) a \<and> word_of_int a = b"
  then show "uint b = a" by (auto simp: in_bytes_def uint_word_of_int take_bit_eq_mod)
qed

lemma access_at_iff:
  assumes "offset \<le> length payload"
  shows "access_at ext payload offset = Inr (a, next_offset) \<longleftrightarrow>
    (case a of
       None \<Rightarrow> \<not> ext \<and> reads payload offset [] next_offset
     | Some v \<Rightarrow> ext \<and> in_bytes 1 v \<and> reads payload offset [word_of_int v] next_offset)"
proof -
  have one: "Prelude.slice offset (Suc offset) payload = [payload ! offset]" if "offset < length payload"
    using that slice_Suc [of offset offset payload] by (simp add: slice_simps)
  show ?thesis
  proof (cases a)
    case None
    with assms show ?thesis by (auto simp: access_at_def reads_Nil)
  next
    case (Some v)
    have "access_at ext payload offset = Inr (a, next_offset) \<longleftrightarrow>
        ext \<and> next_offset = Suc offset \<and> offset < length payload \<and> uint (payload ! offset) = v"
      using Some by (auto simp: access_at_def)
    also have "\<dots> \<longleftrightarrow> ext \<and> in_bytes 1 v \<and> reads payload offset [word_of_int v] next_offset"
      by (auto simp: byte_int reads_def one)
    finally show ?thesis using Some by simp
  qed
qed

lemma reads_trans: "reads payload a xs b \<Longrightarrow> reads payload b ys c \<Longrightarrow> reads payload a (xs @ ys) c"
  by (auto simp: reads_append)

lemma reads_slice: "reads payload a bs b \<Longrightarrow> Prelude.slice a b payload = bs"
  unfolding reads_def by blast

lemma reads_within: "reads payload a bs b \<Longrightarrow> b \<le> length payload"
  by (simp add: reads_def)

lemma decode_record_sound:
  assumes "decode_record payload ext start = Inr (r, next_offset)"
  shows "record_ok ext r \<and> reads payload start (encode_record r) next_offset"
proof -
  from assms obtain i n name t a ob sc d1 d2 d3 ac o1 o2 o3 o4 o5 o6 o7 o8 o9 o10 where
    fields: "uint_at 4 payload start = Inr (i, o1)" "uint_at 2 payload o1 = Inr (n, o2)" "name_at payload n o2 = Inr (name, o3)"
      "uint_at 2 payload o3 = Inr (t, o4)" "uint_at 4 payload o4 = Inr (a, o5)" "uint_at 4 payload o5 = Inr (ob, o6)"
      "uint_at 4 payload o6 = Inr (sc, o7)" "uint_at 4 payload o7 = Inr (d1, o8)" "uint_at 4 payload o8 = Inr (d2, o9)"
      "uint_at 4 payload o9 = Inr (d3, o10)" "access_at ext payload o10 = Inr (ac, next_offset)"
    and rec: "\<lparr>sr_instance = i, sr_name = name, sr_type = t, sr_address = a, sr_object = ob, sr_control = sc,
        sr_dimensions = (d1, d2, d3), sr_access = ac, sr_raw = hex_text (Prelude.slice start next_offset payload)\<rparr> = r"
    unfolding decode_record_def and_then_Inr sum.inject prod.inject
    by (elim exE conjE) (rule that; (assumption | simp))
  note r = rec [symmetric]
  note ints = fields(1,2,4-10) [unfolded uint_at_iff]
  have n: "0 \<le> n" "o2 \<le> length payload" using ints(2) by (auto simp: in_bytes_def dest: reads_within)
  have o10: "o10 \<le> length payload" using ints(9) by (auto dest: reads_within)
  note name = fields(3) [unfolded name_at_iff [OF n]]
  note acc = fields(11) [unfolded access_at_iff [OF o10]]
  let ?tail = "case ac of None \<Rightarrow> [] | Some v \<Rightarrow> [word_of_int v]"
  have acc': "reads payload o10 ?tail next_offset" using acc by (auto split: option.splits)
  have whole: "reads payload start (encode_record r) next_offset"
    unfolding encode_record_def r symbol_record.select_convs prod.case
    using ints name acc' by (intro reads_trans) blast+
  have sel: "sr_instance r = i" "sr_name r = name" "sr_type r = t" "sr_address r = a" "sr_object r = ob" "sr_control r = sc"
    "sr_dimensions r = (d1, d2, d3)" "sr_access r = ac" "sr_raw r = hex_text (encode_record r)"
    using reads_slice [OF whole] by (simp_all only: r symbol_record.select_convs)
  have ok: "in_bytes 4 i" "in_bytes 2 t" "in_bytes 4 a" "in_bytes 4 ob" "in_bytes 4 sc" "in_bytes 4 d1" "in_bytes 4 d2" "in_bytes 4 d3"
    "in_bytes 2 (int (length (utf8_encode name)))" "list_all scalar name"
    using ints name by simp_all
  have "case ac of None \<Rightarrow> \<not> ext | Some v \<Rightarrow> ext \<and> in_bytes 1 v" using acc by (auto split: option.splits)
  with ok whole show ?thesis unfolding record_ok_def sel prod.case by simp
qed

lemma decode_record_complete:
  assumes "start \<le> length payload" "record_ok ext r" "reads payload start (encode_record r) next_offset"
  shows "decode_record payload ext start = Inr (r, next_offset)"
proof -
  obtain d1 d2 d3 where d: "sr_dimensions r = (d1, d2, d3)" by (cases "sr_dimensions r")
  let ?n = "int (length (utf8_encode (sr_name r)))"
  from assms(3) obtain o1 o2 o3 o4 o5 o6 o7 o8 o9 o10 where
    pieces: "reads payload start (unsigned_bytes 4 (sr_instance r)) o1" "reads payload o1 (unsigned_bytes 2 ?n) o2"
      "reads payload o2 (utf8_encode (sr_name r)) o3" "reads payload o3 (unsigned_bytes 2 (sr_type r)) o4"
      "reads payload o4 (unsigned_bytes 4 (sr_address r)) o5" "reads payload o5 (unsigned_bytes 4 (sr_object r)) o6"
      "reads payload o6 (unsigned_bytes 4 (sr_control r)) o7" "reads payload o7 (unsigned_bytes 4 d1) o8"
      "reads payload o8 (unsigned_bytes 4 d2) o9" "reads payload o9 (unsigned_bytes 4 d3) o10"
      "reads payload o10 (case sr_access r of None \<Rightarrow> [] | Some a \<Rightarrow> [word_of_int a]) next_offset"
    unfolding encode_record_def d prod.case reads_append by blast
  note ok = assms(2) [unfolded record_ok_def d prod.case list_all_iff]
  have ints: "uint_at 4 payload start = Inr (sr_instance r, o1)" "uint_at 2 payload o1 = Inr (?n, o2)"
      "uint_at 2 payload o3 = Inr (sr_type r, o4)" "uint_at 4 payload o4 = Inr (sr_address r, o5)"
      "uint_at 4 payload o5 = Inr (sr_object r, o6)" "uint_at 4 payload o6 = Inr (sr_control r, o7)"
      "uint_at 4 payload o7 = Inr (d1, o8)" "uint_at 4 payload o8 = Inr (d2, o9)" "uint_at 4 payload o9 = Inr (d3, o10)"
    unfolding uint_at_iff using pieces ok by simp_all
  have name: "name_at payload ?n o2 = Inr (sr_name r, o3)"
    using pieces ok by (subst name_at_iff) (auto simp: list_all_iff dest: reads_within)
  have "access_at ext payload o10 = Inr (sr_access r, next_offset)"
    using pieces ok by (subst access_at_iff) (auto dest: reads_within split: option.splits)
  moreover have "hex_text (Prelude.slice start next_offset payload) = sr_raw r"
    using ok reads_slice [OF assms(3)] by simp
  ultimately show ?thesis
    by (simp add: decode_record_def and_then_def ints name d [symmetric])
qed

lemma encode_record_nonempty: "0 < length (encode_record r)"
proof -
  have "0 < length (unsigned_bytes 4 (sr_instance r))" by simp
  then show ?thesis unfolding encode_record_def by (simp split: prod.split del: length_0_conv length_greater_0_conv)
qed

lemma decode_from_iff:
  assumes "offset \<le> length payload"
  shows "decode_from payload ext offset records = Inr rs \<longleftrightarrow>
    (\<exists>new. rs = records @ new \<and> list_all (record_ok ext) new \<and>
       reads payload offset (concat (map encode_record new)) (length payload))"
  using assms
proof (induction payload ext offset records rule: decode_from.induct)
  case (1 payload ext offset records)
  note unfold = decode_from.simps [of payload ext offset records]
  have nonempty: "\<not> length payload \<le> offset \<Longrightarrow> reads payload offset (concat (map encode_record new)) (length payload) \<Longrightarrow> new \<noteq> []" for new
    by (auto simp: reads_Nil)
  have none: "length payload \<le> offset \<Longrightarrow> reads payload offset (concat (map encode_record new)) (length payload) \<Longrightarrow> new = []" for new
    using encode_record_nonempty [of "hd new"] by (cases new) (simp_all add: reads_def)
  show ?case
  proof (cases "length payload \<le> offset")
    case True
    then show ?thesis using "1.prems" none by (auto simp: unfold reads_Nil)
  next
    case inside: False
    show ?thesis
    proof (cases "decode_record payload ext offset")
      case (Inl e)
      have "\<not> (list_all (record_ok ext) new \<and> reads payload offset (concat (map encode_record new)) (length payload))" for new
      proof
        assume *: "list_all (record_ok ext) new \<and> reads payload offset (concat (map encode_record new)) (length payload)"
        with nonempty [OF inside, of new] obtain r rest where "new = r # rest" by (cases new) auto
        with * obtain m where "record_ok ext r" "reads payload offset (encode_record r) m" by (auto simp: reads_append)
        with decode_record_complete [OF "1.prems" this] Inl show False by simp
      qed
      with Inl inside show ?thesis by (simp add: unfold)
    next
      case (Inr p)
      then obtain r m where r: "decode_record payload ext offset = Inr (r, m)" by (cases p) auto
      note sound = decode_record_sound [OF r]
      then have m: "m \<le> length payload" by (auto dest: reads_within)
      have "decode_from payload ext offset records = Inr rs \<longleftrightarrow>
          (\<exists>new. rs = (records @ [r]) @ new \<and> list_all (record_ok ext) new \<and>
             reads payload m (concat (map encode_record new)) (length payload))"
        using inside r "1.IH" [OF inside r refl m] by (simp add: unfold)
      also have "\<dots> \<longleftrightarrow> (\<exists>new. rs = records @ new \<and> list_all (record_ok ext) new \<and>
          reads payload offset (concat (map encode_record new)) (length payload))"
      proof
        assume "\<exists>new. rs = (records @ [r]) @ new \<and> list_all (record_ok ext) new \<and>
             reads payload m (concat (map encode_record new)) (length payload)"
        then obtain new where "rs = records @ r # new" "list_all (record_ok ext) (r # new)"
          "reads payload offset (concat (map encode_record (r # new))) (length payload)"
          using sound by (auto intro: reads_trans)
        then show "\<exists>new. rs = records @ new \<and> list_all (record_ok ext) new \<and>
          reads payload offset (concat (map encode_record new)) (length payload)" by blast
      next
        assume "\<exists>new. rs = records @ new \<and> list_all (record_ok ext) new \<and>
          reads payload offset (concat (map encode_record new)) (length payload)"
        then obtain new where new: "rs = records @ new" "list_all (record_ok ext) new"
          "reads payload offset (concat (map encode_record new)) (length payload)" by blast
        with nonempty [OF inside, of new] obtain q rest where q: "new = q # rest" by (cases new) auto
        with new obtain k where k: "record_ok ext q" "reads payload offset (encode_record q) k"
          "reads payload k (concat (map encode_record rest)) (length payload)" by (auto simp: reads_append)
        from decode_record_complete [OF "1.prems" k(1,2)] r have "q = r" "k = m" by simp_all
        with new q k show "\<exists>new. rs = (records @ [r]) @ new \<and> list_all (record_ok ext) new \<and>
             reads payload m (concat (map encode_record new)) (length payload)" by auto
      qed
      finally show ?thesis .
    qed
  qed
qed

lemma decode_records_iff:
  "decode_records payload ext = Inr rs \<longleftrightarrow> list_all (record_ok ext) rs \<and> payload = concat (map encode_record rs)"
  by (auto simp: decode_records_def decode_from_iff reads_whole)

lemma records_raw: "list_all (record_ok ext) rs \<Longrightarrow> concat (map sr_raw rs) = hex_text (concat (map encode_record rs))"
proof (induction rs)
  case (Cons r rs)
  then have "sr_raw r = hex_text (encode_record r)" by (auto simp: record_ok_def split: prod.splits)
  with Cons show ?case by (simp add: hex_text_def)
qed (simp add: hex_text_def)

text \<open>C38. A symbol page is read exactly. The decoder yields some records exactly when each is well formed
  (every field within its width, the name valid Unicode text, an access byte exactly when asked for, the raw
  text the hexadecimal form of the record's own bytes) and the payload is the concatenation of
  their encodings: no byte is skipped, none is read twice, and everything else is an error. So the raw
  texts of the records together are the whole payload.\<close>

theorem symbol_page_exact:
  "(decode_records payload ext = Inr rs \<longleftrightarrow> list_all (record_ok ext) rs \<and> payload = concat (map encode_record rs)) \<and>
   (case decode_records payload ext of
      Inl e \<Rightarrow> True
    | Inr records \<Rightarrow> concat (map sr_raw records) = hex_text payload)"
  by (auto simp: decode_records_iff records_raw split: sum.split)

section \<open>Names the codec cannot lower\<close>

definition plain_record :: "int \<Rightarrow> string \<Rightarrow> symbol_record" where
  "plain_record n name =
     (let r = \<lparr>sr_instance = n, sr_name = points name, sr_type = 0xC1, sr_address = 0, sr_object = 0, sr_control = 0,
               sr_dimensions = (0, 0, 0), sr_access = None, sr_raw = []\<rparr>
      in r\<lparr>sr_raw := hex_text (encode_record r)\<rparr>)"

lemma plain_record_fields [simp]:
  "sr_name (plain_record n name) = points name" "sr_instance (plain_record n name) = n"
  "sr_raw (plain_record n name) = hex_text (encode_record (plain_record n name))"
  by (simp_all add: plain_record_def Let_def encode_record_def)

lemma points_ascii: "list_all (\<lambda>c. of_char c < (128 :: nat)) name \<Longrightarrow>
    list_all scalar (points name) \<and> length (utf8_encode (points name)) = length name"
  by (induction name) (simp_all add: points_def scalar_def utf8_encode_def encode_point_def)

lemma plain_record_ok:
  assumes "in_bytes 4 n" "list_all (\<lambda>c. of_char c < (128 :: nat)) name" "length name < 65536"
  shows "record_ok False (plain_record n name)"
  using assms points_ascii [OF assms(2)]
  by (simp add: record_ok_def) (simp add: plain_record_def Let_def in_bytes_def)

text \<open>A symbol whose name is only a prefix raises a \<open>ValueError\<close> instead of a
  \<open>DiscoveryProviderError\<close>, and the whole page is lost, also when its kind was not requested.\<close>

lemma bare_prefix_rejected:
  "decode_logix_symbol_page (concat (map encode_record [plain_record 1 ''Motor'', plain_record 2 ''Program:'']))
     SUCCESS [TAG_DEFINITIONS] None False None 0 = Inl (Item_Rejected Name_Untrimmed)"
proof -
  let ?rs = "[plain_record 1 ''Motor'', plain_record 2 ''Program:'']"
  have "list_all (record_ok False) ?rs" by (simp add: plain_record_ok in_bytes_def)
  then have "decode_records (concat (map encode_record ?rs)) False = Inr ?rs" by (simp only: decode_records_iff)
  moreover have "lower_records None ?rs = Inl Name_Untrimmed"
    by (simp add: lower_record_def symbol_item_def item_error_def Let_def points_def strip_points_def unicode_space_def)
  ultimately show ?thesis by (simp only: decode_logix_symbol_page_def) (simp add: SUCCESS_def PARTIAL_TRANSFER_def)
qed

end
