(* ===== verification/Software_Inventory_Facts.thy ===== *)
theory Software_Inventory_Facts imports Software_Inventory begin

text \<open>
  What a capture is. The reference is the chain of pages a transport serves from the first request to
  the page without a cursor, as an inductive relation; a capture observes exactly such a chain, within its budget,
  without a repeated cursor and without an item the plan did not ask for. A plan is
  executed at most once, and never sends more requests than it may.
\<close>

section \<open>Chains of pages\<close>

inductive paged :: "('s, 'e) reader \<Rightarrow> inventory_plan \<Rightarrow> string option \<Rightarrow> 's \<Rightarrow> inventory_page list \<Rightarrow> 's \<Rightarrow> bool"
  for read plan where
  last_page: "read plan c s = (s', Inr p) \<Longrightarrow> pg_next p = None \<Longrightarrow> paged read plan c s [p] s'"
| next_page: "read plan c s = (s', Inr p) \<Longrightarrow> pg_next p = Some d \<Longrightarrow> paged read plan (Some d) s' ps s'' \<Longrightarrow>
    paged read plan c s (p # ps) s''"

inductive_simps paged_Nil: "paged read plan c s [] s'"
inductive_simps paged_Cons: "paged read plan c s (p # ps) s'"

definition cursors :: "inventory_page list \<Rightarrow> string list" where
  "cursors ps = concat (map (\<lambda>p. case pg_next p of None \<Rightarrow> [] | Some c \<Rightarrow> [c]) ps)"

definition requested :: "inventory_plan \<Rightarrow> inventory_page \<Rightarrow> bool" where
  "requested plan p = list_all (\<lambda>i. it_capability i \<in> set (pl_capabilities plan)) (pg_items p)"

definition items_of :: "inventory_page list \<Rightarrow> inventory_item list" where
  "items_of ps = concat (map pg_items ps)"

definition evidence_of :: "inventory_page list \<Rightarrow> object_evidence list" where
  "evidence_of ps = concat (map pg_evidence ps)"

lemmas chain_defs = cursors_def items_of_def evidence_of_def

lemma chain_simps [simp]:
  "cursors [] = []" "items_of [] = []" "evidence_of [] = []"
  "items_of (p # ps) = pg_items p @ items_of ps" "evidence_of (p # ps) = pg_evidence p @ evidence_of ps"
  "cursors (p # ps) = (case pg_next p of None \<Rightarrow> cursors ps | Some c \<Rightarrow> c # cursors ps)"
  by (simp_all add: chain_defs split: option.split)

lemma unrequested: "list_ex (\<lambda>i. it_capability i \<notin> set (pl_capabilities plan)) (pg_items p) \<longleftrightarrow> \<not> requested plan p"
  by (auto simp: requested_def list_all_iff list_ex_iff)

text \<open>The pages a loop may still take, given the cursors seen and the requests used.\<close>

definition takes :: "inventory_plan \<Rightarrow> nat \<Rightarrow> string set \<Rightarrow> inventory_page list \<Rightarrow> bool" where
  "takes plan used seen ps =
     (int (used + length ps) \<le> pl_maximum plan \<and> distinct (cursors ps) \<and> set (cursors ps) \<inter> seen = {} \<and>
      list_all (requested plan) ps)"

lemma takes_Cons:
  "takes plan used seen (p # ps) \<longleftrightarrow> requested plan p \<and>
     (case pg_next p of
        None \<Rightarrow> int (Suc used) \<le> pl_maximum plan \<and> takes plan (Suc used) seen ps
      | Some c \<Rightarrow> c \<notin> seen \<and> takes plan (Suc used) (insert c seen) ps)"
  by (auto simp: takes_def split: option.split)

lemma paged_within: "paged read plan c s ps s' \<Longrightarrow> takes plan used seen ps \<Longrightarrow> int used < pl_maximum plan"
  by (cases ps) (auto simp: paged_Nil takes_def)

lemma read_pages_iff:
  "read_pages read plan used s cursor seen items evidence = (s', Inr r) \<longleftrightarrow>
     (\<exists>ps. paged read plan cursor s ps s' \<and> takes plan used seen ps \<and>
        r = (used + length ps, items @ items_of ps, evidence @ evidence_of ps))"
proof (induction read plan used s cursor seen items evidence rule: read_pages.induct)
  case (1 read plan used s cursor seen items evidence)
  note unfold = read_pages.simps [of read plan used s cursor seen items evidence]
  show ?case
  proof (cases "pl_maximum plan \<le> int used")
    case True
    then show ?thesis using paged_within [of read plan cursor s _ s' used seen] by (auto simp: unfold)
  next
    case within: False
    obtain s1 reply where reply: "read plan cursor s = (s1, reply)" by (cases "read plan cursor s")
    show ?thesis
    proof (cases reply)
      case (Inl e)
      then have "\<not> paged read plan cursor s ps s'" for ps using reply by (cases ps) (auto simp: paged_Nil paged_Cons)
      with Inl reply within show ?thesis by (simp add: unfold)
    next
      case (Inr p)
      have chain: "paged read plan cursor s ps s' \<longleftrightarrow>
          (\<exists>rest. ps = p # rest \<and> (case pg_next p of None \<Rightarrow> rest = [] \<and> s' = s1 | Some d \<Rightarrow> paged read plan (Some d) s1 rest s'))" for ps
        using reply Inr by (cases ps) (auto simp: paged_Nil paged_Cons split: option.splits)
      show ?thesis
      proof (cases "requested plan p")
        case False
        then show ?thesis using within reply Inr by (auto simp: unfold unrequested chain takes_Cons)
      next
        case req: True
        show ?thesis
        proof (cases "pg_next p")
          case None
          have "takes plan (Suc used) seen []" if "int (Suc used) \<le> pl_maximum plan" using that by (simp add: takes_def)
          moreover have "int (Suc used) \<le> pl_maximum plan" using within by simp
          ultimately show ?thesis using within reply Inr req None
            by (auto simp: unfold unrequested chain takes_Cons)
        next
          case (Some d)
          show ?thesis
          proof (cases "d \<in> seen")
            case True
            then show ?thesis using within reply Inr req Some by (auto simp: unfold unrequested chain takes_Cons)
          next
            case fresh: False
            have asked: "\<not> list_ex (\<lambda>i. it_capability i \<notin> set (pl_capabilities plan)) (pg_items p)"
              using req by (simp only: unrequested not_not)
            note IH = "1.IH" [OF within reply [symmetric] Inr asked Some fresh]
            let ?chain = "\<lambda>used s cursor seen items evidence. \<exists>ps. paged read plan cursor s ps s' \<and> takes plan used seen ps \<and>
                r = (used + length ps, items @ items_of ps, evidence @ evidence_of ps)"
            have run: "read_pages read plan used s cursor seen items evidence = read_pages read plan (Suc used) s1 (Some d) (insert d seen) (items @ pg_items p) (evidence @ pg_evidence p)"
              by (subst read_pages.simps)
                (simp only: within if_False reply Inr asked Some fresh prod.case sum.case option.case)
            have "read_pages read plan used s cursor seen items evidence = (s', Inr r) \<longleftrightarrow> ?chain (Suc used) s1 (Some d) (insert d seen) (items @ pg_items p) (evidence @ pg_evidence p)"
              unfolding run by (rule IH)
            also have "\<dots> \<longleftrightarrow> ?chain used s cursor seen items evidence"
              using req Some fresh by (auto simp: chain takes_Cons)
            finally show ?thesis .
          qed
        qed
      qed
    qed
  qed
qed

section \<open>The outcome of a capture\<close>

lemma observe_checked_iff:
  "observe_checked plan route p t (n, items, evidence) = Inr b \<longleftrightarrow>
     b = observe_pages plan route p t n items evidence \<and> observation_error b = None"
  by (auto simp: observe_checked_def Let_def split: option.split)

lemma preflight_route: "preflight supported plan permit ex = None \<Longrightarrow> \<exists>route p. pl_route plan = Some route \<and> permit = Some p"
  by (auto simp: preflight_def validate_routed_execution_def split: option.splits)

lemma capture_cases:
  assumes "\<not> naive t" "preflight supported plan permit (ex_executed ex) = (None :: 'e capture_error option)"
  obtains route p where "pl_route plan = Some route" "permit = Some p"
    "capture (read :: ('s, 'e) reader) supported plan permit t ex =
       (case read_pages read plan 0 (ex_transport ex) None {} [] [] of
          (s', Inl e) \<Rightarrow> (\<lparr>ex_executed = True, ex_transport = s'\<rparr>, Inl e)
        | (s', Inr r) \<Rightarrow> (\<lparr>ex_executed = True, ex_transport = s'\<rparr>, observe_checked plan route p t r))"
  using preflight_route [OF assms(2)] assms unfolding capture_def by auto

lemma capture_refused:
  assumes "naive t \<or> preflight supported plan permit (ex_executed ex) \<noteq> (None :: 'e capture_error option)"
  shows "\<exists>e. capture (read :: ('s, 'e) reader) supported plan permit t ex = (ex, Inl e)"
  using assms by (auto simp: capture_def split: option.split)

lemma capture_iff:
  "capture (read :: ('s, 'e) reader) supported plan permit t ex = (ex', Inr b) \<longleftrightarrow>
     \<not> naive t \<and> preflight supported plan permit (ex_executed ex) = (None :: 'e capture_error option) \<and>
     (\<exists>route p ps s'. pl_route plan = Some route \<and> permit = Some p \<and>
        paged read plan None (ex_transport ex) ps s' \<and> takes plan 0 {} ps \<and>
        ex' = \<lparr>ex_executed = True, ex_transport = s'\<rparr> \<and>
        b = observe_pages plan route p t (length ps) (items_of ps) (evidence_of ps) \<and> observation_error b = None)"
proof (cases "\<not> naive t \<and> preflight supported plan permit (ex_executed ex) = (None :: 'e capture_error option)")
  case True
  then obtain route p where "pl_route plan = Some route" "permit = Some p" and
    run: "capture read supported plan permit t ex =
       (case read_pages read plan 0 (ex_transport ex) None {} [] [] of
          (s', Inl e) \<Rightarrow> (\<lparr>ex_executed = True, ex_transport = s'\<rparr>, Inl e)
        | (s', Inr r) \<Rightarrow> (\<lparr>ex_executed = True, ex_transport = s'\<rparr>, observe_checked plan route p t r))"
    by (elim conjE) (rule capture_cases)
  moreover have "capture read supported plan permit t ex = (ex', Inr b) \<longleftrightarrow>
      (\<exists>s' r. read_pages read plan 0 (ex_transport ex) None {} [] [] = (s', Inr r) \<and>
         ex' = \<lparr>ex_executed = True, ex_transport = s'\<rparr> \<and>
         observe_checked plan route p t r = (Inr b :: 'e capture_error + observation))"
    unfolding run by (auto split: prod.splits sum.splits)
  moreover have "(\<exists>s' r. read_pages read plan 0 (ex_transport ex) None {} [] [] = (s', Inr r) \<and>
         ex' = \<lparr>ex_executed = True, ex_transport = s'\<rparr> \<and> observe_checked plan route p t r = (Inr b :: 'e capture_error + observation)) \<longleftrightarrow>
      (\<exists>ps s'. paged read plan None (ex_transport ex) ps s' \<and> takes plan 0 {} ps \<and> ex' = \<lparr>ex_executed = True, ex_transport = s'\<rparr> \<and>
         b = observe_pages plan route p t (length ps) (items_of ps) (evidence_of ps) \<and> observation_error b = None)"
    unfolding read_pages_iff by (simp, metis observe_checked_iff)
  ultimately show ?thesis using True by simp
next
  case False
  then have "naive t \<or> preflight supported plan permit (ex_executed ex) \<noteq> (None :: 'e capture_error option)" by (simp only: de_Morgan_conj not_not)
  from capture_refused [OF this, of read] False show ?thesis by auto
qed

text \<open>C36. A capture observes a chain of pages and nothing else. It yields an observation exactly when the time
  of the capture has a zone, its plan passes the preflight, the transport serves a chain of pages, each
  asked for with the cursor of the one before, that fits the request budget, repeats no cursor and
  holds only requested items, and the constructor accepts the observation of all items and
  all evidence of this chain (its texts non-empty and trimmed, the confirmer's included, its times with a
  zone, its route through the target, at least one request). Then that is the observation, the
  requests used are the length of the chain, the transport is left behind its last page and the plan is
  spent.\<close>

theorem capture_is_chain:
  "capture (read :: ('s, 'e) reader) supported plan permit t ex = (ex', Inr b) \<longleftrightarrow>
     \<not> naive t \<and> preflight supported plan permit (ex_executed ex) = (None :: 'e capture_error option) \<and>
     (\<exists>route p ps s'. pl_route plan = Some route \<and> permit = Some p \<and>
        paged read plan None (ex_transport ex) ps s' \<and> takes plan 0 {} ps \<and>
        ex' = \<lparr>ex_executed = True, ex_transport = s'\<rparr> \<and>
        b = observe_pages plan route p t (length ps) (items_of ps) (evidence_of ps) \<and> observation_error b = None)"
  by (rule capture_iff)

section \<open>The budget\<close>

text \<open>A transport that counts its requests.\<close>

definition counted :: "('s, 'e) reader \<Rightarrow> (nat \<times> 's, 'e) reader" where
  "counted read plan c = (\<lambda>(n, s). let (s', r) = read plan c s in ((Suc n, s'), r))"

lemma read_pages_budget:
  "fst (fst (read_pages (counted read) plan used (n, s) cursor seen items evidence)) \<le> n + (nat (pl_maximum plan) - used)"
proof (induction "counted read" plan used "(n, s)" cursor seen items evidence arbitrary: n s rule: read_pages.induct)
  case (1 plan used cursor seen items evidence n s)
  obtain s1 reply where reply: "read plan cursor s = (s1, reply)" by (cases "read plan cursor s")
  then have counted: "counted read plan cursor (n, s) = ((Suc n, s1), reply)" by (simp add: counted_def)
  note unfold = read_pages.simps [of "counted read" plan used "(n, s)" cursor seen items evidence]
  show ?case
  proof (cases "pl_maximum plan \<le> int used")
    case True
    then show ?thesis by (simp add: unfold)
  next
    case within: False
    then have room: "Suc (n + (nat (pl_maximum plan) - Suc used)) = n + (nat (pl_maximum plan) - used)" by simp
    show ?thesis
    proof (cases reply)
      case (Inl e)
      then show ?thesis using within counted by (simp add: unfold)
    next
      case (Inr p)
      show ?thesis
      proof (cases "list_ex (\<lambda>i. it_capability i \<notin> set (pl_capabilities plan)) (pg_items p)")
        case True
        then show ?thesis using within counted Inr by (simp add: unfold)
      next
        case asked: False
        show ?thesis
        proof (cases "pg_next p")
          case None
          then show ?thesis using within counted Inr asked by (simp add: unfold)
        next
          case (Some d)
          show ?thesis
          proof (cases "d \<in> seen")
            case True
            then show ?thesis using within counted Inr asked Some by (simp add: unfold)
          next
            case fresh: False
            from "1.hyps" [OF within counted [symmetric] Inr asked Some fresh] room
            show ?thesis using within counted Inr asked Some fresh by (simp add: unfold)
          qed
        qed
      qed
    qed
  qed
qed

text \<open>C37. A plan never sends more requests than it may, and is executed once. Whatever the transport
  answers, a capture sends at most the maximum of its plan; it sends none without marking the plan as
  executed; and of an executed plan no capture sends anything or returns an observation.\<close>

theorem capture_within_budget:
  "case capture (counted (read :: ('s, 'e) reader)) supported plan permit t \<lparr>ex_executed = executed, ex_transport = (n, s)\<rparr> of
     (ex', r) \<Rightarrow>
       fst (ex_transport ex') \<le> n + nat (pl_maximum plan) \<and> (ex_executed ex' \<or> fst (ex_transport ex') = n) \<and>
       (if executed then fst (ex_transport ex') = n \<and> isl r else True)"
proof (cases "\<not> naive t \<and> preflight supported plan permit executed = (None :: 'e capture_error option)")
  case True
  let ?ex = "\<lparr>ex_executed = executed, ex_transport = (n, s)\<rparr>"
  from True have fresh: "\<not> executed" by (auto simp: preflight_def Let_def split: option.splits if_splits)
  from True have pre: "\<not> naive t" "preflight supported plan permit (ex_executed ?ex) = (None :: 'e capture_error option)" by simp_all
  obtain route p where
    "capture (counted read) supported plan permit t ?ex =
       (case read_pages (counted read) plan 0 (ex_transport ?ex) None {} [] [] of
          (s', Inl e) \<Rightarrow> (\<lparr>ex_executed = True, ex_transport = s'\<rparr>, Inl e)
        | (s', Inr r) \<Rightarrow> (\<lparr>ex_executed = True, ex_transport = s'\<rparr>, observe_checked plan route p t r))"
    by (rule capture_cases [OF pre, where read = "counted read"])
  then show ?thesis using read_pages_budget [of read plan 0 n s None "{}" "[]" "[]"] fresh
    by (auto split: prod.splits sum.splits)
next
  case False
  then have "naive t \<or> preflight supported plan permit (ex_executed \<lparr>ex_executed = executed, ex_transport = (n, s)\<rparr>) \<noteq>
      (None :: 'e capture_error option)" by auto
  from capture_refused [OF this, of "counted read"] show ?thesis by auto
qed

section \<open>A plan spent for nothing\<close>

text \<open>A permit accepts a confirmer with space around the name, an observation does not: the capture
  sends its requests, rejects what it read and cannot be repeated.\<close>

definition spent_plan :: inventory_plan where
  "spent_plan =
     \<lparr>pl_target = rt_gateway (slot_route []), pl_engagement = ''plant'', pl_reference = ''auth-1'',
      pl_capabilities = [PROGRAMS], pl_maximum = 5, pl_route = Some (slot_route [Link_Int 0])\<rparr>"

lemma untrimmed_confirmer_spends_plan:
  "permit_error (slot_permit [slot_route [Link_Int 0]]\<lparr>pm_by := '' operator''\<rparr>) = None \<and> plan_error spent_plan = None \<and>
   capture (\<lambda>plan c n. (Suc n, Inr \<lparr>pg_items = [], pg_next = None, pg_evidence = []\<rparr>)) [PROGRAMS] spent_plan
     (Some (slot_permit [slot_route [Link_Int 0]]\<lparr>pm_by := '' operator''\<rparr>)) \<lparr>instant = 0, zone = Some ''UTC''\<rparr>
     \<lparr>ex_executed = False, ex_transport = 0\<rparr> =
   (\<lparr>ex_executed = True, ex_transport = 1\<rparr>,
    (Inl (Observation_Rejected (Observation_Text ''confirmed_by'')) :: nat capture_error + observation))"
  by code_simp

end
