(* ===== verification/Symbol_Transport.thy ===== *)
theory Symbol_Transport imports Symbol_Codec Software_Inventory_Facts begin

text \<open>
  The pages of a controller's symbols as a transport of the executor:
  \<open>discovery/logix_symbol_pycomm3.py\<close>. The driver of pycomm3 is a function of its own state and the
  request handed to it; opening and closing it is part of that function, and so is the socket timeout.
  The transport keeps the programs it has seen and walks their scopes after the controller's.
\<close>

section \<open>Requests to the driver\<close>

record driver_request =
  dq_path :: string
  dq_service :: int
  dq_class :: int
  dq_instance :: int
  dq_data :: "byte list"

text \<open>What comes back: no connection, or a packet whose data and status are usable or not.\<close>

datatype driver_reply = Not_Open | Reply "byte list option" "int option" "byte list option"

record 'd symbol_transport =
  tr_programs :: "code_points list"
  tr_driver :: 'd

datatype transport_error =
    Target_Rejected policy_error
  | Symbol_Route_Required
  | Cursor_Invalid
  | Start_Negative
  | Path_Rejected
  | Connection_Failed
  | Invalid_Reply
  | Symbol_Error symbol_error
  | Page_Rejected

section \<open>Paths\<close>

text \<open>\<open>pycomm3_logix_path\<close>; \<open>None\<close> is its \<open>ValueError\<close>.\<close>

fun path_parts :: "segment list \<Rightarrow> string list option" where
  "path_parts [] = Some []"
| "path_parts (s # ss) =
     (case sg_link s of
        Link_Bytes b \<Rightarrow> None
      | Link_Int n \<Rightarrow> map_option (\<lambda>parts. int_str (sg_port s) # int_str n # parts) (path_parts ss)
      | Link_Text t \<Rightarrow>
          if CHR ''/'' \<in> set t \<or> CHR '','' \<in> set t \<or> backslash \<in> set t then None
          else map_option (\<lambda>parts. int_str (sg_port s) # t # parts) (path_parts ss))"

definition pycomm3_logix_path :: "route \<Rightarrow> string option" where
  "pycomm3_logix_path r =
     map_option (\<lambda>parts. join ''/'' (tg_address (rt_gateway r) # parts)) (path_parts (rt_segments r))"

section \<open>Cursors\<close>

definition encode_cursor :: "string \<Rightarrow> int \<Rightarrow> int \<Rightarrow> string" where
  "encode_cursor scope program_index instance_id =
     scope @ '':'' @ int_str program_index @ '':'' @ int_str instance_id"

definition decode_cursor :: "string option \<Rightarrow> (string \<times> int \<times> int) option" where
  "decode_cursor cursor =
     (case cursor of
        None \<Rightarrow> Some (''controller'', 0, 0)
      | Some c \<Rightarrow>
          (case split_max 2 CHR '':'' c of
             [scope, program_index, instance_id] \<Rightarrow>
               if scope \<notin> {''controller'', ''program''} then None
               else (case (py_int program_index, py_int instance_id) of
                       (Some i, Some n) \<Rightarrow> Some (scope, i, n)
                     | _ \<Rightarrow> None)
           | _ \<Rightarrow> None))"

text \<open>Python's \<open>xs[i]\<close>: a negative index counts from the end; \<open>None\<close> is the \<open>IndexError\<close>.\<close>

definition py_index :: "'a list \<Rightarrow> int \<Rightarrow> 'a option" where
  "py_index xs i =
     (if 0 \<le> i \<and> i < int (length xs) then Some (xs ! nat i)
      else if i < 0 \<and> - int (length xs) \<le> i then Some (xs ! nat (int (length xs) + i))
      else None)"

text \<open>The program a cursor refers to; the outer \<open>None\<close> is an index out of range.\<close>

definition scope_program :: "code_points list \<Rightarrow> string \<Rightarrow> int \<Rightarrow> code_points option option" where
  "scope_program programs scope program_index =
     (if scope = ''program'' then map_option Some (py_index programs program_index) else Some None)"

fun remember_programs :: "code_points list \<Rightarrow> symbol_record list \<Rightarrow> code_points list" where
  "remember_programs programs [] = programs"
| "remember_programs programs (r # rs) =
     (case remove_points (points ''Program:'') (sr_name r) of
        Some name \<Rightarrow> remember_programs (if name \<in> set programs then programs else programs @ [name]) rs
      | None \<Rightarrow> remember_programs programs rs)"

text \<open>The numeric cursor of a page is always a number, so that \<open>the\<close> is never asked for nothing
  (lemma \<open>numeric_cursor\<close>).\<close>

definition next_cursor :: "code_points list \<Rightarrow> string \<Rightarrow> int \<Rightarrow> string option \<Rightarrow> inventory_plan \<Rightarrow> string option" where
  "next_cursor programs scope program_index numeric plan =
     (case numeric of
        Some c \<Rightarrow> Some (encode_cursor scope program_index (the (py_int c)))
      | None \<Rightarrow>
          let program_scopes_required = list_ex (\<lambda>c. c \<in> set (pl_capabilities plan)) [ROUTINES, TAG_DEFINITIONS]
          in if scope = ''controller''
             then (if program_scopes_required \<and> programs \<noteq> [] then Some (encode_cursor ''program'' 0 0) else None)
             else let next_program = program_index + 1
                  in if next_program < int (length programs) then Some (encode_cursor ''program'' next_program 0) else None)"

lemma numeric_cursor: "py_int (int_str n) \<noteq> None"
  by (simp add: py_int_str)

section \<open>Reading a page\<close>

definition supported_capabilities :: "capability list" where
  "supported_capabilities = [PROGRAMS, ROUTINES, TAG_DEFINITIONS, TASKS]"

text \<open>The request of one page.\<close>

definition symbol_request :: "string \<Rightarrow> page_request \<Rightarrow> driver_request" where
  "symbol_request path q =
     \<lparr>dq_path = path, dq_service = 0x55, dq_class = 0x6B, dq_instance = pq_start q, dq_data = pq_data q\<rparr>"

text \<open>What is checked before the driver is used: scope, index and program of the cursor, and the request.\<close>

definition prepare ::
  "bool \<Rightarrow> inventory_plan \<Rightarrow> string option \<Rightarrow> code_points list \<Rightarrow>
     transport_error + string \<times> int \<times> code_points option \<times> driver_request" where
  "prepare ext plan cursor programs =
     (case live_target_error (pl_target plan) of
        Some e \<Rightarrow> Inl (Target_Rejected e)
      | None \<Rightarrow>
          (case pl_route plan of
             None \<Rightarrow> Inl Symbol_Route_Required
           | Some route \<Rightarrow>
               (case decode_cursor cursor of
                  None \<Rightarrow> Inl Cursor_Invalid
                | Some (scope, program_index, start) \<Rightarrow>
                    (case scope_program programs scope program_index of
                       None \<Rightarrow> Inl Cursor_Invalid
                     | Some parent \<Rightarrow>
                         (case build_logix_symbol_page_request start ext of
                            None \<Rightarrow> Inl Start_Negative
                          | Some q \<Rightarrow>
                              (case pycomm3_logix_path route of
                                 None \<Rightarrow> Inl Path_Rejected
                               | Some path \<Rightarrow> Inr (scope, program_index, parent, symbol_request path q)))))))"

definition accept_reply ::
  "bool \<Rightarrow> inventory_plan \<Rightarrow> code_points option \<Rightarrow> driver_request \<Rightarrow> driver_reply \<Rightarrow> transport_error + decoded_page" where
  "accept_reply ext plan parent q reply =
     (case reply of
        Not_Open \<Rightarrow> Inl Connection_Failed
      | Reply (Some payload) (Some status) raw \<Rightarrow>
          map_sum Symbol_Error id
            (decode_logix_symbol_page payload status (pl_capabilities plan) parent ext raw (dq_instance q))
      | Reply _ _ _ \<Rightarrow> Inl Invalid_Reply)"

definition read_inventory_page ::
  "('d \<Rightarrow> driver_request \<Rightarrow> 'd \<times> driver_reply) \<Rightarrow> bool \<Rightarrow> ('d symbol_transport, transport_error) reader" where
  "read_inventory_page driver ext plan cursor tr =
     (case prepare ext plan cursor (tr_programs tr) of
        Inl e \<Rightarrow> (tr, Inl e)
      | Inr (scope, program_index, parent, q) \<Rightarrow>
          let (d, reply) = driver (tr_driver tr) q; tr1 = tr\<lparr>tr_driver := d\<rparr>
          in case accept_reply ext plan parent q reply of
               Inl e \<Rightarrow> (tr1, Inl e)
             | Inr decoded \<Rightarrow>
                 let tr2 = (if scope = ''controller''
                            then tr1\<lparr>tr_programs := remember_programs (tr_programs tr1) (dp_records decoded)\<rparr> else tr1);
                     page = \<lparr>pg_items = pg_items (dp_page decoded),
                             pg_next = next_cursor (tr_programs tr2) scope program_index (pg_next (dp_page decoded)) plan,
                             pg_evidence = pg_evidence (dp_page decoded)\<rparr>
                 in (tr2, if page_error page then Inl Page_Rejected else Inr page))"

end
