(* ===== verification/Symbol_Inventory.thy ===== *)
theory Symbol_Inventory imports Symbol_Transport begin

text \<open>
  The executor, the symbol transport and the codec together, against a controller that serves a table of
  symbols in pages: every symbol is observed, page boundaries and cursors notwithstanding. The scopes of the
  programs are where the code departs from its intention: their requests are those of the controller scope.
\<close>

section \<open>A controller with a table of symbols\<close>

text \<open>It answers a request with the records from the instance asked for, as many as it likes but at least
  one, and reports whether more follow.\<close>

definition serve :: "(int \<Rightarrow> nat) \<Rightarrow> symbol_record list \<Rightarrow> unit \<Rightarrow> driver_request \<Rightarrow> unit \<times> driver_reply" where
  "serve chunk table d q =
     (let rest = filter (\<lambda>r. dq_instance q \<le> sr_instance r) table; n = max 1 (chunk (dq_instance q))
      in (d, Reply (Some (concat (map encode_record (take n rest))))
              (Some (if n < length rest then PARTIAL_TRANSFER else SUCCESS)) None))"

definition lowered :: "code_points option \<Rightarrow> symbol_record \<Rightarrow> inventory_item" where
  "lowered scope r = projr (lower_record scope r)"

definition lowers :: "symbol_record \<Rightarrow> bool" where
  "lowers r = (\<not> isl (lower_record None r))"

definition table_ok :: "bool \<Rightarrow> symbol_record list \<Rightarrow> bool" where
  "table_ok ext table =
     (list_all (record_ok ext) table \<and> sorted_wrt (<) (map sr_instance table) \<and> list_all lowers table)"

definition plan_ready :: "inventory_plan \<Rightarrow> bool" where
  "plan_ready plan =
     (live_target_error (pl_target plan) = None \<and>
      (case pl_route plan of None \<Rightarrow> False | Some route \<Rightarrow> pycomm3_logix_path route \<noteq> None))"

definition asked :: "inventory_plan \<Rightarrow> inventory_item \<Rightarrow> bool" where
  "asked plan i = (it_capability i \<in> set (pl_capabilities plan))"

section \<open>Cursors\<close>

definition scope_names :: "string set" where
  "scope_names = {''controller'', ''program''}"

lemma scope_solid: "scope \<in> scope_names \<Longrightarrow> CHR '':'' \<notin> set scope"
  by (auto simp: scope_names_def)

lemma colon_not_digit: "CHR '':'' \<notin> set (int_str n)"
  by (rule int_str_solid) (simp_all add: separators_not_digits)

lemma decode_encode_cursor:
  assumes "scope \<in> scope_names"
  shows "decode_cursor (Some (encode_cursor scope i n)) = Some (scope, i, n)"
proof -
  have "split_max 2 CHR '':'' (encode_cursor scope i n) = [scope, int_str i, int_str n]"
    using scope_solid [OF assms] colon_not_digit [of i]
    by (simp add: encode_cursor_def numeral_2_eq_2 split_max_piece del: split_max.simps(2))
  then show ?thesis using assms by (simp add: decode_cursor_def py_int_str scope_names_def)
qed

lemma encode_cursor_inject:
  "scope \<in> scope_names \<Longrightarrow> scope' \<in> scope_names \<Longrightarrow>
     encode_cursor scope i n = encode_cursor scope' i' n' \<longleftrightarrow> (scope, i, n) = (scope', i', n')"
  by (metis decode_encode_cursor option.inject prod.inject)

lemma int_str_ends: "int_str n \<noteq> [] \<and> \<not> py_isspace (last (int_str n))"
proof -
  have "int_str n \<noteq> []" by (simp add: int_str_def)
  then have "last (int_str n) \<in> set (int_str n)" by simp
  then have "py_isdigit (last (int_str n)) \<or> last (int_str n) = CHR ''-''" using int_str_chars [of n] by (simp add: list_all_iff)
  then show ?thesis using \<open>int_str n \<noteq> []\<close> digit_not_space minus_not_digit(3) by metis
qed

lemma encode_cursor_tidy: "scope \<in> scope_names \<Longrightarrow> \<not> untidy (encode_cursor scope i n)"
proof -
  assume "scope \<in> scope_names"
  then have "\<not> py_isspace (hd (encode_cursor scope i n))" "encode_cursor scope i n \<noteq> []"
    by (auto simp: scope_names_def encode_cursor_def py_isspace_def code_def)
  moreover have "\<not> py_isspace (last (encode_cursor scope i n))" using int_str_ends [of n] by (simp add: encode_cursor_def)
  ultimately show ?thesis using strip_solid by (simp add: untidy_def)
qed

lemma next_cursor_tidy:
  "scope \<in> scope_names \<Longrightarrow> next_cursor programs scope i numeric plan = Some c \<Longrightarrow> \<not> untidy c"
  by (auto simp: next_cursor_def Let_def scope_names_def encode_cursor_tidy split: option.splits if_splits)

section \<open>One page\<close>

lemma item_error_parent: "item_error (i\<lparr>it_parent := p\<rparr>) = item_error i"
  by (simp add: item_error_def)

lemma symbol_item_parent: "isl (symbol_item c name parent r) = isl (symbol_item c name parent' r)"
  by (simp add: symbol_item_def item_error_def Let_def split: option.split)

lemma lower_record_lowers: "lowers r \<Longrightarrow> lower_record scope r = Inr (lowered scope r)"
proof -
  assume "lowers r"
  moreover have "isl (lower_record scope r) = isl (lower_record None r)"
    using symbol_item_parent by (auto simp: lower_record_def split: option.splits)
  ultimately show ?thesis by (cases "lower_record scope r") (auto simp: lowers_def lowered_def)
qed

lemma lower_records_lowers: "list_all lowers rs \<Longrightarrow> lower_records scope rs = Inr (map (lowered scope) rs)"
  by (induction rs) (simp_all add: lower_record_lowers)

text \<open>What a page shows of the records from an instance on, and where it leads.\<close>

definition page_size :: "(int \<Rightarrow> nat) \<Rightarrow> int \<Rightarrow> nat" where
  "page_size chunk start = max 1 (chunk start)"

definition after_page :: "nat \<Rightarrow> symbol_record list \<Rightarrow> int" where
  "after_page n rest = sr_instance (last (take n rest)) + 1"

lemma page_decodes:
  assumes "list_all (record_ok ext) rs" "list_all lowers rs" "0 \<le> start" "status = PARTIAL_TRANSFER \<Longrightarrow> rs \<noteq> []"
    "status \<in> {SUCCESS, PARTIAL_TRANSFER}"
  shows "decode_logix_symbol_page (concat (map encode_record rs)) status allowed parent ext raw start =
    Inr \<lparr>dp_page = \<lparr>pg_items = filter (\<lambda>i. it_capability i \<in> set allowed) (map (lowered parent) rs),
            pg_next = (if status = PARTIAL_TRANSFER then Some (int_str (sr_instance (last rs) + 1)) else None),
            pg_evidence = [page_evidence (concat (map encode_record rs)) status raw start rs]\<rparr>, dp_records = rs\<rparr>"
proof -
  have "decode_records (concat (map encode_record rs)) ext = Inr rs" using assms(1) by (simp add: decode_records_iff)
  moreover have "0 \<le> status" using assms(5) by (auto simp: SUCCESS_def PARTIAL_TRANSFER_def)
  then have "\<not> object_negative (page_evidence (concat (map encode_record rs)) status raw start rs)"
    using assms(3) by (simp add: object_negative_def page_evidence_def)
  ultimately show ?thesis
    using assms(2,4,5) by (auto simp: decode_logix_symbol_page_def lower_records_lowers)
qed

lemma table_sub: "table_ok ext table \<Longrightarrow> set rs \<subseteq> set table \<Longrightarrow> list_all (record_ok ext) rs \<and> list_all lowers rs"
  by (auto simp: table_ok_def list_all_iff)

lemma read_page:
  fixes start :: int and table :: "symbol_record list" and chunk :: "int \<Rightarrow> nat"
  defines "rest \<equiv> filter (\<lambda>r. start \<le> sr_instance r) table" and "n \<equiv> page_size chunk start"
  assumes ready: "plan_ready plan" and ok: "table_ok ext table"
    and cursor: "decode_cursor c = Some (scope, i, start)" "scope \<in> scope_names" "0 \<le> start"
    and parent: "scope_program programs scope i = Some parent"
    and programs': "programs' = (if scope = ''controller'' then remember_programs programs (take n rest) else programs)"
  shows "\<exists>ev. read_inventory_page (serve chunk table) ext plan c \<lparr>tr_programs = programs, tr_driver = ()\<rparr> =
    (\<lparr>tr_programs = programs', tr_driver = ()\<rparr>,
     Inr \<lparr>pg_items = filter (asked plan) (map (lowered parent) (take n rest)),
          pg_next = (if n < length rest then Some (encode_cursor scope i (after_page n rest))
                     else next_cursor programs' scope i None plan),
          pg_evidence = ev\<rparr>)"
proof -
  obtain route path where r: "pl_route plan = Some route" "pycomm3_logix_path route = Some path"
    "live_target_error (pl_target plan) = None"
    using ready by (auto simp: plan_ready_def split: option.splits)
  obtain q where q: "build_logix_symbol_page_request start ext = Some q" "pq_start q = start"
    using cursor(3) by (auto simp: build_logix_symbol_page_request_def Let_def)
  have prep: "prepare ext plan c programs = Inr (scope, i, parent, symbol_request path q)"
    using r q cursor parent by (simp add: prepare_def)
  have inst: "dq_instance (symbol_request path q) = start" by (simp add: symbol_request_def q)
  let ?status = "if n < length rest then PARTIAL_TRANSFER else SUCCESS"
  have reply: "serve chunk table () (symbol_request path q) =
      ((), Reply (Some (concat (map encode_record (take n rest)))) (Some ?status) None)"
    by (simp add: serve_def inst rest_def n_def page_size_def Let_def)
  have "1 \<le> n" by (simp add: n_def page_size_def)
  then have nonempty: "take n rest \<noteq> []" if "n < length rest" using that by (cases rest) auto
  have "set (take n rest) \<subseteq> set table" unfolding rest_def using set_take_subset by fastforce
  from table_sub [OF ok this] have records: "list_all (record_ok ext) (take n rest)" "list_all lowers (take n rest)" by simp_all
  have different: "SUCCESS \<noteq> PARTIAL_TRANSFER" by (simp add: SUCCESS_def PARTIAL_TRANSFER_def)
  have dec: "accept_reply ext plan parent (symbol_request path q) (snd (serve chunk table () (symbol_request path q))) =
      Inr \<lparr>dp_page = \<lparr>pg_items = filter (asked plan) (map (lowered parent) (take n rest)),
            pg_next = (if n < length rest then Some (int_str (after_page n rest)) else None),
            pg_evidence = [page_evidence (concat (map encode_record (take n rest))) ?status None start (take n rest)]\<rparr>,
           dp_records = take n rest\<rparr>"
  proof -
    have "?status = PARTIAL_TRANSFER \<Longrightarrow> take n rest \<noteq> []" using nonempty different by (auto split: if_splits)
    moreover have "?status \<in> {SUCCESS, PARTIAL_TRANSFER}" by simp
    ultimately
    have "decode_logix_symbol_page (concat (map encode_record (take n rest))) ?status (pl_capabilities plan) parent ext None start =
      Inr \<lparr>dp_page = \<lparr>pg_items = filter (asked plan) (map (lowered parent) (take n rest)),
            pg_next = (if n < length rest then Some (int_str (after_page n rest)) else None),
            pg_evidence = [page_evidence (concat (map encode_record (take n rest))) ?status None start (take n rest)]\<rparr>,
           dp_records = take n rest\<rparr>"
      using page_decodes [OF records cursor(3), of ?status "pl_capabilities plan" parent None] different
      by (simp add: after_page_def asked_def [abs_def])
    then show ?thesis
      by (simp only: reply snd_conv accept_reply_def inst driver_reply.case option.case map_sum.simps id_apply)
  qed
  have next_page: "next_cursor programs' scope i (if n < length rest then Some (int_str (after_page n rest)) else None) plan =
      (if n < length rest then Some (encode_cursor scope i (after_page n rest)) else next_cursor programs' scope i None plan)"
    by (simp add: next_cursor_def py_int_str)
  have "\<not> page_error \<lparr>pg_items = is, pg_next = next_cursor programs' scope i numeric plan, pg_evidence = ev\<rparr>" for "is" numeric ev
    using next_cursor_tidy [OF cursor(2)] by (auto simp: page_error_def split: option.split)
  with prep dec reply show ?thesis
    by (auto simp: read_inventory_page_def Let_def next_page [symmetric] programs')
qed

section \<open>Chains of pages\<close>

text \<open>Pages that follow one another from a cursor, the last of them leading to \<open>d\<close>.\<close>

fun served ::
  "('s, 'e) reader \<Rightarrow> inventory_plan \<Rightarrow> string option \<Rightarrow> 's \<Rightarrow> inventory_page list \<Rightarrow> string option \<Rightarrow> 's \<Rightarrow> bool" where
  "served read plan c s [] d s' = False"
| "served read plan c s (p # ps) d s' =
     (\<exists>s1. read plan c s = (s1, Inr p) \<and>
        (if ps = [] then pg_next p = d \<and> s1 = s' else pg_next p \<noteq> None \<and> served read plan (pg_next p) s1 ps d s'))"

lemma served_nonempty: "served read plan c s ps d s' \<Longrightarrow> ps \<noteq> []"
  by auto

lemma served_append:
  "served read plan c s ps (Some d) m \<Longrightarrow> served read plan (Some d) m qs e s' \<Longrightarrow> served read plan c s (ps @ qs) e s'"
proof (induction ps arbitrary: c s)
  case (Cons p ps)
  then show ?case using served_nonempty [OF Cons.prems(2)] by (cases "ps = []") auto
qed simp

lemma served_paged: "served read plan c s ps None s' \<Longrightarrow> paged read plan c s ps s'"
proof (induction ps arbitrary: c s)
  case (Cons p ps)
  then show ?case
    by (cases "ps = []") (auto intro: last_page next_page)
qed simp

text \<open>Where the pages of a table start.\<close>

function starts :: "(int \<Rightarrow> nat) \<Rightarrow> int \<Rightarrow> symbol_record list \<Rightarrow> int list" where
  "starts chunk start rest =
     (let n = page_size chunk start
      in start # (if n < length rest then starts chunk (after_page n rest) (drop n rest) else []))"
  by pat_completeness auto
termination
  by (relation "measure (\<lambda>(chunk, start, rest). length rest)") (auto simp: page_size_def)

declare starts.simps [simp del]

text \<open>The entry cursor of a scope and then the cursors its pages carry within it.\<close>

definition scope_cursors :: "(int \<Rightarrow> nat) \<Rightarrow> symbol_record list \<Rightarrow> int \<Rightarrow> string \<Rightarrow> int \<Rightarrow> string list" where
  "scope_cursors chunk table start scope i =
     map (encode_cursor scope i) (starts chunk start (filter (\<lambda>r. start \<le> sr_instance r) table))"

lemma remember_append: "remember_programs ps (rs @ qs) = remember_programs (remember_programs ps rs) qs"
  by (induction ps rs rule: remember_programs.induct) (auto split: option.split)

lemma sorted_rest:
  assumes "sorted_wrt (<) (map sr_instance table)" "0 < n" "n < length (filter (\<lambda>r. start \<le> sr_instance r) table)"
  defines "rest \<equiv> filter (\<lambda>r. start \<le> sr_instance r) table"
  shows "filter (\<lambda>r. after_page n rest \<le> sr_instance r) table = drop n rest" and "start < after_page n rest"
proof -
  have sorted: "sorted_wrt (\<lambda>a b. sr_instance a < sr_instance b) rest"
    using assms(1) sorted_wrt_filter unfolding rest_def sorted_wrt_map by blast
  have len: "n < length rest" using assms(3) by (simp add: rest_def)
  have last: "last (take n rest) = rest ! (n - 1)" using assms(2) len
    by (subst last_conv_nth) (auto simp: min_def)
  have "rest ! (n - 1) \<in> set rest" using len by simp
  then have low: "start \<le> sr_instance (rest ! (n - 1))" by (simp add: rest_def)
  then show "start < after_page n rest" by (simp add: after_page_def last)
  have before: "sr_instance r < after_page n rest" if "r \<in> set (take n rest)" for r
  proof -
    from that obtain k where k: "k < n" "r = rest ! k" using len by (auto simp: in_set_conv_nth)
    have "sr_instance (rest ! k) \<le> sr_instance (rest ! (n - 1))"
    proof (cases "k = n - 1")
      case False
      then have less: "k < n - 1" using k by simp
      have "n - 1 < length rest" using len by simp
      from sorted_wrt_nth_less [OF sorted less this] show ?thesis by simp
    qed simp
    then show ?thesis using k by (simp add: after_page_def last)
  qed
  have beyond: "after_page n rest \<le> sr_instance r" if "r \<in> set (drop n rest)" for r
  proof -
    from that obtain k where k: "k < length rest - n" "r = rest ! (n + k)" by (auto simp: in_set_conv_nth)
    then have "sr_instance (rest ! (n - 1)) < sr_instance (rest ! (n + k))"
      using sorted_wrt_nth_less [OF sorted, of "n - 1" "n + k"] assms(2) by simp
    then show ?thesis using k by (simp add: after_page_def last)
  qed
  have "filter (\<lambda>r. after_page n rest \<le> sr_instance r) table = filter (\<lambda>r. after_page n rest \<le> sr_instance r) rest"
    unfolding rest_def filter_filter using \<open>start < after_page n rest\<close> by (intro filter_cong) (auto simp: rest_def)
  also have "\<dots> = filter (\<lambda>r. after_page n rest \<le> sr_instance r) (take n rest @ drop n rest)" by simp
  also have "\<dots> = drop n rest"
    using before beyond by (simp only: filter_append) (auto simp: filter_empty_conv filter_id_conv not_le)
  finally show "filter (\<lambda>r. after_page n rest \<le> sr_instance r) table = drop n rest" .
qed

lemma starts_increase:
  assumes "sorted_wrt (<) (map sr_instance table)"
  shows "sorted_wrt (<) (starts chunk start (filter (\<lambda>r. start \<le> sr_instance r) table)) \<and>
    (\<forall>s\<in>set (starts chunk start (filter (\<lambda>r. start \<le> sr_instance r) table)). start \<le> s)"
proof (induction chunk start "filter (\<lambda>r. start \<le> sr_instance r) table" rule: starts.induct)
  case (1 chunk start)
  let ?rest = "filter (\<lambda>r. start \<le> sr_instance r) table" and ?n = "page_size chunk start"
  show ?case
  proof (cases "?n < length ?rest")
    case True
    have "0 < ?n" by (simp add: page_size_def)
    note next_rest = sorted_rest [OF assms this True]
    from "1.hyps" [OF refl True] next_rest
    have "sorted_wrt (<) (starts chunk (after_page ?n ?rest) (drop ?n ?rest))"
      "\<forall>s\<in>set (starts chunk (after_page ?n ?rest) (drop ?n ?rest)). after_page ?n ?rest \<le> s"
      by simp_all
    with next_rest(2) True show ?thesis by (subst (1 2) starts.simps) (auto simp: Let_def)
  next
    case False
    then show ?thesis by (subst (1 2) starts.simps) (simp add: Let_def)
  qed
qed

lemma chain_append [simp]:
  "cursors (ps @ qs) = cursors ps @ cursors qs" "items_of (ps @ qs) = items_of ps @ items_of qs"
  by (simp_all add: chain_defs)

lemma requested_asked: "requested plan \<lparr>pg_items = filter (asked plan) is, pg_next = c, pg_evidence = ev\<rparr>"
  by (simp add: requested_def asked_def list_all_iff)

abbreviation reader_of :: "(int \<Rightarrow> nat) \<Rightarrow> symbol_record list \<Rightarrow> bool \<Rightarrow> (unit symbol_transport, transport_error) reader" where
  "reader_of chunk table ext \<equiv> read_inventory_page (serve chunk table) ext"

text \<open>The pages of one scope: its symbols, its cursors, and where it leads.\<close>

definition scope_served ::
  "(int \<Rightarrow> nat) \<Rightarrow> symbol_record list \<Rightarrow> bool \<Rightarrow> inventory_plan \<Rightarrow> string option \<Rightarrow> code_points list \<Rightarrow>
     inventory_page list \<Rightarrow> string option \<Rightarrow> code_points list \<Rightarrow> bool" where
  "scope_served chunk table ext plan c programs ps d programs' =
     (served (reader_of chunk table ext) plan c \<lparr>tr_programs = programs, tr_driver = ()\<rparr> ps d
        \<lparr>tr_programs = programs', tr_driver = ()\<rparr> \<and> list_all (requested plan) ps)"

lemma scope_served_append:
  "scope_served chunk table ext plan c programs ps (Some d) programs1 \<Longrightarrow>
   scope_served chunk table ext plan (Some d) programs1 qs e programs2 \<Longrightarrow>
   scope_served chunk table ext plan c programs (ps @ qs) e programs2"
  unfolding scope_served_def by (auto intro: served_append)

lemma scope_chain:
  assumes ready: "plan_ready plan" and ok: "table_ok ext table"
  shows "decode_cursor c = Some (scope, i, start) \<Longrightarrow> scope \<in> scope_names \<Longrightarrow> 0 \<le> start \<Longrightarrow>
    scope_program programs scope i = Some parent \<Longrightarrow>
    rest = filter (\<lambda>r. start \<le> sr_instance r) table \<Longrightarrow>
    programs' = (if scope = ''controller'' then remember_programs programs rest else programs) \<Longrightarrow>
    d = next_cursor programs' scope i None plan \<Longrightarrow>
    \<exists>ps. scope_served chunk table ext plan c programs ps d programs' \<and>
      items_of ps = filter (asked plan) (map (lowered parent) rest) \<and> length ps = length (starts chunk start rest) \<and>
      encode_cursor scope i start # cursors ps =
        scope_cursors chunk table start scope i @ (case d of None \<Rightarrow> [] | Some e \<Rightarrow> [e])"
proof (induction chunk start rest arbitrary: c programs rule: starts.induct)
  case (1 chunk start rest)
  note prems = "1.prems"
  let ?n = "page_size chunk start"
  let ?programs1 = "if scope = ''controller'' then remember_programs programs (take ?n rest) else programs"
  let ?next = "if ?n < length rest then Some (encode_cursor scope i (after_page ?n rest)) else next_cursor ?programs1 scope i None plan"
  from read_page [OF ready ok prems(1-4) refl, of chunk] obtain ev where page:
    "reader_of chunk table ext plan c \<lparr>tr_programs = programs, tr_driver = ()\<rparr> =
       (\<lparr>tr_programs = ?programs1, tr_driver = ()\<rparr>,
        Inr \<lparr>pg_items = filter (asked plan) (map (lowered parent) (take ?n rest)), pg_next = ?next, pg_evidence = ev\<rparr>)"
    unfolding prems(5) by blast
  let ?p = "\<lparr>pg_items = filter (asked plan) (map (lowered parent) (take ?n rest)), pg_next = ?next, pg_evidence = ev\<rparr>"
  have pos: "0 < ?n" by (simp add: page_size_def)
  have sorted: "sorted_wrt (<) (map sr_instance table)" using ok by (simp add: table_ok_def)
  show ?case
  proof (cases "?n < length rest")
    case True
    note rest' = sorted_rest [OF sorted pos True [unfolded prems(5)], folded prems(5)]
    let ?m = "after_page ?n rest"
    have dec: "decode_cursor (Some (encode_cursor scope i ?m)) = Some (scope, i, ?m)" by (rule decode_encode_cursor [OF prems(2)])
    have parent: "scope_program ?programs1 scope i = Some parent" using prems(4) by (auto simp: scope_program_def split: if_splits)
    have programs': "programs' = (if scope = ''controller'' then remember_programs ?programs1 (drop ?n rest) else ?programs1)"
      using prems(6) remember_append [of programs "take ?n rest" "drop ?n rest"] by simp
    have "0 \<le> ?m" using rest'(2) prems(3) by simp
    from "1.IH" [OF refl True dec prems(2) this parent rest'(1) [symmetric] programs' prems(7)] obtain ps where
      ps: "scope_served chunk table ext plan (Some (encode_cursor scope i ?m)) ?programs1 ps d programs'"
      "items_of ps = filter (asked plan) (map (lowered parent) (drop ?n rest))" "length ps = length (starts chunk ?m (drop ?n rest))"
      "encode_cursor scope i ?m # cursors ps = scope_cursors chunk table ?m scope i @ (case d of None \<Rightarrow> [] | Some e \<Rightarrow> [e])"
      by blast
    have step: "starts chunk start rest = start # starts chunk ?m (drop ?n rest)"
      using True by (subst starts.simps) (simp add: Let_def)
    have "scope_served chunk table ext plan c programs (?p # ps) d programs'"
      using ps(1) page True served_nonempty unfolding scope_served_def
      by (auto simp: requested_asked)
    moreover have "items_of (?p # ps) = filter (asked plan) (map (lowered parent) rest)"
      using ps(2) by (simp add: filter_append [symmetric] map_append [symmetric] del: filter_append map_append)
    moreover have "length (?p # ps) = length (starts chunk start rest)" using ps(3) by (simp add: step)
    moreover have "encode_cursor scope i start # cursors (?p # ps) =
        scope_cursors chunk table start scope i @ (case d of None \<Rightarrow> [] | Some e \<Rightarrow> [e])"
      using ps(4) True rest'(1) by (simp add: scope_cursors_def prems(5) [symmetric] step)
    ultimately show ?thesis by blast
  next
    case False
    then have step: "starts chunk start rest = [start]" by (subst starts.simps) (simp add: Let_def)
    have "?next = d" "?programs1 = programs'" "take ?n rest = rest" using False prems(6,7) by simp_all
    with page have "scope_served chunk table ext plan c programs [?p] d programs'"
      unfolding scope_served_def by (simp add: requested_asked)
    moreover have "items_of [?p] = filter (asked plan) (map (lowered parent) rest)" using \<open>take ?n rest = rest\<close> by simp
    moreover have "encode_cursor scope i start # cursors [?p] =
        scope_cursors chunk table start scope i @ (case d of None \<Rightarrow> [] | Some e \<Rightarrow> [e])"
      using \<open>?next = d\<close> by (simp add: scope_cursors_def prems(5) [symmetric] step split: option.split)
    ultimately show ?thesis using step by (intro exI [of _ "[?p]"]) simp
  qed
qed

lemma whole_table: "table_ok ext table \<Longrightarrow> filter (\<lambda>r. 0 \<le> sr_instance r) table = table"
  by (auto simp: table_ok_def record_ok_def in_bytes_def list_all_iff filter_id_conv)

text \<open>The scopes of the programs, one after the other.\<close>

lemma program_chain:
  assumes ready: "plan_ready plan" and ok: "table_ok ext table"
  shows "i < length programs \<Longrightarrow>
    \<exists>ps. scope_served chunk table ext plan (Some (encode_cursor ''program'' (int i) 0)) programs ps None programs \<and>
      items_of ps = concat (map (\<lambda>p. filter (asked plan) (map (lowered (Some p)) table)) (drop i programs)) \<and>
      length ps = (length programs - i) * length (starts chunk 0 table) \<and>
      encode_cursor ''program'' (int i) 0 # cursors ps =
        concat (map (\<lambda>j. scope_cursors chunk table 0 ''program'' (int j)) [i..<length programs])"
proof (induction "length programs - i" arbitrary: i)
  case (Suc k)
  let ?c = "Some (encode_cursor ''program'' (int i) 0)"
  let ?d = "next_cursor programs ''program'' (int i) None plan"
  have name: "''program'' \<in> scope_names" by (simp add: scope_names_def)
  have "scope_program programs ''program'' (int i) = Some (Some (programs ! i))"
    using Suc.prems by (simp add: scope_program_def py_index_def)
  from scope_chain [OF ready ok decode_encode_cursor [OF name] name order_refl this refl refl refl, of chunk]
  obtain ps where ps: "scope_served chunk table ext plan ?c programs ps ?d programs"
    "items_of ps = filter (asked plan) (map (lowered (Some (programs ! i))) table)" "length ps = length (starts chunk 0 table)"
    "encode_cursor ''program'' (int i) 0 # cursors ps =
       scope_cursors chunk table 0 ''program'' (int i) @ (case ?d of None \<Rightarrow> [] | Some e \<Rightarrow> [e])"
    by (auto simp: whole_table [OF ok])
  have drop: "drop i programs = programs ! i # drop (Suc i) programs" using Suc.prems by (simp add: Cons_nth_drop_Suc)
  have upt: "[i..<length programs] = i # [Suc i..<length programs]" using Suc.prems by (simp add: upt_conv_Cons)
  show ?case
  proof (cases "Suc i < length programs")
    case True
    then have d: "?d = Some (encode_cursor ''program'' (int (Suc i)) 0)" by (simp add: next_cursor_def Let_def add.commute)
    have "k = length programs - Suc i" using Suc.hyps(2) by simp
    from Suc.hyps(1) [OF this True] obtain qs where
      qs: "scope_served chunk table ext plan (Some (encode_cursor ''program'' (int (Suc i)) 0)) programs qs None programs"
      "items_of qs = concat (map (\<lambda>p. filter (asked plan) (map (lowered (Some p)) table)) (drop (Suc i) programs))"
      "length qs = (length programs - Suc i) * length (starts chunk 0 table)"
      "encode_cursor ''program'' (int (Suc i)) 0 # cursors qs =
         concat (map (\<lambda>j. scope_cursors chunk table 0 ''program'' (int j)) [Suc i..<length programs])"
      by blast
    have "length programs - i = Suc (length programs - Suc i)" using Suc.prems by simp
    then have "length (ps @ qs) = (length programs - i) * length (starts chunk 0 table)" using ps(3) qs(3) by simp
    moreover have "encode_cursor ''program'' (int i) 0 # cursors (ps @ qs) =
        concat (map (\<lambda>j. scope_cursors chunk table 0 ''program'' (int j)) [i..<length programs])"
    proof -
      have "encode_cursor ''program'' (int i) 0 # cursors (ps @ qs) =
          (encode_cursor ''program'' (int i) 0 # cursors ps) @ cursors qs" by simp
      also have "\<dots> = scope_cursors chunk table 0 ''program'' (int i) @ encode_cursor ''program'' (int (Suc i)) 0 # cursors qs"
        unfolding ps(4) d by simp
      finally show ?thesis unfolding qs(4) upt by simp
    qed
    moreover have "scope_served chunk table ext plan ?c programs (ps @ qs) None programs"
      by (rule scope_served_append [OF ps(1) [unfolded d] qs(1)])
    ultimately show ?thesis using ps(2) qs(2) drop by (intro exI [of _ "ps @ qs"]) simp
  next
    case False
    then have d: "?d = None" and single: "length programs - i = 1" "drop (Suc i) programs = []" "[Suc i..<length programs] = []"
      using Suc.prems by (simp_all add: next_cursor_def Let_def)
    show ?thesis using ps d drop upt single by (intro exI [of _ ps]) simp
  qed
qed simp

section \<open>The whole inventory\<close>

definition program_names :: "symbol_record list \<Rightarrow> code_points list" where
  "program_names table = remember_programs [] table"

text \<open>The scopes that are read: the controller's, and the programs' when the plan asks for what they hold.\<close>

definition scopes :: "inventory_plan \<Rightarrow> symbol_record list \<Rightarrow> code_points option list" where
  "scopes plan table =
     None # (if list_ex (\<lambda>c. c \<in> set (pl_capabilities plan)) [ROUTINES, TAG_DEFINITIONS]
             then map Some (program_names table) else [])"

definition requests_needed :: "(int \<Rightarrow> nat) \<Rightarrow> inventory_plan \<Rightarrow> symbol_record list \<Rightarrow> nat" where
  "requests_needed chunk plan table = length (scopes plan table) * length (starts chunk 0 table)"

definition all_cursors :: "(int \<Rightarrow> nat) \<Rightarrow> symbol_record list \<Rightarrow> nat \<Rightarrow> string list" where
  "all_cursors chunk table n =
     scope_cursors chunk table 0 ''controller'' 0 @
     concat (map (\<lambda>j. scope_cursors chunk table 0 ''program'' (int j)) [0..<n])"

lemma whole_chain:
  assumes ready: "plan_ready plan" and ok: "table_ok ext table"
  shows "\<exists>ps n. scope_served chunk table ext plan None [] ps None (program_names table) \<and>
    items_of ps = concat (map (\<lambda>s. filter (asked plan) (map (lowered s) table)) (scopes plan table)) \<and>
    length ps = requests_needed chunk plan table \<and>
    encode_cursor ''controller'' 0 0 # cursors ps = all_cursors chunk table n"
proof -
  let ?programs = "program_names table"
  let ?d = "next_cursor ?programs ''controller'' 0 None plan"
  have name: "''controller'' \<in> scope_names" by (simp add: scope_names_def)
  have first: "decode_cursor None = Some (''controller'', 0, 0)" by (simp add: decode_cursor_def)
  have "scope_program [] ''controller'' 0 = Some None" by (simp add: scope_program_def)
  from scope_chain [OF ready ok first name order_refl this refl refl refl, of chunk]
  obtain ps where ps: "scope_served chunk table ext plan None [] ps ?d ?programs"
    "items_of ps = filter (asked plan) (map (lowered None) table)" "length ps = length (starts chunk 0 table)"
    "encode_cursor ''controller'' 0 0 # cursors ps =
       scope_cursors chunk table 0 ''controller'' 0 @ (case ?d of None \<Rightarrow> [] | Some e \<Rightarrow> [e])"
    by (auto simp: whole_table [OF ok] program_names_def)
  show ?thesis
  proof (cases "list_ex (\<lambda>c. c \<in> set (pl_capabilities plan)) [ROUTINES, TAG_DEFINITIONS] \<and> ?programs \<noteq> []")
    case True
    then have d: "?d = Some (encode_cursor ''program'' 0 0)" by (simp add: next_cursor_def Let_def)
    from True program_chain [OF ready ok, of 0 ?programs chunk] obtain qs where
      qs: "scope_served chunk table ext plan (Some (encode_cursor ''program'' 0 0)) ?programs qs None ?programs"
      "items_of qs = concat (map (\<lambda>p. filter (asked plan) (map (lowered (Some p)) table)) ?programs)"
      "length qs = length ?programs * length (starts chunk 0 table)"
      "encode_cursor ''program'' 0 0 # cursors qs =
         concat (map (\<lambda>j. scope_cursors chunk table 0 ''program'' (int j)) [0..<length ?programs])"
      by auto
    have all: "scopes plan table = None # map Some ?programs" using True by (simp add: scopes_def)
    have "scope_served chunk table ext plan None [] (ps @ qs) None ?programs"
      by (rule scope_served_append [OF ps(1) [unfolded d] qs(1)])
    moreover have "items_of (ps @ qs) = concat (map (\<lambda>s. filter (asked plan) (map (lowered s) table)) (scopes plan table))"
      using ps(2) qs(2) by (simp add: all comp_def)
    moreover have "length (ps @ qs) = requests_needed chunk plan table" using ps(3) qs(3) by (simp add: requests_needed_def all)
    moreover have "encode_cursor ''controller'' 0 0 # cursors (ps @ qs) = all_cursors chunk table (length ?programs)"
    proof -
      have "encode_cursor ''controller'' 0 0 # cursors (ps @ qs) = (encode_cursor ''controller'' 0 0 # cursors ps) @ cursors qs" by simp
      also have "\<dots> = scope_cursors chunk table 0 ''controller'' 0 @ encode_cursor ''program'' 0 0 # cursors qs"
        unfolding ps(4) d by simp
      finally show ?thesis unfolding qs(4) by (simp add: all_cursors_def)
    qed
    ultimately show ?thesis by blast
  next
    case False
    then have d: "?d = None" and all: "scopes plan table = [None]" by (auto simp: next_cursor_def scopes_def Let_def)
    have "encode_cursor ''controller'' 0 0 # cursors ps = all_cursors chunk table 0"
      using ps(4) by (simp add: d all_cursors_def)
    moreover have "length ps = requests_needed chunk plan table" using ps(3) by (simp add: requests_needed_def all)
    ultimately show ?thesis using ps(1,2) d all by (intro exI [of _ ps] exI [of _ 0]) simp
  qed
qed

lemma scope_cursors_distinct:
  assumes "sorted_wrt (<) (map sr_instance table)" "scope \<in> scope_names"
  shows "distinct (scope_cursors chunk table start scope i)"
proof -
  have "distinct (starts chunk start (filter (\<lambda>r. start \<le> sr_instance r) table))"
    using starts_increase [OF assms(1), of chunk start] strict_sorted_iff by blast
  then show ?thesis using encode_cursor_inject [OF assms(2,2)] by (simp add: scope_cursors_def distinct_map inj_on_def)
qed

lemma all_cursors_distinct:
  assumes "sorted_wrt (<) (map sr_instance table)"
  shows "distinct (all_cursors chunk table n)"
proof -
  have names: "''controller'' \<in> scope_names" "''program'' \<in> scope_names" by (simp_all add: scope_names_def)
  have apart: "set (scope_cursors chunk table 0 s i) \<inter> set (scope_cursors chunk table 0 s' i') = {}"
    if "s \<in> scope_names" "s' \<in> scope_names" "(s, i) \<noteq> (s', i')" for s s' i i'
    using that encode_cursor_inject [OF that(1,2)] by (auto simp: scope_cursors_def)
  have "distinct (concat (map (\<lambda>j. scope_cursors chunk table 0 ''program'' (int j)) [0..<n]))"
  proof (induction n)
    case (Suc n)
    have "set (concat (map (\<lambda>j. scope_cursors chunk table 0 ''program'' (int j)) [0..<n])) \<inter>
        set (scope_cursors chunk table 0 ''program'' (int n)) = {}"
    proof -
      have "set (scope_cursors chunk table 0 ''program'' (int j)) \<inter> set (scope_cursors chunk table 0 ''program'' (int n)) = {}"
        if "j < n" for j
        by (rule apart [OF names(2,2)]) (use that in simp)
      then show ?thesis by fastforce
    qed
    with Suc scope_cursors_distinct [OF assms names(2)] show ?case by simp
  qed simp
  moreover have "set (scope_cursors chunk table 0 ''controller'' 0) \<inter>
      set (concat (map (\<lambda>j. scope_cursors chunk table 0 ''program'' (int j)) [0..<n])) = {}"
    using apart [OF names] by auto
  ultimately show ?thesis using scope_cursors_distinct [OF assms names(1)] by (simp add: all_cursors_def)
qed

lemma observation_accepted:
  assumes "plan_error plan = None" "permit_error p = None" "\<not> untidy (pm_by p)" "\<not> naive t" "pl_route plan = Some route" "0 < n"
  shows "observation_error (observe_pages plan route p t n is ev) = None"
  using assms by (auto simp: observation_error_def observe_pages_def plan_error_def common_error_def permit_error_def
      split: if_splits option.splits)

text \<open>C39. Every symbol the controller serves is observed. Let a valid plan to a permitted local target, over a
  route the driver can spell, pass the preflight of a fresh executor with a valid permit; let the
  confirmer's name be non-empty and trimmed and the time of the capture have a zone; and let the
  controller serve, in pages of any lengths, a table of well-formed symbols in strict order of their
  instances, each of whose names lowers to a valid item. If the budget covers the pages, the capture
  succeeds: it uses exactly as many requests as there are pages in the scopes read, no cursor is taken
  for a repeated one, and its items are, for every scope, the requested items among all the
  symbols of the table, each as often as it occurs there. The scopes are the controller's and, when the plan asks for
  routines or tag definitions, one for every program named in the table; the
  scope of a program repeats the controller's symbols with the program as parent of routines and tags, since
  its requests are the same.\<close>

theorem inventory_of_table:
  assumes "plan_error plan = None" "permit_error p = None" "\<not> untidy (pm_by p)" "\<not> naive t"
    and "preflight supported_capabilities plan (Some p) False = (None :: transport_error capture_error option)"
    and "plan_ready plan" "table_ok ext table" "int (requests_needed chunk plan table) \<le> pl_maximum plan"
  shows "\<exists>b. capture (read_inventory_page (serve chunk table) ext) supported_capabilities plan (Some p) t
       \<lparr>ex_executed = False, ex_transport = \<lparr>tr_programs = [], tr_driver = ()\<rparr>\<rparr> =
      (\<lparr>ex_executed = True, ex_transport = \<lparr>tr_programs = program_names table, tr_driver = ()\<rparr>\<rparr>, Inr b) \<and>
    ob_requests b = int (requests_needed chunk plan table) \<and>
    mset (ob_items b) = (\<Sum>s\<leftarrow>scopes plan table. mset (filter (asked plan) (map (lowered s) table)))"
proof -
  obtain route where route: "pl_route plan = Some route" using preflight_route [OF assms(5)] by blast
  obtain ps n where ps: "scope_served chunk table ext plan None [] ps None (program_names table)"
    "items_of ps = concat (map (\<lambda>s. filter (asked plan) (map (lowered s) table)) (scopes plan table))"
    "length ps = requests_needed chunk plan table" "encode_cursor ''controller'' 0 0 # cursors ps = all_cursors chunk table n"
    using whole_chain [OF assms(6,7)] by blast
  have sorted: "sorted_wrt (<) (map sr_instance table)" using assms(7) by (simp add: table_ok_def)
  have "distinct (encode_cursor ''controller'' 0 0 # cursors ps)" unfolding ps(4) by (rule all_cursors_distinct [OF sorted])
  then have takes: "takes plan 0 {} ps" using ps(1,3) assms(8) by (simp add: takes_def scope_served_def)
  have chain: "paged (reader_of chunk table ext) plan None \<lparr>tr_programs = [], tr_driver = ()\<rparr> ps
      \<lparr>tr_programs = program_names table, tr_driver = ()\<rparr>"
    using ps(1) served_paged by (auto simp: scope_served_def)
  have "0 < length ps" using ps(1) served_nonempty by (auto simp: scope_served_def)
  let ?b = "observe_pages plan route p t (length ps) (items_of ps) (evidence_of ps)"
  have fine: "observation_error ?b = None" by (rule observation_accepted [OF assms(1-4) route]) fact
  have "capture (reader_of chunk table ext) supported_capabilities plan (Some p) t
       \<lparr>ex_executed = False, ex_transport = \<lparr>tr_programs = [], tr_driver = ()\<rparr>\<rparr> =
      (\<lparr>ex_executed = True, ex_transport = \<lparr>tr_programs = program_names table, tr_driver = ()\<rparr>\<rparr>, Inr ?b)"
    unfolding capture_iff using assms(4,5) route chain takes fine by auto
  moreover have "mset (ob_items ?b) = (\<Sum>s\<leftarrow>scopes plan table. mset (filter (asked plan) (map (lowered s) table)))"
    by (simp add: observe_pages_def ps(2) mset_concat comp_def)
  moreover have "ob_requests ?b = int (requests_needed chunk plan table)" by (simp add: observe_pages_def ps(3))
  ultimately show ?thesis by blast
qed

definition example_table :: "symbol_record list" where
  "example_table = [plain_record 3 ''Program:Main'', plain_record 7 ''Task:Fast'', plain_record 9 ''MotorRun'']"

definition example_plan :: inventory_plan where
  "example_plan =
     \<lparr>pl_target = rt_gateway (slot_route []), pl_engagement = ''plant'', pl_reference = ''auth-1'',
      pl_capabilities = [PROGRAMS, TAG_DEFINITIONS], pl_maximum = 5, pl_route = Some (slot_route [Link_Int 0])\<rparr>"

lemma example_starts: "length (starts (\<lambda>start. 2) 0 example_table) = 2"
  by (simp add: starts.simps [of _ _ "_ # _"] example_table_def page_size_def Let_def)

lemma example_scopes: "scopes example_plan example_table = [None, Some (points ''Main'')]"
  by (simp add: scopes_def example_plan_def program_names_def example_table_def points_def)

lemma example_table_ok: "table_ok False example_table"
proof -
  have "list_all (record_ok False) example_table" unfolding example_table_def by (simp add: plain_record_ok in_bytes_def)
  moreover have "sorted_wrt (<) (map sr_instance example_table)" by (simp add: example_table_def)
  moreover have "list_all lowers example_table"
    by (simp add: example_table_def lowers_def lower_record_def symbol_item_def item_error_def
        Let_def points_def strip_points_def unicode_space_def)
  ultimately show ?thesis by (simp add: table_ok_def)
qed

theorem inventory_of_table_witness:
  "\<exists>b. capture (read_inventory_page (serve (\<lambda>start. 2) example_table) False) supported_capabilities example_plan
       (Some (slot_permit [slot_route [Link_Int 0]])) \<lparr>instant = 0, zone = Some ''UTC''\<rparr>
       \<lparr>ex_executed = False, ex_transport = \<lparr>tr_programs = [], tr_driver = ()\<rparr>\<rparr> =
      (\<lparr>ex_executed = True, ex_transport = \<lparr>tr_programs = program_names example_table, tr_driver = ()\<rparr>\<rparr>, Inr b) \<and>
    ob_requests b = 4"
proof -
  have "plan_error example_plan = None \<and> permit_error (slot_permit [slot_route [Link_Int 0]]) = None \<and>
      \<not> untidy (pm_by (slot_permit [slot_route [Link_Int 0]])) \<and> \<not> naive \<lparr>instant = 0, zone = Some ''UTC''\<rparr> \<and>
      preflight supported_capabilities example_plan (Some (slot_permit [slot_route [Link_Int 0]])) False =
        (None :: transport_error capture_error option) \<and> plan_ready example_plan"
    by code_simp
  moreover have "requests_needed (\<lambda>start. 2) example_plan example_table = 4"
    by (simp add: requests_needed_def example_starts example_scopes)
  moreover have "pl_maximum example_plan = 5" by (simp add: example_plan_def)
  ultimately show ?thesis
    using inventory_of_table [OF _ _ _ _ _ _ example_table_ok, of example_plan "slot_permit [slot_route [Link_Int 0]]"
        "\<lparr>instant = 0, zone = Some ''UTC''\<rparr>" "\<lambda>start. 2"]
    by auto
qed

section \<open>The scope of a program\<close>

text \<open>A cursor into a program's scope sends the very request of the controller's scope: the program is
  not part of it.\<close>

lemma program_scope_not_addressed:
  assumes "prepare ext plan (Some (encode_cursor ''program'' i n)) programs = Inr (scope, k, parent, q)"
  shows "prepare ext plan (Some (encode_cursor ''controller'' 0 n)) programs = Inr (''controller'', 0, None, q)"
proof -
  have names: "''controller'' \<in> scope_names" "''program'' \<in> scope_names" by (simp_all add: scope_names_def)
  show ?thesis
    using assms by (auto simp: prepare_def decode_encode_cursor names scope_program_def split: option.splits)
qed

end
