(* ===== verification/Drift.thy ===== *)
theory Drift imports Discovery_Acceptance begin

text \<open>
  Drift between two captures: \<open>discovery/drift.py\<close>, the records, the checks of a state and the
  comparison of two states. The keys of records are any linearly ordered type, since the comparison
  only orders and equates them; text in attributes is that type too. Which evidence becomes which record,
  \<open>build_discovery_drift_state\<close>, is left out.
\<close>

section \<open>States\<close>

datatype drift_domain = HARDWARE | FIRMWARE | CONFIGURATION | NETWORK

fun domain_value :: "drift_domain \<Rightarrow> string" where
  "domain_value HARDWARE = ''hardware''"
| "domain_value FIRMWARE = ''firmware''"
| "domain_value CONFIGURATION = ''configuration''"
| "domain_value NETWORK = ''network''"

definition all_domains :: "drift_domain list" where
  "all_domains = [HARDWARE, FIRMWARE, CONFIGURATION, NETWORK]"

datatype change_type = ADDED | REMOVED | CHANGED

datatype 'k drift_value = DV_Null | DV_Text 'k | DV_Int int | DV_Bool bool

record 'k drift_record =
  df_domain :: drift_domain
  df_key :: 'k
  df_attributes :: "(string \<times> 'k drift_value) list"
  df_evidence :: "evidence_reference list"

record 'k drift_state =
  dt_captured_at :: stamp
  dt_complete :: "drift_domain list"
  dt_records :: "'k drift_record list"

datatype drift_error = State_Naive | Domains_Repeated | Domains_Unsorted | Records_Repeated | Domain_Incomplete

definition sort_domains :: "drift_domain list \<Rightarrow> drift_domain list" where
  "sort_domains ds = sort_key domain_value ds"

definition place :: "'k drift_record \<Rightarrow> drift_domain \<times> 'k" where
  "place r = (df_domain r, df_key r)"

definition state_error :: "'k drift_state \<Rightarrow> drift_error option" where
  "state_error s =
     (if naive (dt_captured_at s) then Some State_Naive
      else if \<not> distinct (dt_complete s) then Some Domains_Repeated
      else if sort_domains (dt_complete s) \<noteq> dt_complete s then Some Domains_Unsorted
      else if \<not> distinct (map place (dt_records s)) then Some Records_Repeated
      else if list_ex (\<lambda>r. df_domain r \<notin> set (dt_complete s)) (dt_records s) then Some Domain_Incomplete
      else None)"

text \<open>The attributes of a dictionary, by name; the names are distinct, so values are never compared.\<close>

definition drift_record_of ::
  "drift_domain \<Rightarrow> 'k \<Rightarrow> (string \<times> 'k drift_value) list \<Rightarrow> evidence_reference list \<Rightarrow> 'k drift_record" where
  "drift_record_of d k attributes evidence =
     \<lparr>df_domain = d, df_key = k, df_attributes = sort_key fst attributes, df_evidence = evidence\<rparr>"

section \<open>Comparison\<close>

text \<open>Python's equality of attributes: truth values equal the numbers one and zero, any other values
  only themselves.\<close>

fun as_number :: "'k drift_value \<Rightarrow> 'k drift_value" where
  "as_number (DV_Bool b) = DV_Int (of_bool b)"
| "as_number v = v"

definition comparable_attributes :: "'k drift_record \<Rightarrow> (string \<times> 'k drift_value) list" where
  "comparable_attributes r = map (\<lambda>(name, v). (name, as_number v)) (df_attributes r)"

definition same_attributes :: "'k drift_record \<Rightarrow> 'k drift_record \<Rightarrow> bool" where
  "same_attributes r q = (comparable_attributes r = comparable_attributes q)"

record 'k drift_finding =
  fd_domain :: drift_domain
  fd_key :: 'k
  fd_change :: change_type
  fd_before :: "'k drift_record option"
  fd_after :: "'k drift_record option"

record 'k drift_result =
  dx_baseline_at :: stamp
  dx_current_at :: stamp
  dx_compared :: "drift_domain list"
  dx_skipped :: "drift_domain list"
  dx_findings :: "'k drift_finding list"

definition comparable :: "'k drift_state \<Rightarrow> 'k drift_state \<Rightarrow> drift_domain list" where
  "comparable baseline current =
     filter (\<lambda>d. d \<in> set (dt_complete baseline) \<and> d \<in> set (dt_complete current)) all_domains"

definition records_in :: "drift_domain list \<Rightarrow> 'k drift_state \<Rightarrow> 'k drift_record list" where
  "records_in domains s = filter (\<lambda>r. df_domain r \<in> set domains) (dt_records s)"

text \<open>The record of a domain and key in a state: \<open>before\<close> and \<open>after\<close> as dictionaries.\<close>

definition record_at :: "drift_domain list \<Rightarrow> 'k drift_state \<Rightarrow> drift_domain \<times> 'k \<Rightarrow> 'k drift_record option" where
  "record_at domains s = dict_of place (records_in domains s)"

definition finding_at :: "drift_domain \<times> 'k \<Rightarrow> 'k drift_record option \<Rightarrow> 'k drift_record option \<Rightarrow> 'k drift_finding option" where
  "finding_at p old new =
     (let finding = (\<lambda>change. Some \<lparr>fd_domain = fst p, fd_key = snd p, fd_change = change, fd_before = old, fd_after = new\<rparr>)
      in case (old, new) of
           (None, _) \<Rightarrow> finding ADDED
         | (Some o', None) \<Rightarrow> finding REMOVED
         | (Some o', Some n) \<Rightarrow> if \<not> same_attributes o' n then finding CHANGED else None)"

definition place_key :: "drift_domain \<times> 'k \<Rightarrow> string \<times> 'k" where
  "place_key p = (domain_value (fst p), snd p)"

definition places_of :: "'k::linorder drift_record list \<Rightarrow> 'k drift_record list \<Rightarrow> (drift_domain \<times> 'k) list" where
  "places_of before' after' = sort_key place_key (remdups (map place before' @ map place after'))"

definition detect_discovery_drift :: "'k::linorder drift_state \<Rightarrow> 'k drift_state \<Rightarrow> 'k drift_result" where
  "detect_discovery_drift baseline current =
     (let domains = comparable baseline current
      in \<lparr>dx_baseline_at = dt_captured_at baseline, dx_current_at = dt_captured_at current,
          dx_compared = sort_domains domains,
          dx_skipped = sort_domains (filter (\<lambda>d. d \<notin> set domains) all_domains),
          dx_findings = List.map_filter (\<lambda>p. finding_at p (record_at domains baseline p) (record_at domains current p))
            (places_of (records_in domains baseline) (records_in domains current))\<rparr>)"

section \<open>What the findings say\<close>

definition finding_place :: "'k drift_finding \<Rightarrow> drift_domain \<times> 'k" where
  "finding_place f = (fd_domain f, fd_key f)"

definition compared_at :: "'k::linorder drift_result \<Rightarrow> 'k drift_state \<Rightarrow> drift_domain \<times> 'k \<Rightarrow> 'k drift_record option" where
  "compared_at r = record_at (dx_compared r)"

lemma place_key_inject: "place_key p = place_key q \<longleftrightarrow> p = q"
proof -
  have "domain_value d = domain_value e \<longleftrightarrow> d = e" for d e by (cases d; cases e) simp_all
  then show ?thesis by (cases p; cases q) (simp add: place_key_def)
qed

lemma places_of_facts:
  "set (places_of rs qs) = place ` set rs \<union> place ` set qs" "distinct (places_of rs qs)"
  "sorted_wrt (\<lambda>p q. place_key p < place_key q) (places_of rs qs)"
proof -
  show "set (places_of rs qs) = place ` set rs \<union> place ` set qs" "distinct (places_of rs qs)"
    by (simp_all add: places_of_def)
  then have "distinct (map place_key (places_of rs qs))" by (simp add: distinct_map inj_on_def place_key_inject)
  moreover have "sorted (map place_key (places_of rs qs))" by (simp add: places_of_def)
  ultimately have "sorted_wrt (<) (map place_key (places_of rs qs))" by (simp add: strict_sorted_iff)
  then show "sorted_wrt (\<lambda>p q. place_key p < place_key q) (places_of rs qs)" by (simp add: sorted_wrt_map)
qed

lemma finding_at_place: "finding_at p old new = Some f \<Longrightarrow> finding_place f = p"
  by (auto simp: finding_at_def finding_place_def Let_def split: option.splits if_splits)

lemma dict_of_findings:
  assumes "distinct ps" "\<And>p f. g p = Some f \<Longrightarrow> finding_place f = p"
  shows "dict_of finding_place (List.map_filter g ps) p = (if p \<in> set ps then g p else None)"
  using assms(1)
proof (induction ps rule: rev_induct)
  case (snoc q ps)
  have *: "List.map_filter g (ps @ [q]) = List.map_filter g ps @ (case g q of None \<Rightarrow> [] | Some f \<Rightarrow> [f])"
    by (simp add: map_filter_def split: option.split)
  show ?case
  proof (cases "g q")
    case None
    with snoc * show ?thesis by auto
  next
    case (Some f)
    then have "finding_place f = q" by (rule assms(2))
    with snoc * Some show ?thesis by (auto simp: dict_of_snoc)
  qed
qed (simp add: map_filter_def dict_of_def)

lemma sorted_findings:
  assumes "sorted_wrt (\<lambda>p q. place_key p < place_key q) ps" "\<And>p f. g p = Some f \<Longrightarrow> finding_place f = p"
  shows "sorted_wrt (\<lambda>f h. place_key (finding_place f) < place_key (finding_place h)) (List.map_filter g ps)"
  using assms(1)
proof (induction ps)
  case (Cons p ps)
  have "place_key p < place_key (finding_place h)" if "h \<in> set (List.map_filter g ps)" for h
  proof -
    from that obtain q where "q \<in> set ps" "g q = Some h" by (auto simp: map_filter_def)
    then show ?thesis using Cons.prems assms(2) [of q h] by simp
  qed
  then show ?case using Cons assms(2) [of p] by (auto simp: map_filter_simps split: option.split)
qed (simp add: map_filter_def)

lemma record_at_None: "record_at domains s p = None \<longleftrightarrow> p \<notin> place ` set (records_in domains s)"
  by (simp add: record_at_def dict_of_None)

lemma sort_domains_set [simp]: "set (sort_domains ds) = set ds"
  by (simp add: sort_domains_def)

lemma record_at_domains: "set ds = set es \<Longrightarrow> record_at ds = record_at es"
  by (simp add: record_at_def records_in_def fun_eq_iff)

text \<open>C40. Drift findings are exact. Every domain is either compared or skipped, and compared only
  when both captures declare it complete. The findings are in strict order of domain and key, so there is at
  most one for each. A record of a compared domain has no finding exactly when both captures agree
  on its attributes as Python compares them, or neither has the record; otherwise its finding carries the record of each capture and says added when the
  baseline has none, removed when the current capture has none, and changed when both have one.\<close>

theorem drift_findings_exact:
  "let r = detect_discovery_drift baseline current; old = compared_at r baseline p; new = compared_at r current p
   in set (dx_compared r) = set (dt_complete baseline) \<inter> set (dt_complete current) \<and>
      set (dx_skipped r) = - set (dx_compared r) \<and>
      sorted_wrt (\<lambda>f h. place_key (finding_place f) < place_key (finding_place h)) (dx_findings r) \<and>
      (case dict_of finding_place (dx_findings r) p of
         None \<Rightarrow> map_option comparable_attributes old = map_option comparable_attributes new
       | Some f \<Rightarrow> map_option comparable_attributes old \<noteq> map_option comparable_attributes new \<and> fd_before f = old \<and> fd_after f = new \<and>
           fd_change f = (if old = None then ADDED else if new = None then REMOVED else CHANGED))"
proof -
  let ?r = "detect_discovery_drift baseline current" and ?d = "comparable baseline current"
  let ?g = "\<lambda>p. finding_at p (record_at ?d baseline p) (record_at ?d current p)"
  let ?ps = "places_of (records_in ?d baseline) (records_in ?d current)"
  have all: "d \<in> set all_domains" for d by (cases d) (simp_all add: all_domains_def)
  have sets: "set (dx_compared ?r) = set (dt_complete baseline) \<inter> set (dt_complete current)"
    "set (dx_skipped ?r) = - set (dx_compared ?r)"
    using all by (auto simp: detect_discovery_drift_def Let_def comparable_def)
  have findings: "dx_findings ?r = List.map_filter ?g ?ps" by (simp add: detect_discovery_drift_def Let_def)
  have at: "compared_at ?r s = record_at ?d s" for s :: "'a drift_state"
    unfolding compared_at_def by (rule fun_cong [OF record_at_domains]) (simp add: detect_discovery_drift_def Let_def)
  note place = finding_at_place [of _ "record_at ?d baseline _" "record_at ?d current _"]
  have sorted: "sorted_wrt (\<lambda>f h. place_key (finding_place f) < place_key (finding_place h)) (dx_findings ?r)"
    unfolding findings by (rule sorted_findings [OF places_of_facts(3)]) (rule finding_at_place)
  have lookup: "dict_of finding_place (dx_findings ?r) p = (if p \<in> set ?ps then ?g p else None)"
    unfolding findings by (rule dict_of_findings [OF places_of_facts(2)]) (rule finding_at_place)
  have absent: "p \<notin> set ?ps \<longleftrightarrow> record_at ?d baseline p = None \<and> record_at ?d current p = None"
    by (simp add: places_of_facts record_at_None)
  have "case dict_of finding_place (dx_findings ?r) p of
         None \<Rightarrow> map_option comparable_attributes (record_at ?d baseline p) = map_option comparable_attributes (record_at ?d current p)
       | Some f \<Rightarrow> map_option comparable_attributes (record_at ?d baseline p) \<noteq> map_option comparable_attributes (record_at ?d current p) \<and>
           fd_before f = record_at ?d baseline p \<and> fd_after f = record_at ?d current p \<and>
           fd_change f = (if record_at ?d baseline p = None then ADDED else if record_at ?d current p = None then REMOVED else CHANGED)"
  proof (cases "p \<in> set ?ps")
    case False
    with absent show ?thesis by (simp add: lookup)
  next
    case True
    then have "record_at ?d baseline p \<noteq> None \<or> record_at ?d current p \<noteq> None"
      using absent by (metis (no_types))
    with True show ?thesis
      by (cases "record_at ?d baseline p"; cases "record_at ?d current p") (simp_all add: lookup finding_at_def same_attributes_def Let_def)
  qed
  with sets sorted show ?thesis by (simp only: Let_def at simp_thms)
qed

text \<open>A truth value that becomes the equal number is no change; one that becomes another is.\<close>

lemma truth_values_compare_as_numbers:
  "finding_at (HARDWARE, 0 :: nat) (Some (drift_record_of HARDWARE 0 [(''flag'', DV_Bool True)] []))
     (Some (drift_record_of HARDWARE 0 [(''flag'', DV_Int 1)] [])) = None"
  "map_option fd_change (finding_at (HARDWARE, 0 :: nat) (Some (drift_record_of HARDWARE 0 [(''flag'', DV_Bool True)] []))
     (Some (drift_record_of HARDWARE 0 [(''flag'', DV_Int 0)] []))) = Some CHANGED"
  by (simp_all add: finding_at_def same_attributes_def comparable_attributes_def drift_record_of_def)

end
