(* ===== verification/Sys_Module.thy ===== *)
theory Sys_Module imports Prelude "HOL-Library.Word" begin

text \<open>
  The runtime of the \<open>Sys_Module\<close> instruction: \<open>runtime/sys_module_core.py\<close>, the
  deterministic scan with its retained one-shot, and \<open>runtime/sys_module_runtime.py\<close>, which
  couples it with an adapter that may fail. The attributes are Python integers of any size
  and sign, so the bit operations are those of \<open>int\<close>. An adapter is a record of its two
  operations over a state of its own; an operation that raises is the \<open>Inl\<close> of a result.
\<close>

unbundle bit_operations_syntax

section \<open>The core\<close>

record module_snapshot =
  sn_instance :: int
  sn_entry_status :: int
  sn_fault_code :: int
  sn_fault_info :: int
  sn_mode :: int

record module_status =
  ms_standby :: bool
  ms_faulted :: bool
  ms_validating :: bool
  ms_connecting :: bool
  ms_connected :: bool
  ms_shutting_down :: bool
  ms_inhibited :: bool
  ms_waiting :: bool
  ms_firmware_updating :: bool
  ms_configuring :: bool
  ms_disconnected :: bool

definition empty_snapshot :: module_snapshot where
  "empty_snapshot = \<lparr>sn_instance = 0, sn_entry_status = 0, sn_fault_code = 0, sn_fault_info = 0, sn_mode = 0\<rparr>"

definition empty_status :: module_status where
  "empty_status = \<lparr>ms_standby = False, ms_faulted = False, ms_validating = False, ms_connecting = False,
     ms_connected = False, ms_shutting_down = False, ms_inhibited = False, ms_waiting = False,
     ms_firmware_updating = False, ms_configuring = False, ms_disconnected = False\<rparr>"

definition status_bits :: "module_status \<Rightarrow> (nat \<times> bool) list" where
  "status_bits st =
     [(0, ms_standby st), (1, ms_faulted st), (2, ms_validating st), (3, ms_connecting st),
      (4, ms_connected st), (5, ms_shutting_down st), (6, ms_inhibited st), (7, ms_waiting st),
      (9, ms_firmware_updating st), (10, ms_configuring st), (11, ms_disconnected st)]"

definition status_word :: "module_status \<Rightarrow> int" where
  "status_word st = sum_list (map (\<lambda>(b, e). push_bit b 1) (filter snd (status_bits st)))"

record module_outputs =
  mo_snapshot :: module_snapshot
  mo_status :: module_status

definition empty_outputs :: module_outputs where
  "empty_outputs = \<lparr>mo_snapshot = empty_snapshot, mo_status = empty_status\<rparr>"

text \<open>A \<open>SysModuleModeWrite\<close> is its mode.\<close>

record scan_result =
  sr_outputs :: module_outputs
  sr_mode_write :: "int option"

record prescan_result =
  pr_outputs :: module_outputs
  pr_input_inhibit :: bool
  pr_input_uninhibit :: bool

record core_state =
  co_osr :: bool
  co_outputs :: module_outputs

definition init_core :: core_state where
  "init_core = \<lparr>co_osr = False, co_outputs = empty_outputs\<rparr>"

definition decode_entry_status :: "int \<Rightarrow> module_status" where
  "decode_entry_status entry_status =
     (let state = entry_status AND 0xF000; inhibited = (state = 0x6000); connected = (state = 0x4000)
      in \<lparr>ms_standby = (state = 0x0000), ms_faulted = (state = 0x1000), ms_validating = (state = 0x2000),
          ms_connecting = (state = 0x3000), ms_connected = connected, ms_shutting_down = (state = 0x5000),
          ms_inhibited = inhibited, ms_waiting = (state = 0x7000), ms_firmware_updating = (state = 0x9000),
          ms_configuring = (state = 0xA000), ms_disconnected = (\<not> (inhibited \<or> connected))\<rparr>)"

text \<open>The mode write of a scan; the second command is looked at only when the first fails.\<close>

definition requested_mode :: "bool \<Rightarrow> module_snapshot \<Rightarrow> bool \<Rightarrow> bool \<Rightarrow> int option" where
  "requested_mode osr sn inhibit uninhibit =
     (if inhibit \<and> \<not> osr then Some (sn_mode sn OR 0x0004)
      else if uninhibit \<and> \<not> osr then Some (sn_mode sn AND 0xFFFB)
      else None)"

definition core_scan :: "module_snapshot \<Rightarrow> bool \<Rightarrow> bool \<Rightarrow> core_state \<Rightarrow> scan_result \<times> core_state" where
  "core_scan sn inhibit uninhibit c =
     (let outputs = \<lparr>mo_snapshot = sn, mo_status = decode_entry_status (sn_entry_status sn)\<rparr>
      in (\<lparr>sr_outputs = outputs, sr_mode_write = requested_mode (co_osr c) sn inhibit uninhibit\<rparr>,
          \<lparr>co_osr = (inhibit \<or> uninhibit), co_outputs = outputs\<rparr>))"

definition core_prescan :: "core_state \<Rightarrow> prescan_result \<times> core_state" where
  "core_prescan c =
     (\<lparr>pr_outputs = empty_outputs, pr_input_inhibit = False, pr_input_uninhibit = False\<rparr>,
      c\<lparr>co_outputs := empty_outputs\<rparr>)"

section \<open>The runtime\<close>

record service_failure =
  sf_code :: string
  sf_message :: string

text \<open>An adapter over the state \<open>'s\<close>: each operation returns or raises a classified failure.\<close>

record 's module_adapter =
  ad_read :: "'s \<Rightarrow> (service_failure + module_snapshot) \<times> 's"
  ad_write :: "int \<Rightarrow> 's \<Rightarrow> service_failure option \<times> 's"

record runtime_result =
  rr_outputs :: module_outputs
  rr_mode_write :: "int option"
  rr_read_failure :: "service_failure option"
  rr_write_failure :: "service_failure option"

definition runtime_cycle ::
  "'s module_adapter \<Rightarrow> bool \<Rightarrow> bool \<Rightarrow> core_state \<times> 's \<Rightarrow> runtime_result \<times> core_state \<times> 's" where
  "runtime_cycle A inhibit uninhibit cs =
     (case ad_read A (snd cs) of
        (Inl e, s1) \<Rightarrow>
          (\<lparr>rr_outputs = co_outputs (fst cs), rr_mode_write = None, rr_read_failure = Some e,
            rr_write_failure = None\<rparr>, fst cs, s1)
      | (Inr sn, s1) \<Rightarrow>
          let (scan, c1) = core_scan sn inhibit uninhibit (fst cs)
          in case sr_mode_write scan of
               None \<Rightarrow>
                 (\<lparr>rr_outputs = sr_outputs scan, rr_mode_write = None, rr_read_failure = None,
                   rr_write_failure = None\<rparr>, c1, s1)
             | Some mode \<Rightarrow>
                 let (failure, s2) = ad_write A mode s1
                 in (\<lparr>rr_outputs = sr_outputs scan, rr_mode_write = Some mode, rr_read_failure = None,
                      rr_write_failure = failure\<rparr>, c1, s2))"

definition runtime_prescan :: "core_state \<times> 's \<Rightarrow> prescan_result \<times> core_state \<times> 's" where
  "runtime_prescan cs = (let (r, c) = core_prescan (fst cs) in (r, c, snd cs))"

section \<open>Status words\<close>

text \<open>The reader of the status word that the alias bits allow: bit \<open>b\<close> of the word.\<close>

definition status_of_word :: "int \<Rightarrow> module_status" where
  "status_of_word w =
     \<lparr>ms_standby = bit w 0, ms_faulted = bit w 1, ms_validating = bit w 2, ms_connecting = bit w 3,
      ms_connected = bit w 4, ms_shutting_down = bit w 5, ms_inhibited = bit w 6, ms_waiting = bit w 7,
      ms_firmware_updating = bit w 9, ms_configuring = bit w 10, ms_disconnected = bit w 11\<rparr>"

lemma status_word_sum:
  "status_word st =
     of_bool (ms_standby st) + 2 * of_bool (ms_faulted st) + 4 * of_bool (ms_validating st) +
     8 * of_bool (ms_connecting st) + 16 * of_bool (ms_connected st) + 32 * of_bool (ms_shutting_down st) +
     64 * of_bool (ms_inhibited st) + 128 * of_bool (ms_waiting st) + 512 * of_bool (ms_firmware_updating st) +
     1024 * of_bool (ms_configuring st) + 2048 * of_bool (ms_disconnected st)"
  by (simp add: status_word_def status_bits_def push_bit_eq_mult)

lemma status_word_horner:
  "status_word st = horner_sum of_bool 2
     [ms_standby st, ms_faulted st, ms_validating st, ms_connecting st, ms_connected st, ms_shutting_down st,
      ms_inhibited st, ms_waiting st, False, ms_firmware_updating st, ms_configuring st, ms_disconnected st]"
  by (simp add: status_word_sum)

lemma bit_status_word:
  "bit (status_word st) n \<longleftrightarrow> n < 12 \<and>
     [ms_standby st, ms_faulted st, ms_validating st, ms_connecting st, ms_connected st, ms_shutting_down st,
      ms_inhibited st, ms_waiting st, False, ms_firmware_updating st, ms_configuring st, ms_disconnected st] ! n"
  unfolding status_word_horner bit_horner_sum_bit_iff by (simp add: eval_nat_numeral)

section \<open>The cycle as a step relation\<close>

text \<open>
  What a run of the runtime sees: cycles with the two command inputs, and prescans. The step
  relation lists the five ways a step can go; \<open>runtime_step_cycle\<close> shows that the code takes
  exactly these.
\<close>

datatype runtime_event = EV_CYCLE bool bool | EV_PRESCAN

inductive runtime_step ::
  "'s module_adapter \<Rightarrow> core_state \<times> 's \<Rightarrow> runtime_event \<Rightarrow> int option \<Rightarrow> core_state \<times> 's \<Rightarrow> bool"
  for A where
  read_failed: "ad_read A s = (Inl e, s1) \<Longrightarrow> runtime_step A (c, s) (EV_CYCLE i u) None (c, s1)"
| no_write: "ad_read A s = (Inr sn, s1) \<Longrightarrow> core_scan sn i u c = (r, c1) \<Longrightarrow> sr_mode_write r = None \<Longrightarrow>
     runtime_step A (c, s) (EV_CYCLE i u) None (c1, s1)"
| write_done: "ad_read A s = (Inr sn, s1) \<Longrightarrow> core_scan sn i u c = (r, c1) \<Longrightarrow> sr_mode_write r = Some m \<Longrightarrow>
     ad_write A m s1 = (None, s2) \<Longrightarrow> runtime_step A (c, s) (EV_CYCLE i u) (Some m) (c1, s2)"
| write_failed: "ad_read A s = (Inr sn, s1) \<Longrightarrow> core_scan sn i u c = (r, c1) \<Longrightarrow> sr_mode_write r = Some m \<Longrightarrow>
     ad_write A m s1 = (Some e, s2) \<Longrightarrow> runtime_step A (c, s) (EV_CYCLE i u) (Some m) (c1, s2)"
| prescan: "runtime_step A (c, s) EV_PRESCAN None (snd (core_prescan c), s)"

inductive_cases cycle_stepE: "runtime_step A cs (EV_CYCLE i u) w ct"
inductive_cases prescan_stepE [elim!]: "runtime_step A cs EV_PRESCAN w ct"
inductive_simps prescan_step_iff: "runtime_step A (c, s) EV_PRESCAN w ct"

text \<open>What the code does for an event: the mode write it asks for and the state after it.\<close>

fun runtime_run1 :: "'s module_adapter \<Rightarrow> runtime_event \<Rightarrow> core_state \<times> 's \<Rightarrow> int option \<times> core_state \<times> 's" where
  "runtime_run1 A (EV_CYCLE i u) cs = (let (r, ct) = runtime_cycle A i u cs in (rr_mode_write r, ct))"
| "runtime_run1 A EV_PRESCAN cs = (None, snd (runtime_prescan cs))"

lemma runtime_step_run1: "runtime_step A cs e w ct \<longleftrightarrow> runtime_run1 A e cs = (w, ct)"
proof
  assume "runtime_step A cs e w ct"
  then show "runtime_run1 A e cs = (w, ct)"
    by cases (auto simp: runtime_cycle_def runtime_prescan_def case_prod_beta)
next
  assume run: "runtime_run1 A e cs = (w, ct)"
  obtain c s where cs: "cs = (c, s)" by (cases cs)
  show "runtime_step A cs e w ct"
  proof (cases e)
    case (EV_CYCLE i u)
    show ?thesis
    proof (cases "ad_read A s")
      case (Pair r s1)
      show ?thesis
      proof (cases r)
        case (Inl e)
        with run EV_CYCLE Pair show ?thesis
          by (auto simp: cs runtime_cycle_def intro!: read_failed)
      next
        case (Inr sn)
        obtain sr c1 where sr: "core_scan sn i u c = (sr, c1)" by (cases "core_scan sn i u c")
        show ?thesis
        proof (cases "sr_mode_write sr")
          case None
          with run EV_CYCLE Pair Inr sr show ?thesis
            by (auto simp: cs runtime_cycle_def intro!: no_write)
        next
          case (Some m)
          obtain f s2 where f: "ad_write A m s1 = (f, s2)" by (cases "ad_write A m s1")
          with run EV_CYCLE Pair Inr sr Some have "w = Some m" "ct = (c1, s2)"
            by (auto simp: cs runtime_cycle_def)
          moreover have "runtime_step A (c, s) (EV_CYCLE i u) (Some m) (c1, s2)"
            using Pair Inr sr Some f by (cases f) (auto intro: write_done write_failed)
          ultimately show ?thesis by (simp add: cs EV_CYCLE)
        qed
      qed
    qed
  next
    case EV_PRESCAN
    with run show ?thesis
      by (auto simp: cs runtime_prescan_def case_prod_beta intro!: prescan)
  qed
qed

section \<open>Runs\<close>

text \<open>
  A run from an event list: the mode writes it asked for, event by event. \<open>seen\<close> is the list
  of what the cores of the same run get to see, the commands and mode of the cycles whose
  read succeeded and \<open>None\<close> for any other event.
\<close>

fun runtime_run :: "'s module_adapter \<Rightarrow> runtime_event list \<Rightarrow> core_state \<times> 's \<Rightarrow> int option list" where
  "runtime_run A [] cs = []"
| "runtime_run A (e # es) cs = (let (w, ct) = runtime_run1 A e cs in w # runtime_run A es ct)"

fun seen :: "'s module_adapter \<Rightarrow> runtime_event list \<Rightarrow> core_state \<times> 's \<Rightarrow> (bool \<times> bool \<times> int) option list" where
  "seen A [] cs = []"
| "seen A (e # es) cs =
     (case (e, fst (ad_read A (snd cs))) of
        (EV_CYCLE i u, Inr sn) \<Rightarrow> Some (i, u, sn_mode sn)
      | _ \<Rightarrow> None) # seen A es (snd (runtime_run1 A e cs))"

text \<open>The abstract one-shot: a write at a rising edge of the commands, inhibit first.\<close>

fun one_shot :: "bool \<Rightarrow> (bool \<times> bool \<times> int) option list \<Rightarrow> int option list" where
  "one_shot before [] = []"
| "one_shot before (None # xs) = None # one_shot before xs"
| "one_shot before (Some (i, u, mode) # xs) =
     (if before \<or> \<not> (i \<or> u) then None
      else Some (if i then mode OR 0x0004 else mode AND 0xFFFB)) # one_shot (i \<or> u) xs"

lemma runtime_run_one_shot: "runtime_run A es cs = one_shot (co_osr (fst cs)) (seen A es cs)"
proof (induction es arbitrary: cs)
  case (Cons e es)
  obtain c s where cs: "cs = (c, s)" by (cases cs)
  obtain w c1 s1 where r: "runtime_run1 A e cs = (w, c1, s1)" by (cases "runtime_run1 A e cs") auto
  then have "runtime_step A cs e w (c1, s1)" by (simp add: runtime_step_run1)
  then show ?case
    using Cons.IH [of "(c1, s1)"] r unfolding cs
    by cases (auto simp: core_scan_def core_prescan_def requested_mode_def Let_def split: if_splits)
qed simp

definition commands_active :: "(bool \<times> bool \<times> int) option \<Rightarrow> bool" where
  "commands_active x = (case x of None \<Rightarrow> False | Some (i, u, m) \<Rightarrow> i \<or> u)"

text \<open>
  C26. The runtime is a one-shot: over any sequence of cycles and prescans, with any adapter,
  the mode writes are those of the abstract one-shot on what the successful reads delivered:
  one write at each rising edge of the commands, with inhibit taking precedence and setting
  bit 2 of the mode, uninhibit clearing it, and none while a command is held; a failed read
  or a prescan neither asks for a write nor consumes the edge, and a failed write is not
  retried.
\<close>

theorem runtime_is_one_shot:
  "runtime_run A es (init_core, s) = one_shot False (seen A es (init_core, s))"
  by (simp add: runtime_run_one_shot init_core_def)

text \<open>
  The status of a scan is decoded unambiguously: of the nine states named by the high
  nibble at most one holds, \<open>disconnected\<close> holds exactly when the module is neither connected
  nor inhibited, and the status word carries the eleven flags without loss in its low twelve
  bits, bit 8 never set.
\<close>

theorem status_word_roundtrip:
  "status_of_word (status_word st) = st \<and> 0 \<le> status_word st \<and> status_word st < 2 ^ 12 \<and>
   \<not> bit (status_word st) 8 \<and>
   length (filter snd (take 10 (status_bits (decode_entry_status w)))) \<le> 1 \<and>
   (ms_disconnected (decode_entry_status w) \<longleftrightarrow>
      \<not> ms_connected (decode_entry_status w) \<and> \<not> ms_inhibited (decode_entry_status w))"
proof -
  have "status_of_word (status_word st) = st"
    by (simp add: status_of_word_def bit_status_word)
  moreover have "0 \<le> status_word st \<and> status_word st < 2 ^ 12" by (simp add: status_word_sum)
  moreover have "\<not> bit (status_word st) 8" by (simp add: bit_status_word)
  moreover have "length (filter snd (take 10 (status_bits (decode_entry_status w)))) \<le> 1"
    by (simp add: status_bits_def decode_entry_status_def Let_def)
  moreover have "ms_disconnected (decode_entry_status w) \<longleftrightarrow>
      \<not> ms_connected (decode_entry_status w) \<and> \<not> ms_inhibited (decode_entry_status w)"
    by (auto simp: decode_entry_status_def Let_def)
  ultimately show ?thesis by blast
qed

end
