(* ===== verification/Cyclic_IO.thy ===== *)
theory Cyclic_IO imports Byte_Codec Project_Model "HOL-Library.List_Lexorder" "HOL-Library.Char_ord" begin

text \<open>
  Packed cyclic images, \<open>runtime/cyclic_io.py\<close>, and the field layout they are built from,
  \<open>_layout\<close> of \<open>analysis/cyclic_io.py\<close>. A dictionary is the list of its entries in
  insertion order; what raises is the \<open>Inl\<close> of a result, with the message of a \<open>ValueError\<close>.
\<close>

unbundle bit_operations_syntax

section \<open>Layouts\<close>

record packed_field =
  pf_name :: string
  pf_data_type :: string
  pf_byte_offset :: int
  pf_byte_size :: int
  pf_overlay_target :: "string option"
  pf_bit_number :: "int option"
  pf_description :: "string option"

definition is_overlay :: "packed_field \<Rightarrow> bool" where
  "is_overlay f = (pf_overlay_target f \<noteq> None)"

datatype io_value = IO_INT int | IO_BOOL bool

record packed_image =
  pi_raw :: "byte list"
  pi_values :: "(string \<times> io_value) list"

record image_layout =
  il_name :: string
  il_byte_size :: int
  il_byte_order :: byte_order
  il_fields :: "packed_field list"

datatype image_error = Value_Error string | Overflow_Error

definition is_signed :: "string \<Rightarrow> bool" where
  "is_signed data_type = (py_upper data_type \<in> {''SINT'', ''INT'', ''DINT'', ''LINT''})"

text \<open>The checks of \<open>__post_init__\<close> on one field, in order; \<open>None\<close> when it passes.\<close>

definition check_field :: "int \<Rightarrow> string set \<Rightarrow> string set \<Rightarrow> packed_field \<Rightarrow> string option" where
  "check_field bytes base_names names f =
     (if pf_name f \<in> names then Some (''duplicate packed field '' @ py_repr (pf_name f))
      else if pf_byte_offset f < 0 \<or> pf_byte_size f \<le> 0
      then Some (''invalid bounds for field '' @ py_repr (pf_name f))
      else if bytes < pf_byte_offset f + pf_byte_size f
      then Some (''field '' @ py_repr (pf_name f) @ '' exceeds image size'')
      else case pf_overlay_target f of
        None \<Rightarrow> None
      | Some target \<Rightarrow>
          if target \<notin> base_names then Some (''overlay target '' @ py_repr target @ '' is absent'')
          else case pf_bit_number f of
            None \<Rightarrow> Some (''overlay field '' @ py_repr (pf_name f) @ '' has no bit number'')
          | Some b \<Rightarrow>
              if 0 \<le> b \<and> b < pf_byte_size f * 8 then None
              else Some (''bit number for '' @ py_repr (pf_name f) @ '' exceeds its target''))"

fun check_fields :: "int \<Rightarrow> string set \<Rightarrow> string set \<Rightarrow> packed_field list \<Rightarrow> string option" where
  "check_fields bytes base_names names [] = None"
| "check_fields bytes base_names names (f # fs) =
     (case check_field bytes base_names names f of
        Some m \<Rightarrow> Some m
      | None \<Rightarrow> check_fields bytes base_names (insert (pf_name f) names) fs)"

definition base_names :: "packed_field list \<Rightarrow> string set" where
  "base_names fs = pf_name ` set (filter (\<lambda>f. \<not> is_overlay f) fs)"

text \<open>\<open>PackedImageLayout\<close>: the constructor raises unless every check passes.\<close>

definition layout_error :: "image_layout \<Rightarrow> string option" where
  "layout_error L =
     (if il_byte_size L \<le> 0 then Some ''byte_size must be positive''
      else check_fields (il_byte_size L) (base_names (il_fields L)) {} (il_fields L))"

section \<open>Reading and writing images\<close>

text \<open>A field's slice of an image, and an image with the slice replaced.\<close>

definition get_slice :: "packed_field \<Rightarrow> byte list \<Rightarrow> byte list" where
  "get_slice f img =
     Prelude.slice (nat (pf_byte_offset f)) (nat (pf_byte_offset f) + nat (pf_byte_size f)) img"

definition put_slice :: "packed_field \<Rightarrow> byte list \<Rightarrow> byte list \<Rightarrow> byte list" where
  "put_slice f bs img =
     take (nat (pf_byte_offset f)) img @ bs @
     drop (nat (pf_byte_offset f) + nat (pf_byte_size f)) img"

definition bit_number :: "packed_field \<Rightarrow> nat" where
  "bit_number f = (case pf_bit_number f of None \<Rightarrow> 0 | Some b \<Rightarrow> nat b)"

definition decode_field :: "byte_order \<Rightarrow> byte list \<Rightarrow> packed_field \<Rightarrow> io_value" where
  "decode_field bo img f =
     (let raw_value = from_bytes bo (is_signed (pf_data_type f)) (get_slice f img)
      in if is_overlay f
         then IO_BOOL ((raw_value AND 0xFFFFFFFF) AND push_bit (bit_number f) 1 \<noteq> 0)
         else IO_INT raw_value)"

definition size_message :: "string \<Rightarrow> int \<Rightarrow> nat \<Rightarrow> string" where
  "size_message subject bytes received =
     subject @ '' requires '' @ int_str bytes @ '' bytes, received '' @ nat_str received"

definition decode_image :: "image_layout \<Rightarrow> byte list \<Rightarrow> image_error + packed_image" where
  "decode_image L img =
     (if int (length img) \<noteq> il_byte_size L
      then Inl (Value_Error (size_message (il_name L) (il_byte_size L) (length img)))
      else Inr \<lparr>pi_raw = img,
             pi_values = map (\<lambda>f. (pf_name f, decode_field (il_byte_order L) img f)) (il_fields L)\<rparr>)"

fun value_int :: "io_value \<Rightarrow> int" where
  "value_int (IO_INT v) = v"
| "value_int (IO_BOOL b) = of_bool b"

fun value_bool :: "io_value \<Rightarrow> bool" where
  "value_bool (IO_INT v) = (v \<noteq> 0)"
| "value_bool (IO_BOOL b) = b"

text \<open>One turn of the first loop of \<open>encode\<close>, for a field that is no overlay.\<close>

definition write_base :: "byte_order \<Rightarrow> packed_field \<Rightarrow> io_value \<Rightarrow> byte list \<Rightarrow> image_error + byte list" where
  "write_base bo f v img =
     (case to_bytes bo (is_signed (pf_data_type f)) (nat (pf_byte_size f)) (value_int v) of
        None \<Rightarrow> Inl Overflow_Error
      | Some bs \<Rightarrow> Inr (put_slice f bs img))"

text \<open>One turn of the second loop, for an overlay.\<close>

definition write_overlay :: "byte_order \<Rightarrow> packed_field \<Rightarrow> io_value \<Rightarrow> byte list \<Rightarrow> image_error + byte list" where
  "write_overlay bo f v img =
     (let before = from_bytes bo False (get_slice f img);
          mask = push_bit (bit_number f) 1;
          updated = (if value_bool v then before OR mask else before AND NOT mask)
      in case to_bytes bo False (nat (pf_byte_size f)) updated of
           None \<Rightarrow> Inl Overflow_Error
         | Some bs \<Rightarrow> Inr (put_slice f bs img))"

fun write_all ::
  "(packed_field \<Rightarrow> io_value \<Rightarrow> byte list \<Rightarrow> image_error + byte list) \<Rightarrow>
     (packed_field \<times> io_value) list \<Rightarrow> byte list \<Rightarrow> image_error + byte list" where
  "write_all w [] img = Inr img"
| "write_all w ((f, v) # fvs) img =
     (case w f v img of Inl e \<Rightarrow> Inl e | Inr image1 \<Rightarrow> write_all w fvs image1)"

definition field_named :: "image_layout \<Rightarrow> string \<Rightarrow> packed_field option" where
  "field_named L n = dict_of pf_name (il_fields L) n"

definition repr_list :: "string list \<Rightarrow> string" where
  "repr_list xs = ''['' @ join '', '' (map py_repr xs) @ '']''"

definition encode_image ::
  "image_layout \<Rightarrow> (string \<times> io_value) list \<Rightarrow> byte list option \<Rightarrow> image_error + byte list" where
  "encode_image L values base =
     (let img = (case base of Some b \<Rightarrow> b | None \<Rightarrow> replicate (nat (il_byte_size L)) 0);
          unknown = filter (\<lambda>n. field_named L n = None) (map fst values);
          entries = map (\<lambda>(n, v). (the (field_named L n), v)) values
      in if int (length img) \<noteq> il_byte_size L
         then Inl (Value_Error (size_message (il_name L @ '' base'') (il_byte_size L) (length img)))
         else if unknown \<noteq> [] then Inl (Value_Error (''unknown packed fields: '' @ repr_list (sort unknown)))
         else case write_all (write_base (il_byte_order L)) (filter (\<lambda>(f, v). \<not> is_overlay f) entries) img of
                Inl e \<Rightarrow> Inl e
              | Inr image1 \<Rightarrow>
                  write_all (write_overlay (il_byte_order L)) (filter (\<lambda>(f, v). is_overlay f) entries) image1)"

section \<open>Captured contracts\<close>

record cyclic_io_field =
  cf_name :: string
  cf_data_type :: "string option"
  cf_byte_offset :: nat
  cf_byte_size :: nat
  cf_overlay_target :: "string option"
  cf_bit_number :: "int option"
  cf_description :: "string option"

record cyclic_io_image =
  ci_role :: string
  ci_configured_size_bytes :: "int option"
  ci_copied_size_bytes :: "int option"
  ci_fields :: "cyclic_io_field list"

definition atomic_size :: "string option \<Rightarrow> nat" where
  "atomic_size data_type =
     (case map_of [(''BOOL'', 1), (''SINT'', 1), (''INT'', 2), (''DINT'', 4), (''REAL'', 4)]
             (py_upper (case data_type of None \<Rightarrow> [] | Some t \<Rightarrow> t)) of
        None \<Rightarrow> 0 | Some n \<Rightarrow> n)"

text \<open>\<open>_datatype_size\<close> of a datatype that is present; the first case of the code has none.\<close>

definition datatype_size :: "datatype_member list \<Rightarrow> nat" where
  "datatype_size ms = sum_list (map (\<lambda>m. atomic_size (dm_data_type_name m)) (filter (\<lambda>m. dm_target m = None) ms))"

text \<open>The loop of \<open>_layout\<close>: the dictionary of offsets and the running offset are its state.\<close>

fun layout_from ::
  "(string \<times> nat \<times> nat) list \<Rightarrow> nat \<Rightarrow> datatype_member list \<Rightarrow> cyclic_io_field list" where
  "layout_from offsets offset [] = []"
| "layout_from offsets offset (m # ms) =
     (case dm_target m of
        Some target \<Rightarrow>
          (let (o1, s1) = (case map_of offsets target of None \<Rightarrow> (0, 0) | Some p \<Rightarrow> p)
           in \<lparr>cf_name = dm_name m, cf_data_type = dm_data_type_name m, cf_byte_offset = o1,
               cf_byte_size = s1, cf_overlay_target = Some target, cf_bit_number = dm_bit_number m,
               cf_description = dm_description m\<rparr>) # layout_from offsets offset ms
      | None \<Rightarrow>
          let bytes = atomic_size (dm_data_type_name m)
          in \<lparr>cf_name = dm_name m, cf_data_type = dm_data_type_name m, cf_byte_offset = offset,
              cf_byte_size = bytes, cf_overlay_target = None, cf_bit_number = None,
              cf_description = dm_description m\<rparr> #
             layout_from ((dm_name m, offset, bytes) # offsets) (offset + bytes) ms)"

definition field_layout :: "datatype_member list \<Rightarrow> cyclic_io_field list" where
  "field_layout ms = layout_from [] 0 ms"

definition packed_of :: "cyclic_io_field \<Rightarrow> packed_field" where
  "packed_of f =
     \<lparr>pf_name = cf_name f, pf_data_type = (case cf_data_type f of None \<Rightarrow> [] | Some t \<Rightarrow> t),
      pf_byte_offset = int (cf_byte_offset f), pf_byte_size = int (cf_byte_size f),
      pf_overlay_target = cf_overlay_target f, pf_bit_number = cf_bit_number f,
      pf_description = cf_description f\<rparr>"

definition build_layout :: "cyclic_io_image \<Rightarrow> byte_order \<Rightarrow> image_error + image_layout" where
  "build_layout img bo =
     (let bytes = (case ci_configured_size_bytes img of
                    Some n \<Rightarrow> if n \<noteq> 0 then Some n else ci_copied_size_bytes img
                  | None \<Rightarrow> ci_copied_size_bytes img)
      in case bytes of
           None \<Rightarrow> Inl (Value_Error (ci_role img @ '' image has no captured byte size''))
         | Some n \<Rightarrow>
             let L = \<lparr>il_name = ci_role img @ ''_image'', il_byte_size = n, il_byte_order = bo,
                      il_fields = map packed_of (ci_fields img)\<rparr>
             in (case layout_error L of Some m \<Rightarrow> Inl (Value_Error m) | None \<Rightarrow> Inr L))"

end
