(* ===== verification/Cyclic_IO_Facts.thy ===== *)
theory Cyclic_IO_Facts imports Cyclic_IO begin

text \<open>
  What the packed images promise: a valid layout always decodes an image of its size; encoding
  touches only the fields it is given, fails only for the three reasons of the code, reads
  back what it wrote, and writing back what was read changes nothing; and the layout computed
  from a captured datatype is valid and tiles the image.
\<close>

unbundle bit_operations_syntax

section \<open>Valid layouts\<close>

text \<open>What the checks give for a field that passed them.\<close>

definition field_ok :: "int \<Rightarrow> packed_field \<Rightarrow> bool" where
  "field_ok bytes f =
     (0 \<le> pf_byte_offset f \<and> 0 < pf_byte_size f \<and> pf_byte_offset f + pf_byte_size f \<le> bytes \<and>
      (is_overlay f \<longrightarrow> (\<exists>b. pf_bit_number f = Some b \<and> 0 \<le> b \<and> b < pf_byte_size f * 8)))"

lemma check_field_None:
  "check_field bytes bn names f = None \<longleftrightarrow>
     pf_name f \<notin> names \<and> field_ok bytes f \<and>
     (\<forall>t. pf_overlay_target f = Some t \<longrightarrow> t \<in> bn)"
  by (auto simp: check_field_def field_ok_def is_overlay_def not_less split: option.splits if_splits)

lemma check_fields_None:
  "check_fields bytes bn names fs = None \<longleftrightarrow>
     distinct (map pf_name fs) \<and> set (map pf_name fs) \<inter> names = {} \<and>
     (\<forall>f \<in> set fs. field_ok bytes f \<and> (\<forall>t. pf_overlay_target f = Some t \<longrightarrow> t \<in> bn))"
proof (induction fs arbitrary: names)
  case (Cons f fs)
  then show ?case
    by (cases "check_field bytes bn names f")
      (use check_field_None [of bytes bn names f] in auto)
qed simp

lemma layout_error_None:
  "layout_error L = None \<longleftrightarrow>
     0 < il_byte_size L \<and> distinct (map pf_name (il_fields L)) \<and>
     (\<forall>f \<in> set (il_fields L). field_ok (il_byte_size L) f \<and>
        (\<forall>t. pf_overlay_target f = Some t \<longrightarrow> t \<in> base_names (il_fields L)))"
  by (auto simp: layout_error_def check_fields_None)

lemma field_named_Some:
  "layout_error L = None \<Longrightarrow> f \<in> set (il_fields L) \<Longrightarrow> field_named L (pf_name f) = Some f"
  using dict_of_member [of f "il_fields L" pf_name]
  by (auto simp: layout_error_None field_named_def distinct_map inj_on_def dest: dict_of_Some)

lemma field_named_in: "field_named L n = Some f \<Longrightarrow> f \<in> set (il_fields L) \<and> pf_name f = n"
  by (auto simp: field_named_def dest: dict_of_Some)

section \<open>Slices of an image\<close>

definition field_range :: "packed_field \<Rightarrow> nat set" where
  "field_range f = {nat (pf_byte_offset f) ..< nat (pf_byte_offset f) + nat (pf_byte_size f)}"

definition in_image :: "packed_field \<Rightarrow> byte list \<Rightarrow> bool" where
  "in_image f img = (nat (pf_byte_offset f) + nat (pf_byte_size f) \<le> length img)"

lemma field_ok_in_image: "field_ok (int (length img)) f \<Longrightarrow> in_image f img"
  by (auto simp: field_ok_def in_image_def)

lemma length_get_slice: "in_image f img \<Longrightarrow> length (get_slice f img) = nat (pf_byte_size f)"
  by (simp add: in_image_def get_slice_def Prelude.slice_def)

lemma length_put_slice:
  "in_image f img \<Longrightarrow> length bs = nat (pf_byte_size f) \<Longrightarrow> length (put_slice f bs img) = length img"
  by (simp add: in_image_def put_slice_def)

lemma put_get_slice: "put_slice f (get_slice f img) img = img"
proof -
  let ?a = "nat (pf_byte_offset f)" and ?n = "nat (pf_byte_size f)"
  have "take ?a img @ take ?n (drop ?a img) @ drop (?a + ?n) img = img"
    by (metis append_take_drop_id drop_drop add.commute)
  then show ?thesis by (simp add: put_slice_def get_slice_def Prelude.slice_def)
qed

lemma get_put_slice:
  "in_image f img \<Longrightarrow> length bs = nat (pf_byte_size f) \<Longrightarrow> get_slice f (put_slice f bs img) = bs"
  by (simp add: in_image_def put_slice_def get_slice_def Prelude.slice_def)

lemma nth_put_slice:
  "in_image f img \<Longrightarrow> length bs = nat (pf_byte_size f) \<Longrightarrow> i < length img \<Longrightarrow> i \<notin> field_range f \<Longrightarrow>
     put_slice f bs img ! i = img ! i"
  by (auto simp: in_image_def put_slice_def field_range_def nth_append)

lemma get_slice_cong:
  assumes "length img = length img2" "\<And>i. i < length img \<Longrightarrow> i \<in> field_range f \<Longrightarrow> img ! i = img2 ! i"
  shows "get_slice f img = get_slice f img2"
  using assms by (intro nth_equalityI) (auto simp: get_slice_def Prelude.slice_def field_range_def)

lemma get_put_slice_disjoint:
  assumes "in_image f img" "length bs = nat (pf_byte_size f)" "field_range f \<inter> field_range g = {}"
  shows "get_slice g (put_slice f bs img) = get_slice g img"
proof (rule get_slice_cong)
  fix i assume "i < length (put_slice f bs img)" "i \<in> field_range g"
  with assms show "put_slice f bs img ! i = img ! i"
    by (intro nth_put_slice) (auto simp: length_put_slice)
qed (simp add: length_put_slice assms)

section \<open>Bits of a field\<close>

lemma unsigned_value_from_bytes: "from_bytes bo False bs = unsigned_value (ordered bo bs)"
  by (simp add: from_bytes_def)

lemma from_bytes_unsigned_bounds: "0 \<le> from_bytes bo False bs \<and> from_bytes bo False bs < 256 ^ length bs"
  using unsigned_value_bounds [of "ordered bo bs"] by (simp add: unsigned_value_from_bytes)

lemma power_256: "(256 :: int) ^ n = 2 ^ (8 * n)"
  by (simp add: power_mult)

lemma bit_from_bytes:
  assumes "b < 8 * length bs"
  shows "bit (from_bytes bo s bs) b = bit (from_bytes bo False bs) b"
proof -
  let ?v = "unsigned_value (ordered bo bs)"
  have "take_bit (8 * length bs) (?v - 256 ^ length bs) = take_bit (8 * length bs) ?v"
    unfolding power_256 take_bit_eq_mod by simp
  then have "bit (?v - 256 ^ length bs) b = bit ?v b"
    using assms by (metis bit_take_bit_iff)
  then show ?thesis by (simp add: from_bytes_def Let_def)
qed

lemma bit_test: "b < 32 \<Longrightarrow> ((x :: int) AND 0xFFFFFFFF) AND push_bit b 1 \<noteq> 0 \<longleftrightarrow> bit x b"
proof -
  assume b: "b < 32"
  have m: "0xFFFFFFFF = (mask 32 :: int)" by (simp add: mask_eq_exp_minus_1)
  have "(x AND 0xFFFFFFFF) AND push_bit b 1 = push_bit b (of_bool (bit x b))"
    unfolding m using b by (intro bit_eqI) (auto simp: bit_and_iff bit_exp_iff bit_mask_iff)
  then show ?thesis by (simp add: ac_simps push_bit_of_1)
qed

lemma bit_test_wide: "32 \<le> b \<Longrightarrow> ((x :: int) AND 0xFFFFFFFF) AND push_bit b 1 = 0"
proof -
  assume b: "32 \<le> b"
  have m: "0xFFFFFFFF = (mask 32 :: int)" by (simp add: mask_eq_exp_minus_1)
  show ?thesis
    unfolding m using b by (intro bit_eqI) (auto simp: bit_and_iff bit_exp_iff bit_mask_iff)
qed

lemma set_bit_same: "bit (x :: int) b \<Longrightarrow> x OR push_bit b 1 = x"
  by (intro bit_eqI) (auto simp: bit_or_iff bit_exp_iff)

lemma unset_bit_same: "\<not> bit (x :: int) b \<Longrightarrow> x AND NOT (push_bit b 1) = x"
  by (intro bit_eqI) (auto simp: bit_and_iff bit_not_iff bit_exp_iff)

section \<open>Writing fields\<close>

lemmas codec = python_bytes.enc_fails python_bytes.enc_length python_bytes.dec_enc python_bytes.enc_dec

lemma write_base_cases:
  "write_base bo f v img =
     (if fits (is_signed (pf_data_type f)) (nat (pf_byte_size f)) (value_int v)
      then Inr (put_slice f (the (to_bytes bo (is_signed (pf_data_type f)) (nat (pf_byte_size f)) (value_int v))) img)
      else Inl Overflow_Error)"
  using python_bytes.enc_fails [of bo "is_signed (pf_data_type f)" "nat (pf_byte_size f)" "value_int v"]
  by (auto simp: write_base_def split: option.splits)

text \<open>The integer an overlay writes back: one bit of the bytes it covers is set or cleared.\<close>

definition overlay_value :: "byte_order \<Rightarrow> packed_field \<Rightarrow> io_value \<Rightarrow> byte list \<Rightarrow> int" where
  "overlay_value bo f v img =
     (let before = from_bytes bo False (get_slice f img); m = push_bit (bit_number f) 1
      in if value_bool v then before OR m else before AND NOT m)"

lemma bit_overlay_value:
  "bit (overlay_value bo f v img) b =
     (if b = bit_number f then value_bool v else bit (from_bytes bo False (get_slice f img)) b)"
  by (auto simp: overlay_value_def Let_def bit_or_iff bit_and_iff bit_not_iff bit_exp_iff)

lemma overlay_value_fits:
  assumes "field_ok (int (length img)) f" "is_overlay f"
  shows "fits False (nat (pf_byte_size f)) (overlay_value bo f v img)"
proof -
  let ?n = "nat (pf_byte_size f)" and ?x = "from_bytes bo False (get_slice f img)"
  have x: "0 \<le> ?x" "?x < 2 ^ (8 * ?n)"
    using from_bytes_unsigned_bounds [of bo "get_slice f img"]
      length_get_slice [OF field_ok_in_image [OF assms(1)]] by (simp_all add: power_256)
  have b: "bit_number f < 8 * ?n"
    using assms by (auto simp: field_ok_def bit_number_def)
  have "take_bit (8 * ?n) (overlay_value bo f v img) = overlay_value bo f v img"
  proof (rule bit_eqI)
    fix i
    have "bit ?x i \<Longrightarrow> i < 8 * ?n"
      using x by (metis bit_take_bit_iff take_bit_int_eq_self)
    then show "bit (take_bit (8 * ?n) (overlay_value bo f v img)) i = bit (overlay_value bo f v img) i"
      using b by (auto simp: bit_take_bit_iff bit_overlay_value)
  qed
  then have "0 \<le> overlay_value bo f v img" "overlay_value bo f v img < 2 ^ (8 * ?n)"
    by (metis take_bit_nonnegative) (metis \<open>take_bit _ _ = _\<close> take_bit_int_less_exp)
  then show ?thesis by (simp add: fits_def power_256)
qed

lemma write_overlay_ok:
  assumes "field_ok (int (length img)) f" "is_overlay f"
  obtains bs where "write_overlay bo f v img = Inr (put_slice f bs img)"
    and "length bs = nat (pf_byte_size f)" and "from_bytes bo False bs = overlay_value bo f v img"
proof -
  from python_bytes.enc_total [OF overlay_value_fits [OF assms, of bo v], of bo] obtain bs where
    "to_bytes bo False (nat (pf_byte_size f)) (overlay_value bo f v img) = Some bs"
    "length bs = nat (pf_byte_size f)" "from_bytes bo False bs = overlay_value bo f v img" by blast
  then show thesis
    by (intro that [of bs]) (simp_all add: write_overlay_def overlay_value_def Let_def)
qed

text \<open>
  What a turn of either loop keeps: the size of the image and every byte outside the field.
\<close>

definition writes_within :: "packed_field \<Rightarrow> byte list \<Rightarrow> byte list \<Rightarrow> bool" where
  "writes_within f img out =
     (length out = length img \<and> (\<forall>i < length img. i \<notin> field_range f \<longrightarrow> out ! i = img ! i))"

lemma put_slice_within:
  "in_image f img \<Longrightarrow> length bs = nat (pf_byte_size f) \<Longrightarrow> writes_within f img (put_slice f bs img)"
  by (simp add: writes_within_def length_put_slice nth_put_slice)

lemma write_base_within:
  assumes "write_base bo f v img = Inr out" "field_ok (int (length img)) f"
  shows "writes_within f img out" and "decode_field bo out f = IO_INT (value_int v) \<or> is_overlay f"
proof -
  obtain bs where bs: "to_bytes bo (is_signed (pf_data_type f)) (nat (pf_byte_size f)) (value_int v) = Some bs"
    "out = put_slice f bs img" using assms(1) by (auto simp: write_base_def split: option.splits)
  note len = python_bytes.enc_length [OF bs(1)] and inn = field_ok_in_image [OF assms(2)]
  show "writes_within f img out" using put_slice_within [OF inn len] bs(2) by simp
  show "decode_field bo out f = IO_INT (value_int v) \<or> is_overlay f"
    using get_put_slice [OF inn len] python_bytes.dec_enc [OF bs(1)] bs(2) by (simp add: decode_field_def Let_def)
qed

lemma write_overlay_within:
  assumes "write_overlay bo f v img = Inr out" "field_ok (int (length img)) f" "is_overlay f"
  shows "writes_within f img out"
    and "from_bytes bo False (get_slice f out) = overlay_value bo f v img"
proof -
  obtain bs where bs: "write_overlay bo f v img = Inr (put_slice f bs img)"
    "length bs = nat (pf_byte_size f)" "from_bytes bo False bs = overlay_value bo f v img"
    using write_overlay_ok [OF assms(2,3)] by blast
  note inn = field_ok_in_image [OF assms(2)]
  show "writes_within f img out" using put_slice_within [OF inn bs(2)] bs(1) assms(1) by simp
  show "from_bytes bo False (get_slice f out) = overlay_value bo f v img"
    using get_put_slice [OF inn bs(2)] bs(1,3) assms(1) by simp
qed

text \<open>The loops, for any turn that writes within its field.\<close>

lemma write_all_within:
  assumes "write_all w fvs img = Inr out"
    and "\<And>f v im im2. (f, v) \<in> set fvs \<Longrightarrow> length im = length img \<Longrightarrow> w f v im = Inr im2 \<Longrightarrow> writes_within f im im2"
  shows "length out = length img \<and>
    (\<forall>i < length img. (\<forall>(f, v) \<in> set fvs. i \<notin> field_range f) \<longrightarrow> out ! i = img ! i)"
  using assms
proof (induction fvs arbitrary: img)
  case (Cons fv fvs)
  obtain f v where fv: "fv = (f, v)" by (cases fv)
  from Cons.prems(1) obtain im where im: "w f v img = Inr im" "write_all w fvs im = Inr out"
    by (auto simp: fv split: sum.splits)
  have ww: "writes_within f img im" using Cons.prems(2) [of f v img im] im(1) by (simp add: fv)
  then have len: "length im = length img" by (simp add: writes_within_def)
  have "length out = length im \<and>
    (\<forall>i < length im. (\<forall>(f, v) \<in> set fvs. i \<notin> field_range f) \<longrightarrow> out ! i = im ! i)"
    using Cons.prems(2) by (intro Cons.IH im(2)) (auto simp: len)
  with ww len show ?case by (auto simp: writes_within_def fv)
qed simp

lemma write_all_fixed:
  "(\<And>f v. (f, v) \<in> set fvs \<Longrightarrow> w f v img = Inr img) \<Longrightarrow> write_all w fvs img = Inr img"
  by (induction fvs) auto

lemma write_all_append:
  "write_all w (xs @ ys) img = (case write_all w xs img of Inl e \<Rightarrow> Inl e | Inr im \<Rightarrow> write_all w ys im)"
  by (induction xs arbitrary: img) (auto split: sum.splits)

section \<open>Encoding\<close>

definition entries_of :: "image_layout \<Rightarrow> (string \<times> io_value) list \<Rightarrow> (packed_field \<times> io_value) list" where
  "entries_of L vs = map (\<lambda>(n, v). (the (field_named L n), v)) vs"

definition known_names :: "image_layout \<Rightarrow> (string \<times> io_value) list \<Rightarrow> bool" where
  "known_names L vs = list_all (\<lambda>n. field_named L n \<noteq> None) (map fst vs)"

definition start_image :: "image_layout \<Rightarrow> byte list option \<Rightarrow> byte list" where
  "start_image L base = (case base of Some b \<Rightarrow> b | None \<Rightarrow> replicate (nat (il_byte_size L)) 0)"

abbreviation base_entries :: "image_layout \<Rightarrow> (string \<times> io_value) list \<Rightarrow> (packed_field \<times> io_value) list" where
  "base_entries L vs \<equiv> filter (\<lambda>(f, v). \<not> is_overlay f) (entries_of L vs)"

abbreviation overlay_entries :: "image_layout \<Rightarrow> (string \<times> io_value) list \<Rightarrow> (packed_field \<times> io_value) list" where
  "overlay_entries L vs \<equiv> filter (\<lambda>(f, v). is_overlay f) (entries_of L vs)"

lemma encode_image_eq:
  "encode_image L vs base =
     (let img = start_image L base
      in if int (length img) \<noteq> il_byte_size L
         then Inl (Value_Error (size_message (il_name L @ '' base'') (il_byte_size L) (length img)))
         else if \<not> known_names L vs
         then Inl (Value_Error (''unknown packed fields: '' @
                repr_list (sort (filter (\<lambda>n. field_named L n = None) (map fst vs)))))
         else case write_all (write_base (il_byte_order L)) (base_entries L vs) img of
                Inl e \<Rightarrow> Inl e
              | Inr mid \<Rightarrow> write_all (write_overlay (il_byte_order L)) (overlay_entries L vs) mid)"
proof -
  have "filter (\<lambda>n. field_named L n = None) (map fst vs) \<noteq> [] \<longleftrightarrow> \<not> known_names L vs"
    by (auto simp: known_names_def list_all_iff filter_empty_conv)
  then show ?thesis
    unfolding encode_image_def start_image_def entries_of_def Let_def by simp
qed

lemma encode_InrE:
  assumes "encode_image L vs base = Inr out"
  obtains mid where "int (length (start_image L base)) = il_byte_size L" and "known_names L vs"
    and "write_all (write_base (il_byte_order L)) (base_entries L vs) (start_image L base) = Inr mid"
    and "write_all (write_overlay (il_byte_order L)) (overlay_entries L vs) mid = Inr out"
  using assms unfolding encode_image_eq Let_def by (auto split: if_splits sum.splits)

lemma entries_field:
  assumes "known_names L vs" "(f, v) \<in> set (entries_of L vs)"
  shows "f \<in> set (il_fields L) \<and> (pf_name f, v) \<in> set vs"
  using assms field_named_in
  by (fastforce simp: known_names_def entries_of_def list_all_iff)

lemma entries_ok:
  "layout_error L = None \<Longrightarrow> known_names L vs \<Longrightarrow> (f, v) \<in> set (entries_of L vs) \<Longrightarrow>
     field_ok (il_byte_size L) f"
  using entries_field [of L vs f v] by (auto simp: layout_error_None)

lemma base_loop_within:
  assumes "layout_error L = None" "known_names L vs" "int (length img) = il_byte_size L"
    and "write_all (write_base (il_byte_order L)) (base_entries L vs) img = Inr out"
  shows "length out = length img \<and>
    (\<forall>i < length img. (\<forall>(f, v) \<in> set (base_entries L vs). i \<notin> field_range f) \<longrightarrow> out ! i = img ! i)"
  using assms(4)
proof (rule write_all_within)
  fix f v im im2
  assume "(f, v) \<in> set (base_entries L vs)" "length im = length img" "write_base (il_byte_order L) f v im = Inr im2"
  then show "writes_within f im im2"
    using entries_ok [OF assms(1,2), of f v] assms(3) by (auto intro: write_base_within(1))
qed

lemma overlay_loop_within:
  assumes "layout_error L = None" "known_names L vs" "int (length img) = il_byte_size L"
    and "write_all (write_overlay (il_byte_order L)) (overlay_entries L vs) img = Inr out"
  shows "length out = length img \<and>
    (\<forall>i < length img. (\<forall>(f, v) \<in> set (overlay_entries L vs). i \<notin> field_range f) \<longrightarrow> out ! i = img ! i)"
  using assms(4)
proof (rule write_all_within)
  fix f v im im2
  assume "(f, v) \<in> set (overlay_entries L vs)" "length im = length img" "write_overlay (il_byte_order L) f v im = Inr im2"
  then show "writes_within f im im2"
    using entries_ok [OF assms(1,2), of f v] assms(3) by (auto intro: write_overlay_within(1))
qed

lemma encode_within:
  assumes "layout_error L = None" "encode_image L vs base = Inr out"
  shows "length out = length (start_image L base)"
    and "i < length (start_image L base) \<Longrightarrow> (\<And>f v. (f, v) \<in> set (entries_of L vs) \<Longrightarrow> i \<notin> field_range f) \<Longrightarrow>
       out ! i = start_image L base ! i"
proof -
  obtain mid where e: "int (length (start_image L base)) = il_byte_size L" "known_names L vs"
    "write_all (write_base (il_byte_order L)) (base_entries L vs) (start_image L base) = Inr mid"
    "write_all (write_overlay (il_byte_order L)) (overlay_entries L vs) mid = Inr out"
    using encode_InrE [OF assms(2)] by blast
  note b = base_loop_within [OF assms(1) e(2) e(1) e(3)]
  with e(1) have "int (length mid) = il_byte_size L" by simp
  note o = overlay_loop_within [OF assms(1) e(2) this e(4)]
  show "length out = length (start_image L base)" using b o by simp
  show "out ! i = start_image L base ! i"
    if "i < length (start_image L base)" "\<And>f v. (f, v) \<in> set (entries_of L vs) \<Longrightarrow> i \<notin> field_range f"
    using b o that by (fastforce split: prod.splits)
qed

text \<open>An invariant of the image that every turn keeps holds after the loop.\<close>

lemma write_all_preserves:
  assumes "write_all w fvs img = Inr out" "P img"
    and "\<And>f v im im2. (f, v) \<in> set fvs \<Longrightarrow> P im \<Longrightarrow> w f v im = Inr im2 \<Longrightarrow> P im2"
  shows "P out"
  using assms
proof (induction fvs arbitrary: img)
  case (Cons fv fvs)
  obtain f v where fv: "fv = (f, v)" by (cases fv)
  from Cons.prems(1) obtain im where "w f v img = Inr im" "write_all w fvs im = Inr out"
    by (auto simp: fv split: sum.splits)
  with Cons.prems(2,3) fv show ?case by (intro Cons.IH [of im]) auto
qed simp

lemma write_all_reaches:
  assumes "write_all w fvs img = Inr out" "(f, v) \<in> set fvs" "length img = n"
    and "\<And>im im2. length im = n \<Longrightarrow> w f v im = Inr im2 \<Longrightarrow> P im2"
    and "\<And>g u im im2. (g, u) \<in> set fvs \<Longrightarrow> length im = n \<Longrightarrow> w g u im = Inr im2 \<Longrightarrow> length im2 = n"
    and "\<And>g u im im2. (g, u) \<in> set fvs \<Longrightarrow> (g, u) \<noteq> (f, v) \<Longrightarrow> length im = n \<Longrightarrow> P im \<Longrightarrow> w g u im = Inr im2 \<Longrightarrow> P im2"
  shows "P out"
  using assms
proof (induction fvs arbitrary: img)
  case (Cons gu fvs)
  obtain g u where gu: "gu = (g, u)" by (cases gu)
  from Cons.prems(1) obtain im where im: "w g u img = Inr im" "write_all w fvs im = Inr out"
    by (auto simp: gu split: sum.splits)
  have len: "length im = n" using Cons.prems(5) [of g u img im] im(1) Cons.prems(3) by (simp add: gu)
  show ?case
  proof (cases "(f, v) \<in> set fvs")
    case True
    show ?thesis
    proof (rule Cons.IH [OF im(2) True len Cons.prems(4)])
      fix h x a b
      assume h: "(h, x) \<in> set fvs" and a: "length a = n" and w: "w h x a = Inr b"
      then have "(h, x) \<in> set (gu # fvs)" by simp
      with a w show "length b = n" by (intro Cons.prems(5) [of h x a b])
      assume "(h, x) \<noteq> (f, v)" "P a"
      with \<open>(h, x) \<in> set (gu # fvs)\<close> a w show "P b" by (intro Cons.prems(6) [of h x a b])
    qed
  next
    case False
    then have "P im" using Cons.prems(2) Cons.prems(4) [of img im] Cons.prems(3) im(1) gu by auto
    with len have "length im = n \<and> P im" by simp
    have "length out = n \<and> P out"
    proof (rule write_all_preserves [where P = "\<lambda>im. length im = n \<and> P im", OF im(2) \<open>length im = n \<and> P im\<close>])
      fix h x a b
      assume h: "(h, x) \<in> set fvs" and a: "length a = n \<and> P a" and w: "w h x a = Inr b"
      then have "(h, x) \<in> set (gu # fvs)" "(h, x) \<noteq> (f, v)" using False by auto
      with a w show "length b = n \<and> P b"
        using Cons.prems(5) [of h x a b] Cons.prems(6) [of h x a b] by blast
    qed
    then show ?thesis by simp
  qed
qed simp

section \<open>Reading back\<close>

lemma decode_field_cong: "get_slice f img = get_slice f img2 \<Longrightarrow> decode_field bo img f = decode_field bo img2 f"
  by (simp add: decode_field_def)

lemma decode_field_overlay:
  assumes "field_ok (int (length img)) f" "is_overlay f" "bit_number f < 32"
  shows "decode_field bo img f = IO_BOOL (bit (from_bytes bo False (get_slice f img)) (bit_number f))"
proof -
  have "bit_number f < 8 * length (get_slice f img)"
    using assms length_get_slice [OF field_ok_in_image [OF assms(1)]]
    by (auto simp: field_ok_def bit_number_def)
  from bit_from_bytes [OF this] show ?thesis
    using assms(2) bit_test [OF assms(3)] by (simp add: decode_field_def Let_def)
qed

lemma slice_kept:
  "writes_within g img out \<Longrightarrow> field_range g \<inter> field_range f = {} \<Longrightarrow> get_slice f out = get_slice f img"
  by (rule get_slice_cong) (auto simp: writes_within_def)

lemma entry_of_name:
  assumes "layout_error L = None" "f \<in> set (il_fields L)" "(pf_name f, v) \<in> set vs"
  shows "(f, v) \<in> set (entries_of L vs)"
  using assms field_named_Some [OF assms(1,2)] by (force simp: entries_of_def)

lemma entries_unique:
  assumes "known_names L vs" "distinct (map fst vs)" "(f, v) \<in> set (entries_of L vs)" "(f, w) \<in> set (entries_of L vs)"
  shows "v = w"
  using entries_field [OF assms(1,3)] entries_field [OF assms(1,4)] assms(2) by (auto dest: eq_key_imp_eq_value)

text \<open>Writing only where the other fields are: disjoint ranges, or another bit of the same bytes.\<close>

definition apart :: "packed_field \<Rightarrow> packed_field \<Rightarrow> bool" where
  "apart f g \<longleftrightarrow> field_range f \<inter> field_range g = {}"

definition same_bytes :: "packed_field \<Rightarrow> packed_field \<Rightarrow> bool" where
  "same_bytes f g \<longleftrightarrow> pf_byte_offset f = pf_byte_offset g \<and> pf_byte_size f = pf_byte_size g"

definition written_fields :: "image_layout \<Rightarrow> (string \<times> io_value) list \<Rightarrow> packed_field list" where
  "written_fields L vs = map fst (entries_of L vs)"

lemma encode_reads_back_base:
  assumes L: "layout_error L = None" and d: "distinct (map fst vs)"
    and e: "encode_image L vs base = Inr out"
    and f: "f \<in> set (il_fields L)" "\<not> is_overlay f" "(pf_name f, v) \<in> set vs"
    and apart: "list_all (\<lambda>g. g = f \<or> apart g f) (written_fields L vs)"
  shows "decode_field (il_byte_order L) out f = IO_INT (value_int v)"
proof -
  obtain mid where m: "int (length (start_image L base)) = il_byte_size L" "known_names L vs"
    "write_all (write_base (il_byte_order L)) (base_entries L vs) (start_image L base) = Inr mid"
    "write_all (write_overlay (il_byte_order L)) (overlay_entries L vs) mid = Inr out"
    using encode_InrE [OF e] by blast
  let ?n = "length (start_image L base)"
  note ok = entries_ok [OF L m(2)]
  have fv: "(f, v) \<in> set (base_entries L vs)" using entry_of_name [OF L f(1,3)] f(2) by simp
  have ap: "g = f \<or> field_range g \<inter> field_range f = {}" if "(g, u) \<in> set (entries_of L vs)" for g u
    using apart that by (force simp: written_fields_def list_all_iff apart_def)
  have "decode_field (il_byte_order L) mid f = IO_INT (value_int v)"
  proof (rule write_all_reaches [OF m(3) fv refl])
    fix im im2 assume "length im = ?n" "write_base (il_byte_order L) f v im = Inr im2"
    then show "decode_field (il_byte_order L) im2 f = IO_INT (value_int v)"
      using write_base_within(2) [of _ f v im im2] ok [of f v] fv f(2) m(1) by auto
  next
    fix g u im im2
    assume g: "(g, u) \<in> set (base_entries L vs)" "length im = ?n" "write_base (il_byte_order L) g u im = Inr im2"
    then have w: "writes_within g im im2" using write_base_within(1) ok [of g u] m(1) by auto
    then show "length im2 = ?n" using g(2) by (simp add: writes_within_def)
    assume "(g, u) \<noteq> (f, v)" "decode_field (il_byte_order L) im f = IO_INT (value_int v)"
    moreover have "g \<noteq> f"
      using entries_unique [OF m(2) d, of f u v] g(1) fv \<open>(g, u) \<noteq> (f, v)\<close> by auto
    ultimately show "decode_field (il_byte_order L) im2 f = IO_INT (value_int v)"
      using decode_field_cong [OF slice_kept [OF w]] ap [of g u] g(1) by auto
  qed
  moreover have "get_slice f out = get_slice f mid"
  proof (rule get_slice_cong)
    have len: "int (length mid) = il_byte_size L" using base_loop_within [OF L m(2,1,3)] m(1) by simp
    note o = overlay_loop_within [OF L m(2) len m(4)]
    then show "length out = length mid" by simp
    fix i assume i: "i < length out" "i \<in> field_range f"
    have "i \<notin> field_range g" if "(g, u) \<in> set (overlay_entries L vs)" for g u
      using ap [of g u] that f(2) i(2) by auto
    with o i show "out ! i = mid ! i" by auto
  qed
  ultimately show ?thesis using decode_field_cong by metis
qed

lemma encode_reads_back_overlay:
  assumes L: "layout_error L = None" and d: "distinct (map fst vs)"
    and e: "encode_image L vs base = Inr out"
    and f: "f \<in> set (il_fields L)" "is_overlay f" "bit_number f < 32" "(pf_name f, v) \<in> set vs"
    and apart: "list_all (\<lambda>g. \<not> is_overlay g \<or> g = f \<or> apart g f \<or> same_bytes g f \<and> bit_number g \<noteq> bit_number f)
      (written_fields L vs)"
  shows "decode_field (il_byte_order L) out f = IO_BOOL (value_bool v)"
proof -
  obtain mid where m: "int (length (start_image L base)) = il_byte_size L" "known_names L vs"
    "write_all (write_base (il_byte_order L)) (base_entries L vs) (start_image L base) = Inr mid"
    "write_all (write_overlay (il_byte_order L)) (overlay_entries L vs) mid = Inr out"
    using encode_InrE [OF e] by blast
  have mid: "int (length mid) = il_byte_size L" using base_loop_within [OF L m(2,1,3)] m(1) by simp
  let ?x = "\<lambda>im. from_bytes (il_byte_order L) False (get_slice f im)"
  let ?b = "bit_number f"
  note ok = entries_ok [OF L m(2)]
  have fv: "(f, v) \<in> set (overlay_entries L vs)" using entry_of_name [OF L f(1,4)] f(2) by simp
  have "length out = length mid \<and> bit (?x out) ?b = value_bool v"
  proof (rule write_all_reaches [OF m(4) fv refl])
    fix im im2 assume im: "length im = length mid" "write_overlay (il_byte_order L) f v im = Inr im2"
    then show "length im2 = length mid \<and> bit (?x im2) ?b = value_bool v"
      using write_overlay_within [OF im(2)] ok [of f v] fv f(2) mid
      by (auto simp: bit_overlay_value writes_within_def)
  next
    fix g u im im2
    assume g: "(g, u) \<in> set (overlay_entries L vs)" "length im = length mid"
      "write_overlay (il_byte_order L) g u im = Inr im2"
    then have og: "field_ok (int (length im)) g" "is_overlay g" using ok [of g u] mid by auto
    note w = write_overlay_within [OF g(3) og]
    show "length im2 = length mid" using w(1) g(2) by (simp add: writes_within_def)
    assume ne: "(g, u) \<noteq> (f, v)" and im: "length im = length mid \<and> bit (?x im) ?b = value_bool v"
    have "g \<noteq> f" using entries_unique [OF m(2) d, of f u v] g(1) fv ne by auto
    then consider "field_range g \<inter> field_range f = {}" | "same_bytes g f" "bit_number g \<noteq> ?b"
      using apart g(1) by (force simp: written_fields_def list_all_iff apart_def)
    then show "length im2 = length mid \<and> bit (?x im2) ?b = value_bool v"
    proof cases
      case 1
      from slice_kept [OF w(1) this] im w(1) g(2) show ?thesis by (simp add: writes_within_def)
    next
      case 2
      then have "get_slice g im2 = get_slice f im2" "get_slice g im = get_slice f im"
        by (simp_all add: same_bytes_def get_slice_def)
      then show ?thesis using w im 2(2) g(2) by (simp add: bit_overlay_value writes_within_def)
    qed
  qed
  moreover have "field_ok (int (length mid)) f" using ok [of f v] fv mid by simp
  ultimately show ?thesis using decode_field_overlay [of out f "il_byte_order L"] f(2,3) by simp
qed

section \<open>Failures\<close>

lemma write_base_loop_total:
  "isl (write_all (write_base bo) fvs img) \<longleftrightarrow>
     \<not> list_all (\<lambda>(f, v). fits (is_signed (pf_data_type f)) (nat (pf_byte_size f)) (value_int v)) fvs"
proof (induction fvs arbitrary: img)
  case (Cons fv fvs)
  then show ?case by (cases fv) (simp add: write_base_cases)
qed simp

lemma overlay_loop_total:
  assumes "\<And>f v. (f, v) \<in> set fvs \<Longrightarrow> field_ok (int (length img)) f \<and> is_overlay f"
  shows "\<exists>out. write_all (write_overlay bo) fvs img = Inr out"
  using assms
proof (induction fvs arbitrary: img)
  case (Cons fv fvs)
  obtain f v where fv: "fv = (f, v)" by (cases fv)
  then have f: "field_ok (int (length img)) f" "is_overlay f" using Cons.prems [of f v] by auto
  obtain bs where bs: "write_overlay bo f v img = Inr (put_slice f bs img)" "length bs = nat (pf_byte_size f)"
    using write_overlay_ok [OF f] by blast
  have "length (put_slice f bs img) = length img"
    using length_put_slice [OF field_ok_in_image [OF f(1)] bs(2)] .
  with Cons.prems have "\<exists>out. write_all (write_overlay bo) fvs (put_slice f bs img) = Inr out"
    by (intro Cons.IH) (metis list.set_intros(2))
  then show ?case by (simp add: fv bs(1))
qed simp

section \<open>A small layout\<close>

text \<open>A status word with a ready bit and a signed speed, in four bytes.\<close>

definition small_fields :: "packed_field list" where
  "small_fields =
     [\<lparr>pf_name = ''Status'', pf_data_type = ''INT'', pf_byte_offset = 0, pf_byte_size = 2,
       pf_overlay_target = None, pf_bit_number = None, pf_description = None\<rparr>,
      \<lparr>pf_name = ''Ready'', pf_data_type = ''BIT'', pf_byte_offset = 0, pf_byte_size = 2,
       pf_overlay_target = Some ''Status'', pf_bit_number = Some 9, pf_description = None\<rparr>,
      \<lparr>pf_name = ''Speed'', pf_data_type = ''INT'', pf_byte_offset = 2, pf_byte_size = 2,
       pf_overlay_target = None, pf_bit_number = None, pf_description = None\<rparr>]"

definition small_layout :: image_layout where
  "small_layout = \<lparr>il_name = ''status_image'', il_byte_size = 4, il_byte_order = BO_LITTLE, il_fields = small_fields\<rparr>"

definition small_values :: "(string \<times> io_value) list" where
  "small_values = [(''Ready'', IO_BOOL True), (''Speed'', IO_INT (-2))]"

lemma small_layout_valid: "layout_error small_layout = None"
  by code_simp

lemma small_encode: "encode_image small_layout small_values (Some [1, 0, 3, 4]) = Inr [1, 2, 254, 255]"
  by code_simp

lemma small_decode:
  "decode_image small_layout [1, 2, 254, 255] =
     Inr \<lparr>pi_raw = [1, 2, 254, 255],
       pi_values = [(''Status'', IO_INT 513), (''Ready'', IO_BOOL True), (''Speed'', IO_INT (-2))]\<rparr>"
  by code_simp

lemma write_base_loop_error: "write_all (write_base bo) fvs img = Inl e \<Longrightarrow> e = Overflow_Error"
proof (induction fvs arbitrary: img)
  case (Cons fv fvs)
  then show ?case by (cases fv) (auto simp: write_base_cases split: if_splits)
qed simp

section \<open>The properties of images\<close>

text \<open>
  C38. Encoding fails for the three reasons of the code only: for a valid layout it raises a
  \<open>ValueError\<close> exactly when the base has another size or a name is unknown, an
  \<open>OverflowError\<close> exactly when both are in order and some value does not fit the width and
  sign of its field; writing bits never fails, and otherwise an image is returned.
\<close>

theorem encode_outcome:
  assumes "layout_error L = None"
  shows "((\<exists>m. encode_image L vs base = Inl (Value_Error m)) \<longleftrightarrow>
       int (length (start_image L base)) \<noteq> il_byte_size L \<or> \<not> known_names L vs) \<and>
     (encode_image L vs base = Inl Overflow_Error \<longleftrightarrow>
       int (length (start_image L base)) = il_byte_size L \<and> known_names L vs \<and>
       \<not> list_all (\<lambda>(f, v). fits (is_signed (pf_data_type f)) (nat (pf_byte_size f)) (value_int v))
           (base_entries L vs))"
proof (cases "int (length (start_image L base)) = il_byte_size L \<and> known_names L vs")
  case True
  show ?thesis
  proof (cases "write_all (write_base (il_byte_order L)) (base_entries L vs) (start_image L base)")
    case (Inl e)
    then have "e = Overflow_Error" "isl (write_all (write_base (il_byte_order L)) (base_entries L vs) (start_image L base))"
      using write_base_loop_error by auto
    then show ?thesis using True Inl unfolding encode_image_eq write_base_loop_total by (simp add: Let_def)
  next
    case (Inr mid)
    then have ok: "list_all (\<lambda>(f, v). fits (is_signed (pf_data_type f)) (nat (pf_byte_size f)) (value_int v))
        (base_entries L vs)"
      using write_base_loop_total [of "il_byte_order L" "base_entries L vs" "start_image L base"] by simp
    have "int (length mid) = il_byte_size L" using base_loop_within [OF assms _ _ Inr] True by simp
    then obtain out where "write_all (write_overlay (il_byte_order L)) (overlay_entries L vs) mid = Inr out"
      using overlay_loop_total [of "overlay_entries L vs" mid] entries_ok [OF assms] True by force
    then show ?thesis using True Inr ok by (simp add: encode_image_eq Let_def)
  qed
next
  case False
  then show ?thesis by (auto simp: encode_image_eq Let_def)
qed

theorem encode_outcome_witness:
  "((\<exists>m. encode_image small_layout [(''Speed'', IO_INT 40000)] None = Inl (Value_Error m)) \<longleftrightarrow>
       int (length (start_image small_layout None)) \<noteq> il_byte_size small_layout \<or>
       \<not> known_names small_layout [(''Speed'', IO_INT 40000)]) \<and>
     encode_image small_layout [(''Speed'', IO_INT 40000)] None = Inl Overflow_Error"
proof -
  have "int (length (start_image small_layout None)) = il_byte_size small_layout"
    "known_names small_layout [(''Speed'', IO_INT 40000)]"
    "\<not> list_all (\<lambda>(f, v). fits (is_signed (pf_data_type f)) (nat (pf_byte_size f)) (value_int v))
       (base_entries small_layout [(''Speed'', IO_INT 40000)])"
    by code_simp+
  with encode_outcome [OF small_layout_valid, of "[(''Speed'', IO_INT 40000)]" None] show ?thesis by blast
qed

text \<open>
  Encoding touches only what it is given: the result has the size of the base image, and
  every byte outside the fields written is that of the base, whatever the fields overlap.
\<close>

theorem encode_frame:
  assumes "layout_error L = None" "encode_image L vs (Some base) = Inr out"
  shows "length out = length base \<and>
    filter (\<lambda>i. out ! i \<noteq> base ! i \<and> \<not> list_ex (\<lambda>f. i \<in> field_range f) (written_fields L vs)) [0..<length base] = []"
  using encode_within [OF assms]
  by (fastforce simp: start_image_def filter_empty_conv written_fields_def list_ex_iff)

theorem encode_frame_witness:
  "length [1, 2, 254, 255 :: byte] = length [1, 0, 3, 4 :: byte] \<and>
    filter (\<lambda>i. [1, 2, 254, 255 :: byte] ! i \<noteq> [1, 0, 3, 4] ! i \<and>
       \<not> list_ex (\<lambda>f. i \<in> field_range f) (written_fields small_layout small_values))
     [0..<length [1, 0, 3, 4 :: byte]] = []"
  by (rule encode_frame [OF small_layout_valid small_encode])

text \<open>No other written field disturbs what is written to \<open>f\<close>.\<close>

definition isolated :: "image_layout \<Rightarrow> (string \<times> io_value) list \<Rightarrow> packed_field \<Rightarrow> bool" where
  "isolated L vs f =
     (if is_overlay f
      then bit_number f < 32 \<and>
           list_all (\<lambda>g. \<not> is_overlay g \<or> g = f \<or> apart g f \<or> same_bytes g f \<and> bit_number g \<noteq> bit_number f)
             (written_fields L vs)
      else list_all (\<lambda>g. g = f \<or> apart g f) (written_fields L vs))"

text \<open>
  C28. What is encoded is read back: in the image encoded from named values, a field given a
  value decodes to it, an integer field when the other fields written lie elsewhere, a bit
  below 32 when the other bits written lie elsewhere or are other bits of the same bytes.
\<close>

theorem encode_reads_back:
  assumes "layout_error L = None" "distinct (map fst vs)" "encode_image L vs base = Inr out"
    and "f \<in> set (il_fields L)" "(pf_name f, v) \<in> set vs" "isolated L vs f"
  shows "decode_field (il_byte_order L) out f =
     (if is_overlay f then IO_BOOL (value_bool v) else IO_INT (value_int v))"
  using encode_reads_back_base [OF assms(1-4) _ assms(5)] encode_reads_back_overlay [OF assms(1-4) _ _ assms(5)]
    assms(6) by (auto simp: isolated_def)

theorem encode_reads_back_witness:
  "decode_field BO_LITTLE [1, 2, 254, 255] (small_fields ! 2) = IO_INT (-2)"
proof -
  have "distinct (map fst small_values)" "small_fields ! 2 \<in> set (il_fields small_layout)"
    "(pf_name (small_fields ! 2), IO_INT (-2)) \<in> set small_values"
    "isolated small_layout small_values (small_fields ! 2)"
    by (simp_all add: small_values_def small_fields_def small_layout_def isolated_def written_fields_def
        entries_of_def field_named_def dict_of_def apart_def field_range_def is_overlay_def)
  from encode_reads_back [OF small_layout_valid this(1) small_encode this(2-4)]
  show ?thesis by (simp add: small_fields_def small_layout_def is_overlay_def)
qed

text \<open>
  C27. Writing back what was read changes nothing: for a valid layout whose bits are all below
  32, encoding all decoded values over the image they were decoded from returns that image,
  however the fields overlap.
\<close>

theorem reencode_identity:
  assumes "layout_error L = None" "list_all (\<lambda>f. is_overlay f \<longrightarrow> bit_number f < 32) (il_fields L)"
    and "decode_image L img = Inr p"
  shows "encode_image L (pi_values p) (Some img) = Inr img"
proof -
  let ?bo = "il_byte_order L"
  have len: "int (length img) = il_byte_size L"
    and vs: "pi_values p = map (\<lambda>f. (pf_name f, decode_field ?bo img f)) (il_fields L)"
    using assms(3) by (auto simp: decode_image_def split: if_splits)
  have named: "field_named L (pf_name f) = Some f" if "f \<in> set (il_fields L)" for f
    using field_named_Some [OF assms(1) that] .
  have es: "entries_of L (pi_values p) = map (\<lambda>f. (f, decode_field ?bo img f)) (il_fields L)"
    by (simp add: entries_of_def vs named)
  have known: "known_names L (pi_values p)" by (simp add: known_names_def vs list_all_iff named)
  have ok: "field_ok (int (length img)) f" if "f \<in> set (il_fields L)" for f
    using assms(1) that len by (simp add: layout_error_None)
  have base: "write_all (write_base ?bo) (base_entries L (pi_values p)) img = Inr img"
  proof (rule write_all_fixed)
    fix f v assume "(f, v) \<in> set (base_entries L (pi_values p))"
    then have f: "f \<in> set (il_fields L)" "\<not> is_overlay f" "v = decode_field ?bo img f" by (auto simp: es)
    have "to_bytes ?bo (is_signed (pf_data_type f)) (nat (pf_byte_size f)) (value_int v) = Some (get_slice f img)"
      using python_bytes.enc_dec [of ?bo "is_signed (pf_data_type f)" "get_slice f img"]
        length_get_slice [OF field_ok_in_image [OF ok [OF f(1)]]] f(2,3) by (simp add: decode_field_def Let_def)
    then show "write_base ?bo f v img = Inr img" by (simp add: write_base_def put_get_slice)
  qed
  have overlay: "write_all (write_overlay ?bo) (overlay_entries L (pi_values p)) img = Inr img"
  proof (rule write_all_fixed)
    fix f v assume "(f, v) \<in> set (overlay_entries L (pi_values p))"
    then have f: "f \<in> set (il_fields L)" "is_overlay f" "v = decode_field ?bo img f" by (auto simp: es)
    with assms(2) have "v = IO_BOOL (bit (from_bytes ?bo False (get_slice f img)) (bit_number f))"
      using decode_field_overlay [OF ok [OF f(1)] f(2)] by (simp add: list_all_iff)
    then have "overlay_value ?bo f v img = from_bytes ?bo False (get_slice f img)"
      by (simp add: overlay_value_def Let_def set_bit_same unset_bit_same del: push_bit_of_1)
    then have "to_bytes ?bo False (nat (pf_byte_size f)) (overlay_value ?bo f v img) = Some (get_slice f img)"
      using python_bytes.enc_dec [of ?bo False "get_slice f img"]
        length_get_slice [OF field_ok_in_image [OF ok [OF f(1)]]] by simp
    then show "write_overlay ?bo f v img = Inr img"
      by (simp add: write_overlay_def overlay_value_def Let_def put_get_slice)
  qed
  show ?thesis using len known base overlay by (simp add: encode_image_eq start_image_def Let_def)
qed

theorem reencode_identity_witness:
  "encode_image small_layout [(''Status'', IO_INT 513), (''Ready'', IO_BOOL True), (''Speed'', IO_INT (-2))]
     (Some [1, 2, 254, 255]) = Inr [1, 2, 254, 255]"
  using reencode_identity [OF small_layout_valid _ small_decode]
  by (simp add: small_layout_def small_fields_def bit_number_def)

text \<open>
  The reader loses wide bits: a bit numbered 32 or more, which a valid layout allows in a
  field of more than four bytes and which \<open>encode\<close> sets, always decodes as false.
\<close>

theorem wide_bit_reads_false:
  assumes "is_overlay f" "32 \<le> bit_number f"
  shows "decode_field bo img f = IO_BOOL False"
  using assms bit_test_wide by (simp add: decode_field_def Let_def)

definition wide_layout :: image_layout where
  "wide_layout = \<lparr>il_name = ''wide'', il_byte_size = 8, il_byte_order = BO_LITTLE, il_fields =
     [\<lparr>pf_name = ''Word'', pf_data_type = ''LINT'', pf_byte_offset = 0, pf_byte_size = 8,
       pf_overlay_target = None, pf_bit_number = None, pf_description = None\<rparr>,
      \<lparr>pf_name = ''High'', pf_data_type = ''BIT'', pf_byte_offset = 0, pf_byte_size = 8,
       pf_overlay_target = Some ''Word'', pf_bit_number = Some 40, pf_description = None\<rparr>]\<rparr>"

theorem wide_bit_reads_false_witness:
  "layout_error wide_layout = None \<and>
   encode_image wide_layout [(''High'', IO_BOOL True)] None = Inr [0, 0, 0, 0, 0, 1, 0, 0] \<and>
   decode_field BO_LITTLE [0, 0, 0, 0, 0, 1, 0, 0] (il_fields wide_layout ! 1) = IO_BOOL False"
proof -
  have "layout_error wide_layout = None"
    "encode_image wide_layout [(''High'', IO_BOOL True)] None = Inr [0, 0, 0, 0, 0, 1, 0, 0]"
    by code_simp+
  moreover have "decode_field BO_LITTLE [0, 0, 0, 0, 0, 1, 0, 0] (il_fields wide_layout ! 1) = IO_BOOL False"
    by (rule wide_bit_reads_false) (simp_all add: wide_layout_def is_overlay_def bit_number_def)
  ultimately show ?thesis by blast
qed

section \<open>Layouts from captured datatypes\<close>

text \<open>
  A datatype the layout can carry: the members have different names, the type of each that is
  no overlay has a known size, and each overlay addresses a bit of an earlier member.
\<close>

fun capturable_from :: "(string \<times> nat) list \<Rightarrow> datatype_member list \<Rightarrow> bool" where
  "capturable_from known [] = True"
| "capturable_from known (m # ms) =
     (case dm_target m of
        None \<Rightarrow> 0 < atomic_size (dm_data_type_name m) \<and>
          capturable_from ((dm_name m, atomic_size (dm_data_type_name m)) # known) ms
      | Some t \<Rightarrow>
          (case (map_of known t, dm_bit_number m) of
             (Some n, Some b) \<Rightarrow> 0 \<le> b \<and> b < 8 * int n
           | _ \<Rightarrow> False) \<and> capturable_from known ms)"

definition capturable :: "datatype_member list \<Rightarrow> bool" where
  "capturable ms = (distinct (map dm_name ms) \<and> capturable_from [] ms)"

lemma map_of_sizes: "map_of (map (\<lambda>(n, p). (n, snd p)) xs) t = map_option snd (map_of xs t)"
  by (simp add: map_of_map)

lemma datatype_size_Cons:
  "datatype_size (m # ms) = (if dm_target m = None then atomic_size (dm_data_type_name m) else 0) + datatype_size ms"
  by (simp add: datatype_size_def)

definition carried_names :: "cyclic_io_field list \<Rightarrow> string set" where
  "carried_names fs = set (map cf_name (filter (\<lambda>f. cf_overlay_target f = None) fs))"

lemma carried_names_Cons:
  "carried_names (f # fs) = (if cf_overlay_target f = None then {cf_name f} else {}) \<union> carried_names fs"
  by (simp add: carried_names_def)

lemma layout_from_targets:
  assumes "capturable_from (map (\<lambda>(n, p). (n, snd p)) offsets) ms" "f \<in> set (layout_from offsets offset ms)"
    and "cf_overlay_target f = Some t"
  shows "t \<in> fst ` set offsets \<union> carried_names (layout_from offsets offset ms)"
  using assms
proof (induction offsets offset ms rule: layout_from.induct)
  case (2 offsets offset m ms)
  show ?case
  proof (cases "dm_target m")
    case None
    with "2.prems" "2.IH"(1) [OF None refl] show ?thesis by (auto simp: Let_def carried_names_Cons)
  next
    case (Some u)
    from "2.prems"(1) Some obtain n where "map_of (map (\<lambda>(n, p). (n, snd p)) offsets) u = Some n"
      "capturable_from (map (\<lambda>(n, p). (n, snd p)) offsets) ms" by (auto split: option.splits)
    moreover from this obtain a where at: "map_of offsets u = Some (a, n)" by (auto simp: map_of_sizes)
    moreover from this have "u \<in> fst ` set offsets" by (metis domI dom_map_of_conv_image_fst)
    ultimately show ?thesis
      using "2.prems"(2,3) "2.IH"(2) [OF Some] Some by (auto simp: carried_names_Cons simp del: set_map intro: rev_image_eqI)
  qed
qed simp

lemma layout_from_ok:
  assumes "capturable_from (map (\<lambda>(n, p). (n, snd p)) offsets) ms"
    and "\<forall>(n, a, k) \<in> set offsets. 0 < k \<and> a + k \<le> offset"
    and "offset + datatype_size ms \<le> N" and "f \<in> set (layout_from offsets offset ms)"
  shows "field_ok (int N) (packed_of f)"
  using assms
proof (induction offsets offset ms rule: layout_from.induct)
  case (2 offsets offset m ms)
  show ?case
  proof (cases "dm_target m")
    case None
    let ?k = "atomic_size (dm_data_type_name m)"
    let ?offsets = "(dm_name m, offset, ?k) # offsets"
    have cap: "0 < ?k" "capturable_from (map (\<lambda>(n, p). (n, snd p)) ?offsets) ms"
      and size: "offset + ?k + datatype_size ms \<le> N"
      using "2.prems"(1,3) None by (simp_all add: datatype_size_Cons)
    have bounds: "\<forall>(n, a, k) \<in> set ?offsets. 0 < k \<and> a + k \<le> offset + ?k"
      using cap(1) "2.prems"(2) by fastforce
    show ?thesis
    proof (cases "f \<in> set (layout_from ?offsets (offset + ?k) ms)")
      case True
      from "2.IH"(1) [OF None refl cap(2) bounds size True] show ?thesis .
    next
      case False
      then have "cf_byte_offset f = offset" "cf_byte_size f = ?k" "cf_overlay_target f = None"
        using "2.prems"(4) None by (auto simp: Let_def)
      then show ?thesis using size cap(1) by (simp add: field_ok_def packed_of_def is_overlay_def)
    qed
  next
    case (Some t)
    obtain n b where nb: "map_of (map (\<lambda>(n, p). (n, snd p)) offsets) t = Some n" "dm_bit_number m = Some b"
      "0 \<le> b" "b < 8 * int n" "capturable_from (map (\<lambda>(n, p). (n, snd p)) offsets) ms"
      using "2.prems"(1) Some by (auto split: option.splits)
    then obtain a where at: "map_of offsets t = Some (a, n)" by (auto simp: map_of_sizes)
    then have "(t, a, n) \<in> set offsets" by (rule map_of_SomeD)
    then have an: "0 < n" "a + n \<le> offset" using "2.prems"(2) by force+
    have size: "offset + datatype_size ms \<le> N" using "2.prems"(3) Some by (simp add: datatype_size_Cons)
    show ?thesis
    proof (cases "f \<in> set (layout_from offsets offset ms)")
      case True
      from "2.IH"(2) [OF Some nb(5) "2.prems"(2) size True] show ?thesis .
    next
      case False
      then have "cf_byte_offset f = a" "cf_byte_size f = n" "cf_overlay_target f = Some t" "cf_bit_number f = Some b"
        using "2.prems"(4) Some at nb(2) by auto
      then show ?thesis using size an nb(3,4) by (simp add: field_ok_def packed_of_def is_overlay_def)
    qed
  qed
qed simp

lemma layout_from_names: "map cf_name (layout_from offsets offset ms) = map dm_name ms"
  by (induction offsets offset ms rule: layout_from.induct) (auto simp: Let_def split: option.splits prod.splits)

lemma layout_from_tiles:
  "concat (map (\<lambda>f. [cf_byte_offset f ..< cf_byte_offset f + cf_byte_size f])
     (filter (\<lambda>f. cf_overlay_target f = None) (layout_from offsets offset ms))) =
   [offset ..< offset + datatype_size ms]"
proof (induction offsets offset ms rule: layout_from.induct)
  case (2 offsets offset m ms)
  show ?case
  proof (cases "dm_target m")
    case None
    let ?k = "atomic_size (dm_data_type_name m)"
    have "[offset ..< offset + ?k] @ [offset + ?k ..< offset + ?k + datatype_size ms] =
        [offset ..< offset + (?k + datatype_size ms)]"
      by (metis add.assoc le_add1 upt_add_eq_append)
    with "2.IH"(1) [OF None refl] None show ?thesis by (simp add: Let_def datatype_size_Cons)
  next
    case (Some t)
    with "2.IH"(2) [OF Some] show ?thesis by (auto simp: datatype_size_Cons split: option.splits)
  qed
qed (simp add: datatype_size_def)

text \<open>The bytes of the fields that are no overlays, in order.\<close>

definition base_bytes :: "image_layout \<Rightarrow> nat list" where
  "base_bytes L = concat (map (\<lambda>f. [nat (pf_byte_offset f) ..< nat (pf_byte_offset f) + nat (pf_byte_size f)])
     (filter (\<lambda>f. \<not> is_overlay f) (il_fields L)))"

text \<open>
  A captured datatype gives a valid image: when its members can be carried and the image
  size, configured or copied, has room for them, the layout passes every check of its
  constructor, has the members' names in order, and its integer fields tile the image from
  byte zero without gap or overlap, one after the other, up to the size of the datatype.
\<close>

theorem captured_layout_valid:
  assumes "capturable ms" "0 < n" "int (datatype_size ms) \<le> n"
    and "ci_fields img = field_layout ms"
    and "ci_configured_size_bytes img = Some n \<or>
      ci_configured_size_bytes img \<in> {None, Some 0} \<and> ci_copied_size_bytes img = Some n"
  shows "\<exists>L. build_layout img bo = Inr L \<and> layout_error L = None \<and> il_byte_size L = n \<and>
     map pf_name (il_fields L) = map dm_name ms \<and> base_bytes L = [0 ..< datatype_size ms]"
proof -
  let ?L = "\<lparr>il_name = ci_role img @ ''_image'', il_byte_size = n, il_byte_order = bo,
    il_fields = map packed_of (field_layout ms)\<rparr>"
  have ok: "field_ok n (packed_of f)" if "f \<in> set (field_layout ms)" for f
    using layout_from_ok [of "[]" ms 0 "nat n" f] that assms(1-3) by (simp add: capturable_def field_layout_def)
  have targets: "t \<in> carried_names (field_layout ms)"
    if "f \<in> set (field_layout ms)" "cf_overlay_target f = Some t" for f t
    using layout_from_targets [of "[]" ms f 0 t] that assms(1) by (simp add: capturable_def field_layout_def)
  have names: "map (pf_name \<circ> packed_of) (field_layout ms) = map dm_name ms"
    using layout_from_names [of "[]" 0 ms] by (simp add: field_layout_def packed_of_def comp_def)
  have "base_names (map packed_of (field_layout ms)) = carried_names (field_layout ms)"
    by (simp add: base_names_def carried_names_def packed_of_def is_overlay_def filter_map comp_def image_image)
  then have valid: "layout_error ?L = None"
    using ok targets names assms(1,2)
    by (simp add: layout_error_None capturable_def) (simp add: packed_of_def)
  have "base_bytes ?L = concat (map (\<lambda>f. [cf_byte_offset f ..< cf_byte_offset f + cf_byte_size f])
      (filter (\<lambda>f. cf_overlay_target f = None) (field_layout ms)))"
    by (simp add: base_bytes_def filter_map comp_def packed_of_def is_overlay_def)
  then have "base_bytes ?L = [0 ..< datatype_size ms]"
    using layout_from_tiles [of "[]" 0 ms] by (simp add: field_layout_def)
  moreover have "build_layout img bo = Inr ?L"
    using valid assms(2,4,5) by (auto simp: build_layout_def Let_def)
  ultimately show ?thesis using valid names by auto
qed

definition small_members :: "datatype_member list" where
  "small_members =
     [\<lparr>dm_name = ''Status'', dm_data_type_name = Some ''INT'', dm_dimension = None, dm_target = None, dm_bit_number = None,
       dm_description = None\<rparr>,
      \<lparr>dm_name = ''Ready'', dm_data_type_name = Some ''BIT'', dm_dimension = None, dm_target = Some ''Status'',
       dm_bit_number = Some 9, dm_description = None\<rparr>,
      \<lparr>dm_name = ''Speed'', dm_data_type_name = Some ''INT'', dm_dimension = None, dm_target = None, dm_bit_number = None,
       dm_description = None\<rparr>]"

definition small_image :: cyclic_io_image where
  "small_image = \<lparr>ci_role = ''status'', ci_configured_size_bytes = None, ci_copied_size_bytes = Some 4,
     ci_fields = field_layout small_members\<rparr>"

theorem captured_layout_valid_witness:
  "\<exists>L. build_layout small_image BO_LITTLE = Inr L \<and> layout_error L = None \<and> il_byte_size L = 4 \<and>
     map pf_name (il_fields L) = [''Status'', ''Ready'', ''Speed''] \<and> base_bytes L = [0 ..< 4]"
proof -
  have size: "datatype_size small_members = 4" by code_simp
  have "capturable small_members" by code_simp
  from captured_layout_valid [OF this, of 4 small_image BO_LITTLE] show ?thesis
    by (simp add: size) (simp add: small_image_def small_members_def)
qed

end
