(* ===== verification/PowerFlex_Core.thy ===== *)
theory PowerFlex_Core imports Complex_Main Prelude "HOL-Library.Word" begin

text \<open>
  The scan logic of the PowerFlex 525 instruction, \<open>runtime/powerflex525_core.py\<close>. Speeds
  are finite floating-point numbers, kept as rationals; the one operation on them that rounds,
  the product with \<open>100.0\<close>, takes the rounding \<open>rnd\<close> of the exact product as a parameter.
  The retained state is passed explicitly.
\<close>

section \<open>Inputs, outputs and state\<close>

datatype command_source =
    PS_NONE | PS_PROGRAM | PS_OPERATOR | PS_EXTERNAL | PS_OVERRIDE | PS_MAINTENANCE | PS_LOCAL

record drive_commands =
  dc_run_forward :: bool
  dc_run_reverse :: bool
  dc_jog_forward :: bool
  dc_jog_reverse :: bool
  dc_stop :: bool
  dc_reset :: bool
  dc_speed_hz :: rat

record core_input =
  ki_source :: command_source
  ki_program :: drive_commands
  ki_operator :: drive_commands
  ki_external :: drive_commands
  ki_maintenance :: drive_commands
  ki_override_command :: int
  ki_override_speed_hz :: rat
  ki_program_override_active :: bool
  ki_maintenance_program_speed_hz :: rat
  ki_permissive_ok :: bool
  ki_non_bypassable_permissive_ok :: bool
  ki_interlock_ok :: bool
  ki_non_bypassable_interlock_ok :: bool
  ki_bypass_active :: bool
  ki_run_forward_available :: bool
  ki_run_reverse_available :: bool
  ki_jog_forward_available :: bool
  ki_jog_reverse_available :: bool
  ki_drive_ready :: bool
  ki_drive_active :: bool
  ki_ethernet_logic_control :: bool
  ki_keypad_control_status :: bool
  ki_keypad_control_command :: bool
  ki_maximum_speed_hz :: rat
  ki_jog_speed_hz :: rat
  ki_start_delay_ms :: int
  ki_elapsed_ms :: int

definition default_commands :: drive_commands where
  "default_commands = \<lparr>dc_run_forward = False, dc_run_reverse = False, dc_jog_forward = False,
     dc_jog_reverse = False, dc_stop = False, dc_reset = False, dc_speed_hz = 0\<rparr>"

definition default_input :: core_input where
  "default_input =
     \<lparr>ki_source = PS_NONE, ki_program = default_commands, ki_operator = default_commands,
      ki_external = default_commands, ki_maintenance = default_commands, ki_override_command = 0,
      ki_override_speed_hz = 0, ki_program_override_active = False, ki_maintenance_program_speed_hz = 0,
      ki_permissive_ok = True, ki_non_bypassable_permissive_ok = True, ki_interlock_ok = True,
      ki_non_bypassable_interlock_ok = True, ki_bypass_active = False, ki_run_forward_available = True,
      ki_run_reverse_available = True, ki_jog_forward_available = True, ki_jog_reverse_available = True,
      ki_drive_ready = False, ki_drive_active = False, ki_ethernet_logic_control = False,
      ki_keypad_control_status = False, ki_keypad_control_command = False, ki_maximum_speed_hz = 0,
      ki_jog_speed_hz = 0, ki_start_delay_ms = 0, ki_elapsed_ms = 0\<rparr>"

text \<open>The constructor of the input raises on a negative time.\<close>

definition input_error :: "core_input \<Rightarrow> string option" where
  "input_error k =
     (if ki_start_delay_ms k < 0 then Some ''start_delay_ms must not be negative''
      else if ki_elapsed_ms k < 0 then Some ''elapsed_ms must not be negative''
      else None)"

record core_output =
  ko_logic_command :: int
  ko_speed_command :: int
  ko_reference_speed_hz :: rat
  ko_permissives_ok :: bool
  ko_interlocks_ok :: bool
  ko_run_forward :: bool
  ko_run_reverse :: bool
  ko_jog_forward :: bool
  ko_jog_reverse :: bool
  ko_starting :: bool
  ko_stopping :: bool

record drive_state =
  ds_run_forward :: bool
  ds_run_reverse :: bool
  ds_start_elapsed_ms :: int
  ds_override_command :: int

definition init_drive :: drive_state where
  "init_drive = \<lparr>ds_run_forward = False, ds_run_reverse = False, ds_start_elapsed_ms = 0, ds_override_command = 0\<rparr>"

definition reset_drive :: "drive_state \<Rightarrow> drive_state" where
  "reset_drive s = s\<lparr>ds_run_forward := False, ds_run_reverse := False, ds_start_elapsed_ms := 0, ds_override_command := 0\<rparr>"

text \<open>\<open>prescan\<close> keeps the portable state.\<close>

definition prescan_drive :: "drive_state \<Rightarrow> drive_state" where
  "prescan_drive s = s"

definition cyclic_values :: "core_output \<Rightarrow> (string \<times> int) list" where
  "cyclic_values r = [(''LogicCommand'', ko_logic_command r), (''SpeedCommand'', ko_speed_command r)]"

section \<open>The scan\<close>

definition permissives_ok :: "core_input \<Rightarrow> bool" where
  "permissives_ok k \<longleftrightarrow> (ki_permissive_ok k \<or> ki_bypass_active k) \<and> ki_non_bypassable_permissive_ok k"

definition interlocks_ok :: "core_input \<Rightarrow> bool" where
  "interlocks_ok k \<longleftrightarrow> (ki_interlock_ok k \<or> ki_bypass_active k) \<and> ki_non_bypassable_interlock_ok k"

definition selected_commands :: "core_input \<Rightarrow> drive_commands option" where
  "selected_commands k =
     (case ki_source k of
        PS_OPERATOR \<Rightarrow> Some (ki_operator k)
      | PS_EXTERNAL \<Rightarrow> Some (ki_external k)
      | PS_MAINTENANCE \<Rightarrow> Some (ki_maintenance k)
      | _ \<Rightarrow> None)"

definition apply_override :: "core_input \<Rightarrow> drive_state \<Rightarrow> drive_state" where
  "apply_override k s =
     (let s1 = s\<lparr>ds_override_command := ki_override_command k\<rparr>;
          command = ds_override_command s1;
          s2 = (if command = 1 \<or> \<not> interlocks_ok k
                then s1\<lparr>ds_run_forward := False, ds_run_reverse := False\<rparr>
                else if command = 2 \<and> permissives_ok k
                then s1\<lparr>ds_run_forward := True, ds_run_reverse := False\<rparr>
                else if command = 3 \<and> permissives_ok k
                then s1\<lparr>ds_run_forward := False, ds_run_reverse := True\<rparr>
                else s1)
      in s2\<lparr>ds_override_command := 0\<rparr>)"

definition apply_source_commands :: "core_input \<Rightarrow> drive_state \<Rightarrow> rat \<times> drive_state" where
  "apply_source_commands k s =
     (let perm = permissives_ok k; lock = interlocks_ok k; p = ki_program k
      in case ki_source k of
           PS_PROGRAM \<Rightarrow>
             (if ki_program_override_active k then ki_maintenance_program_speed_hz k else dc_speed_hz p,
              s\<lparr>ds_run_forward := dc_run_forward p \<and> (perm \<or> ds_run_forward s) \<and> lock \<and> \<not> dc_stop p,
                ds_run_reverse := dc_run_reverse p \<and> (perm \<or> ds_run_reverse s) \<and> lock \<and> \<not> dc_stop p\<rparr>)
         | PS_OVERRIDE \<Rightarrow> (ki_override_speed_hz k, apply_override k s)
         | _ \<Rightarrow>
             (case selected_commands k of
                None \<Rightarrow> (0, s\<lparr>ds_run_forward := False, ds_run_reverse := False\<rparr>)
              | Some c \<Rightarrow>
                  (dc_speed_hz c,
                   s\<lparr>ds_run_forward :=
                       (ds_run_forward s \<or>
                        dc_run_forward c \<and> ki_run_forward_available k \<and> perm \<and> \<not> dc_run_reverse c) \<and>
                       lock \<and> \<not> dc_stop c,
                     ds_run_reverse :=
                       (ds_run_reverse s \<or>
                        dc_run_reverse c \<and> ki_run_reverse_available k \<and> perm \<and> \<not> dc_run_forward c) \<and>
                       lock \<and> \<not> dc_stop c\<rparr>)))"

definition update_start_timer :: "bool \<Rightarrow> int \<Rightarrow> int \<Rightarrow> drive_state \<Rightarrow> (bool \<times> bool) \<times> drive_state" where
  "update_start_timer run_requested preset elapsed s =
     (if \<not> run_requested then ((False, False), s\<lparr>ds_start_elapsed_ms := 0\<rparr>)
      else let t = min preset (ds_start_elapsed_ms s + elapsed); finished = (preset \<le> t)
           in ((finished, \<not> finished), s\<lparr>ds_start_elapsed_ms := t\<rparr>))"

definition jog_commands :: "core_input \<Rightarrow> bool \<Rightarrow> bool \<times> bool" where
  "jog_commands k perm =
     (let chosen = selected_commands k; p = ki_program k;
          fwd = (case chosen of None \<Rightarrow> False | Some c \<Rightarrow> dc_jog_forward c \<and> \<not> dc_jog_reverse c);
          rev = (case chosen of None \<Rightarrow> False | Some c \<Rightarrow> dc_jog_reverse c \<and> \<not> dc_jog_forward c)
      in (ki_jog_forward_available k \<and> perm \<and> fwd \<or>
            ki_source k = PS_PROGRAM \<and> dc_jog_forward p \<and> \<not> dc_jog_reverse p,
          ki_jog_reverse_available k \<and> perm \<and> rev \<or>
            ki_source k = PS_PROGRAM \<and> dc_jog_reverse p \<and> \<not> dc_jog_forward p))"

text \<open>\<open>_logic_command\<close>: the flags as bits, from \<open>stop\<close> at bit 0 to \<open>keypad_control\<close> at bit 6.\<close>

unbundle bit_operations_syntax

definition logic_command :: "bool list \<Rightarrow> int" where
  "logic_command values =
     sum_list (map (\<lambda>(b, v). push_bit b 1) (filter snd (enumerate 0 values))) AND 0x007F"

text \<open>\<open>int\<close> of a number truncates toward zero.\<close>

definition truncate_rat :: "rat \<Rightarrow> int" where
  "truncate_rat x = (if x < 0 then - \<lfloor>- x\<rfloor> else \<lfloor>x\<rfloor>)"

definition speed_command :: "(rat \<Rightarrow> rat) \<Rightarrow> rat \<Rightarrow> rat \<Rightarrow> int" where
  "speed_command rnd speed maximum = truncate_rat (rnd (min (max speed 0) maximum * 100))"

definition drive_scan :: "(rat \<Rightarrow> rat) \<Rightarrow> core_input \<Rightarrow> drive_state \<Rightarrow> core_output \<times> drive_state" where
  "drive_scan rnd k s =
     (let perm = permissives_ok k;
          (reference, s1) = apply_source_commands k s;
          (jog_forward, jog_reverse) = jog_commands k perm;
          requested = (ds_run_forward s1 \<or> ds_run_reverse s1 \<or> jog_forward \<or> jog_reverse);
          run_requested = (ds_run_forward s1 \<or> ds_run_reverse s1);
          ((timer_done, timer_timing), s2) =
            update_start_timer run_requested (ki_start_delay_ms k) (ki_elapsed_ms k) s1;
          stop = (ki_drive_active k \<and> ki_ethernet_logic_control k \<and>
            \<not> (ki_keypad_control_status k \<or> ds_run_forward s2 \<or> ds_run_reverse s2 \<or> jog_forward \<or> jog_reverse));
          start = (ki_drive_ready k \<and> timer_done \<and> \<not> stop \<and> requested);
          jog = (ki_drive_ready k \<and> \<not> (stop \<or> ds_run_forward s2 \<or> ds_run_reverse s2) \<and> (jog_forward \<or> jog_reverse));
          reset = list_ex dc_reset [ki_program k, ki_operator k, ki_maintenance k, ki_external k]
      in (\<lparr>ko_logic_command = logic_command
             [stop, start, jog, reset, ds_run_forward s2 \<or> jog_forward, ds_run_reverse s2 \<or> jog_reverse,
              ki_keypad_control_command k],
           ko_speed_command = speed_command rnd
             (if jog_forward \<or> jog_reverse then ki_jog_speed_hz k else reference) (ki_maximum_speed_hz k),
           ko_reference_speed_hz = reference, ko_permissives_ok = perm, ko_interlocks_ok = interlocks_ok k,
           ko_run_forward = ds_run_forward s2, ko_run_reverse = ds_run_reverse s2,
           ko_jog_forward = jog_forward, ko_jog_reverse = jog_reverse, ko_starting = timer_timing,
           ko_stopping = (ki_drive_active k \<and> \<not> requested)\<rparr>, s2))"

end
