(* ===== verification/PowerFlex_Facts.thy ===== *)
theory PowerFlex_Facts imports PowerFlex_Core begin

text \<open>
  What the drive logic promises in every scan and over runs of scans: what the start bit needs,
  what a lost interlock forces, the exclusion of the command bits, the start delay as the time
  of the current run request, and the bounds of the speed command.
\<close>

unbundle bit_operations_syntax

section \<open>Command bits\<close>

lemma logic_command_horner:
  "logic_command [a, b, c, d, e, f, g] = horner_sum of_bool 2 [a, b, c, d, e, f, g]"
proof -
  have s: "sum_list (map (\<lambda>(n, v). push_bit n 1) (filter snd (enumerate 0 [a, b, c, d, e, f, g]))) =
      (horner_sum of_bool 2 [a, b, c, d, e, f, g] :: int)"
    by simp
  have "0x007F = (mask 7 :: int)" by (simp add: mask_eq_exp_minus_1)
  moreover have "0 \<le> (horner_sum of_bool 2 [a, b, c, d, e, f, g] :: int)"
    "(horner_sum of_bool 2 [a, b, c, d, e, f, g] :: int) < 2 ^ 7" by simp_all
  then have "horner_sum of_bool 2 [a, b, c, d, e, f, g] AND mask 7 = (horner_sum of_bool 2 [a, b, c, d, e, f, g] :: int)"
    unfolding take_bit_eq_mask [symmetric] by (rule take_bit_int_eq_self)
  ultimately show ?thesis unfolding logic_command_def s by simp
qed

lemma bit_logic_command:
  "bit (logic_command [a, b, c, d, e, f, g]) n \<longleftrightarrow> n < 7 \<and> [a, b, c, d, e, f, g] ! n"
  unfolding logic_command_horner bit_horner_sum_bit_iff by (simp add: eval_nat_numeral)

lemma logic_command_bounds: "0 \<le> logic_command [a, b, c, d, e, f, g] \<and> logic_command [a, b, c, d, e, f, g] < 128"
  unfolding logic_command_horner by simp

section \<open>One scan\<close>

definition run_latched :: "drive_state \<Rightarrow> bool" where
  "run_latched s \<longleftrightarrow> ds_run_forward s \<or> ds_run_reverse s"

abbreviation sourced :: "core_input \<Rightarrow> drive_state \<Rightarrow> drive_state" where
  "sourced k s \<equiv> snd (apply_source_commands k s)"

lemma sourced_elapsed: "ds_start_elapsed_ms (sourced k s) = ds_start_elapsed_ms s"
  by (simp add: apply_source_commands_def apply_override_def Let_def split: command_source.split option.split)

lemma sourced_interlocks: "run_latched (sourced k s) \<Longrightarrow> interlocks_ok k"
  by (auto simp: run_latched_def apply_source_commands_def apply_override_def Let_def
      split: command_source.splits option.splits if_splits)

lemma scan_state:
  "snd (drive_scan rnd k s) =
     (sourced k s)\<lparr>ds_start_elapsed_ms :=
        (if run_latched (sourced k s) then min (ki_start_delay_ms k) (ds_start_elapsed_ms s + ki_elapsed_ms k) else 0)\<rparr>"
  by (simp add: drive_scan_def update_start_timer_def case_prod_beta Let_def run_latched_def sourced_elapsed)

lemma scan_runs:
  "ko_run_forward (fst (drive_scan rnd k s)) = ds_run_forward (sourced k s)"
  "ko_run_reverse (fst (drive_scan rnd k s)) = ds_run_reverse (sourced k s)"
  "run_latched (snd (drive_scan rnd k s)) = run_latched (sourced k s)"
  by (simp_all add: drive_scan_def update_start_timer_def case_prod_beta Let_def run_latched_def)

lemma scan_bits:
  defines "j k \<equiv> jog_commands k (permissives_ok k)"
  shows "ko_logic_command (fst (drive_scan rnd k s)) = logic_command
     [ki_drive_active k \<and> ki_ethernet_logic_control k \<and>
        \<not> (ki_keypad_control_status k \<or> run_latched (sourced k s) \<or> fst (j k) \<or> snd (j k)),
      ki_drive_ready k \<and> run_latched (sourced k s) \<and>
        ki_start_delay_ms k \<le> ds_start_elapsed_ms (snd (drive_scan rnd k s)),
      ki_drive_ready k \<and> \<not> run_latched (sourced k s) \<and> (fst (j k) \<or> snd (j k)),
      list_ex dc_reset [ki_program k, ki_operator k, ki_maintenance k, ki_external k],
      ds_run_forward (sourced k s) \<or> fst (j k), ds_run_reverse (sourced k s) \<or> snd (j k),
      ki_keypad_control_command k]"
  unfolding scan_state
  by (auto simp: drive_scan_def update_start_timer_def case_prod_beta Let_def run_latched_def j_def sourced_elapsed
      intro!: arg_cong [where f = logic_command])

lemma command_bits_start:
  "bit (ko_logic_command (fst (drive_scan rnd k s))) 1 \<longleftrightarrow>
     ki_drive_ready k \<and> run_latched (snd (drive_scan rnd k s)) \<and>
     ki_start_delay_ms k \<le> ds_start_elapsed_ms (snd (drive_scan rnd k s))"
  unfolding scan_bits bit_logic_command by (auto simp: scan_runs(3))

section \<open>Runs\<close>

fun drive_run :: "(rat \<Rightarrow> rat) \<Rightarrow> core_input list \<Rightarrow> drive_state \<Rightarrow> core_output list \<times> drive_state" where
  "drive_run rnd [] s = ([], s)"
| "drive_run rnd (k # ks) s =
     (let (r, s1) = drive_scan rnd k s; (rs, s2) = drive_run rnd ks s1 in (r # rs, s2))"

lemma drive_run_snoc:
  "drive_run rnd (ks @ [k]) s =
     (let (rs, s1) = drive_run rnd ks s; (r, s2) = drive_scan rnd k s1 in (rs @ [r], s2))"
  by (induction ks arbitrary: s) (simp_all add: case_prod_beta Let_def)

lemma drive_run_length: "length (fst (drive_run rnd ks s)) = length ks"
  by (induction ks arbitrary: s) (simp_all add: case_prod_beta Let_def)

text \<open>The time since the run request that still stands was made.\<close>

definition request_time :: "core_input list \<Rightarrow> core_output list \<Rightarrow> int" where
  "request_time ks rs =
     sum_list (map (ki_elapsed_ms \<circ> fst) (takeWhile (\<lambda>(k, r). ko_run_forward r \<or> ko_run_reverse r) (rev (zip ks rs))))"

lemma request_time_snoc:
  "length ks = length rs \<Longrightarrow> request_time (ks @ [k]) (rs @ [r]) =
     (if ko_run_forward r \<or> ko_run_reverse r then ki_elapsed_ms k + request_time ks rs else 0)"
  by (simp add: request_time_def)

lemma request_time_nonneg:
  "list_all (\<lambda>k. 0 \<le> ki_elapsed_ms k) ks \<Longrightarrow> 0 \<le> request_time ks rs"
  unfolding request_time_def
  by (intro sum_list_nonneg) (auto simp: list_all_iff dest!: set_takeWhileD in_set_zipE set_zip_leftD)

lemma run_elapsed:
  assumes "list_all (\<lambda>k. ki_start_delay_ms k = d \<and> input_error k = None) ks" "0 \<le> d"
  shows "ds_start_elapsed_ms (snd (drive_run rnd ks init_drive)) =
     min d (request_time ks (fst (drive_run rnd ks init_drive)))"
  using assms(1)
proof (induction ks rule: rev_induct)
  case Nil
  then show ?case using assms(2) by (simp add: init_drive_def request_time_def)
next
  case (snoc k ks)
  obtain rs s where rs: "drive_run rnd ks init_drive = (rs, s)" by force
  obtain r s2 where r: "drive_scan rnd k s = (r, s2)" by force
  have len: "length ks = length rs" using drive_run_length [of rnd ks init_drive] rs by simp
  have k: "ki_start_delay_ms k = d" "0 \<le> ki_elapsed_ms k"
    using snoc.prems by (auto simp: input_error_def split: if_splits)
  have s: "ds_start_elapsed_ms s = min d (request_time ks rs)" using snoc rs by simp
  have "(ko_run_forward r \<or> ko_run_reverse r) = run_latched (sourced k s)"
    using scan_runs [of rnd k s] r by (simp add: run_latched_def)
  moreover have "ds_start_elapsed_ms s2 =
      (if run_latched (sourced k s) then min d (ds_start_elapsed_ms s + ki_elapsed_ms k) else 0)"
    using scan_state [of rnd k s] r k(1) by simp
  moreover have "min d (min d (request_time ks rs) + ki_elapsed_ms k) = min d (ki_elapsed_ms k + request_time ks rs)"
    using k(2) by linarith
  ultimately show ?case
    using s assms(2) by (simp add: drive_run_snoc rs r request_time_snoc [OF len])
qed

text \<open>A scan of the small example: the operator asks for forward on a ready drive.\<close>

definition forward_input :: core_input where
  "forward_input = default_input\<lparr>ki_source := PS_OPERATOR, ki_drive_ready := True,
     ki_operator := default_commands\<lparr>dc_run_forward := True, dc_speed_hz := 30\<rparr>,
     ki_maximum_speed_hz := 60, ki_start_delay_ms := 250, ki_elapsed_ms := 100\<rparr>"

definition exact :: "rat \<Rightarrow> rat" where
  "exact x = x"

section \<open>The properties of the drive logic\<close>

text \<open>
  Losing the interlocks stops the drive: in a scan whose interlock condition fails, neither
  direction is latched in the state or reported, the start bit is not set and the start timer
  is cleared, whatever source commands the drive and whatever was latched before.
\<close>

theorem interlock_loss_stops:
  assumes "\<not> interlocks_ok k"
  shows "\<not> run_latched (snd (drive_scan rnd k s)) \<and>
     \<not> ko_run_forward (fst (drive_scan rnd k s)) \<and> \<not> ko_run_reverse (fst (drive_scan rnd k s)) \<and>
     \<not> bit (ko_logic_command (fst (drive_scan rnd k s))) 1 \<and>
     ds_start_elapsed_ms (snd (drive_scan rnd k s)) = 0"
proof -
  have "\<not> run_latched (sourced k s)" using sourced_interlocks assms by blast
  then show ?thesis
    by (simp add: scan_runs scan_bits bit_logic_command) (simp add: scan_state run_latched_def)
qed

theorem interlock_loss_stops_witness:
  "\<not> bit (ko_logic_command (fst (drive_scan exact (forward_input\<lparr>ki_interlock_ok := False\<rparr>)
      \<lparr>ds_run_forward = True, ds_run_reverse = False, ds_start_elapsed_ms = 250, ds_override_command = 0\<rparr>))) 1"
proof -
  have "\<not> interlocks_ok (forward_input\<lparr>ki_interlock_ok := False\<rparr>)"
    by (simp add: interlocks_ok_def forward_input_def default_input_def)
  from interlock_loss_stops [OF this, of exact] show ?thesis by blast
qed

text \<open>
  The command word is well formed: it lies in 0 to 127; its stop, start and jog bits
  exclude each other; the start bit is set exactly when the drive is ready, a run is latched
  and the start delay has elapsed; the stop bit exactly when the active drive is under network
  logic control, not under keypad control, with neither a run nor a jog commanded.
\<close>

theorem command_word_wellformed:
  "let (r, t) = drive_scan rnd k s; w = ko_logic_command r
   in 0 \<le> w \<and> w < 128 \<and> \<not> (bit w 0 \<and> bit w 1) \<and> \<not> (bit w 0 \<and> bit w 2) \<and> \<not> (bit w 1 \<and> bit w 2) \<and>
      (bit w 1 \<longleftrightarrow> ki_drive_ready k \<and> run_latched t \<and> ki_start_delay_ms k \<le> ds_start_elapsed_ms t) \<and>
      (bit w 0 \<longleftrightarrow> ki_drive_active k \<and> ki_ethernet_logic_control k \<and> \<not> ki_keypad_control_status k \<and>
         \<not> run_latched t \<and> \<not> ko_jog_forward r \<and> \<not> ko_jog_reverse r)"
proof -
  obtain r t where rt: "drive_scan rnd k s = (r, t)" by force
  have jog: "ko_jog_forward r = fst (jog_commands k (permissives_ok k))"
    "ko_jog_reverse r = snd (jog_commands k (permissives_ok k))"
    using rt by (auto simp: drive_scan_def case_prod_beta Let_def)
  have t: "run_latched t = run_latched (sourced k s)" using scan_runs(3) [of rnd k s] rt by simp
  note w = scan_bits [where rnd = rnd and k = k and s = s, unfolded rt fst_conv snd_conv]
  have "0 \<le> ko_logic_command r \<and> ko_logic_command r < 128" unfolding w by (rule logic_command_bounds)
  moreover have "bit (ko_logic_command r) n \<longleftrightarrow> bit (ko_logic_command (fst (drive_scan rnd k s))) n" for n
    by (simp add: rt)
  ultimately show ?thesis
    unfolding rt Let_def prod.case by (auto simp: w bit_logic_command t jog)
qed

text \<open>
  C29. The start delay is the time of the standing run request: over any sequence of valid
  inputs with the same delay, from the initial state, the timer holds the time elapsed since
  the request that still stands began, capped at the delay; so the start bit of a last scan is
  set exactly when the drive is ready, a run is latched and that time has reached the delay.
\<close>

theorem start_delay_is_request_time:
  assumes "list_all (\<lambda>k. ki_start_delay_ms k = d \<and> input_error k = None) (ks @ [k])" "0 \<le> d"
    and "drive_run rnd (ks @ [k]) init_drive = (rs, s)"
  shows "ds_start_elapsed_ms s = min d (request_time (ks @ [k]) rs) \<and>
     (bit (ko_logic_command (last rs)) 1 \<longleftrightarrow>
        ki_drive_ready k \<and> run_latched s \<and> d \<le> request_time (ks @ [k]) rs)"
proof -
  obtain rs1 s1 where r1: "drive_run rnd ks init_drive = (rs1, s1)" by force
  obtain r s2 where r: "drive_scan rnd k s1 = (r, s2)" by force
  have eq: "rs = rs1 @ [r]" "s = s2" using assms(3) by (simp_all add: drive_run_snoc r1 r)
  have d: "ki_start_delay_ms k = d" using assms(1) by simp
  have e: "ds_start_elapsed_ms s = min d (request_time (ks @ [k]) rs)"
    using run_elapsed [OF assms(1,2), of rnd] assms(3) by simp
  have "bit (ko_logic_command r) 1 \<longleftrightarrow> ki_drive_ready k \<and> run_latched s2 \<and> d \<le> ds_start_elapsed_ms s2"
    using command_bits_start [of rnd k s1] r d by simp
  with e eq show ?thesis by auto
qed

theorem start_delay_is_request_time_witness:
  "bit (ko_logic_command (last (fst (drive_run exact [forward_input, forward_input, forward_input] init_drive)))) 1 \<and>
   \<not> bit (ko_logic_command (last (fst (drive_run exact [forward_input, forward_input] init_drive)))) 1"
proof -
  let ?k = forward_input
  have scan: "drive_scan exact ?k s = (r, t) \<Longrightarrow> ds_run_forward t \<and> ko_run_forward r" for s r t
    using scan_runs [of exact ?k s] scan_state [of exact ?k s]
    by (auto simp: forward_input_def default_input_def default_commands_def apply_source_commands_def
        selected_commands_def permissives_ok_def interlocks_ok_def Let_def)
  obtain r1 s1 where 1: "drive_scan exact ?k init_drive = (r1, s1)" by force
  obtain r2 s2 where 2: "drive_scan exact ?k s1 = (r2, s2)" by force
  obtain r3 s3 where 3: "drive_scan exact ?k s2 = (r3, s3)" by force
  note runs = scan [OF 1] scan [OF 2] scan [OF 3]
  have k: "ki_start_delay_ms ?k = 250" "ki_elapsed_ms ?k = 100" "input_error ?k = None" "ki_drive_ready ?k"
    by (simp_all add: forward_input_def default_input_def input_error_def)
  have "bit (ko_logic_command r3) 1"
    using start_delay_is_request_time [of 250 "[?k, ?k]" ?k exact "[r1, r2, r3]" s3] runs k
    by (simp add: 1 2 3 request_time_def run_latched_def)
  moreover have "\<not> bit (ko_logic_command r2) 1"
    using start_delay_is_request_time [of 250 "[?k]" ?k exact "[r1, r2]" s2] runs k
    by (simp add: 1 2 request_time_def run_latched_def)
  ultimately show ?thesis by (simp add: 1 2 3)
qed

text \<open>
  The speed command stays in range: for any monotone rounding that keeps zero and a
  maximum speed that is not negative, it lies between zero and the command of the maximum
  speed and grows with the speed asked for.
\<close>

theorem speed_command_bounded:
  assumes "mono rnd" "rnd 0 = 0" "0 \<le> maximum"
  shows "0 \<le> speed_command rnd speed maximum \<and>
     speed_command rnd speed maximum \<le> speed_command rnd maximum maximum \<and>
     speed_command rnd (min speed other) maximum \<le> speed_command rnd (max speed other) maximum"
proof -
  have pos: "0 \<le> rnd (min (max x 0) maximum * 100)" for x
    using monoD [OF assms(1), of 0 "min (max x 0) maximum * 100"] assms(2,3) by simp
  then have floor: "speed_command rnd x maximum = \<lfloor>rnd (min (max x 0) maximum * 100)\<rfloor>" for x
    using pos [of x] by (simp add: speed_command_def truncate_rat_def not_less [symmetric])
  have grows: "speed_command rnd x maximum \<le> speed_command rnd y maximum"
    if "min (max x 0) maximum \<le> min (max y 0) maximum" for x y
    unfolding floor using that by (intro floor_mono monoD [OF assms(1)]) simp
  have "0 \<le> speed_command rnd speed maximum" unfolding floor using pos [of speed] by simp
  moreover have "speed_command rnd speed maximum \<le> speed_command rnd maximum maximum"
    using assms(3) by (intro grows) simp
  moreover have "speed_command rnd (min speed other) maximum \<le> speed_command rnd (max speed other) maximum"
    by (intro grows) (simp add: min_def max_def)
  ultimately show ?thesis by blast
qed

text \<open>Rounding down to a multiple of 1/1024.\<close>

definition coarse :: "rat \<Rightarrow> rat" where
  "coarse x = of_int \<lfloor>x * 1024\<rfloor> / 1024"

theorem speed_command_bounded_witness:
  "0 \<le> speed_command coarse 75 60 \<and> speed_command coarse 75 60 \<le> 6000"
proof -
  have "mono coarse" by (rule monoI) (simp add: coarse_def divide_right_mono floor_mono)
  moreover have "coarse 0 = 0" by (simp add: coarse_def)
  ultimately have "0 \<le> speed_command coarse 75 60 \<and> speed_command coarse 75 60 \<le> speed_command coarse 60 60"
    using speed_command_bounded [of coarse 60 75 75] by simp
  moreover have "speed_command coarse 60 60 = 6000"
    by (simp add: speed_command_def truncate_rat_def coarse_def)
  ultimately show ?thesis by simp
qed

text \<open>
  When both directions are latched: from a state without both, a scan latches forward and
  reverse together exactly when, with the interlocks in order and no stop, either the program
  commands both with the permissives, or a manual source asks for the one direction alone,
  available and permitted, while the other is still latched; an override never does.
\<close>

theorem both_directions_iff:
  assumes "\<not> (ds_run_forward s \<and> ds_run_reverse s)"
  shows "ds_run_forward (snd (drive_scan rnd k s)) \<and> ds_run_reverse (snd (drive_scan rnd k s)) \<longleftrightarrow>
     interlocks_ok k \<and> permissives_ok k \<and>
     (case ki_source k of
        PS_PROGRAM \<Rightarrow> dc_run_forward (ki_program k) \<and> dc_run_reverse (ki_program k) \<and> \<not> dc_stop (ki_program k)
      | PS_OVERRIDE \<Rightarrow> False
      | _ \<Rightarrow> (case selected_commands k of None \<Rightarrow> False
            | Some c \<Rightarrow> \<not> dc_stop c \<and>
                (ds_run_forward s \<and> dc_run_reverse c \<and> \<not> dc_run_forward c \<and> ki_run_reverse_available k \<or>
                 ds_run_reverse s \<and> dc_run_forward c \<and> \<not> dc_run_reverse c \<and> ki_run_forward_available k)))"
  using assms unfolding scan_state
  by (cases "ki_source k")
    (auto simp: apply_source_commands_def apply_override_def selected_commands_def Let_def)

theorem both_directions_iff_witness:
  "ds_run_forward (snd (drive_scan exact
      (forward_input\<lparr>ki_operator := default_commands\<lparr>dc_run_reverse := True\<rparr>\<rparr>)
      \<lparr>ds_run_forward = True, ds_run_reverse = False, ds_start_elapsed_ms = 250, ds_override_command = 0\<rparr>)) \<and>
   ds_run_reverse (snd (drive_scan exact
      (forward_input\<lparr>ki_operator := default_commands\<lparr>dc_run_reverse := True\<rparr>\<rparr>)
      \<lparr>ds_run_forward = True, ds_run_reverse = False, ds_start_elapsed_ms = 250, ds_override_command = 0\<rparr>))"
  by (subst both_directions_iff)
    (simp_all add: forward_input_def default_input_def default_commands_def selected_commands_def
      permissives_ok_def interlocks_ok_def)

end
