(* ===== verification/Spec2Isabelle.thy ===== *)
theory Spec2Isabelle
  imports Project_Lowering Lowering_Facts Emission_Readback Emission_Needs Codesys_Export_Facts
    Basic_Ladder_Network Basic_Instruction_List_Facts Core_Promotion Symbol_Inventory Drift Sys_Module Cyclic_IO_Facts PowerFlex_Facts
begin

text \<open>
  TwinForge translates captured controller logic into vendor-neutral form and emits it again for
  another controller. This library models the parts of \<open>src/src/twinforge\<close> that decide
  whether the translation is right: the pipeline for Structured Text, the ladder networks read from
  Machine Expert - Basic projects, the CODESYS export, the decisions on discovered equipment, and the runtime parts that exchange cyclic
  data with a device. Paths below are relative to that directory.

  \<^bold>\<open>The pipeline.\<close> A routine's text is lexed and parsed into a tree that keeps
  every character (\<open>structured_text/lexer.py\<close>, \<open>parser.py\<close>,
  \<open>syntax.py\<close>), analysed against the declarations in scope (\<open>semantics.py\<close>), lowered into
  executable intermediate code (\<open>ir/lowering.py\<close>, \<open>ir/model.py\<close>), normalised and given
  the execution semantics of Add-On Instructions (\<open>ir/normalization.py\<close>,
  \<open>ir/execution.py\<close>), and emitted as IEC text (\<open>exporters/iec_st.py\<close>), for CODESYS
  after an adaptation of the clock reads (\<open>exporters/codesys_st.py\<close>). Each stage
  hands the next a value and a list of diagnostics; nothing is dropped silently, which is the
  theme of most properties.

    \<^item> \<open>Prelude\<close>, \<open>Py_Text\<close>: option-valued computations and their
      total correctness (\<open>total\<close>), Python slices and dictionaries, and \<open>str\<close>.
    \<^item> \<open>ST_Syntax\<close>, \<open>ST_Lexer\<close>, \<open>Token_Stream\<close>: the lexer as a
      function of the record \<open>lex_state\<close> (the attributes of \<open>_Lexer\<close>), and its contract
      with the parser: the tokens tile the source.
    \<^item> \<open>ST_Parser\<close>: every method of \<open>_Parser\<close> over \<open>parse_state\<close>. The
      methods are mutually recursive; each body takes the record \<open>methods\<close> of what
      it calls, and \<open>parser n\<close> ties the knot at depth \<open>n\<close>, with \<open>None\<close> at depth
      0. \<open>parser_depth\<close> gives sixteen levels per token and sixteen more. That this is
      enough for every source is \<open>parse_total_lossless\<close>: between two tokens the
      longest chain of calls without progress (statement list, statement, the levels of
      precedence, primary) is shorter than sixteen. Python's own recursion limit is not modelled.
      \<open>Parser_Contract\<close>, \<open>Parser_Methods\<close> (the locale \<open>parser_methods\<close>) and
      \<open>Parser_Total\<close> hold the contracts and the induction on the depth.
    \<^item> \<open>ST_Semantics\<close>, \<open>Semantics_Facts\<close>: \<open>_SemanticAnalyzer\<close> over
      \<open>sem_state\<close> and \<open>sem_context\<close>; every unresolved reference, invalid access, type or
      argument has its own diagnostic, and the compatibility obeys the laws of a policy.
    \<^item> \<open>IR_Model\<close>, \<open>IR_Lowering\<close>, \<open>Lowering_Facts\<close>: the lowering over
      \<open>lowering_env\<close> (the four dictionaries of \<open>_StructuredTextLowerer\<close>); an
      \<open>IndexError\<close> is \<open>None\<close>. Unsupported nodes keep their text and are diagnosed one by one.
    \<^item> \<open>IR_Passes\<close>: normalisation and execution semantics of a unit.
    \<^item> \<open>IEC_Emitter\<close>, \<open>Emitter_Facts\<close>, \<open>Emission_Needs\<close>,
      \<open>Emission_Readback\<close>: the emission, its completeness, the exact list of runtime
      requirements (locale \<open>uniform_dialect\<close>), and the emitted comments read back by the lexer.
    \<^item> \<open>Codesys_Adapter\<close>, \<open>IR_Semantics\<close>, \<open>Codesys_Facts\<close>: the
      adaptation, a big-step semantics \<open>run_stmts\<close> of the executable code, and the proof
      that adapted code runs like the captured code while the clock can be read.
    \<^item> \<open>Codesys_Export\<close>, \<open>Codesys_Export_Facts\<close>: the PLCopen document of
      \<open>exporters/codesys_plcopen_ir.py\<close> and its helpers \<open>codesys_ir_*.py\<close> as a tree of
      elements, with every error they raise; identity of the objects, and when an export is
      complete. Serialising the tree is left to the XML library.

  \<^bold>\<open>The project around it.\<close>
    \<^item> \<open>Project_Model\<close>: controllers, programs, routines and captured instructions
      (\<open>model/\<close>) with their container operations over the locale \<open>named_container\<close>.
    \<^item> \<open>Logix_Rules\<close>, \<open>Project_Analysis\<close>, \<open>Project_Facts\<close>,
      \<open>Project_Lowering\<close>: the coverage and semantic reports of a whole controller
      (\<open>analysis/structured_text.py\<close>, \<open>structured_text_semantics.py\<close>), the declarations they
      build for each owner, and what a fully resolved controller guarantees of its lowering.
    \<^item> \<open>Span_Keys\<close>: expressions of one document have different spans, which the analyser's
      dictionaries rely on.

  \<^bold>\<open>Ladder networks.\<close> A rung of a Machine Expert - Basic project is a grid of cells or a
  list of instructions; both are turned into one series-parallel network
  (\<open>parsers/machine_expert_basic\<close>).
    \<^item> \<open>Ladder_Model\<close>, \<open>Ladder_Paths\<close>: \<open>model/ladder.py\<close>,
      \<open>model/expression.py\<close> and the grid rules; the paths of a network, when it conducts, and
      walks over a graph of labelled steps.
    \<^item> \<open>Basic_Expression\<close>, \<open>Basic_Expression_Facts\<close>: the parser of the
      expression boxes. Its methods take fuel; \<open>parser_fuel\<close>, four per token and four more, is
      enough for every token list, since a call that does not consume a token is at most three
      levels from one that does.
    \<^item> \<open>Grid_Nodes\<close>, \<open>Basic_Ladder\<close>, \<open>Basic_Ladder_Facts\<close>,
      \<open>Basic_Ladder_Network\<close>: the union-find of the grid's nodes with its path halving, the
      edges, the pruning and the reduction. The loops that could run forever are partial
      functions, and the proofs show that they return. The reference is the drawing: vertical
      links as an equivalence, the segments of the cells, and the paths of power along both.
    \<^item> \<open>Basic_Instruction_List\<close>, \<open>Basic_Instruction_List_Facts\<close>: the replay of an
      Instruction List over numbered elements (the code compares them by identity), its factoring,
      and the boolean replay it refines.

  \<^bold>\<open>Discovered equipment.\<close> What a network reports becomes part of a project only through
  explicit decisions (\<open>discovery\<close>).
    \<^item> \<open>Discovery_Acceptance\<close>: the reviews of the candidates of one capture
      (\<open>acceptance.py\<close>); each candidate is accepted once, rejected, deferred or still open.
    \<^item> \<open>Identity_Lifecycle\<close>, \<open>Identity_Lifecycle_Facts\<close>: the ledger of durable
      identities (\<open>identity_lifecycle.py\<close>), one step per capture, with the inductive predicate
      \<open>reachable_ledger\<close>, the books every reachable ledger keeps, and the errors an acceptance
      cannot cause.
    \<^item> \<open>Core_Promotion\<close>: the promotion of active identities into assets
      (\<open>core_promotion.py\<close>).
    \<^item> \<open>Cip_Routes\<close> over \<open>Number_Text\<close>: targets, routes, permits and the local-only
      policy (\<open>cip_routes.py\<close>, \<open>cip_target_policy.py\<close>, parts of \<open>contracts.py\<close> and
      \<open>cip_pycomm3_routed.py\<close>); when the key of a route identifies it.
    \<^item> \<open>Software_Inventory\<close>, \<open>Software_Inventory_Facts\<close>: the plans and the executor of
      the structural inventory (\<open>software_inventory_plan.py\<close>, \<open>software_inventory_capture.py\<close>)
      over any transport, which passes its own state along. The loop ends with the request budget, so
      it is total. The reference is the relation \<open>paged\<close>, the chain of pages a transport serves.
    \<^item> \<open>Utf8\<close>, \<open>Symbol_Codec\<close>: one page of Logix symbols
      (\<open>logix_symbol_codec.py\<close>), on bytes and code points, with the exact set of accepted payloads.
    \<^item> \<open>Symbol_Transport\<close>, \<open>Symbol_Inventory\<close>: the page state machine of
      \<open>logix_symbol_pycomm3.py\<close> over any driver, and executor, transport and codec together against a
      controller that serves a table of symbols.
    \<^item> \<open>Drift\<close>: the comparison of two captures (\<open>drift.py\<close>).

  \<^bold>\<open>The runtime.\<close>
    \<^item> \<open>Sys_Module\<close>: \<open>runtime/sys_module_core.py\<close> and
      \<open>sys_module_runtime.py\<close>, over any adapter; the cycle also as an inductive step relation.
    \<^item> \<open>Byte_Codec\<close>, \<open>Cyclic_IO\<close>, \<open>Cyclic_IO_Facts\<close>: packed images
      of \<open>runtime/cyclic_io.py\<close> and the layout of \<open>analysis/cyclic_io.py\<close>. Python's
      \<open>int.from_bytes\<close> and \<open>int.to_bytes\<close> are the locale \<open>byte_codec\<close>, interpreted on
      their definitions. Values are unbounded integers, as in Python; the widths are
      those of the layout, and a value that does not fit is an error of the result.
    \<^item> \<open>PowerFlex_Core\<close>, \<open>PowerFlex_Facts\<close>: one scan of
      \<open>runtime/powerflex525_core.py\<close> and runs of scans.

  \<^bold>\<open>Parameters.\<close> The rounding of the floating-point product with \<open>100.0\<close> in
  the PowerFlex speed is the argument \<open>rnd\<close> of the scan; the meaning of expressions and
  simple statements in \<open>run_stmts\<close> is given by two arguments; the adapter of the runtime is a
  record of two functions. Text is \<open>string\<close>, with the character
  classes and case mappings of ASCII; a character beyond it has no class and no case. Only the names of
  controller symbols are code points. The driver of pycomm3, a function of its state and a request, is an argument of the
  symbol transport.

  \<^bold>\<open>Not modelled.\<close> The readers and writers of vendor file formats
  (the rest of \<open>parsers\<close>, \<open>schema\<close>, \<open>converters\<close> and \<open>exporters\<close>), which
  are traversals of XML and other external formats on top of their libraries; the parts of the
  project model no modelled component reads; the rest of device discovery, which exchanges bytes
  with hardware and reconciles what it reports, and transport; knowledge tables; the command line. The manifest lists each with its reason.
\<close>

end
